(* ===== verification/Prelude.thy ===== *)
theory Prelude
  imports "HOL-Library.Word" "HOL-Library.AList" "HOL-Library.Sublist"
begin

text \<open>
  What the component theories share.  A Rust \<open>str\<close> or byte string is a
  \<^typ>\<open>string\<close>: a HOL character is one byte, so a list of characters is the
  UTF-8 byte sequence and \<open>length\<close> is Rust's \<open>len()\<close>.  The library functions
  of \<open>str\<close> that the sources call (\<open>starts_with\<close>, \<open>find\<close>, \<open>split_once\<close>,
  \<open>trim\<close>, \<open>to_ascii_lowercase\<close>, \<open>parse::<u16>\<close> and so on) are
  the executable functions below.  A \<open>HashMap\<close> is an association list with
  distinct keys: its order is the map's unspecified iteration order, and every
  theorem about it quantifies over all such lists.  A \<open>Duration\<close> is a natural
  number of nanoseconds, a \<open>SystemTime\<close> or an \<open>Instant\<close> an integer number of
  nanoseconds whose second part has 64 signed bits.
\<close>

named_theorems str_defs \<open>the definitions of the byte-string functions\<close>
named_theorems time_defs \<open>the definitions of the clock arithmetic\<close>

subsection \<open>Characters and bytes\<close>

type_synonym duration = nat
type_synonym system_time = int
type_synonym instant = int

abbreviation byte :: "char \<Rightarrow> nat" where
  "byte c \<equiv> of_char c"

definition ascii_lower :: "char \<Rightarrow> char" where
  "ascii_lower c = (if 65 \<le> byte c \<and> byte c \<le> 90 then char_of (byte c + 32) else c)"

definition to_ascii_lowercase :: "string \<Rightarrow> string" where
  "to_ascii_lowercase s = map ascii_lower s"

definition eq_ignore_ascii_case :: "string \<Rightarrow> string \<Rightarrow> bool" where
  "eq_ignore_ascii_case a b \<longleftrightarrow> to_ascii_lowercase a = to_ascii_lowercase b"

lemma byte_less_256 [simp]: "byte c < 256"
  by (metis nat_of_char_less_256)

lemma byte_eq_iff: "byte c = byte d \<longleftrightarrow> c = d"
  by simp

lemma byte_char_of [simp]: "n < 256 \<Longrightarrow> byte (char_of n) = n"
  by simp

lemma byte_ascii_lower:
  "byte (ascii_lower c) = (if 65 \<le> byte c \<and> byte c \<le> 90 then byte c + 32 else byte c)"
  by (simp add: ascii_lower_def)

lemma ascii_lower_idem [simp]: "ascii_lower (ascii_lower c) = ascii_lower c"
  by (auto simp: ascii_lower_def)

lemma to_ascii_lowercase_idem [simp]:
  "to_ascii_lowercase (to_ascii_lowercase s) = to_ascii_lowercase s"
  by (simp add: to_ascii_lowercase_def)

lemma length_to_ascii_lowercase [simp]: "length (to_ascii_lowercase s) = length s"
  by (simp add: to_ascii_lowercase_def)

lemma to_ascii_lowercase_append [simp]:
  "to_ascii_lowercase (s @ t) = to_ascii_lowercase s @ to_ascii_lowercase t"
  by (simp add: to_ascii_lowercase_def)

lemma to_ascii_lowercase_Nil [simp]: "to_ascii_lowercase [] = []"
  by (simp add: to_ascii_lowercase_def)

lemma to_ascii_lowercase_eq_Nil [simp]: "to_ascii_lowercase s = [] \<longleftrightarrow> s = []"
  by (simp add: to_ascii_lowercase_def)

lemma eq_ignore_ascii_case_refl [simp]: "eq_ignore_ascii_case s s"
  by (simp add: eq_ignore_ascii_case_def)

lemma eq_ignore_ascii_case_sym: "eq_ignore_ascii_case s t \<Longrightarrow> eq_ignore_ascii_case t s"
  by (simp add: eq_ignore_ascii_case_def)

lemma eq_ignore_ascii_case_trans [trans]:
  "eq_ignore_ascii_case s t \<Longrightarrow> eq_ignore_ascii_case t u \<Longrightarrow> eq_ignore_ascii_case s u"
  by (simp add: eq_ignore_ascii_case_def)

lemma eq_ignore_ascii_case_length: "eq_ignore_ascii_case s t \<Longrightarrow> length s = length t"
  unfolding eq_ignore_ascii_case_def by (metis length_to_ascii_lowercase)

subsection \<open>Searching and splitting byte strings\<close>

definition starts_with :: "string \<Rightarrow> string \<Rightarrow> bool" where
  [str_defs]: "starts_with s p \<longleftrightarrow> take (length p) s = p"

definition ends_with :: "string \<Rightarrow> string \<Rightarrow> bool" where
  [str_defs]: "ends_with s p \<longleftrightarrow> length p \<le> length s \<and> drop (length s - length p) s = p"

fun find_char :: "char \<Rightarrow> string \<Rightarrow> nat option" where
  "find_char c [] = None"
| "find_char c (x # xs) = (if x = c then Some 0 else map_option Suc (find_char c xs))"

definition rfind_char :: "char \<Rightarrow> string \<Rightarrow> nat option" where
  "rfind_char c s = map_option (\<lambda>i. length s - Suc i) (find_char c (rev s))"

text \<open>\<open>split_once\<close> and \<open>rsplit_once\<close> on one character.\<close>

definition split_once :: "char \<Rightarrow> string \<Rightarrow> (string \<times> string) option" where
  "split_once c s = map_option (\<lambda>i. (take i s, drop (Suc i) s)) (find_char c s)"

definition rsplit_once :: "char \<Rightarrow> string \<Rightarrow> (string \<times> string) option" where
  "rsplit_once c s = map_option (\<lambda>i. (take i s, drop (Suc i) s)) (rfind_char c s)"

text \<open>\<open>str::split\<close> on one character: always at least one piece.\<close>

fun split_char :: "char \<Rightarrow> string \<Rightarrow> string list" where
  "split_char c [] = [[]]"
| "split_char c (x # xs) =
     (if x = c then [] # split_char c xs
      else (case split_char c xs of [] \<Rightarrow> [[x]] | w # ws \<Rightarrow> (x # w) # ws))"

text \<open>\<open>str::trim\<close> on ASCII white space and \<open>trim_start_matches\<close> on one character.\<close>

definition is_ascii_white :: "char \<Rightarrow> bool" where
  "is_ascii_white c \<longleftrightarrow> (9 \<le> byte c \<and> byte c \<le> 13) \<or> byte c = 32"

definition trim_start :: "string \<Rightarrow> string" where
  "trim_start s = dropWhile is_ascii_white s"

definition trim :: "string \<Rightarrow> string" where
  "trim s = rev (dropWhile is_ascii_white (rev (trim_start s)))"

definition trim_start_matches :: "char \<Rightarrow> string \<Rightarrow> string" where
  "trim_start_matches c s = dropWhile (\<lambda>x. x = c) s"

definition trim_end_matches :: "char \<Rightarrow> string \<Rightarrow> string" where
  "trim_end_matches c s = rev (dropWhile (\<lambda>x. x = c) (rev s))"

fun contains_str :: "string \<Rightarrow> string \<Rightarrow> bool" where
  "contains_str [] p \<longleftrightarrow> p = []"
| "contains_str (x # xs) p \<longleftrightarrow> starts_with (x # xs) p \<or> contains_str xs p"

definition count_char :: "char \<Rightarrow> string \<Rightarrow> nat" where
  "count_char c s = length (filter (\<lambda>x. x = c) s)"

definition strip_prefix :: "string \<Rightarrow> string \<Rightarrow> string option" where
  "strip_prefix s p = (if starts_with s p then Some (drop (length p) s) else None)"

definition strip_suffix :: "string \<Rightarrow> string \<Rightarrow> string option" where
  "strip_suffix s p = (if ends_with s p then Some (take (length s - length p) s) else None)"

lemma starts_with_iff_prefix: "starts_with s p \<longleftrightarrow> prefix p s"
  unfolding starts_with_def by (metis append_take_drop_id prefix_def append_eq_conv_conj)

lemma starts_with_append [simp]: "starts_with (p @ s) p"
  by (simp add: starts_with_def)

lemma starts_with_Nil [simp]: "starts_with s []"
  by (simp add: starts_with_def)

lemma starts_with_Cons [simp]:
  "starts_with (x # xs) (y # ys) \<longleftrightarrow> x = y \<and> starts_with xs ys"
  "\<not> starts_with [] (y # ys)"
  by (auto simp: starts_with_def)

lemma starts_withE:
  assumes "starts_with s p" obtains t where "s = p @ t"
  using assms unfolding starts_with_def by (metis append_take_drop_id)

lemma ends_with_iff_suffix: "ends_with s p \<longleftrightarrow> suffix p s"
proof
  assume "ends_with s p"
  then have "s = take (length s - length p) s @ p"
    unfolding ends_with_def by (metis append_take_drop_id)
  then show "suffix p s" unfolding suffix_def by blast
next
  assume "suffix p s"
  then show "ends_with s p" by (auto simp: suffix_def ends_with_def)
qed

lemma ends_with_append [simp]: "ends_with (s @ p) p"
  by (simp add: ends_with_def)

lemma ends_with_snoc [simp]: "ends_with s [c] \<longleftrightarrow> s \<noteq> [] \<and> last s = c"
  unfolding ends_with_iff_suffix
  by (metis append_butlast_last_id last_snoc not_Cons_self2 snoc_eq_iff_butlast suffix_def suffix_bot.extremum_uniqueI)

lemma find_char_None [simp]: "find_char c s = None \<longleftrightarrow> c \<notin> set s"
  by (induction s) auto

lemma find_char_SomeD:
  "find_char c s = Some i \<Longrightarrow> i < length s \<and> s ! i = c \<and> c \<notin> set (take i s)"
proof (induction s arbitrary: i)
  case (Cons x xs)
  then show ?case by (cases i) (auto split: if_splits)
qed simp

lemma find_char_append:
  "c \<notin> set s \<Longrightarrow> find_char c (s @ c # t) = Some (length s)"
  by (induction s) auto

lemma split_once_append:
  "c \<notin> set s \<Longrightarrow> split_once c (s @ c # t) = Some (s, t)"
  by (simp add: split_once_def find_char_append)

lemma split_once_None [simp]: "split_once c s = None \<longleftrightarrow> c \<notin> set s"
  by (simp add: split_once_def)

lemma split_once_SomeD:
  assumes "split_once c s = Some (a, b)"
  shows "s = a @ c # b \<and> c \<notin> set a"
proof -
  from assms obtain i where i: "find_char c s = Some i" "a = take i s" "b = drop (Suc i) s"
    by (auto simp: split_once_def)
  with find_char_SomeD [OF i(1)] show ?thesis
    by (metis id_take_nth_drop)
qed

lemma rfind_char_None [simp]: "rfind_char c s = None \<longleftrightarrow> c \<notin> set s"
  by (simp add: rfind_char_def)

lemma rfind_char_append:
  "c \<notin> set t \<Longrightarrow> rfind_char c (s @ c # t) = Some (length s)"
  using find_char_append [of c "rev t" "rev s"] by (simp add: rfind_char_def)

lemma rfind_char_Some:
  "rfind_char c s = Some i \<longleftrightarrow> i < length s \<and> s ! i = c \<and> c \<notin> set (drop (Suc i) s)"
proof
  assume "rfind_char c s = Some i"
  then obtain j where j: "find_char c (rev s) = Some j" "i = length s - Suc j"
    by (auto simp: rfind_char_def)
  from find_char_SomeD [OF j(1)] have "j < length s" "rev s ! j = c" "c \<notin> set (take j (rev s))"
    by auto
  moreover from this have "Suc i = length s - j" using j(2) by simp
  ultimately show "i < length s \<and> s ! i = c \<and> c \<notin> set (drop (Suc i) s)"
    using j(2) by (auto simp: rev_nth take_rev)
next
  assume i: "i < length s \<and> s ! i = c \<and> c \<notin> set (drop (Suc i) s)"
  then have "s = take i s @ c # drop (Suc i) s" by (metis id_take_nth_drop)
  with i rfind_char_append [of c "drop (Suc i) s" "take i s"]
  show "rfind_char c s = Some i" by simp
qed

lemma split_char_ne [simp]: "split_char c s \<noteq> []"
  by (induction s) (auto split: list.splits)

lemma split_char_no_sep: "w \<in> set (split_char c s) \<Longrightarrow> c \<notin> set w"
  by (induction s arbitrary: w) (auto split: list.splits if_splits)

lemma split_char_single: "c \<notin> set s \<Longrightarrow> split_char c s = [s]"
  by (induction s) auto

lemma split_char_append:
  "c \<notin> set s \<Longrightarrow> split_char c (s @ c # t) = s # split_char c t"
  by (induction s) auto

lemma length_trim_le: "length (trim s) \<le> length s"
  unfolding trim_def trim_start_def
  by (metis le_trans length_dropWhile_le length_rev)

subsection \<open>Decimal numbers\<close>

definition is_digit :: "char \<Rightarrow> bool" where
  "is_digit c \<longleftrightarrow> 48 \<le> byte c \<and> byte c \<le> 57"

fun digits_to_nat :: "nat \<Rightarrow> string \<Rightarrow> nat" where
  "digits_to_nat acc [] = acc"
| "digits_to_nat acc (c # cs) = digits_to_nat (10 * acc + (byte c - 48)) cs"

text \<open>
  \<open>FromStr\<close> of the unsigned integers: an optional plus sign, at least one digit,
  digits only, and an error when the number exceeds the type's maximum.
\<close>

definition parse_unsigned :: "nat \<Rightarrow> string \<Rightarrow> nat option" where
  "parse_unsigned maxv s =
     (let d = (if starts_with s ''+'' then tl s else s)
      in if d = [] \<or> \<not> list_all is_digit d then None
         else if digits_to_nat 0 d \<le> maxv then Some (digits_to_nat 0 d) else None)"

definition parse_u8 :: "string \<Rightarrow> nat option" where "parse_u8 = parse_unsigned 255"
definition parse_u16 :: "string \<Rightarrow> nat option" where "parse_u16 = parse_unsigned 65535"
definition parse_u64 :: "string \<Rightarrow> nat option" where
  "parse_u64 = parse_unsigned 18446744073709551615"

lemma parse_unsigned_le: "parse_unsigned m s = Some n \<Longrightarrow> n \<le> m"
  by (auto simp: parse_unsigned_def Let_def split: if_splits)

text \<open>\<open>Display\<close> of an unsigned integer.\<close>

fun show_nat :: "nat \<Rightarrow> string" where
  "show_nat n = (if n < 10 then [char_of (48 + n)] else show_nat (n div 10) @ [char_of (48 + n mod 10)])"

declare show_nat.simps [simp del]

lemma digits_to_nat_append:
  "digits_to_nat a (s @ t) = digits_to_nat (digits_to_nat a s) t"
  by (induction s arbitrary: a) auto

lemma show_nat_digits: "list_all is_digit (show_nat n) \<and> show_nat n \<noteq> []"
proof (induction n rule: show_nat.induct)
  case (1 n)
  have d: "is_digit (char_of (48 + n mod 10 :: nat))"
    by (simp add: is_digit_def)
  then have "n < 10 \<Longrightarrow> is_digit (char_of (48 + n))" by simp
  with 1 d show ?case
    by (subst (1 2) show_nat.simps) auto
qed

lemma digits_show_nat: "digits_to_nat 0 (show_nat n) = n"
proof (induction n rule: show_nat.induct)
  case (1 n)
  then show ?case
    by (subst show_nat.simps) (auto simp: digits_to_nat_append)
qed

lemma parse_show_nat: "n \<le> m \<Longrightarrow> parse_unsigned m (show_nat n) = Some n"
proof -
  assume n: "n \<le> m"
  obtain c cs where c: "show_nat n = c # cs" "is_digit c"
    using show_nat_digits [of n] by (cases "show_nat n") auto
  then have "\<not> starts_with (show_nat n) ''+''"
    by (auto simp: starts_with_def is_digit_def)
  then show ?thesis
    using n show_nat_digits [of n] by (simp add: parse_unsigned_def digits_show_nat)
qed

lemma show_nat_no_char: "\<not> is_digit c \<Longrightarrow> c \<notin> set (show_nat n)"
  using show_nat_digits [of n] by (auto simp: list_all_iff)

subsection \<open>Time\<close>

definition nanos_per_sec :: nat where [time_defs]: "nanos_per_sec = 1000000000"

definition from_secs_d :: "nat \<Rightarrow> duration" where
  [time_defs]: "from_secs_d s = s * nanos_per_sec"

definition from_millis_d :: "nat \<Rightarrow> duration" where
  [time_defs]: "from_millis_d s = s * 1000000"

definition duration_max :: duration where
  [time_defs]: "duration_max = 18446744073709551615 * nanos_per_sec + 999999999"

text \<open>\<open>SystemTime::checked_add\<close> and \<open>Instant::checked_add\<close>: the seconds are an \<open>i64\<close>.\<close>

definition time_limit :: int where
  [time_defs]: "time_limit = 9223372036854775808 * int nanos_per_sec"

definition checked_add_time :: "system_time \<Rightarrow> duration \<Rightarrow> system_time option" where
  "checked_add_time t d = (if t + int d < time_limit then Some (t + int d) else None)"

lemma checked_add_time_Some [simp]:
  "checked_add_time t d = Some u \<longleftrightarrow> u = t + int d \<and> t + int d < time_limit"
  by (auto simp: checked_add_time_def)

subsection \<open>Options and iterators\<close>

text \<open>\<open>Iterator::min\<close>.\<close>

definition min_list_option :: "'a::linorder list \<Rightarrow> 'a option" where
  "min_list_option xs = (if xs = [] then None else Some (Min (set xs)))"

definition is_some_and :: "'a option \<Rightarrow> ('a \<Rightarrow> bool) \<Rightarrow> bool" where
  "is_some_and x P = (case x of None \<Rightarrow> False | Some v \<Rightarrow> P v)"

definition is_none_or :: "'a option \<Rightarrow> ('a \<Rightarrow> bool) \<Rightarrow> bool" where
  "is_none_or x P = (case x of None \<Rightarrow> True | Some v \<Rightarrow> P v)"

lemma is_some_and_simps [simp]:
  "is_some_and None P = False" "is_some_and (Some v) P = P v"
  by (simp_all add: is_some_and_def)

lemma is_none_or_simps [simp]:
  "is_none_or None P = True" "is_none_or (Some v) P = P v"
  by (simp_all add: is_none_or_def)

lemma min_list_option_cong: "set xs = set ys \<Longrightarrow> min_list_option xs = min_list_option ys"
  unfolding min_list_option_def by (metis set_empty)

lemma min_list_option_None [simp]: "min_list_option xs = None \<longleftrightarrow> xs = []"
  by (simp add: min_list_option_def)

lemma min_list_option_Some:
  "min_list_option xs = Some m \<longleftrightarrow> m \<in> set xs \<and> (\<forall>x\<in>set xs. m \<le> x)"
proof -
  have "Min (set xs) = m \<longleftrightarrow> m \<in> set xs \<and> (\<forall>x\<in>set xs. m \<le> x)" if "xs \<noteq> []"
    using that by (simp add: Min_eq_iff)
  then show ?thesis by (cases "xs = []") (auto simp: min_list_option_def)
qed

text \<open>\<open>earliest t E\<close>: the cached minimum \<open>t\<close> is right for the set \<open>E\<close>.\<close>

definition earliest :: "'a::linorder option \<Rightarrow> 'a set \<Rightarrow> bool" where
  "earliest t E = (case t of None \<Rightarrow> E = {} | Some m \<Rightarrow> m \<in> E \<and> (\<forall>e\<in>E. m \<le> e))"

lemma earliest_simps [simp]:
  "earliest None E \<longleftrightarrow> E = {}"
  "earliest (Some m) E \<longleftrightarrow> m \<in> E \<and> (\<forall>e\<in>E. m \<le> e)"
  by (simp_all add: earliest_def)

lemma earliest_min_list_option: "earliest (min_list_option xs) (set xs)"
  using min_list_option_Some [of xs]
  by (cases "xs = []"; cases "min_list_option xs") (auto simp: min_list_option_def)

lemma earliest_insert_new:
  assumes "earliest n (set_option old \<union> D)"
  shows "n = None \<Longrightarrow> earliest (Some e) (insert e D)"
    and "n = Some cur \<Longrightarrow> e < cur \<Longrightarrow> earliest (Some e) (insert e D)"
    and "n = Some cur \<Longrightarrow> \<not> e < cur \<Longrightarrow> old = Some cur \<longrightarrow> \<not> cur < e \<Longrightarrow> earliest n (insert e D)"
    and "n = None \<Longrightarrow> earliest n D"
    and "old \<noteq> n \<Longrightarrow> earliest n D"
  using assms by (cases n; cases old; force)+

subsection \<open>Hash maps as association lists\<close>

type_synonym ('k, 'v) hash_map = "('k \<times> 'v) list"

abbreviation distinct_keys :: "('k, 'v) hash_map \<Rightarrow> bool" where
  "distinct_keys m \<equiv> distinct (map fst m)"

lemma set_alist_update:
  "distinct_keys m \<Longrightarrow> set (AList.update k v m) = insert (k, v) {p \<in> set m. fst p \<noteq> k}"
  by (induction m) (auto simp: image_iff)

lemma set_alist_delete: "set (AList.delete k m) = {p \<in> set m. fst p \<noteq> k}"
  by (auto simp: AList.delete_eq)

text \<open>The images of a map's values: what deleting a key takes away is the image of that key's value.\<close>

lemma alist_values_delete:
  assumes "distinct_keys m"
  shows "set_option (Option.bind (map_of m k) f) \<union> {e. \<exists>p\<in>set (AList.delete k m). f (snd p) = Some e}
    = {e. \<exists>p\<in>set m. f (snd p) = Some e}"
proof (rule set_eqI)
  fix e
  have "e \<in> set_option (Option.bind (map_of m k) f) \<longleftrightarrow> (\<exists>p\<in>set m. fst p = k \<and> f (snd p) = Some e)"
    (is "?L \<longleftrightarrow> ?R")
  proof
    assume ?L then show ?R by (cases "map_of m k") (auto dest!: map_of_SomeD intro: bexI [of _ "(k, v)" for v])
  next
    assume ?R
    then obtain v where "(k, v) \<in> set m" "f v = Some e" by force
    then have "map_of m k = Some v" using assms by (intro map_of_is_SomeI)
    with \<open>f v = Some e\<close> show ?L by simp
  qed
  then show "e \<in> set_option (Option.bind (map_of m k) f) \<union> {e. \<exists>p\<in>set (AList.delete k m). f (snd p) = Some e}
    \<longleftrightarrow> e \<in> {e. \<exists>p\<in>set m. f (snd p) = Some e}"
    unfolding set_alist_delete by blast
qed

lemma map_of_filter_values:
  "distinct_keys m \<Longrightarrow>
   map_of (filter (\<lambda>p. P (snd p)) m) k = (case map_of m k of None \<Rightarrow> None | Some v \<Rightarrow> if P v then Some v else None)"
proof (induction m)
  case (Cons p m)
  then show ?case
    by (cases p) (auto split: option.splits if_splits simp: map_of_eq_None_iff image_iff dest: map_of_SomeD)
qed simp

lemma distinct_keys_filter: "distinct_keys m \<Longrightarrow> distinct_keys (filter P m)"
  by (rule distinct_map_filter)

end
