(* ===== verification/Errors.thy ===== *)
theory Errors
  imports Prelude
begin

text \<open>
  The engine's error values (\<open>error.rs\<close>, with the small enumerations of
  \<open>timeout.rs\<close>, \<open>transport/dialer.rs\<close> and \<open>transport/lifecycle.rs\<close> they carry),
  the failure context of a request, and the classifier that walks a chain of
  wrapped causes.  A wrapped cause is a finite tree: each node carries its
  address, what a \<open>downcast_ref\<close> finds there, its \<open>source()\<close> and, for an
  \<open>io::Error\<close>, the custom payload \<open>get_ref()\<close> returns.  What hyper, hyper-util
  and rustls report about their own errors (\<open>is_canceled\<close>, \<open>is_connect\<close>, ...)
  is data of the node.
\<close>

datatype timeout_phase =
  PhasePool | PhaseConnect | PhaseProxyConnect | PhaseProxyTls | PhaseWrite | PhaseRead | PhaseTotal

datatype transport_io_direction = DirRead | DirWrite

datatype dial_error_kind =
  DialConnection | DialTimeout | DialAuthentication | DialRejected | DialOther

datatype transport_failure_kind = TfConnect | TfTls | TfProtocol | TfCancelled

datatype network_failure_kind = NfDns | NfConnectionRefused | NfConnect

datatype io_error_kind =
  IoConnectionRefused | IoUnexpectedEof | IoInvalidData | IoInvalidInput | IoOtherKind string

record hyper_facts =
  hf_canceled :: bool
  hf_parse :: bool
  hf_incomplete_message :: bool

datatype (plugins only: code) error =
    InvalidUrl string
  | InvalidMethod string
  | InvalidHeaderName string
  | InvalidHeaderValue string
  | RequestBuild string
  | InvalidResolvedTarget string
  | ResolvedTargetRedirect
  | JsonSerialize string
  | JsonDeserialize string
  | Connect string
  | CustomTransport dial_error_kind std_error
  | Tls string
  | Protocol string
  | Body string
  | Hyper std_error
  | HyperClient std_error
  | Io std_error
  | Unsupported string
  | Pool string
  | InvalidRedirectLocation string
  | InvalidAuthHeader string
  | ConflictingAuth string
  | BodyNotReplayableForRedirect
  | TooManyRedirects nat nat
  | Decompression string
  | UnsupportedContentEncoding string
  | Timeout timeout_phase duration
  | TransportIoTimeout transport_io_direction duration
  | InvalidProxyUrl string
  | ProxyConnect string
  | ProxyAuthRequired
  | ProxyConnectRejected nat string
  | MalformedProxyResponse string
  | DecodedBodyTooLarge
  | DecompressionRatioExceeded
  | TlsConfig string
  | CaBundle string
  | ClientCert string
  | PrivateKey string
  | CertificateVerification string
  | HostnameVerification string
  | BodyNotReplayableForRetry
  | RetryBudgetExhausted nat
  | RetryNotConfigured
  | Http2GoAway nat string
  | Http2StreamReset string
  | Http2FlowControl string
  | Http2Protocol string
  | H3Connect string
  | H3ConnectionClosed string
  | H3Stream string
  | H3Protocol string
  | TraceCallbackAborted
and std_error = StdError nat node_type "std_error option" "std_error option"
and node_type =
    NodeError error
  | NodeHyper hyper_facts
  | NodeRustls
  | NodeLegacy bool
  | NodeIo io_error_kind
  | NodeOther

text \<open>
  \<open>CustomTransport k n\<close>: \<open>k\<close> is the dial error's kind.  \<open>NodeLegacy c\<close> is a
  hyper-util client error whose \<open>is_connect()\<close> is \<open>c\<close>; it is the type of the node
  that \<open>HyperClient\<close> wraps.
\<close>

type_synonym 'a result = "error + 'a"

abbreviation Err :: "error \<Rightarrow> 'a result" where "Err \<equiv> Inl"
abbreviation Ok :: "'a \<Rightarrow> 'a result" where "Ok \<equiv> Inr"

definition bind_result :: "'a result \<Rightarrow> ('a \<Rightarrow> 'b result) \<Rightarrow> 'b result" where
  "bind_result r f = (case r of Inl e \<Rightarrow> Inl e | Inr a \<Rightarrow> f a)"

definition ok_or :: "'a option \<Rightarrow> error \<Rightarrow> 'a result" where
  "ok_or x e = (case x of None \<Rightarrow> Inl e | Some v \<Rightarrow> Inr v)"

lemma bind_result_simps [simp]:
  "bind_result (Inl e) f = Inl e" "bind_result (Inr a) f = f a"
  by (simp_all add: bind_result_def)

lemma bind_result_Inr:
  "bind_result r f = Inr b \<longleftrightarrow> (\<exists>a. r = Inr a \<and> f a = Inr b)"
  by (cases r) auto

lemma bind_result_Inl:
  "bind_result r f = Inl e \<longleftrightarrow> r = Inl e \<or> (\<exists>a. r = Inr a \<and> f a = Inl e)"
  by (cases r) auto

lemma ok_or_simps [simp]: "ok_or None e = Inl e" "ok_or (Some v) e = Inr v"
  by (simp_all add: ok_or_def)

subsection \<open>The failure facts of a request\<close>

record request_failure =
  rf_error :: error
  rf_network_failure :: "network_failure_kind option"

definition rf_is_timeout :: "request_failure \<Rightarrow> bool" where
  "rf_is_timeout f = (case rf_error f of Timeout _ _ \<Rightarrow> True | TransportIoTimeout _ _ \<Rightarrow> True | _ \<Rightarrow> False)"

definition rf_timeout_phase :: "request_failure \<Rightarrow> timeout_phase option" where
  "rf_timeout_phase f = (case rf_error f of Timeout p _ \<Rightarrow> Some p | _ \<Rightarrow> None)"

type_synonym request_failure_context = "8 word"

fun network_failure_kind_as_u8 :: "network_failure_kind \<Rightarrow> 8 word" where
  "network_failure_kind_as_u8 NfDns = 0"
| "network_failure_kind_as_u8 NfConnectionRefused = 1"
| "network_failure_kind_as_u8 NfConnect = 2"

definition rfc_new :: request_failure_context where "rfc_new = 0"

definition rfc_clear :: "request_failure_context \<Rightarrow> request_failure_context" where
  "rfc_clear c = 0"

definition rfc_record :: "network_failure_kind \<Rightarrow> request_failure_context \<Rightarrow> request_failure_context" where
  "rfc_record k c = network_failure_kind_as_u8 k + 1"

definition rfc_network_failure_kind :: "request_failure_context \<Rightarrow> network_failure_kind option" where
  "rfc_network_failure_kind c =
     (if c = 1 then Some NfDns else if c = 2 then Some NfConnectionRefused
      else if c = 3 then Some NfConnect else None)"

definition rf_from_error :: "error \<Rightarrow> request_failure" where
  "rf_from_error e = \<lparr>rf_error = e, rf_network_failure = None\<rparr>"

definition rf_from_context :: "error \<Rightarrow> request_failure_context \<Rightarrow> request_failure" where
  "rf_from_context e c = \<lparr>rf_error = e, rf_network_failure = rfc_network_failure_kind c\<rparr>"

lemma rfc_kind_record: "rfc_network_failure_kind (rfc_record k c) = Some k"
  by (cases k) (simp_all add: rfc_network_failure_kind_def rfc_record_def)

lemma rfc_kind_clear: "rfc_network_failure_kind (rfc_clear c) = None"
  by (simp add: rfc_network_failure_kind_def rfc_clear_def)

subsection \<open>Classifying transport failures\<close>

definition transport_failure_walk_bound :: nat where "transport_failure_walk_bound = 32"

fun classify_explicit :: "error \<Rightarrow> transport_failure_kind option" where
  "classify_explicit (Tls _) = Some TfTls"
| "classify_explicit (TlsConfig _) = Some TfTls"
| "classify_explicit (CaBundle _) = Some TfTls"
| "classify_explicit (ClientCert _) = Some TfTls"
| "classify_explicit (PrivateKey _) = Some TfTls"
| "classify_explicit (CertificateVerification _) = Some TfTls"
| "classify_explicit (HostnameVerification _) = Some TfTls"
| "classify_explicit (Protocol _) = Some TfProtocol"
| "classify_explicit (Http2Protocol _) = Some TfProtocol"
| "classify_explicit (Http2FlowControl _) = Some TfProtocol"
| "classify_explicit (H3Protocol _) = Some TfProtocol"
| "classify_explicit (Connect _) = Some TfConnect"
| "classify_explicit (H3Connect _) = Some TfConnect"
| "classify_explicit (CustomTransport k _) = (if k = DialConnection then Some TfConnect else None)"
| "classify_explicit _ = None"

record transport_evidence =
  ev_tls :: bool
  ev_cancelled :: bool
  ev_protocol :: bool
  ev_connect :: bool

definition evidence_default :: transport_evidence where
  "evidence_default = \<lparr>ev_tls = False, ev_cancelled = False, ev_protocol = False, ev_connect = False\<rparr>"

fun evidence_inspect :: "transport_evidence \<Rightarrow> node_type \<Rightarrow> bool \<Rightarrow> transport_evidence" where
  "evidence_inspect ev (NodeError e) bb =
     (case classify_explicit e of
        Some TfTls \<Rightarrow> ev\<lparr>ev_tls := True\<rparr>
      | Some TfProtocol \<Rightarrow> ev\<lparr>ev_protocol := True\<rparr>
      | Some TfConnect \<Rightarrow> ev\<lparr>ev_connect := True\<rparr>
      | Some TfCancelled \<Rightarrow> ev\<lparr>ev_cancelled := True\<rparr>
      | None \<Rightarrow> ev)"
| "evidence_inspect ev (NodeHyper h) bb =
     (let ev1 = (if hf_canceled h then ev\<lparr>ev_cancelled := True\<rparr> else ev)
      in if hf_parse h \<or> hf_incomplete_message h then ev1\<lparr>ev_protocol := True\<rparr> else ev1)"
| "evidence_inspect ev NodeRustls bb = ev\<lparr>ev_tls := True\<rparr>"
| "evidence_inspect ev (NodeLegacy connect) bb = (if connect then ev\<lparr>ev_connect := True\<rparr> else ev)"
| "evidence_inspect ev (NodeIo k) bb =
     (if k = IoConnectionRefused then ev\<lparr>ev_connect := True\<rparr>
      else if bb \<and> k \<in> {IoUnexpectedEof, IoInvalidData, IoInvalidInput} then ev\<lparr>ev_protocol := True\<rparr>
      else ev)"
| "evidence_inspect ev NodeOther bb = ev"

definition evidence_category :: "transport_evidence \<Rightarrow> transport_failure_kind option" where
  "evidence_category ev =
     (if ev_tls ev then Some TfTls else if ev_cancelled ev then Some TfCancelled
      else if ev_protocol ev then Some TfProtocol else if ev_connect ev then Some TfConnect else None)"

fun se_ptr :: "std_error \<Rightarrow> nat" where "se_ptr (StdError p t s g) = p"
fun se_type :: "std_error \<Rightarrow> node_type" where "se_type (StdError p t s g) = t"
fun se_source :: "std_error \<Rightarrow> std_error option" where "se_source (StdError p t s g) = s"
fun se_payload :: "std_error \<Rightarrow> std_error option" where
  "se_payload (StdError p t s g) = (case t of NodeIo _ \<Rightarrow> g | _ \<Rightarrow> None)"

definition legacy_is_connect :: "std_error \<Rightarrow> bool" where
  "legacy_is_connect n = (case se_type n of NodeLegacy c \<Rightarrow> c | _ \<Rightarrow> False)"

text \<open>\<open>source()\<close> of the engine's own error: the fields marked as a source or converted from.\<close>

fun error_source :: "error \<Rightarrow> std_error option" where
  "error_source (CustomTransport k n) = Some n"
| "error_source (Hyper n) = Some n"
| "error_source (HyperClient n) = Some n"
| "error_source (Io n) = Some n"
| "error_source _ = None"

text \<open>
  The worklist after the top node: \<open>visits\<close> counts every popped node, a node met
  before is skipped, and the walk stops at the bound.  The list's head is the
  top of the stack: the payload is pushed last and popped first.
\<close>

function classify_walk ::
  "bool \<Rightarrow> std_error list \<Rightarrow> nat list \<Rightarrow> nat \<Rightarrow> transport_evidence \<Rightarrow> transport_evidence" where
  "classify_walk bb stack visited visits ev =
     (case stack of
        [] \<Rightarrow> ev
      | node # rest \<Rightarrow>
          if visits \<ge> transport_failure_walk_bound then ev
          else if se_ptr node \<in> set visited then classify_walk bb rest visited (visits + 1) ev
          else
            let ev' = evidence_inspect ev (se_type node) bb;
                st1 = (case se_source node of None \<Rightarrow> rest | Some s \<Rightarrow> s # rest);
                st2 = (case se_payload node of None \<Rightarrow> st1 | Some p \<Rightarrow> p # st1)
            in classify_walk bb st2 (se_ptr node # visited) (visits + 1) ev')"
  by pat_completeness auto
termination
  by (relation "measure (\<lambda>(bb, stack, visited, visits, ev). transport_failure_walk_bound - visits)") auto

declare classify_walk.simps [simp del]

text \<open>The address of the top error is fresh: it is the pointer of no node below it.\<close>

definition classify_transport_failure :: "nat \<Rightarrow> error \<Rightarrow> transport_failure_kind option" where
  "classify_transport_failure ptr e =
     (case e of
        CustomTransport _ _ \<Rightarrow> classify_explicit e
      | _ \<Rightarrow>
        (case classify_explicit e of
           Some k \<Rightarrow> Some k
         | None \<Rightarrow>
             let bb = (case e of Hyper _ \<Rightarrow> True | _ \<Rightarrow> False);
                 stack = (case error_source e of None \<Rightarrow> [] | Some s \<Rightarrow> [s])
             in evidence_category (classify_walk bb stack [ptr] 1 evidence_default)))"

text \<open>The cancellation walk starts at the legacy error's own source.\<close>

fun canceled_walk :: "nat \<Rightarrow> std_error option \<Rightarrow> bool" where
  "canceled_walk 0 _ = False"
| "canceled_walk (Suc n) None = False"
| "canceled_walk (Suc n) (Some node) =
     ((case se_type node of NodeHyper h \<Rightarrow> hf_canceled h | _ \<Rightarrow> False)
      \<or> canceled_walk n (se_source node))"

definition hyper_legacy_is_canceled :: "std_error \<Rightarrow> bool" where
  "hyper_legacy_is_canceled inner = canceled_walk transport_failure_walk_bound (se_source inner)"

definition physical_admission_timeout :: string where
  "physical_admission_timeout = ''physical connection admission timeout''"

definition is_physical_connection_admission_timeout :: "error \<Rightarrow> bool" where
  "is_physical_connection_admission_timeout e =
     (case e of Pool m \<Rightarrow> m = physical_admission_timeout | _ \<Rightarrow> False)"

lemma classify_walk_Nil [simp]: "classify_walk bb [] visited visits ev = ev"
  by (simp add: classify_walk.simps)

lemma classify_without_source:
  assumes "classify_explicit e = None" "error_source e = None"
  shows "classify_transport_failure ptr e = None"
  using assms
  by (cases e) (simp_all add: classify_transport_failure_def evidence_category_def evidence_default_def)

text \<open>
  Evidence only accumulates, so a TLS fact found anywhere in the walk decides
  the category, whatever else is found.
\<close>

lemma evidence_inspect_tls_mono: "ev_tls ev \<Longrightarrow> ev_tls (evidence_inspect ev t bb)"
  by (cases t)
     (auto simp: Let_def split: option.splits transport_failure_kind.splits)

lemma classify_walk_tls_mono: "ev_tls ev \<Longrightarrow> ev_tls (classify_walk bb stack visited visits ev)"
proof (induction bb stack visited visits ev rule: classify_walk.induct)
  case (1 bb stack visited visits ev)
  show ?case
  proof (cases stack)
    case Nil
    with 1(3) show ?thesis by simp
  next
    case (Cons node rest)
    then show ?thesis
      using 1 evidence_inspect_tls_mono [OF 1(3)]
      by (subst classify_walk.simps) (auto simp: Let_def)
  qed
qed

end
