(* ===== verification/Net.thy ===== *)
theory Net
  imports Errors
begin

text \<open>
  Network addresses.  \<open>IpAddr\<close> and \<open>SocketAddr\<close> of the standard library with
  \<open>str::parse::<IpAddr>\<close>, which the cookie jar, the no-proxy rules, the proxy
  configuration and the CONNECT target all call: an IPv4 address is four decimal
  octets of at most three digits with no superfluous zero, an IPv6 address at
  most eight groups of at most four hexadecimal digits with one optional
  \<open>::\<close> and an optional embedded IPv4 tail, and the whole text must be consumed.
\<close>

datatype ip_addr = V4 "32 word" | V6 "128 word"

type_synonym socket_addr = "ip_addr \<times> nat"

definition sock_port :: "socket_addr \<Rightarrow> nat" where "sock_port a = snd a"

definition hex_digit :: "char \<Rightarrow> nat option" where
  "hex_digit c =
     (if 48 \<le> byte c \<and> byte c \<le> 57 then Some (byte c - 48)
      else if 97 \<le> byte c \<and> byte c \<le> 102 then Some (byte c - 87)
      else if 65 \<le> byte c \<and> byte c \<le> 70 then Some (byte c - 55) else None)"

definition to_digit :: "nat \<Rightarrow> char \<Rightarrow> nat option" where
  "to_digit radix c = (case hex_digit c of None \<Rightarrow> None | Some d \<Rightarrow> if d < radix then Some d else None)"

type_synonym 'a ip_parser = "string \<Rightarrow> ('a \<times> string) option"

text \<open>The digits a number reader consumes, at most one more than the limit.\<close>

fun read_digits :: "nat \<Rightarrow> nat \<Rightarrow> nat \<Rightarrow> nat \<Rightarrow> string \<Rightarrow> (nat \<times> nat \<times> string) option" where
  "read_digits radix maxd acc n [] = Some (acc, n, [])"
| "read_digits radix maxd acc n (c # cs) =
     (case to_digit radix c of
        None \<Rightarrow> Some (acc, n, c # cs)
      | Some d \<Rightarrow> if n + 1 > maxd then None else read_digits radix maxd (acc * radix + d) (n + 1) cs)"

definition read_number :: "nat \<Rightarrow> nat \<Rightarrow> bool \<Rightarrow> nat \<Rightarrow> nat ip_parser" where
  "read_number radix maxd allow_zero_prefix maxv s =
     (case read_digits radix maxd 0 0 s of
        None \<Rightarrow> None
      | Some (v, n, rest) \<Rightarrow>
          if v > maxv \<or> n = 0 then None
          else if \<not> allow_zero_prefix \<and> starts_with s ''0'' \<and> n > 1 then None
          else Some (v, rest))"

definition read_given_char :: "char \<Rightarrow> string \<Rightarrow> string option" where
  "read_given_char c s = (case s of [] \<Rightarrow> None | x # xs \<Rightarrow> if x = c then Some xs else None)"

definition read_separator :: "char \<Rightarrow> nat \<Rightarrow> 'a ip_parser \<Rightarrow> 'a ip_parser" where
  "read_separator sep i inner s =
     (if i > 0 then (case read_given_char sep s of None \<Rightarrow> None | Some t \<Rightarrow> inner t) else inner s)"

fun read_octets :: "nat \<Rightarrow> nat \<Rightarrow> nat list ip_parser" where
  "read_octets 0 i s = Some ([], s)"
| "read_octets (Suc k) i s =
     (case read_separator CHR ''.'' i (read_number 10 3 False 255) s of
        None \<Rightarrow> None
      | Some (o1, t) \<Rightarrow> (case read_octets k (Suc i) t of None \<Rightarrow> None | Some (os, u) \<Rightarrow> Some (o1 # os, u)))"

definition read_ipv4_addr :: "nat list ip_parser" where "read_ipv4_addr s = read_octets 4 0 s"

text \<open>\<open>read_groups\<close>: \<open>k\<close> slots are left, \<open>i\<close> groups have been read; the flag says an IPv4 tail ended it.\<close>

fun read_groups :: "nat \<Rightarrow> nat \<Rightarrow> string \<Rightarrow> nat list \<times> bool \<times> string" where
  "read_groups 0 i s = ([], False, s)"
| "read_groups (Suc k) i s =
     (case (if k > 0 then read_separator CHR '':'' i read_ipv4_addr s else None) of
        Some (os, t) \<Rightarrow> ([os ! 0 * 256 + os ! 1, os ! 2 * 256 + os ! 3], True, t)
      | None \<Rightarrow>
         (case read_separator CHR '':'' i (read_number 16 4 True 65535) s of
            None \<Rightarrow> ([], False, s)
          | Some (g, t) \<Rightarrow> (case read_groups k (Suc i) t of (gs, v4, u) \<Rightarrow> (g # gs, v4, u))))"

definition read_ipv6_addr :: "nat list ip_parser" where
  "read_ipv6_addr s =
     (case read_groups 8 0 s of
        (hd_gs, head_ipv4, t) \<Rightarrow>
          if length hd_gs = 8 then Some (hd_gs, t)
          else if head_ipv4 then None
          else (case read_given_char CHR '':'' t of
                  None \<Rightarrow> None
                | Some t1 \<Rightarrow>
                   (case read_given_char CHR '':'' t1 of
                      None \<Rightarrow> None
                    | Some t2 \<Rightarrow>
                       (case read_groups (8 - (length hd_gs + 1)) 0 t2 of
                          (tl_gs, _, u) \<Rightarrow>
                            Some (hd_gs @ replicate (8 - length hd_gs - length tl_gs) 0 @ tl_gs, u)))))"

definition from_groups :: "nat \<Rightarrow> nat list \<Rightarrow> nat" where
  "from_groups base gs = foldl (\<lambda>a g. a * base + g) 0 gs"

definition parse_ip_addr :: "string \<Rightarrow> ip_addr option" where
  "parse_ip_addr s =
     (case read_ipv4_addr s of
        Some (os, t) \<Rightarrow> if t = [] then Some (V4 (of_nat (from_groups 256 os))) else None
      | None \<Rightarrow>
         (case read_ipv6_addr s of
            Some (gs, t) \<Rightarrow> if t = [] then Some (V6 (of_nat (from_groups 65536 gs))) else None
          | None \<Rightarrow> None))"

text \<open>\<open>Ipv4Addr\<close> and \<open>Ipv6Addr\<close> parse on their own, and the \<open>Display\<close> of an address.\<close>

definition parse_ipv4 :: "string \<Rightarrow> 32 word option" where
  "parse_ipv4 s =
     (case read_ipv4_addr s of
        Some (os, t) \<Rightarrow> if t = [] then Some (of_nat (from_groups 256 os)) else None
      | None \<Rightarrow> None)"

definition parse_ipv6 :: "string \<Rightarrow> 128 word option" where
  "parse_ipv6 s =
     (case read_ipv6_addr s of
        Some (gs, t) \<Rightarrow> if t = [] then Some (of_nat (from_groups 65536 gs)) else None
      | None \<Rightarrow> None)"

definition show_ipv4 :: "32 word \<Rightarrow> string" where
  "show_ipv4 w =
     (let n = unat w
      in show_nat (n div 16777216 mod 256) @ ''.'' @ show_nat (n div 65536 mod 256) @ ''.''
         @ show_nat (n div 256 mod 256) @ ''.'' @ show_nat (n mod 256))"

fun show_hex :: "nat \<Rightarrow> string" where
  "show_hex n =
     (let d = n mod 16; c = (if d < 10 then char_of (48 + d) else char_of (87 + d))
      in if n < 16 then [c] else show_hex (n div 16) @ [c])"

declare show_hex.simps [simp del]

definition ipv6_segments :: "128 word \<Rightarrow> nat list" where
  "ipv6_segments w = map (\<lambda>i. unat w div 65536 ^ i mod 65536) [7, 6, 5, 4, 3, 2, 1, 0]"

fun show_segments :: "nat list \<Rightarrow> string" where
  "show_segments [] = []"
| "show_segments [g] = show_hex g"
| "show_segments (g # gs) = show_hex g @ '':'' @ show_segments gs"

text \<open>The first longest run of zero segments, as (start, length).\<close>

fun zero_span :: "nat list \<Rightarrow> nat \<Rightarrow> nat \<times> nat \<Rightarrow> nat \<times> nat \<Rightarrow> nat \<times> nat" where
  "zero_span [] i cur longest = longest"
| "zero_span (g # gs) i (st, len) longest =
     (if g = 0 then
        let cur = (if len = 0 then i else st, len + 1)
        in zero_span gs (i + 1) cur (if snd cur > snd longest then cur else longest)
      else zero_span gs (i + 1) (0, 0) longest)"

definition show_ipv6 :: "128 word \<Rightarrow> string" where
  "show_ipv6 w =
     (let gs = ipv6_segments w
      in if take 6 gs = [0, 0, 0, 0, 0, 65535] then ''::ffff:'' @ show_ipv4 (of_nat (unat w mod 2 ^ 32))
         else case zero_span gs 0 (0, 0) (0, 0) of
                (st, len) \<Rightarrow>
                  if len > 1 then show_segments (take st gs) @ ''::'' @ show_segments (drop (st + len) gs)
                  else show_segments gs)"

definition is_ip_address :: "string \<Rightarrow> bool" where
  "is_ip_address s \<longleftrightarrow> parse_ip_addr s \<noteq> None"

definition is_ipv6_literal :: "string \<Rightarrow> bool" where
  "is_ipv6_literal s = (case parse_ip_addr s of Some (V6 _) \<Rightarrow> True | _ \<Rightarrow> False)"

subsection \<open>The bytes of an address\<close>

text \<open>An address text has only digits, letters a to f, dots and colons.\<close>

definition ip_char :: "char \<Rightarrow> bool" where
  "ip_char c \<longleftrightarrow> hex_digit c \<noteq> None \<or> c = CHR ''.'' \<or> c = CHR '':''"

definition consumes :: "string \<Rightarrow> string \<Rightarrow> bool" where
  "consumes s t \<longleftrightarrow> (\<exists>p. s = p @ t \<and> list_all ip_char p)"

lemma consumes_refl [simp, intro]: "consumes s s"
  by (simp add: consumes_def)

lemma consumes_trans: "consumes s t \<Longrightarrow> consumes t u \<Longrightarrow> consumes s u"
  unfolding consumes_def by (metis append.assoc list_all_append)

lemma consumes_Cons: "ip_char c \<Longrightarrow> consumes cs t \<Longrightarrow> consumes (c # cs) t"
  unfolding consumes_def by (metis append_Cons list.pred_inject(2))

lemma to_digit_ip_char: "to_digit r c = Some d \<Longrightarrow> ip_char c"
  by (auto simp: to_digit_def ip_char_def split: option.splits)

lemma read_digits_consumes: "read_digits r m a n s = Some (v, k, t) \<Longrightarrow> consumes s t"
proof (induction s arbitrary: a n)
  case (Cons c cs)
  then show ?case
    by (auto split: option.splits if_splits intro: consumes_Cons to_digit_ip_char)
qed simp

lemma read_number_consumes: "read_number r m z b s = Some (v, t) \<Longrightarrow> consumes s t"
  by (auto simp: read_number_def split: option.splits if_splits dest: read_digits_consumes)

lemma read_given_char_consumes: "ip_char c \<Longrightarrow> read_given_char c s = Some t \<Longrightarrow> consumes s t"
  by (auto simp: read_given_char_def split: list.splits if_splits intro: consumes_Cons)

lemma read_separator_consumes:
  assumes "read_separator c i p s = Some (v, t)" "ip_char c"
    and "\<And>s v t. p s = Some (v, t) \<Longrightarrow> consumes s t"
  shows "consumes s t"
  using assms
  by (auto simp: read_separator_def split: if_splits option.splits
           intro: consumes_trans dest: read_given_char_consumes [rotated])

lemma ip_char_sep [simp]: "ip_char CHR ''.''" "ip_char CHR '':''"
  by (simp_all add: ip_char_def)

lemma read_octets_consumes: "read_octets k i s = Some (os, t) \<Longrightarrow> consumes s t \<and> length os = k"
proof (induction k arbitrary: i s os)
  case (Suc k)
  from Suc.prems obtain o1 u os' where
    *: "read_separator CHR ''.'' i (read_number 10 3 False 255) s = Some (o1, u)"
       "read_octets k (Suc i) u = Some (os', t)" "os = o1 # os'"
    by (auto split: option.splits)
  from read_separator_consumes [OF *(1)] read_number_consumes have "consumes s u" by simp
  with Suc.IH [OF *(2)] *(3) show ?case by (auto intro: consumes_trans)
qed simp

lemma read_groups_consumes: "read_groups k i s = (gs, b, t) \<Longrightarrow> consumes s t"
proof (induction k arbitrary: i s gs)
  case (Suc k)
  show ?case
  proof (cases "if k > 0 then read_separator CHR '':'' i read_ipv4_addr s else None")
    case (Some p)
    then obtain os where "read_separator CHR '':'' i read_ipv4_addr s = Some (os, t)"
      using Suc.prems by (cases p) (auto split: if_splits)
    then show ?thesis
      using read_octets_consumes
      by (auto simp: read_ipv4_addr_def intro: read_separator_consumes)
  next
    case None
    show ?thesis
    proof (cases "read_separator CHR '':'' i (read_number 16 4 True 65535) s")
      case None
      with Suc.prems \<open>(if k > 0 then _ else None) = None\<close> show ?thesis by simp
    next
      case (Some p)
      then obtain g u where gu: "read_separator CHR '':'' i (read_number 16 4 True 65535) s = Some (g, u)"
        by (cases p) auto
      with Suc.prems \<open>(if k > 0 then _ else None) = None\<close> obtain gs' where
        "read_groups k (Suc i) u = (gs', b, t)"
        by (auto split: prod.splits)
      with Suc.IH read_separator_consumes [OF gu] read_number_consumes show ?thesis
        by (metis consumes_trans ip_char_sep(2))
    qed
  qed
qed simp

lemma read_ipv6_consumes: "read_ipv6_addr s = Some (gs, t) \<Longrightarrow> consumes s t"
  unfolding read_ipv6_addr_def
  by (auto split: prod.splits if_splits option.splits
           dest!: read_groups_consumes read_given_char_consumes [OF ip_char_sep(2)])
     (meson consumes_trans)

lemma is_ip_address_chars: "is_ip_address s \<Longrightarrow> list_all ip_char s"
  by (auto simp: is_ip_address_def parse_ip_addr_def consumes_def read_ipv4_addr_def
           split: option.splits if_splits dest!: read_octets_consumes read_ipv6_consumes)

subsection \<open>Evaluation\<close>

lemma read_ipv4_unfold: "read_ipv4_addr s = read_octets (Suc (Suc (Suc (Suc 0)))) 0 s"
  by (simp add: read_ipv4_addr_def numeral_eq_Suc)

lemmas ipv4_eval = read_ipv4_unfold read_separator_def read_number_def to_digit_def hex_digit_def
  read_given_char_def from_groups_def

lemma not_ip_address: "c \<in> set s \<Longrightarrow> \<not> ip_char c \<Longrightarrow> parse_ip_addr s = None"
  using is_ip_address_chars [of s] unfolding is_ip_address_def list_all_iff by blast

lemma parse_ipv6_consumes: "parse_ipv6 s = Some a \<Longrightarrow> list_all ip_char s"
  by (auto simp: parse_ipv6_def consumes_def split: option.splits if_splits dest!: read_ipv6_consumes)

lemma parse_ipv4_consumes: "parse_ipv4 s = Some a \<Longrightarrow> list_all ip_char s"
  by (auto simp: parse_ipv4_def read_ipv4_addr_def consumes_def split: option.splits if_splits
           dest!: read_octets_consumes)

lemma not_ip_char_None:
  assumes "c \<in> set s" "\<not> ip_char c"
  shows "parse_ipv6 s = None" "parse_ipv4 s = None"
  using assms parse_ipv6_consumes [of s] parse_ipv4_consumes [of s]
  by (cases "parse_ipv6 s"; cases "parse_ipv4 s"; auto simp: list_all_iff)+

end
