(* ===== verification/Url_Origin.thy ===== *)
theory Url_Origin
  imports Net
begin

text \<open>
  URLs and origins (\<open>http_origin.rs\<close>).  The parsers of the \<open>url\<close> and \<open>http\<close>
  crates are not part of the program: a \<open>url::Url\<close> is the record of what its
  accessors return, an \<open>http::Uri\<close> likewise, and the functions that parse or
  join URLs are arguments of the definitions that call them.
\<close>

record url =
  url_scheme :: string
  url_username :: string
  url_password :: "string option"
  url_host_str :: "string option"
  url_port :: "nat option"
  url_port_or_known_default :: "nat option"
  url_path :: string
  url_query :: "string option"
  url_fragment :: "string option"
  url_as_str :: string

record uri =
  uri_scheme_str :: "string option"
  uri_authority :: "string option"
  uri_host :: "string option"
  uri_port_u16 :: "nat option"
  uri_has_port :: bool

datatype http_scheme = Http | Https

fun scheme_as_str :: "http_scheme \<Rightarrow> string" where
  "scheme_as_str Http = ''http''"
| "scheme_as_str Https = ''https''"

fun scheme_default_port :: "http_scheme \<Rightarrow> nat" where
  "scheme_default_port Http = 80"
| "scheme_default_port Https = 443"

definition scheme_is_https :: "http_scheme \<Rightarrow> bool" where
  "scheme_is_https s \<longleftrightarrow> s = Https"

record http_origin =
  ho_scheme :: http_scheme
  ho_host :: string
  ho_port :: nat

definition native_uri_msg :: string where
  "native_uri_msg = ''native request URI must use http or https and include an authority''"

definition uri_scheme :: "string \<Rightarrow> http_scheme result" where
  "uri_scheme scheme_str =
     (if eq_ignore_ascii_case scheme_str ''http'' then Ok Http
      else if eq_ignore_ascii_case scheme_str ''https'' then Ok Https
      else Err (Unsupported native_uri_msg))"

definition canonical_host :: "string \<Rightarrow> string" where
  "canonical_host host =
     (if starts_with host ''['' \<and> ends_with host '']'' \<and> length host \<ge> 2
      then to_ascii_lowercase (take (length host - 2) (drop 1 host))
      else to_ascii_lowercase host)"

definition has_explicit_port :: "string \<Rightarrow> bool result" where
  "has_explicit_port authority =
     (if starts_with authority ''['' then
        (case find_char CHR '']'' authority of
           Some i \<Rightarrow> Ok (starts_with (drop (i + 1) authority) '':'')
         | None \<Rightarrow> Err (InvalidUrl ''native request URI has an invalid authority''))
      else Ok (CHR '':'' \<in> set authority))"

definition uri_effective_port :: "uri \<Rightarrow> http_scheme \<Rightarrow> bool \<Rightarrow> nat result" where
  "uri_effective_port u scheme explicit_port =
     (case uri_port_u16 u of
        Some p \<Rightarrow> Ok p
      | None \<Rightarrow>
          if explicit_port \<or> uri_has_port u
          then Err (InvalidUrl ''native request URI has an invalid port'')
          else Ok (scheme_default_port scheme))"

definition from_uri :: "uri \<Rightarrow> http_origin result" where
  "from_uri u =
     bind_result (ok_or (uri_scheme_str u)
       (InvalidUrl ''native request URI must be absolute with http or https scheme'')) (\<lambda>scheme_str.
     bind_result (uri_scheme scheme_str) (\<lambda>scheme.
     bind_result (ok_or (uri_authority u) (Unsupported native_uri_msg)) (\<lambda>authority.
     if CHR ''@'' \<in> set authority
     then Err (InvalidUrl ''URL userinfo is not supported; configure authentication explicitly'')
     else bind_result (ok_or (uri_host u) (Unsupported native_uri_msg)) (\<lambda>host.
     if host = [] then Err (Unsupported native_uri_msg)
     else if canonical_host host = [] then Err (Unsupported native_uri_msg)
     else
       bind_result (has_explicit_port authority) (\<lambda>explicit_port.
       bind_result (uri_effective_port u scheme explicit_port) (\<lambda>port.
       Ok \<lparr>ho_scheme = scheme, ho_host = canonical_host host, ho_port = port\<rparr>))))))"

definition from_url :: "url \<Rightarrow> http_origin option" where
  "from_url u =
     Option.bind
       (if eq_ignore_ascii_case (url_scheme u) ''http'' then Some Http
        else if eq_ignore_ascii_case (url_scheme u) ''https'' then Some Https else None) (\<lambda>scheme.
     Option.bind (url_host_str u) (\<lambda>host.
     if host = [] then None
     else Option.bind (url_port_or_known_default u) (\<lambda>port.
       Some \<lparr>ho_scheme = scheme, ho_host = to_ascii_lowercase host, ho_port = port\<rparr>)))"

definition origin_string :: "http_origin \<Rightarrow> string" where
  "origin_string o1 =
     scheme_as_str (ho_scheme o1) @ ''://'' @ ho_host o1 @ '':'' @ show_nat (ho_port o1)"

datatype effective_port_subject = ResolvedDestination | ProxiedDestination | ResolvedProxyPeer

fun requires_http_url :: "effective_port_subject \<Rightarrow> error" where
  "requires_http_url ResolvedDestination =
     InvalidResolvedTarget ''resolved destinations require an HTTP or HTTPS URL''"
| "requires_http_url ProxiedDestination =
     InvalidResolvedTarget ''proxied destinations require an HTTP or HTTPS URL''"
| "requires_http_url ResolvedProxyPeer =
     InvalidProxyUrl ''resolved proxy peers require the proxy URL's effective port''"

fun port_mismatch :: "effective_port_subject \<Rightarrow> nat \<Rightarrow> error" where
  "port_mismatch ResolvedDestination p =
     InvalidResolvedTarget (''all resolved destinations must use the URL's effective port '' @ show_nat p)"
| "port_mismatch ProxiedDestination p =
     InvalidResolvedTarget (''all proxied destinations must use the URL's effective port '' @ show_nat p)"
| "port_mismatch ResolvedProxyPeer p =
     InvalidProxyUrl (''all resolved proxy peers must use the proxy URL's effective port '' @ show_nat p)"

definition validate_effective_port ::
  "effective_port_subject \<Rightarrow> socket_addr list \<Rightarrow> nat \<Rightarrow> unit result" where
  "validate_effective_port subject addresses expected_port =
     (if list_ex (\<lambda>a. sock_port a \<noteq> expected_port) addresses
      then Err (port_mismatch subject expected_port) else Ok ())"

definition validate_url_effective_port ::
  "effective_port_subject \<Rightarrow> url \<Rightarrow> socket_addr list \<Rightarrow> unit result" where
  "validate_url_effective_port subject u addresses =
     bind_result (ok_or (url_port_or_known_default u) (requires_http_url subject)) (\<lambda>expected_port.
       validate_effective_port subject addresses expected_port)"

subsection \<open>Origin identity\<close>

lemma validate_url_effective_port_Ok:
  "validate_url_effective_port subj u addrs = Ok () \<longleftrightarrow>
   (\<exists>p. url_port_or_known_default u = Some p \<and> (\<forall>a\<in>set addrs. sock_port a = p))"
  by (cases "url_port_or_known_default u")
     (auto simp: validate_url_effective_port_def validate_effective_port_def list_ex_iff)

lemma from_url_canonical:
  "from_url u = Some o1 \<Longrightarrow>
   ho_host o1 \<noteq> [] \<and> to_ascii_lowercase (ho_host o1) = ho_host o1"
  unfolding from_url_def by (auto simp: bind_eq_Some_conv split: if_splits)

lemma canonical_host_lower [simp]: "to_ascii_lowercase (canonical_host h) = canonical_host h"
  by (simp add: canonical_host_def)

text \<open>What an accepted native URI gives: every guard passed, the host canonical, the port effective.\<close>

lemma from_uri_Ok:
  assumes "from_uri u = Ok o1"
  obtains s a h e where "uri_scheme_str u = Some s" "uri_scheme s = Ok (ho_scheme o1)"
    "uri_authority u = Some a" "CHR ''@'' \<notin> set a" "uri_host u = Some h" "canonical_host h \<noteq> []"
    "ho_host o1 = canonical_host h" "has_explicit_port a = Ok e"
    "uri_effective_port u (ho_scheme o1) e = Ok (ho_port o1)"
  using assms unfolding from_uri_def bind_result_Inr ok_or_def
  by (auto split: option.splits if_splits simp: bind_result_Inr simp del: bind_result_simps)

text \<open>
  The route-cache key is injective on canonical origins: the last colon of the
  key separates the port, and the scheme is what stands before the first one.
\<close>

lemma colon_not_in_show_nat: "CHR '':'' \<notin> set (show_nat n)"
  by (rule show_nat_no_char) (simp add: is_digit_def)

lemma show_nat_inj: "show_nat m = show_nat n \<Longrightarrow> m = n"
  by (metis digits_show_nat)

lemma origin_string_inject:
  assumes "origin_string a = origin_string b"
  shows "a = b"
proof -
  let ?p = "\<lambda>x. scheme_as_str (ho_scheme x) @ ''://'' @ ho_host x"
  have shape: "origin_string x = ?p x @ CHR '':'' # show_nat (ho_port x)" for x
    by (simp add: origin_string_def)
  have r: "rfind_char CHR '':'' (origin_string x) = Some (length (?p x))" for x
    unfolding shape by (rule rfind_char_append) (rule colon_not_in_show_nat)
  from r [of a] r [of b] assms have len: "length (?p a) = length (?p b)" by simp
  from assms len have p: "?p a = ?p b" and n: "show_nat (ho_port a) = show_nat (ho_port b)"
    unfolding shape using append_eq_append_conv [of "?p a" "?p b"] by simp_all
  have sch: "ho_scheme a = ho_scheme b"
    using p by (cases "ho_scheme a"; cases "ho_scheme b") auto
  with p have "ho_host a = ho_host b" by simp
  with sch show_nat_inj [OF n] show ?thesis by simp
qed

text \<open>Two URLs that differ only in the case of scheme or host have the same origin.\<close>

lemma from_url_case_insensitive:
  assumes "eq_ignore_ascii_case (url_scheme u) (url_scheme v)"
    and "rel_option eq_ignore_ascii_case (url_host_str u) (url_host_str v)"
    and "url_port_or_known_default u = url_port_or_known_default v"
  shows "from_url u = from_url v"
proof -
  have sch: "eq_ignore_ascii_case (url_scheme u) t = eq_ignore_ascii_case (url_scheme v) t" for t
    using assms(1) by (simp add: eq_ignore_ascii_case_def)
  have host: "(h = []) = (k = []) \<and> to_ascii_lowercase h = to_ascii_lowercase k"
    if "eq_ignore_ascii_case h k" for h k
    using that eq_ignore_ascii_case_length [OF that] by (auto simp: eq_ignore_ascii_case_def)
  show ?thesis
    using assms(2) host unfolding from_url_def sch assms(3)
    by (cases "url_host_str u"; cases "url_host_str v") simp_all
qed

end
