(* ===== verification/Expiring_Store.thy ===== *)
theory Expiring_Store
  imports Prelude
begin

text \<open>
  The contract of a store that sweeps lazily.  Entries may carry a deadline, the
  store caches the earliest one, and a sweep keeps exactly the entries that are
  not due.  The client, which sweeps only when the cached deadline is due, then
  always works on the swept contents: that is what the locale's lemmas show, and
  what the cookie jar gets from its interpretation.
\<close>

locale expiring_store =
  fixes invar :: "'s \<Rightarrow> bool"
    and lookup :: "'s \<Rightarrow> 'k \<Rightarrow> 'v option"
    and deadline :: "'v \<Rightarrow> 't::linorder option"
    and next_due :: "'s \<Rightarrow> 't option"
    and sweep :: "'t \<Rightarrow> 's \<Rightarrow> 's"
  assumes next_due_lower:
      "invar s \<Longrightarrow> lookup s k = Some v \<Longrightarrow> deadline v = Some d \<Longrightarrow> \<exists>t. next_due s = Some t \<and> t \<le> d"
    and sweep_invar: "invar s \<Longrightarrow> invar (sweep now s)"
    and sweep_lookup:
      "invar s \<Longrightarrow> lookup (sweep now s) k =
         (case lookup s k of None \<Rightarrow> None
          | Some v \<Rightarrow> if is_some_and (deadline v) (\<lambda>d. d \<le> now) then None else Some v)"
begin

definition lazy_sweep :: "'t \<Rightarrow> 's \<Rightarrow> 's" where
  "lazy_sweep now s = (if is_some_and (next_due s) (\<lambda>t. t \<le> now) then sweep now s else s)"

lemma lazy_sweep_invar: "invar s \<Longrightarrow> invar (lazy_sweep now s)"
  by (simp add: lazy_sweep_def sweep_invar)

lemma not_due_fresh:
  assumes "invar s" "\<not> is_some_and (next_due s) (\<lambda>t. t \<le> now)" "lookup s k = Some v"
  shows "\<not> is_some_and (deadline v) (\<lambda>d. d \<le> now)"
proof
  assume "is_some_and (deadline v) (\<lambda>d. d \<le> now)"
  then obtain d where d: "deadline v = Some d" "d \<le> now"
    by (cases "deadline v") auto
  from next_due_lower [OF assms(1,3) d(1)] obtain t where "next_due s = Some t" "t \<le> d" by blast
  with d(2) assms(2) show False by auto
qed

lemma lazy_sweep_lookup:
  assumes "invar s"
  shows "lookup (lazy_sweep now s) k = lookup (sweep now s) k"
proof (cases "is_some_and (next_due s) (\<lambda>t. t \<le> now)")
  case True
  then show ?thesis by (simp add: lazy_sweep_def)
next
  case False
  with not_due_fresh [OF assms False] show ?thesis
    by (auto simp: lazy_sweep_def sweep_lookup [OF assms] split: option.splits)
qed

lemma lazy_sweep_fresh:
  assumes "invar s" "lookup (lazy_sweep now s) k = Some v"
  shows "lookup s k = Some v \<and> \<not> is_some_and (deadline v) (\<lambda>d. d \<le> now)"
  using assms unfolding lazy_sweep_lookup [OF assms(1)] sweep_lookup [OF assms(1)]
  by (auto split: option.splits if_splits)

lemma lazy_sweep_keeps:
  assumes "invar s" "lookup s k = Some v" "\<not> is_some_and (deadline v) (\<lambda>d. d \<le> now)"
  shows "lookup (lazy_sweep now s) k = Some v"
  using assms by (simp add: lazy_sweep_lookup sweep_lookup)

end

end
