(* ===== verification/Cookie_Jar.thy ===== *)
theory Cookie_Jar
  imports Url_Origin Expiring_Store
begin

text \<open>
  The cookie jar (\<open>cookie.rs\<close>).  The jar keeps a map from (name, lowercased
  domain, path) to cookies and, beside it, the earliest expiry of its persistent
  cookies, so that a query only sweeps when something is due.  The clock is an
  argument of each operation that reads it.  \<open>cookie::Cookie::parse_encoded\<close> is
  the argument \<open>parse_encoded\<close>; its result is the record of what the accessors of
  \<open>cookie::Cookie\<close> return.  The creation counter is the process-wide \<open>u64\<close>, passed
  along.  \<open>str::to_lowercase\<close> on the domain is modelled on ASCII.
\<close>

subsection \<open>Cookies, keys and the jar\<close>

datatype same_site = SsStrict | SsLax | SsNone

record cookie =
  ck_name :: string
  ck_value :: string
  ck_domain :: string
  ck_host_only :: bool
  ck_path :: string
  ck_secure :: bool
  ck_http_only :: bool
  ck_same_site :: "same_site option"
  ck_expires :: "system_time option"
  ck_persistent :: bool
  ck_creation_index :: "64 word"

definition name_value_pair :: "cookie \<Rightarrow> string" where
  "name_value_pair c = ck_name c @ ''='' @ ck_value c"

record cookie_key =
  key_name :: string
  key_domain :: string
  key_path :: string

definition cookie_key_new :: "string \<Rightarrow> string \<Rightarrow> string \<Rightarrow> cookie_key" where
  "cookie_key_new name domain path =
     \<lparr>key_name = name, key_domain = to_ascii_lowercase domain, key_path = path\<rparr>"

abbreviation cookie_key_of :: "cookie \<Rightarrow> cookie_key" where
  "cookie_key_of c \<equiv> cookie_key_new (ck_name c) (ck_domain c) (ck_path c)"

record jar =
  jar_cookies :: "(cookie_key, cookie) hash_map"
  jar_next_expiry :: "system_time option"

abbreviation jar_values :: "jar \<Rightarrow> cookie list" where
  "jar_values j \<equiv> map snd (jar_cookies j)"

definition persistent_expiry :: "cookie \<Rightarrow> system_time option" where
  "persistent_expiry c = (if ck_persistent c then ck_expires c else None)"

definition recompute_next_expiry :: "jar \<Rightarrow> jar" where
  "recompute_next_expiry j =
     j\<lparr>jar_next_expiry :=
        min_list_option (List.map_filter ck_expires (filter ck_persistent (jar_values j)))\<rparr>"

definition insert_cookie :: "cookie_key \<Rightarrow> cookie \<Rightarrow> jar \<Rightarrow> jar" where
  "insert_cookie key c j =
     (let old_expiry = Option.bind (map_of (jar_cookies j) key) persistent_expiry;
          new_expiry = persistent_expiry c;
          j' = j\<lparr>jar_cookies := AList.update key c (jar_cookies j)\<rparr>
      in case (jar_next_expiry j, old_expiry, new_expiry) of
           (None, _, Some e) \<Rightarrow> j'\<lparr>jar_next_expiry := Some e\<rparr>
         | (Some current, old, new) \<Rightarrow>
             if is_some_and new (\<lambda>e. e < current) then j'\<lparr>jar_next_expiry := new\<rparr>
             else if is_some_and old (\<lambda>ol. ol = current) \<and> is_none_or new (\<lambda>e. e > current)
             then recompute_next_expiry j'
             else j'
         | _ \<Rightarrow> j')"

definition remove_cookie :: "cookie_key \<Rightarrow> jar \<Rightarrow> jar" where
  "remove_cookie key j =
     (let removed_expiry = Option.bind (map_of (jar_cookies j) key) persistent_expiry;
          j' = j\<lparr>jar_cookies := AList.delete key (jar_cookies j)\<rparr>
      in if removed_expiry = jar_next_expiry j then recompute_next_expiry j' else j')"

definition jar_new :: jar where
  "jar_new = \<lparr>jar_cookies = [], jar_next_expiry = None\<rparr>"

subsection \<open>Matching\<close>

definition path_matches :: "string \<Rightarrow> string \<Rightarrow> bool" where
  "path_matches request_path cookie_path =
     (if \<not> starts_with request_path ''/'' \<or> \<not> starts_with cookie_path ''/'' then False
      else if request_path = cookie_path then True
      else if \<not> starts_with request_path cookie_path then False
      else if ends_with cookie_path ''/'' then True
      else length cookie_path < length request_path
           \<and> request_path ! length cookie_path = CHR ''/'')"

definition domain_matches :: "string \<Rightarrow> string \<Rightarrow> bool" where
  "domain_matches host domain =
     (if eq_ignore_ascii_case host domain then True
      else if is_ip_address host \<or> is_ip_address domain then False
      else length host > length domain + 1
           \<and> host ! (length host - length domain - 1) = CHR ''.''
           \<and> eq_ignore_ascii_case (drop (length host - length domain) host) domain)"

definition cookie_matches :: "cookie \<Rightarrow> string \<Rightarrow> string \<Rightarrow> bool \<Rightarrow> bool" where
  "cookie_matches c url_host path is_secure =
     (if ck_secure c \<and> \<not> is_secure then False
      else if \<not> ck_host_only c \<and> ck_domain c = [] then path_matches path (ck_path c)
      else if ck_host_only c \<and> \<not> eq_ignore_ascii_case url_host (ck_domain c) then False
      else if \<not> ck_host_only c \<and> \<not> domain_matches url_host (ck_domain c) then False
      else path_matches path (ck_path c))"

subsection \<open>Validation\<close>

definition is_valid_cookie_name :: "string \<Rightarrow> bool" where
  "is_valid_cookie_name name =
     (if name = [] then False
      else \<not> list_ex (\<lambda>b. byte b \<le> 32 \<or> byte b = 127 \<or> byte b = 34
                 \<or> b = CHR '','' \<or> b = CHR '';'' \<or> byte b = 92) name)"

definition is_valid_cookie_value :: "string \<Rightarrow> bool" where
  "is_valid_cookie_value v =
     list_all (\<lambda>c. let b = byte c in
        b = 33 \<or> (35 \<le> b \<and> b \<le> 43) \<or> (45 \<le> b \<and> b \<le> 58) \<or> (60 \<le> b \<and> b \<le> 91)
        \<or> (93 \<le> b \<and> b \<le> 126)) v"

subsection \<open>Reading a Set-Cookie header\<close>

datatype parsed_same_site = PStrict | PLax | PNone

datatype expiration = ExpSession | ExpDateTime system_time

text \<open>\<open>pc_max_age\<close> is a signed \<open>time::Duration\<close> in nanoseconds.\<close>

record parsed_cookie =
  pc_name :: string
  pc_value :: string
  pc_domain :: "string option"
  pc_path :: "string option"
  pc_secure :: "bool option"
  pc_http_only :: "bool option"
  pc_same_site :: "parsed_same_site option"
  pc_max_age :: "int option"
  pc_expires :: "expiration option"

fun same_site_from :: "parsed_same_site \<Rightarrow> same_site" where
  "same_site_from PStrict = SsStrict"
| "same_site_from PLax = SsLax"
| "same_site_from PNone = SsNone"

definition max_age_cap_secs :: nat where "max_age_cap_secs = 400 * 24 * 60 * 60"

definition whole_seconds :: "int \<Rightarrow> int" where
  "whole_seconds d = (if d \<ge> 0 then d div int nanos_per_sec else - ((- d) div int nanos_per_sec))"

definition resolve_expiration :: "parsed_cookie \<Rightarrow> system_time \<Rightarrow> bool \<times> system_time option" where
  "resolve_expiration parsed now =
     (case pc_max_age parsed of
        Some max_age \<Rightarrow>
          let duration_secs = whole_seconds max_age
          in if max_age < 0 \<or> duration_secs = 0 then (True, Some 0)
             else (True, checked_add_time now (from_secs_d (min (nat duration_secs) max_age_cap_secs)))
      | None \<Rightarrow>
          (case pc_expires parsed of
             Some (ExpDateTime dt) \<Rightarrow> (True, Some dt)
           | _ \<Rightarrow> (False, None)))"

definition default_cookie_path :: "string \<Rightarrow> string" where
  "default_cookie_path path =
     (if path = [] \<or> \<not> starts_with path ''/'' then ''/''
      else case rfind_char CHR ''/'' path of
             Some last_pos \<Rightarrow> if last_pos > 0 then take last_pos path else ''/''
           | None \<Rightarrow> ''/'')"

definition resolve_cookie_domain :: "parsed_cookie \<Rightarrow> string \<Rightarrow> (string \<times> bool) option" where
  "resolve_cookie_domain parsed response_host =
     (case pc_domain parsed of
        Some raw_domain \<Rightarrow>
          let normalized = trim_start_matches CHR ''.'' raw_domain
          in if normalized = [] then None
             else if is_ip_address normalized \<and> \<not> eq_ignore_ascii_case normalized response_host then None
             else if \<not> domain_matches response_host normalized then None
             else Some (normalized, False)
      | None \<Rightarrow> Some (response_host, True))"

text \<open>The clock is read when \<open>Max-Age\<close> is resolved; the counter only when a cookie is built.\<close>

definition parse_set_cookie ::
  "(string \<Rightarrow> parsed_cookie option) \<Rightarrow> string \<Rightarrow> url \<Rightarrow> string \<Rightarrow> system_time \<Rightarrow> 64 word
   \<Rightarrow> cookie option \<times> 64 word" where
  "parse_set_cookie parse_encoded header_value response_url response_host now ctr =
     (case parse_encoded header_value of
        None \<Rightarrow> (None, ctr)
      | Some parsed \<Rightarrow>
          if \<not> is_valid_cookie_name (pc_name parsed) then (None, ctr)
          else (case resolve_cookie_domain parsed response_host of
                  None \<Rightarrow> (None, ctr)
                | Some (domain, host_only) \<Rightarrow>
                    let path = (case pc_path parsed of
                                  Some p \<Rightarrow> if starts_with p ''/'' then p
                                            else default_cookie_path (url_path response_url)
                                | None \<Rightarrow> default_cookie_path (url_path response_url));
                        (persistent, expires) = resolve_expiration parsed now
                    in (Some \<lparr>ck_name = pc_name parsed, ck_value = pc_value parsed,
                              ck_domain = domain, ck_host_only = host_only, ck_path = path,
                              ck_secure = (pc_secure parsed = Some True),
                              ck_http_only = (pc_http_only parsed = Some True),
                              ck_same_site = map_option same_site_from (pc_same_site parsed),
                              ck_expires = expires, ck_persistent = persistent,
                              ck_creation_index = ctr\<rparr>, ctr + 1)))"

text \<open>
  One parse per header, in order; \<open>clk i\<close> is what the clock shows while header
  number \<open>i\<close> is parsed.
\<close>

fun parse_headers ::
  "(string \<Rightarrow> parsed_cookie option) \<Rightarrow> url \<Rightarrow> string \<Rightarrow> (nat \<Rightarrow> system_time) \<Rightarrow> nat \<Rightarrow> string list \<Rightarrow> 64 word
   \<Rightarrow> cookie list \<times> 64 word" where
  "parse_headers pe u host clk i [] ctr = ([], ctr)"
| "parse_headers pe u host clk i (h # hs) ctr =
     (case parse_set_cookie pe h u host (clk i) ctr of
        (None, ctr') \<Rightarrow> parse_headers pe u host clk (Suc i) hs ctr'
      | (Some c, ctr') \<Rightarrow>
          (case parse_headers pe u host clk (Suc i) hs ctr' of (cs, ctr'') \<Rightarrow> (c # cs, ctr'')))"

definition url_host_or_empty :: "url \<Rightarrow> string" where
  "url_host_or_empty u = (case url_host_str u of None \<Rightarrow> [] | Some h \<Rightarrow> h)"

definition parse_set_cookie_headers ::
  "(string \<Rightarrow> parsed_cookie option) \<Rightarrow> url \<Rightarrow> string list \<Rightarrow> (nat \<Rightarrow> system_time) \<Rightarrow> 64 word
   \<Rightarrow> cookie list \<times> 64 word" where
  "parse_set_cookie_headers pe u hs clk ctr = parse_headers pe u (url_host_or_empty u) clk 0 hs ctr"

subsection \<open>Operations of the jar\<close>

definition cookie_expired :: "system_time \<Rightarrow> cookie \<Rightarrow> bool" where
  "cookie_expired now c \<longleftrightarrow> ck_persistent c \<and> is_some_and (ck_expires c) (\<lambda>e. now \<ge> e)"

definition update_from_response ::
  "(string \<Rightarrow> parsed_cookie option) \<Rightarrow> url \<Rightarrow> string list \<Rightarrow> system_time \<Rightarrow> (nat \<Rightarrow> system_time)
   \<Rightarrow> jar \<times> 64 word \<Rightarrow> jar \<times> 64 word" where
  "update_from_response pe u hs now clk = (\<lambda>(j, ctr).
     let (parsed, ctr') = parse_headers pe u (url_host_or_empty u) clk 0 hs ctr;
         to_insert = filter (\<lambda>c. \<not> cookie_expired now c) parsed;
         to_remove = map (\<lambda>c. cookie_key_of c) (filter (cookie_expired now) parsed)
     in if to_insert = [] \<and> to_remove = [] then (j, ctr')
        else
          let m1 = fold AList.delete to_remove (jar_cookies j);
              m2 = fold (\<lambda>c. AList.update (cookie_key_of c) c) to_insert m1
          in (recompute_next_expiry (j\<lparr>jar_cookies := m2\<rparr>), ctr'))"

definition retain_fresh :: "system_time \<Rightarrow> jar \<Rightarrow> jar" where
  "retain_fresh now j =
     j\<lparr>jar_cookies := filter (\<lambda>p. \<not> ck_persistent (snd p)
                                  \<or> is_none_or (ck_expires (snd p)) (\<lambda>e. now < e)) (jar_cookies j)\<rparr>"

definition expire_stale :: "system_time \<Rightarrow> jar \<Rightarrow> jar" where
  "expire_stale now j = recompute_next_expiry (retain_fresh now j)"

definition expire_if_due :: "system_time \<Rightarrow> jar \<Rightarrow> jar" where
  "expire_if_due now j =
     (if is_some_and (jar_next_expiry j) (\<lambda>e. now \<ge> e)
      then recompute_next_expiry (retain_fresh now j) else j)"

text \<open>\<open>matches.sort_by\<close>: a stable sort on (path length descending, creation index ascending).\<close>

definition send_order :: "cookie \<Rightarrow> cookie \<Rightarrow> bool" where
  "send_order a b \<longleftrightarrow>
     length (ck_path b) < length (ck_path a)
     \<or> (length (ck_path b) = length (ck_path a) \<and> ck_creation_index a \<le> ck_creation_index b)"

fun insort_send :: "cookie \<Rightarrow> cookie list \<Rightarrow> cookie list" where
  "insort_send c [] = [c]"
| "insort_send c (d # ds) = (if send_order c d then c # d # ds else d # insort_send c ds)"

definition sort_send :: "cookie list \<Rightarrow> cookie list" where
  "sort_send cs = foldr insort_send cs []"

text \<open>The serialization loop with its set of seen (name, path) pairs.\<close>

fun serialize_cookies :: "(string \<times> string) list \<Rightarrow> string \<Rightarrow> cookie list \<Rightarrow> string" where
  "serialize_cookies seen acc [] = acc"
| "serialize_cookies seen acc (c # cs) =
     (if (ck_name c, ck_path c) \<in> set seen then serialize_cookies seen acc cs
      else serialize_cookies ((ck_name c, ck_path c) # seen)
             ((if acc \<noteq> [] then acc @ ''; '' else acc) @ ck_name c @ ''='' @ ck_value c) cs)"

definition matching_cookies :: "url \<Rightarrow> jar \<Rightarrow> cookie list" where
  "matching_cookies u j =
     filter (\<lambda>c. cookie_matches c (url_host_or_empty u) (url_path u) (url_scheme u = ''https'')) (jar_values j)"

definition cookies_for_url :: "system_time \<Rightarrow> url \<Rightarrow> jar \<Rightarrow> jar \<times> string option" where
  "cookies_for_url now u j =
     (let j' = expire_if_due now j;
          ms = matching_cookies u j'
      in if ms = [] then (j', None)
         else let result = serialize_cookies [] [] (sort_send ms)
              in (j', if result = [] then None else Some result))"

definition all_cookies :: "system_time \<Rightarrow> jar \<Rightarrow> jar \<times> cookie list" where
  "all_cookies now j = (let j' = expire_if_due now j in (j', jar_values j'))"

definition jar_get ::
  "system_time \<Rightarrow> string \<Rightarrow> string option \<Rightarrow> string option \<Rightarrow> jar \<Rightarrow> jar \<times> cookie option" where
  "jar_get now name domain path j =
     (let j' = expire_if_due now j
      in case (domain, path) of
           (Some d, Some p) \<Rightarrow> (j', map_of (jar_cookies j') (cookie_key_new name d p))
         | _ \<Rightarrow>
             let matching = filter (\<lambda>c. ck_name c = name) (jar_values j')
             in (j', if length matching = 1 then Some (matching ! 0) else None))"

definition invalid_cookie_name_error :: "string \<Rightarrow> error" where
  "invalid_cookie_name_error name =
     InvalidHeaderValue (''invalid cookie name: '' @ CHR 0x27 # name @ [CHR 0x27])"

definition invalid_cookie_value_error :: error where
  "invalid_cookie_value_error =
     InvalidHeaderValue ''invalid cookie value: must match RFC 6265 cookie-octet (no ';', ',', whitespace, CTLs, or non-ASCII)''"

definition jar_set :: "system_time \<Rightarrow> cookie \<Rightarrow> jar \<Rightarrow> jar \<times> unit result" where
  "jar_set now c j =
     (if \<not> is_valid_cookie_name (ck_name c) then (j, Err (invalid_cookie_name_error (ck_name c)))
      else if \<not> is_valid_cookie_value (ck_value c) then (j, Err invalid_cookie_value_error)
      else if cookie_expired now c then (remove_cookie (cookie_key_of c) j, Ok ())
      else (insert_cookie (cookie_key_of c) c j, Ok ()))"

definition default_cookie :: "string \<Rightarrow> string \<Rightarrow> 64 word \<Rightarrow> cookie" where
  "default_cookie name v ctr =
     \<lparr>ck_name = name, ck_value = v, ck_domain = [], ck_host_only = False, ck_path = ''/'',
      ck_secure = False, ck_http_only = False, ck_same_site = None, ck_expires = None,
      ck_persistent = False, ck_creation_index = ctr\<rparr>"

definition set_default_cookie ::
  "string \<Rightarrow> string \<Rightarrow> jar \<times> 64 word \<Rightarrow> (jar \<times> 64 word) \<times> unit result" where
  "set_default_cookie name v = (\<lambda>(j, ctr).
     if \<not> is_valid_cookie_name name then ((j, ctr), Err (invalid_cookie_name_error name))
     else if \<not> is_valid_cookie_value v then ((j, ctr), Err invalid_cookie_value_error)
     else let c = default_cookie name v ctr
          in ((insert_cookie (cookie_key_of c) c j, ctr + 1), Ok ()))"

definition with_initial_cookie :: "system_time \<Rightarrow> cookie \<Rightarrow> jar" where
  "with_initial_cookie now c = fst (jar_set now c jar_new)"

definition jar_delete :: "string \<Rightarrow> string \<Rightarrow> string \<Rightarrow> jar \<Rightarrow> jar" where
  "jar_delete name domain path j = remove_cookie (cookie_key_new name domain path) j"

definition jar_clear :: "jar \<Rightarrow> jar" where
  "jar_clear j = j\<lparr>jar_cookies := [], jar_next_expiry := None\<rparr>"

definition jar_len :: "jar \<Rightarrow> nat" where "jar_len j = length (jar_cookies j)"

definition jar_is_empty :: "jar \<Rightarrow> bool" where "jar_is_empty j \<longleftrightarrow> jar_cookies j = []"

subsection \<open>The invariant: the cached expiry is the earliest one\<close>

definition expiries :: "(cookie_key, cookie) hash_map \<Rightarrow> system_time set" where
  "expiries m = {e. \<exists>p\<in>set m. persistent_expiry (snd p) = Some e}"

definition keyed :: "(cookie_key, cookie) hash_map \<Rightarrow> bool" where
  "keyed m \<longleftrightarrow> distinct_keys m \<and> (\<forall>p\<in>set m. fst p = cookie_key_of (snd p))"

definition jar_inv :: "jar \<Rightarrow> bool" where
  "jar_inv j \<longleftrightarrow>
     keyed (jar_cookies j) \<and> earliest (jar_next_expiry j) (expiries (jar_cookies j))"

lemma keyed_distinct: "keyed m \<Longrightarrow> distinct_keys m"
  by (simp add: keyed_def)

lemma keyed_key: "keyed m \<Longrightarrow> (k, c) \<in> set m \<Longrightarrow> k = cookie_key_of c"
  by (force simp: keyed_def)

lemma keyed_update: "keyed m \<Longrightarrow> keyed (AList.update (cookie_key_of c) c m)"
  unfolding keyed_def by (simp add: distinct_update set_alist_update)

lemma keyed_delete: "keyed m \<Longrightarrow> keyed (AList.delete k m)"
  unfolding keyed_def by (simp add: distinct_delete set_alist_delete)

lemma keyed_filter: "keyed m \<Longrightarrow> keyed (filter P m)"
  unfolding keyed_def by (simp add: distinct_keys_filter)

lemma keyed_fold_delete: "keyed m \<Longrightarrow> keyed (fold AList.delete ks m)"
  by (induction ks arbitrary: m) (simp_all add: keyed_delete)

lemma keyed_fold_update:
  "keyed m \<Longrightarrow> keyed (fold (\<lambda>c. AList.update (cookie_key_of c) c) cs m)"
  by (induction cs arbitrary: m) (simp_all add: keyed_update)

lemma expiries_recompute:
  "set (List.map_filter ck_expires (filter ck_persistent (jar_values j))) = expiries (jar_cookies j)"
  by (force simp: expiries_def persistent_expiry_def List.map_filter_def split: if_splits)

lemma recompute_cookies [simp]: "jar_cookies (recompute_next_expiry j) = jar_cookies j"
  by (simp add: recompute_next_expiry_def)

lemma recompute_earliest: "earliest (jar_next_expiry (recompute_next_expiry j)) (expiries (jar_cookies j))"
  using earliest_min_list_option [of "List.map_filter ck_expires (filter ck_persistent (jar_values j))"]
  unfolding expiries_recompute by (simp add: recompute_next_expiry_def)

lemma recompute_inv:
  assumes "keyed (jar_cookies j)"
  shows "jar_inv (recompute_next_expiry j)"
  using assms recompute_earliest by (simp add: jar_inv_def)

lemma jar_inv_new: "jar_inv jar_new"
  by (simp add: jar_inv_def jar_new_def expiries_def keyed_def)

lemma jar_inv_keyed: "jar_inv j \<Longrightarrow> keyed (jar_cookies j)"
  by (simp add: jar_inv_def)

lemmas jar_inv_distinct = keyed_distinct [OF jar_inv_keyed]

lemma expiries_update:
  assumes "distinct_keys m"
  shows "expiries (AList.update k c m) =
    set_option (persistent_expiry c) \<union> expiries (AList.delete k m)"
  by (auto simp: expiries_def set_alist_update [OF assms] set_alist_delete)

lemma expiries_delete:
  assumes "distinct_keys m"
  shows "set_option (Option.bind (map_of m k) persistent_expiry) \<union> expiries (AList.delete k m)
    = expiries m"
  unfolding expiries_def by (rule alist_values_delete [OF assms])

lemma insert_cookie_cookies:
  "jar_cookies (insert_cookie k c j) = AList.update k c (jar_cookies j)"
  by (auto simp: insert_cookie_def Let_def split: option.splits)

lemma insert_cookie_lookup:
  "map_of (jar_cookies (insert_cookie k c j)) = (map_of (jar_cookies j))(k \<mapsto> c)"
  by (simp add: insert_cookie_cookies update_conv')

lemma remove_cookie_cookies: "jar_cookies (remove_cookie k j) = AList.delete k (jar_cookies j)"
  by (auto simp: remove_cookie_def Let_def)

lemma remove_cookie_lookup:
  "map_of (jar_cookies (remove_cookie k j)) = (map_of (jar_cookies j))(k := None)"
  by (simp add: remove_cookie_cookies delete_conv')

lemma insert_cookie_earliest:
  assumes inv: "jar_inv j"
  shows "earliest (jar_next_expiry (insert_cookie k c j)) (expiries (AList.update k c (jar_cookies j)))"
proof -
  let ?D = "expiries (AList.delete k (jar_cookies j))"
  let ?old = "Option.bind (map_of (jar_cookies j) k) persistent_expiry"
  have n: "earliest (jar_next_expiry j) (set_option ?old \<union> ?D)"
    using inv expiries_delete [OF jar_inv_distinct [OF inv], of k] by (simp add: jar_inv_def)
  note new = earliest_insert_new [OF n]
  have upd: "expiries (AList.update k c (jar_cookies j)) = set_option (persistent_expiry c) \<union> ?D"
    by (rule expiries_update [OF jar_inv_distinct [OF inv]])
  have rec: "earliest (jar_next_expiry (recompute_next_expiry (j\<lparr>jar_cookies := AList.update k c (jar_cookies j)\<rparr>)))
      (set_option (persistent_expiry c) \<union> ?D)"
    using recompute_earliest [of "j\<lparr>jar_cookies := AList.update k c (jar_cookies j)\<rparr>"] upd by simp
  show ?thesis
    unfolding upd using rec new(1) new(2) new(3) new(4) new(5)
    by (cases "jar_next_expiry j"; cases "persistent_expiry c"; cases ?old)
       (auto simp add: insert_cookie_def Let_def simp del: earliest_simps(2))
qed

lemma insert_cookie_inv:
  assumes inv: "jar_inv j" and k: "k = cookie_key_of c"
  shows "jar_inv (insert_cookie k c j)"
  unfolding jar_inv_def insert_cookie_cookies
  using insert_cookie_earliest [OF inv] keyed_update [OF jar_inv_keyed [OF inv], of c] k
  by simp

lemma remove_cookie_inv:
  assumes inv: "jar_inv j"
  shows "jar_inv (remove_cookie k j)"
proof -
  let ?m' = "AList.delete k (jar_cookies j)"
  let ?old = "Option.bind (map_of (jar_cookies j) k) persistent_expiry"
  have n: "earliest (jar_next_expiry j) (set_option ?old \<union> expiries ?m')"
    using inv expiries_delete [OF jar_inv_distinct [OF inv], of k] by (simp add: jar_inv_def)
  have "earliest (jar_next_expiry (remove_cookie k j)) (expiries ?m')"
  proof (cases "?old = jar_next_expiry j")
    case True
    with recompute_earliest [of "j\<lparr>jar_cookies := ?m'\<rparr>"] show ?thesis
      by (simp add: remove_cookie_def)
  next
    case False
    with earliest_insert_new(5) [OF n] show ?thesis by (simp add: remove_cookie_def)
  qed
  with keyed_delete [OF jar_inv_keyed [OF inv]] show ?thesis
    unfolding jar_inv_def remove_cookie_cookies by (intro conjI)
qed

subsection \<open>Sweeping\<close>

lemma retain_fresh_filter:
  "jar_cookies (retain_fresh now j) = filter (\<lambda>p. \<not> cookie_expired now (snd p)) (jar_cookies j)"
proof -
  have "(\<not> ck_persistent c \<or> is_none_or (ck_expires c) (\<lambda>e. now < e)) = (\<not> cookie_expired now c)" for c
    by (cases "ck_expires c") (auto simp: cookie_expired_def)
  then show ?thesis by (simp add: retain_fresh_def)
qed

lemma expire_stale_cookies:
  "jar_cookies (expire_stale now j) = filter (\<lambda>p. \<not> cookie_expired now (snd p)) (jar_cookies j)"
  by (simp add: expire_stale_def retain_fresh_filter)

lemma expire_stale_inv:
  assumes "jar_inv j" shows "jar_inv (expire_stale now j)"
  unfolding expire_stale_def
  by (rule recompute_inv) (simp add: retain_fresh_filter keyed_filter jar_inv_keyed assms)

text \<open>The jar is an expiring store, so a query sees exactly the swept jar.\<close>

lemma cookie_expired_deadline:
  "cookie_expired now c = is_some_and (persistent_expiry c) (\<lambda>e. e \<le> now)"
  by (auto simp: cookie_expired_def persistent_expiry_def)

lemma jar_next_expiry_lower:
  assumes "jar_inv j" "map_of (jar_cookies j) k = Some c" "persistent_expiry c = Some d"
  shows "\<exists>t. jar_next_expiry j = Some t \<and> t \<le> d"
proof -
  have "d \<in> expiries (jar_cookies j)"
    using map_of_SomeD [OF assms(2)] assms(3) unfolding expiries_def by force
  then show ?thesis
    using assms(1) unfolding jar_inv_def by (cases "jar_next_expiry j") auto
qed

interpretation jar_store: expiring_store jar_inv "\<lambda>j. map_of (jar_cookies j)" persistent_expiry
  jar_next_expiry expire_stale
proof
  fix j :: jar and k now
  assume inv: "jar_inv j"
  show "jar_inv (expire_stale now j)" by (rule expire_stale_inv [OF inv])
  show "map_of (jar_cookies (expire_stale now j)) k =
      (case map_of (jar_cookies j) k of None \<Rightarrow> None
       | Some v \<Rightarrow> if is_some_and (persistent_expiry v) (\<lambda>d. d \<le> now) then None else Some v)"
    using map_of_filter_values [OF jar_inv_distinct [OF inv], of "\<lambda>c. \<not> cookie_expired now c" k]
    by (cases "map_of (jar_cookies j) k") (simp_all add: expire_stale_cookies cookie_expired_deadline)
qed (rule jar_next_expiry_lower)

lemma expire_if_due_lazy: "expire_if_due now j = jar_store.lazy_sweep now j"
  by (simp add: expire_if_due_def jar_store.lazy_sweep_def expire_stale_def)

lemmas expire_if_due_inv = jar_store.lazy_sweep_invar [folded expire_if_due_lazy]
lemmas expire_if_due_lookup = jar_store.lazy_sweep_lookup [folded expire_if_due_lazy]
lemmas expire_if_due_fresh =
  jar_store.lazy_sweep_fresh [folded expire_if_due_lazy cookie_expired_deadline]
lemmas expire_if_due_keeps =
  jar_store.lazy_sweep_keeps [folded expire_if_due_lazy cookie_expired_deadline]

lemma jar_inv_lookup:
  assumes "jar_inv j"
  shows "c \<in> set (jar_values j) \<longleftrightarrow> map_of (jar_cookies j) (cookie_key_of c) = Some c"
proof
  assume "c \<in> set (jar_values j)"
  then obtain k where "(k, c) \<in> set (jar_cookies j)" by force
  moreover from this have "k = cookie_key_of c" by (rule keyed_key [OF jar_inv_keyed [OF assms]])
  ultimately show "map_of (jar_cookies j) (cookie_key_of c) = Some c"
    using jar_inv_distinct [OF assms] by (intro map_of_is_SomeI) simp_all
qed (force dest: map_of_SomeD)

lemma expire_if_due_values:
  assumes "jar_inv j"
  shows "c \<in> set (jar_values (expire_if_due now j)) \<longleftrightarrow> c \<in> set (jar_values j) \<and> \<not> cookie_expired now c"
  using expire_if_due_fresh [OF assms] expire_if_due_keeps [OF assms]
  unfolding jar_inv_lookup [OF assms] jar_inv_lookup [OF expire_if_due_inv [OF assms]] by blast

subsection \<open>Every operation keeps the invariant\<close>

lemma update_from_response_inv:
  assumes "jar_inv j"
  shows "jar_inv (fst (update_from_response pe u hs now clk (j, ctr)))"
proof -
  have "jar_inv (recompute_next_expiry (j\<lparr>jar_cookies :=
      fold (\<lambda>c. AList.update (cookie_key_of c) c) cs (fold AList.delete ks (jar_cookies j))\<rparr>))" for cs ks
    by (rule recompute_inv) (simp add: keyed_fold_update keyed_fold_delete jar_inv_keyed assms)
  with assms show ?thesis
    by (simp add: update_from_response_def Let_def split: prod.splits)
qed

lemma jar_set_inv: "jar_inv j \<Longrightarrow> jar_inv (fst (jar_set now c j))"
  by (simp add: jar_set_def insert_cookie_inv remove_cookie_inv)

lemma set_default_cookie_inv:
  "jar_inv j \<Longrightarrow> jar_inv (fst (fst (set_default_cookie name v (j, ctr))))"
  by (simp add: set_default_cookie_def Let_def insert_cookie_inv)

lemma jar_clear_inv: "jar_inv (jar_clear j)"
  by (simp add: jar_inv_def jar_clear_def expiries_def keyed_def)

lemma jar_delete_inv: "jar_inv j \<Longrightarrow> jar_inv (jar_delete n d p j)"
  by (simp add: jar_delete_def remove_cookie_inv)

lemmas jar_op_invs = expire_stale_inv expire_if_due_inv update_from_response_inv jar_set_inv
  set_default_cookie_inv jar_clear_inv jar_delete_inv

end
