(* ===== verification/Cookie_Props.thy ===== *)
theory Cookie_Props
  imports Cookie_Jar "HOL-Library.Multiset"
begin

text \<open>
  What the cookie jar promises: matching against its RFC 6265 reading, the shape
  and the contents of the Cookie header, the round trip of set and get, and the
  histories of operations on one jar.
\<close>

subsection \<open>Matching\<close>

lemma path_matches_iff:
  "path_matches r c \<longleftrightarrow>
     starts_with c ''/'' \<and> (\<exists>rest. r = c @ rest \<and> (rest = [] \<or> last c = CHR ''/'' \<or> hd rest = CHR ''/''))"
proof
  assume "path_matches r c"
  then have c: "starts_with c ''/''" "r = c \<or> starts_with r c \<and>
      (ends_with c ''/'' \<or> length c < length r \<and> r ! length c = CHR ''/'')"
    by (auto simp: path_matches_def split: if_splits)
  moreover have "hd (drop (length c) r) = CHR ''/''" if "length c < length r \<and> r ! length c = CHR ''/''"
    using that by (simp add: hd_drop_conv_nth)
  ultimately show "starts_with c ''/'' \<and>
      (\<exists>rest. r = c @ rest \<and> (rest = [] \<or> last c = CHR ''/'' \<or> hd rest = CHR ''/''))"
    by (auto elim!: starts_withE)
next
  assume "starts_with c ''/'' \<and> (\<exists>rest. r = c @ rest \<and> (rest = [] \<or> last c = CHR ''/'' \<or> hd rest = CHR ''/''))"
  then obtain rest where c: "starts_with c ''/''" "r = c @ rest"
      "rest = [] \<or> last c = CHR ''/'' \<or> hd rest = CHR ''/''" by blast
  from c(1) have ne: "c \<noteq> []" by (cases c) auto
  from c(1,2) have "starts_with r ''/''" by (cases c) auto
  with c ne show "path_matches r c"
    by (cases rest) (auto simp: path_matches_def nth_append)
qed

lemma domain_matches_iff:
  "domain_matches host domain \<longleftrightarrow>
     eq_ignore_ascii_case host domain
     \<or> \<not> is_ip_address host \<and> \<not> is_ip_address domain
       \<and> (\<exists>sub d. host = sub @ ''.'' @ d \<and> sub \<noteq> [] \<and> eq_ignore_ascii_case d domain)"
    (is "_ \<longleftrightarrow> _ \<or> _ \<and> _ \<and> ?sub")
proof -
  let ?suffix = "length host > length domain + 1 \<and> host ! (length host - length domain - 1) = CHR ''.''
      \<and> eq_ignore_ascii_case (drop (length host - length domain) host) domain"
  have "?suffix \<longleftrightarrow> ?sub"
  proof
    assume s: ?suffix
    let ?i = "length host - length domain - 1"
    have "host = take ?i host @ host ! ?i # drop (Suc ?i) host"
      using s by (intro id_take_nth_drop) linarith
    moreover have "Suc ?i = length host - length domain" using s by linarith
    ultimately have "host = take ?i host @ ''.'' @ drop (length host - length domain) host"
      using s by simp
    moreover have "take ?i host \<noteq> []" using s by auto
    ultimately show ?sub using s by blast
  next
    assume ?sub
    then obtain sub d where "host = sub @ ''.'' @ d" "sub \<noteq> []" "eq_ignore_ascii_case d domain" by blast
    moreover from this have "length d = length domain" by (intro eq_ignore_ascii_case_length)
    ultimately show ?suffix by (auto simp: nth_append)
  qed
  then show ?thesis unfolding domain_matches_def by auto
qed

lemma cookie_matches_iff:
  "cookie_matches c host path is_secure \<longleftrightarrow>
     (ck_secure c \<longrightarrow> is_secure) \<and> path_matches path (ck_path c)
     \<and> (if ck_host_only c then eq_ignore_ascii_case host (ck_domain c)
        else ck_domain c = [] \<or> domain_matches host (ck_domain c))"
  by (auto simp: cookie_matches_def)

subsection \<open>The order of the cookies sent\<close>

lemma send_order_total: "send_order a b \<or> send_order b a"
  by (auto simp: send_order_def)

lemma send_order_trans: "send_order a b \<Longrightarrow> send_order b c \<Longrightarrow> send_order a c"
  by (auto simp: send_order_def)

lemma mset_insort_send: "mset (insort_send c cs) = add_mset c (mset cs)"
  by (induction cs) auto

lemma mset_sort_send: "mset (sort_send cs) = mset cs"
  by (induction cs) (simp_all add: sort_send_def mset_insort_send)

lemma set_sort_send: "set (sort_send cs) = set cs"
  by (metis mset_sort_send set_mset_mset)

lemma set_insort_send: "set (insort_send c cs) = insert c (set cs)"
  by (metis mset_insort_send set_mset_add_mset_insert set_mset_mset)

lemma sorted_insort_send:
  "sorted_wrt send_order cs \<Longrightarrow> sorted_wrt send_order (insort_send c cs)"
  by (induction cs) (use send_order_total in \<open>auto simp: set_insort_send intro: send_order_trans\<close>)

lemma sorted_sort_send: "sorted_wrt send_order (sort_send cs)"
  by (induction cs) (simp_all add: sort_send_def sorted_insort_send)

text \<open>
  With distinct creation indices the order is strict, so the sorted list does
  not depend on the order in which the map listed its values.
\<close>

lemma send_order_antisym:
  "send_order a b \<Longrightarrow> send_order b a \<Longrightarrow> ck_creation_index a = ck_creation_index b"
  by (auto simp: send_order_def)

lemma sorted_wrt_mset_unique:
  assumes "sorted_wrt R xs" "sorted_wrt R ys" "mset xs = mset ys"
    and anti: "\<And>a b. a \<in> set xs \<Longrightarrow> b \<in> set xs \<Longrightarrow> R a b \<Longrightarrow> R b a \<Longrightarrow> a = b"
  shows "xs = ys"
  using assms
proof (induction xs arbitrary: ys)
  case (Cons x xs)
  then obtain y ys' where ys: "ys = y # ys'" by (cases ys) auto
  have sets: "set (x # xs) = set (y # ys')"
    using Cons.prems(3) ys by (metis set_mset_mset)
  have "x = y"
  proof (rule ccontr)
    assume "x \<noteq> y"
    with sets have "x \<in> set ys'" "y \<in> set xs" by auto
    with Cons.prems(1,2) ys have "R x y" "R y x" by auto
    with Cons.prems(4) [of x y] \<open>y \<in> set xs\<close> \<open>x \<noteq> y\<close> show False by simp
  qed
  with Cons.prems ys Cons.IH [of ys'] show ?case by auto
qed simp

lemma sort_send_perm:
  assumes "mset cs = mset ds" "inj_on ck_creation_index (set cs)"
  shows "sort_send cs = sort_send ds"
  using assms sorted_sort_send
  by (intro sorted_wrt_mset_unique [where R = send_order])
     (auto simp: mset_sort_send set_sort_send inj_on_def dest: send_order_antisym)

subsection \<open>The header\<close>

fun dedup_cookies :: "(string \<times> string) list \<Rightarrow> cookie list \<Rightarrow> cookie list" where
  "dedup_cookies seen [] = []"
| "dedup_cookies seen (c # cs) =
     (if (ck_name c, ck_path c) \<in> set seen then dedup_cookies seen cs
      else c # dedup_cookies ((ck_name c, ck_path c) # seen) cs)"

fun join_pairs :: "string list \<Rightarrow> string" where
  "join_pairs [] = []"
| "join_pairs [p] = p"
| "join_pairs (p # q # ps) = p @ ''; '' @ join_pairs (q # ps)"

definition sent_cookies :: "system_time \<Rightarrow> url \<Rightarrow> jar \<Rightarrow> cookie list" where
  "sent_cookies now u j = dedup_cookies [] (sort_send (matching_cookies u (expire_if_due now j)))"

lemma serialize_acc:
  "acc \<noteq> [] \<Longrightarrow> serialize_cookies seen acc cs =
     acc @ concat (map (\<lambda>c. ''; '' @ name_value_pair c) (dedup_cookies seen cs))"
  by (induction cs arbitrary: seen acc) (simp_all add: name_value_pair_def)

lemma join_pairs_concat: "join_pairs (p # ps) = p @ concat (map (\<lambda>q. ''; '' @ q) ps)"
  by (induction ps arbitrary: p) simp_all

lemma serialize_join: "serialize_cookies seen [] cs = join_pairs (map name_value_pair (dedup_cookies seen cs))"
  by (induction cs arbitrary: seen)
     (simp_all add: serialize_acc join_pairs_concat o_def name_value_pair_def)

lemma set_dedup: "set (dedup_cookies seen cs) \<subseteq> set cs"
  by (induction cs arbitrary: seen) auto

lemma dedup_fresh: "c \<in> set (dedup_cookies seen cs) \<Longrightarrow> (ck_name c, ck_path c) \<notin> set seen"
proof (induction cs arbitrary: seen)
  case (Cons d cs)
  from Cons.prems Cons.IH [of seen] Cons.IH [of "(ck_name d, ck_path d) # seen"] show ?case
    by (auto split: if_splits)
qed simp

lemma distinct_dedup: "distinct (map (\<lambda>c. (ck_name c, ck_path c)) (dedup_cookies seen cs))"
  by (induction cs arbitrary: seen) (auto dest: dedup_fresh)

lemma dedup_complete:
  "c \<in> set cs \<Longrightarrow> (ck_name c, ck_path c) \<in> set seen \<union> (\<lambda>c. (ck_name c, ck_path c)) ` set (dedup_cookies seen cs)"
proof (induction cs arbitrary: seen)
  case (Cons d cs)
  from Cons.prems Cons.IH [of seen] Cons.IH [of "(ck_name d, ck_path d) # seen"] show ?case
    by (auto split: if_splits)
qed simp

lemma sorted_dedup: "sorted_wrt R cs \<Longrightarrow> sorted_wrt R (dedup_cookies seen cs)"
proof (induction cs arbitrary: seen)
  case (Cons d cs)
  then show ?case using set_dedup [of "(ck_name d, ck_path d) # seen" cs] by auto
qed simp

lemma join_pairs_Nil: "join_pairs ps = [] \<longleftrightarrow> ps = [] \<or> ps = [[]]"
  by (cases ps rule: join_pairs.cases) auto

lemma name_value_pair_ne [simp]: "name_value_pair c \<noteq> []"
  by (simp add: name_value_pair_def)

lemma cookies_for_url_eq:
  "cookies_for_url now u j =
     (expire_if_due now j,
      if sent_cookies now u j = [] then None
      else Some (join_pairs (map name_value_pair (sent_cookies now u j))))"
proof (cases "matching_cookies u (expire_if_due now j) = []")
  case True
  then show ?thesis by (simp add: cookies_for_url_def sent_cookies_def sort_send_def Let_def)
next
  case False
  then obtain c cs where "sort_send (matching_cookies u (expire_if_due now j)) = c # cs"
    by (metis list.exhaust set_empty set_sort_send)
  then show ?thesis using False
    by (simp add: cookies_for_url_def sent_cookies_def serialize_join Let_def join_pairs_Nil
             del: serialize_cookies.simps)
qed

lemma set_sent_cookies:
  assumes "jar_inv j" "c \<in> set (sent_cookies now u j)"
  shows "c \<in> set (jar_values j)" "\<not> cookie_expired now c"
    "cookie_matches c (url_host_or_empty u) (url_path u) (url_scheme u = ''https'')"
proof -
  have "c \<in> set (matching_cookies u (expire_if_due now j))"
    using assms(2) set_dedup set_sort_send unfolding sent_cookies_def by blast
  then show "c \<in> set (jar_values j)" "\<not> cookie_expired now c"
    "cookie_matches c (url_host_or_empty u) (url_path u) (url_scheme u = ''https'')"
    unfolding matching_cookies_def set_filter expire_if_due_values [OF assms(1)] by simp_all
qed

lemma sent_cookies_complete:
  assumes "jar_inv j" "c \<in> set (jar_values j)" "\<not> cookie_expired now c"
    "cookie_matches c (url_host_or_empty u) (url_path u) (url_scheme u = ''https'')"
  shows "\<exists>d\<in>set (sent_cookies now u j). ck_name d = ck_name c \<and> ck_path d = ck_path c"
proof -
  have "c \<in> set (sort_send (matching_cookies u (expire_if_due now j)))"
    using assms expire_if_due_values [OF assms(1)] by (simp add: set_sort_send matching_cookies_def)
  from dedup_complete [OF this, of "[]"] show ?thesis unfolding sent_cookies_def by auto
qed

lemma split_join_pairs:
  assumes "\<And>p. p \<in> set ps \<Longrightarrow> CHR '';'' \<notin> set p" "ps \<noteq> []"
  shows "split_char CHR '';'' (join_pairs ps) = hd ps # map ((#) CHR '' '') (tl ps)"
  using assms
proof (induction ps rule: join_pairs.induct)
  case (3 p q ps)
  have semi: "CHR '';'' \<notin> set p" using 3(2) by simp
  have "split_char CHR '';'' (CHR '' '' # join_pairs (q # ps)) =
      (CHR '' '' # q) # map ((#) CHR '' '') ps"
    using 3(1) 3(2) by simp
  then show ?case using split_char_append [OF semi, of "CHR '' '' # join_pairs (q # ps)"] by simp
qed (simp_all add: split_char_single)

lemma trim_start_simps [simp]:
  "trim_start (CHR '' '' # s) = trim_start s"
  "s \<noteq> [] \<Longrightarrow> \<not> is_ascii_white (hd s) \<Longrightarrow> trim_start s = s"
  by (simp_all add: trim_start_def is_ascii_white_def) (cases s, auto simp: is_ascii_white_def)

lemma valid_name_bytes:
  "is_valid_cookie_name n \<longleftrightarrow> n \<noteq> [] \<and> (\<forall>b\<in>set n. 32 < byte b \<and> byte b \<noteq> 127
     \<and> b \<notin> {CHR 0x22, CHR '','', CHR '';'', CHR 0x5C})"
  by (auto simp: is_valid_cookie_name_def list_ex_iff byte_eq_iff [of _ "CHR 0x22", simplified]
        byte_eq_iff [of _ "CHR 0x5C", simplified] not_le)

lemma valid_value_bytes:
  "is_valid_cookie_value v \<Longrightarrow> b \<in> set v \<Longrightarrow> 32 < byte b \<and> byte b < 127 \<and> b \<noteq> CHR '';'' \<and> b \<noteq> CHR '',''"
  by (force simp: is_valid_cookie_value_def list_all_iff Let_def)

lemma valid_pair_no_semicolon:
  assumes "is_valid_cookie_name (ck_name c)" "is_valid_cookie_value (ck_value c)"
  shows "CHR '';'' \<notin> set (name_value_pair c)" "\<not> is_ascii_white (hd (name_value_pair c))"
proof -
  show "CHR '';'' \<notin> set (name_value_pair c)"
    using assms valid_value_bytes by (force simp: name_value_pair_def valid_name_bytes)
  have "ck_name c \<noteq> []" "32 < byte (hd (ck_name c))"
    using assms(1) unfolding valid_name_bytes by auto
  then show "\<not> is_ascii_white (hd (name_value_pair c))"
    by (auto simp: name_value_pair_def is_ascii_white_def)
qed

lemma header_splits_back:
  assumes "cs \<noteq> []" "\<And>c. c \<in> set cs \<Longrightarrow> is_valid_cookie_name (ck_name c) \<and> is_valid_cookie_value (ck_value c)"
  shows "map trim_start (split_char CHR '';'' (join_pairs (map name_value_pair cs))) = map name_value_pair cs"
proof -
  have "split_char CHR '';'' (join_pairs (map name_value_pair cs)) =
      hd (map name_value_pair cs) # map ((#) CHR '' '') (tl (map name_value_pair cs))"
    using assms valid_pair_no_semicolon by (intro split_join_pairs) auto
  moreover have "trim_start (name_value_pair c) = name_value_pair c" if "c \<in> set cs" for c
    using assms(2) [OF that] valid_pair_no_semicolon by simp
  ultimately show ?thesis using assms(1) by (cases cs) simp_all
qed

subsection \<open>Histories of one jar\<close>

datatype jar_op =
    OpUpdate url "string list" system_time "nat \<Rightarrow> system_time"
  | OpCookiesForUrl system_time url
  | OpAllCookies system_time
  | OpGet system_time string "string option" "string option"
  | OpSet system_time cookie
  | OpSetDefault string string
  | OpDelete string string string
  | OpClear
  | OpExpireStale system_time

fun jar_apply :: "(string \<Rightarrow> parsed_cookie option) \<Rightarrow> jar_op \<Rightarrow> jar \<times> 64 word \<Rightarrow> jar \<times> 64 word" where
  "jar_apply pe (OpUpdate u hs now clk) (j, ctr) = update_from_response pe u hs now clk (j, ctr)"
| "jar_apply pe (OpCookiesForUrl now u) (j, ctr) = (fst (cookies_for_url now u j), ctr)"
| "jar_apply pe (OpAllCookies now) (j, ctr) = (fst (all_cookies now j), ctr)"
| "jar_apply pe (OpGet now n d p) (j, ctr) = (fst (jar_get now n d p j), ctr)"
| "jar_apply pe (OpSet now c) (j, ctr) = (fst (jar_set now c j), ctr)"
| "jar_apply pe (OpSetDefault n v) (j, ctr) = fst (set_default_cookie n v (j, ctr))"
| "jar_apply pe (OpDelete n d p) (j, ctr) = (jar_delete n d p j, ctr)"
| "jar_apply pe OpClear (j, ctr) = (jar_clear j, ctr)"
| "jar_apply pe (OpExpireStale now) (j, ctr) = (expire_stale now j, ctr)"

lemma jar_get_fst: "fst (jar_get now n d p j) = expire_if_due now j"
  by (simp add: jar_get_def Let_def split: option.splits)

lemma jar_apply_inv: "jar_inv (fst s) \<Longrightarrow> jar_inv (fst (jar_apply pe op s))"
  by (cases s; cases op)
     (simp_all add: jar_op_invs cookies_for_url_eq all_cookies_def Let_def jar_get_fst)

lemma jar_history_inv_from:
  "jar_inv (fst s) \<Longrightarrow> jar_inv (fst (fold (jar_apply pe) ops s))"
  by (induction ops arbitrary: s) (simp_all add: jar_apply_inv)

subsection \<open>Reading Set-Cookie\<close>

lemma default_cookie_path_slash: "starts_with (default_cookie_path p) ''/''"
proof (cases p)
  case (Cons x xs)
  then show ?thesis
    by (auto simp: default_cookie_path_def rfind_char_Some take_Cons' split: option.splits)
qed (simp add: default_cookie_path_def)

lemma resolve_cookie_domain_scope:
  "resolve_cookie_domain parsed host = Some (d, ho) \<Longrightarrow>
   (if ho then d = host else d \<noteq> [] \<and> domain_matches host d)"
  by (auto simp: resolve_cookie_domain_def Let_def split: option.splits if_splits)

lemma whole_seconds_nonneg: "0 \<le> d \<Longrightarrow> whole_seconds d = d div int nanos_per_sec"
  by (simp add: whole_seconds_def)

lemma from_secs_min: "from_secs_d (min a b) = min (from_secs_d a) (from_secs_d b)"
  by (simp add: from_secs_d_def nat_mult_min_left)

text \<open>The expiry of a cookie: \<open>Max-Age\<close> in whole seconds, at most 400 days; else the date, if any.\<close>

lemma resolved_expiry:
  assumes "resolve_expiration parsed now = (pers, ex)"
  shows "case pc_max_age parsed of
      Some m \<Rightarrow> pers
        \<and> (if m < int nanos_per_sec then ex = Some 0
           else let age = min (m - m mod int nanos_per_sec) (int (from_secs_d (400 * 24 * 60 * 60)))
                in ex = (if now + age < time_limit then Some (now + age) else None))
    | None \<Rightarrow> (case pc_expires parsed of
        Some (ExpDateTime dt) \<Rightarrow> pers \<and> ex = Some dt
      | _ \<Rightarrow> \<not> pers \<and> ex = None)"
proof (cases "pc_max_age parsed")
  case None
  with assms show ?thesis by (auto simp: resolve_expiration_def split: option.splits expiration.splits)
next
  case (Some m)
  have pos: "0 < int nanos_per_sec" by (simp add: nanos_per_sec_def)
  show ?thesis
  proof (cases "m < int nanos_per_sec")
    case True
    then have "m < 0 \<or> whole_seconds m = 0"
      by (cases "m < 0") (simp_all add: whole_seconds_nonneg not_less div_pos_pos_trivial)
    with assms Some True show ?thesis by (auto simp: resolve_expiration_def Let_def)
  next
    case False
    then have m: "0 \<le> m" "whole_seconds m = m div int nanos_per_sec" "whole_seconds m \<noteq> 0"
      using pos by (simp_all add: whole_seconds_nonneg zdiv_eq_0_iff)
    have "int (from_secs_d (nat (whole_seconds m))) = m - m mod int nanos_per_sec"
      using m pos by (simp add: from_secs_d_def pos_imp_zdiv_nonneg_iff minus_mod_eq_div_mult)
    then have "int (from_secs_d (min (nat (whole_seconds m)) max_age_cap_secs))
        = min (m - m mod int nanos_per_sec) (int (from_secs_d (400 * 24 * 60 * 60)))"
      by (simp add: from_secs_min of_nat_min max_age_cap_secs_def)
    with assms Some False m show ?thesis
      by (auto simp: resolve_expiration_def Let_def checked_add_time_def)
  qed
qed

lemma parse_set_cookie_Some:
  assumes "parse_set_cookie pe h u host now ctr = (Some c, ctr')"
  obtains parsed where "pe h = Some parsed" "is_valid_cookie_name (pc_name parsed)"
    "ck_name c = pc_name parsed" "ck_value c = pc_value parsed"
    "resolve_cookie_domain parsed host = Some (ck_domain c, ck_host_only c)"
    "resolve_expiration parsed now = (ck_persistent c, ck_expires c)"
    "starts_with (ck_path c) ''/''" "ck_creation_index c = ctr" "ctr' = ctr + 1"
proof -
  from assms obtain parsed d ho where *: "pe h = Some parsed" "is_valid_cookie_name (pc_name parsed)"
    "resolve_cookie_domain parsed host = Some (d, ho)"
    by (auto simp: parse_set_cookie_def split: option.splits if_splits)
  obtain pers ex where e: "resolve_expiration parsed now = (pers, ex)" by fastforce
  show thesis
    by (rule that [OF *(1,2)])
       (use assms * e default_cookie_path_slash in
         \<open>auto simp: parse_set_cookie_def Let_def split: option.splits if_splits\<close>)
qed

subsection \<open>Properties\<close>

text \<open>C3: Whatever sequence of operations a jar has gone through (responses, queries, explicit
  sets, deletions, sweeps), its keys are distinct, each entry sits under the key of its own name,
  domain and path, and the cached next expiry is exactly the earliest expiry of its persistent
  cookies, or none when there is none.  The incremental updates of the cache in \<open>insert_cookie\<close> and
  \<open>remove_cookie\<close> never go stale.\<close>

theorem jar_history_invariant: "jar_inv (fst (fold (jar_apply pe) ops (jar_new, ctr)))"
  by (rule jar_history_inv_from) (simp add: jar_inv_new)

text \<open>C4: The Cookie header of a request lists cookies of the jar that are not expired, are sent over
  https only when marked Secure, match the request host exactly (host-only), as a domain suffix, or
  are default cookies, and match the path; the list is ordered by path length, then by creation, and has
  no two cookies of the same name and path.\<close>

theorem cookie_header_sound:
  assumes "jar_inv j" "cookies_for_url now u j = (j', Some hdr)"
  shows "\<exists>cs. hdr = join_pairs (map name_value_pair cs) \<and> cs \<noteq> [] \<and> sorted_wrt send_order cs
    \<and> distinct (map (\<lambda>c. (ck_name c, ck_path c)) cs)
    \<and> (\<forall>c\<in>set cs. c \<in> set (jar_values j) \<and> \<not> cookie_expired now c
        \<and> (ck_secure c \<longrightarrow> url_scheme u = ''https'')
        \<and> path_matches (url_path u) (ck_path c)
        \<and> (if ck_host_only c then eq_ignore_ascii_case (url_host_or_empty u) (ck_domain c)
           else ck_domain c = [] \<or> domain_matches (url_host_or_empty u) (ck_domain c)))"
proof (intro exI conjI ballI)
  let ?cs = "sent_cookies now u j"
  show "hdr = join_pairs (map name_value_pair ?cs)" "?cs \<noteq> []"
    using assms(2) unfolding cookies_for_url_eq by (auto split: if_splits)
  show "sorted_wrt send_order ?cs" unfolding sent_cookies_def by (intro sorted_dedup sorted_sort_send)
  show "distinct (map (\<lambda>c. (ck_name c, ck_path c)) ?cs)" unfolding sent_cookies_def by (rule distinct_dedup)
  fix c assume c: "c \<in> set ?cs"
  note sent = set_sent_cookies [OF assms(1) c]
  show "c \<in> set (jar_values j)" "\<not> cookie_expired now c" by (fact sent)+
  show "ck_secure c \<longrightarrow> url_scheme u = ''https''" "path_matches (url_path u) (ck_path c)"
    "if ck_host_only c then eq_ignore_ascii_case (url_host_or_empty u) (ck_domain c)
     else ck_domain c = [] \<or> domain_matches (url_host_or_empty u) (ck_domain c)"
    using sent(3) unfolding cookie_matches_iff by blast+
qed

definition demo_url :: url where
  "demo_url = \<lparr>url_scheme = ''https'', url_username = [], url_password = None,
     url_host_str = Some ''example.com'', url_port = None, url_port_or_known_default = Some 443,
     url_path = ''/a/b'', url_query = None, url_fragment = None, url_as_str = ''https://example.com/a/b''\<rparr>"

definition demo_cookie :: cookie where
  "demo_cookie = \<lparr>ck_name = ''sid'', ck_value = ''x1'', ck_domain = ''example.com'', ck_host_only = True,
     ck_path = ''/a'', ck_secure = True, ck_http_only = True, ck_same_site = None,
     ck_expires = Some 2000, ck_persistent = True, ck_creation_index = 7\<rparr>"

definition demo_jar :: jar where
  "demo_jar = fst (jar_set 1000 demo_cookie jar_new)"

lemma demo_jar_cookies:
  "jar_cookies demo_jar = [(cookie_key_of demo_cookie, demo_cookie)]" "jar_next_expiry demo_jar = Some 2000"
  by (simp_all add: demo_jar_def jar_set_def demo_cookie_def is_valid_cookie_name_def is_valid_cookie_value_def
       cookie_expired_def insert_cookie_def jar_new_def persistent_expiry_def)

lemma demo_jar_inv: "jar_inv demo_jar"
  by (simp add: demo_jar_def jar_set_inv jar_inv_new)

lemma demo_jar_values: "jar_values demo_jar = [demo_cookie]"
  by (simp add: demo_jar_cookies)

lemma demo_cookie_matches:
  "cookie_matches demo_cookie (url_host_or_empty demo_url) (url_path demo_url) (url_scheme demo_url = ''https'')"
  by (simp add: cookie_matches_def demo_cookie_def demo_url_def url_host_or_empty_def path_matches_def)

lemma demo_jar_query: "cookies_for_url 1500 demo_url demo_jar = (demo_jar, Some ''sid=x1'')"
proof -
  have due: "expire_if_due 1500 demo_jar = demo_jar"
    by (simp add: expire_if_due_def demo_jar_cookies)
  have "matching_cookies demo_url demo_jar = [demo_cookie]"
    using demo_cookie_matches by (simp add: matching_cookies_def demo_jar_values)
  then show ?thesis
    by (simp add: cookies_for_url_def due sort_send_def Let_def) (simp add: demo_cookie_def)
qed

theorem cookie_header_sound_witness:
  "\<exists>cs. ''sid=x1'' = join_pairs (map name_value_pair cs) \<and> cs \<noteq> []
     \<and> (\<forall>c\<in>set cs. \<not> cookie_expired 1500 c \<and> path_matches ''/a/b'' (ck_path c))"
  using cookie_header_sound [OF demo_jar_inv demo_jar_query]
  by (simp only: demo_url_def url.simps) blast

text \<open>No matching cookie is lost: every stored cookie that is not expired and matches the request
  is in the header under its name and path.\<close>

lemma cookie_header_complete:
  assumes "jar_inv j" "c \<in> set (jar_values j)" "\<not> cookie_expired now c"
    and "cookie_matches c (url_host_or_empty u) (url_path u) (url_scheme u = ''https'')"
  shows "\<exists>cs. snd (cookies_for_url now u j) = Some (join_pairs (map name_value_pair cs))
    \<and> (\<exists>d\<in>set cs. ck_name d = ck_name c \<and> ck_path d = ck_path c)"
  using sent_cookies_complete [OF assms]
  by (intro exI [of _ "sent_cookies now u j"]) (auto simp: cookies_for_url_eq)

text \<open>A cookie set explicitly is found again under its name, its domain in any ASCII case and its
  path, for as long as it is not expired; nothing else in the jar changes.\<close>

lemma cookie_set_get:
  assumes "jar_inv j" "is_valid_cookie_name (ck_name c)" "is_valid_cookie_value (ck_value c)"
    and "\<not> cookie_expired now c" "\<not> cookie_expired later c"
    and "eq_ignore_ascii_case d (ck_domain c)"
  shows "\<exists>j'. jar_set now c j = (j', Ok ()) \<and> jar_inv j'
    \<and> snd (jar_get later (ck_name c) (Some d) (Some (ck_path c)) j') = Some c
    \<and> (\<forall>k. k \<noteq> cookie_key_of c \<longrightarrow> map_of (jar_cookies j') k = map_of (jar_cookies j) k)"
proof (intro exI conjI)
  let ?j = "insert_cookie (cookie_key_of c) c j"
  show "jar_set now c j = (?j, Ok ())" using assms by (simp add: jar_set_def)
  show inv: "jar_inv ?j" by (rule insert_cookie_inv [OF assms(1) refl])
  have key: "cookie_key_new (ck_name c) d (ck_path c) = cookie_key_of c"
    using assms(6) by (simp add: cookie_key_new_def eq_ignore_ascii_case_def)
  have "map_of (jar_cookies (expire_if_due later ?j)) (cookie_key_of c) = Some c"
    using expire_if_due_keeps [OF inv _ assms(5), of "cookie_key_of c"] by (simp add: insert_cookie_lookup)
  then show "snd (jar_get later (ck_name c) (Some d) (Some (ck_path c)) ?j) = Some c"
    by (simp add: jar_get_def key)
  show "\<forall>k. k \<noteq> cookie_key_of c \<longrightarrow> map_of (jar_cookies ?j) k = map_of (jar_cookies j) k"
    by (simp add: insert_cookie_lookup)
qed

end
