(* ===== verification/Cookie_Response.thy ===== *)
theory Cookie_Response
  imports Cookie_Props
begin

text \<open>
  What a response may do to the jar, and what the header a server reads back
  looks like: the scope of an accepted cookie, the contents of the jar after a
  response, the header as the list of its pairs, and its independence of the
  iteration order of the hash map.
\<close>

subsection \<open>The contents after a response\<close>

definition last_with_key :: "cookie_key \<Rightarrow> cookie list \<Rightarrow> cookie option" where
  "last_with_key k cs = List.find (\<lambda>c. cookie_key_of c = k) (rev cs)"

lemma last_with_key_Nil [simp]: "last_with_key k [] = None"
  by (simp add: last_with_key_def)

lemma find_append: "List.find P (xs @ ys) = (case List.find P xs of None \<Rightarrow> List.find P ys | Some x \<Rightarrow> Some x)"
  by (induction xs) auto

lemma last_with_key_Cons:
  "last_with_key k (c # cs) =
     (case last_with_key k cs of Some d \<Rightarrow> Some d | None \<Rightarrow> if cookie_key_of c = k then Some c else None)"
  by (auto simp: last_with_key_def find_append split: option.splits)

lemma map_of_fold_delete: "map_of (fold AList.delete ks m) k = (if k \<in> set ks then None else map_of m k)"
  by (induction ks arbitrary: m) (auto simp: delete_conv')

lemma map_of_fold_update:
  "map_of (fold (\<lambda>c. AList.update (cookie_key_of c) c) cs m) k =
     (case last_with_key k cs of Some c \<Rightarrow> Some c | None \<Rightarrow> map_of m k)"
  by (induction cs arbitrary: m) (auto simp: last_with_key_Cons update_conv' split: option.splits)

lemma update_from_response_lookup:
  assumes "parse_headers pe u (url_host_or_empty u) clk 0 hs ctr = (parsed, ctr')"
  shows "update_from_response pe u hs now clk (j, ctr) = (j', ctr'') \<Longrightarrow>
    ctr'' = ctr' \<and> map_of (jar_cookies j') k =
      (case last_with_key k (filter (\<lambda>c. \<not> cookie_expired now c) parsed) of
         Some c \<Rightarrow> Some c
       | None \<Rightarrow> if k \<in> cookie_key_of ` {c \<in> set parsed. cookie_expired now c} then None
                 else map_of (jar_cookies j) k)"
  using assms
  by (auto simp: update_from_response_def Let_def map_of_fold_update map_of_fold_delete filter_empty_conv
           split: option.splits if_splits)

subsection \<open>Properties\<close>

text \<open>Splitting the Cookie header at its semicolons gives back exactly the pairs of the cookies
  sent, one piece per cookie: no cookie that was accepted by \<open>set\<close> can smuggle in a further pair.\<close>

lemma cookie_header_pairs:
  assumes "jar_inv j" "cookies_for_url now u j = (j', Some hdr)"
    and "\<forall>c\<in>set (jar_values j). is_valid_cookie_name (ck_name c) \<and> is_valid_cookie_value (ck_value c)"
  shows "\<exists>cs. set cs \<subseteq> set (jar_values j)
    \<and> map trim_start (split_char CHR '';'' hdr) = map name_value_pair cs"
proof (intro exI conjI)
  let ?cs = "sent_cookies now u j"
  show sub: "set ?cs \<subseteq> set (jar_values j)" using set_sent_cookies(1) [OF assms(1)] by blast
  have hdr: "hdr = join_pairs (map name_value_pair ?cs)" "?cs \<noteq> []"
    using assms(2) unfolding cookies_for_url_eq by (auto split: if_splits)
  show "map trim_start (split_char CHR '';'' hdr) = map name_value_pair ?cs"
    unfolding hdr(1) using assms(3) sub by (intro header_splits_back [OF hdr(2)]) blast
qed

text \<open>The header does not depend on the iteration order of the hash map: two jars that hold the
  same entries in different orders, with pairwise different creation indices, send the same header.\<close>

lemma cookie_header_order_free:
  assumes "mset (jar_cookies j1) = mset (jar_cookies j2)" "jar_next_expiry j1 = jar_next_expiry j2"
    and "inj_on ck_creation_index (set (jar_values j1))"
  shows "snd (cookies_for_url now u j1) = snd (cookies_for_url now u j2)"
proof -
  have due: "mset (jar_values (expire_if_due now j1)) = mset (jar_values (expire_if_due now j2))"
    "set (jar_values (expire_if_due now j1)) \<subseteq> set (jar_values j1)"
    using assms(1,2) by (auto simp: expire_if_due_def retain_fresh_filter)
  let ?m = "\<lambda>j. matching_cookies u (expire_if_due now j)"
  have "mset (?m j1) = mset (?m j2)" using due(1) by (simp add: matching_cookies_def)
  moreover have "inj_on ck_creation_index (set (?m j1))"
    using assms(3) due(2) by (auto simp: matching_cookies_def intro: inj_on_subset)
  ultimately have "sort_send (?m j1) = sort_send (?m j2)" by (rule sort_send_perm)
  then show ?thesis by (simp add: cookies_for_url_eq sent_cookies_def)
qed

definition demo_cookie2 :: cookie where
  "demo_cookie2 = demo_cookie\<lparr>ck_name := ''lang'', ck_creation_index := 3\<rparr>"

text \<open>C5: A cookie accepted from a response is in the scope of the responding host: it is host-only
  for that very host, or its domain is non-empty and the host domain-matches it; its name is valid, its
  path is absolute and it takes the next creation index.  With a \<open>Max-Age\<close> of at least a second it always
  gets an expiry, which is the asked whole seconds but at most 400 days after the clock (nothing is
  stored as an expiry only when the sum is past the end of \<open>SystemTime\<close>); with a smaller or negative one it
  expires at once.  Without \<open>Max-Age\<close> it has the \<open>Expires\<close> date, or none and ends with the session.\<close>

theorem set_cookie_scope:
  assumes "parse_set_cookie pe h u host now ctr = (Some c, ctr')"
  shows "\<exists>parsed. pe h = Some parsed \<and> ck_name c = pc_name parsed \<and> ck_value c = pc_value parsed
    \<and> is_valid_cookie_name (ck_name c) \<and> starts_with (ck_path c) ''/''
    \<and> (if ck_host_only c then ck_domain c = host
       else ck_domain c \<noteq> [] \<and> domain_matches host (ck_domain c))
    \<and> ck_creation_index c = ctr \<and> ctr' = ctr + 1
    \<and> (case pc_max_age parsed of
         Some m \<Rightarrow> ck_persistent c
           \<and> (if m < int nanos_per_sec then ck_expires c = Some 0
              else let age = min (m - m mod int nanos_per_sec) (int (from_secs_d (400 * 24 * 60 * 60)))
                   in ck_expires c = (if now + age < time_limit then Some (now + age) else None))
       | None \<Rightarrow> (case pc_expires parsed of
           Some (ExpDateTime dt) \<Rightarrow> ck_persistent c \<and> ck_expires c = Some dt
         | _ \<Rightarrow> \<not> ck_persistent c \<and> ck_expires c = None))"
proof -
  from parse_set_cookie_Some [OF assms] obtain parsed where p:
    "pe h = Some parsed" "is_valid_cookie_name (pc_name parsed)" "ck_name c = pc_name parsed"
    "ck_value c = pc_value parsed" "resolve_cookie_domain parsed host = Some (ck_domain c, ck_host_only c)"
    "resolve_expiration parsed now = (ck_persistent c, ck_expires c)"
    "starts_with (ck_path c) ''/''" "ck_creation_index c = ctr" "ctr' = ctr + 1" .
  show ?thesis
    using p resolve_cookie_domain_scope [OF p(5)] resolved_expiry [OF p(6)]
    by (intro exI [of _ parsed]) (simp split del: if_split)
qed

definition demo_parse :: "string \<Rightarrow> parsed_cookie option" where
  "demo_parse h =
     (if h = ''a=1'' then
        Some \<lparr>pc_name = ''a'', pc_value = ''1'', pc_domain = None, pc_path = None, pc_secure = None,
              pc_http_only = None, pc_same_site = None, pc_max_age = None, pc_expires = None\<rparr>
      else if h = ''a=; Max-Age=0'' then
        Some \<lparr>pc_name = ''a'', pc_value = [], pc_domain = None, pc_path = None, pc_secure = None,
              pc_http_only = None, pc_same_site = None, pc_max_age = Some 0, pc_expires = None\<rparr>
      else if h = ''a=1%3B%20evil=1'' then
        Some \<lparr>pc_name = ''a'', pc_value = ''1; evil=1'', pc_domain = None, pc_path = None, pc_secure = None,
              pc_http_only = None, pc_same_site = None, pc_max_age = None, pc_expires = None\<rparr>
      else None)"

text \<open>A cookie that asks for 500 days.\<close>

definition long_lived_parse :: "string \<Rightarrow> parsed_cookie option" where
  "long_lived_parse h =
     Some \<lparr>pc_name = ''a'', pc_value = ''1'', pc_domain = None, pc_path = None, pc_secure = None,
           pc_http_only = None, pc_same_site = None,
           pc_max_age = Some (int (from_secs_d (500 * 24 * 60 * 60))), pc_expires = None\<rparr>"

theorem set_cookie_scope_witness:
  "\<exists>c. parse_set_cookie long_lived_parse [] demo_url ''example.com'' 5 9 = (Some c, 10)
     \<and> ck_host_only c \<and> ck_domain c = ''example.com'' \<and> starts_with (ck_path c) ''/''
     \<and> ck_expires c = Some (5 + int (from_secs_d (400 * 24 * 60 * 60)))"
proof -
  obtain c where c: "parse_set_cookie long_lived_parse [] demo_url ''example.com'' 5 9 = (Some c, 10)"
      "ck_host_only c"
    by (simp add: parse_set_cookie_def long_lived_parse_def is_valid_cookie_name_def resolve_cookie_domain_def
          case_prod_beta Let_def)
  from set_cookie_scope [OF c(1)] c show ?thesis
    by (simp add: long_lived_parse_def time_defs)
qed

text \<open>What a response leaves under a key: the last live cookie its headers set there; otherwise
  nothing, if some header expired it; otherwise what was there before.  The position of the expiring
  header does not matter.\<close>

lemma response_update_lookup:
  assumes "parse_headers pe u (url_host_or_empty u) clk 0 hs ctr = (parsed, ctr')"
  shows "map_of (jar_cookies (fst (update_from_response pe u hs now clk (j, ctr)))) k =
      (case last_with_key k (filter (\<lambda>c. \<not> cookie_expired now c) parsed) of
         Some c \<Rightarrow> Some c
       | None \<Rightarrow> if k \<in> cookie_key_of ` {c \<in> set parsed. cookie_expired now c} then None
                 else map_of (jar_cookies j) k)"
  using update_from_response_lookup [OF assms, of now j "fst (update_from_response pe u hs now clk (j, ctr))"
      "snd (update_from_response pe u hs now clk (j, ctr))" k] by simp

lemmas demo_parse_simps = parse_set_cookie_def demo_parse_def is_valid_cookie_name_def
  resolve_cookie_domain_def resolve_expiration_def whole_seconds_def nanos_per_sec_def Let_def

text \<open>The order of the headers of one response is lost: after \<open>Set-Cookie: a=1\<close> followed by
  \<open>Set-Cookie: a=; Max-Age=0\<close>, the cookie the server deleted is in the jar.\<close>

lemma deleted_cookie_survives:
  "\<exists>c. map_of (jar_cookies (fst (update_from_response demo_parse demo_url
          [''a=1'', ''a=; Max-Age=0''] 5 (\<lambda>_. 5) (jar_new, 1))))
        (cookie_key_new ''a'' ''example.com'' ''/a'') = Some c \<and> ck_value c = ''1''"
  by (simp add: update_from_response_def demo_parse_simps demo_url_def url_host_or_empty_def jar_new_def
        cookie_expired_def default_cookie_path_def rfind_char_def cookie_key_new_def)

text \<open>A value that the Set-Cookie parser percent-decoded is stored without the check \<open>set\<close> makes,
  and splits the header: one stored cookie is sent as two pairs.\<close>

lemma decoded_value_splits_header:
  "snd (cookies_for_url 5 demo_url (fst (update_from_response demo_parse demo_url
      [''a=1%3B%20evil=1''] 5 (\<lambda>_. 5) (jar_new, 1)))) = Some ''a=1; evil=1''
   \<and> map trim_start (split_char CHR '';'' ''a=1; evil=1'') = [''a=1'', ''evil=1'']"
proof -
  have path: "default_cookie_path ''/a/b'' = ''/a''"
    by (simp add: default_cookie_path_def rfind_char_def)
  have "fst (update_from_response demo_parse demo_url [''a=1%3B%20evil=1''] 5 (\<lambda>_. 5) (jar_new, 1)) =
    \<lparr>jar_cookies = [(cookie_key_new ''a'' ''example.com'' ''/a'',
        \<lparr>ck_name = ''a'', ck_value = ''1; evil=1'', ck_domain = ''example.com'', ck_host_only = True,
         ck_path = ''/a'', ck_secure = False, ck_http_only = False, ck_same_site = None,
         ck_expires = None, ck_persistent = False, ck_creation_index = 1\<rparr>)], jar_next_expiry = None\<rparr>"
    by (simp add: update_from_response_def demo_parse_simps demo_url_def url_host_or_empty_def jar_new_def
          cookie_expired_def path recompute_next_expiry_def List.map_filter_def min_list_option_def)
  moreover have "map trim_start (split_char CHR '';'' ''a=1; evil=1'') = [''a=1'', ''evil=1'']"
    by code_simp
  ultimately show ?thesis
    by (simp add: cookies_for_url_def expire_if_due_def matching_cookies_def demo_url_def url_host_or_empty_def
          cookie_matches_def path_matches_def sort_send_def Let_def)
qed

end
