(* ===== verification/No_Proxy.thy ===== *)
theory No_Proxy
  imports Url_Origin
begin

text \<open>
  Proxy bypass rules (\<open>proxy/no_proxy.rs\<close> and the rule types of \<open>proxy.rs\<close>):
  the parser of a comma-separated \<open>NO_PROXY\<close> list in its native and its HTTPX
  mode, and the matching of a request's scheme, host and explicit port.
  \<open>url::Url::parse\<close> is the argument \<open>url_parse\<close>.
\<close>

datatype no_proxy_rule =
    Wildcard
  | RHost string
  | HostExact string
  | DomainSuffix string
  | HostPort string nat
  | HostPortExact string nat
  | HostPortHttpx string nat
  | IpNetwork ip_addr nat
  | Localhost
  | LocalhostExact
  | SchemeHostPort string string "nat option"

type_synonym url_parser = "string \<Rightarrow> string + url"

definition invalid_ipv6_entry :: "string \<Rightarrow> error" where
  "invalid_ipv6_entry entry =
     InvalidProxyUrl (''invalid IPv6 NO_PROXY entry: '' @ take 256 entry
       @ (if length entry > 256 then ''...'' else []))"

definition parse_httpx_ip_entry :: "string \<Rightarrow> no_proxy_rule option result" where
  "parse_httpx_ip_entry entry =
     bind_result
       (case split_once CHR ''/'' entry of
          Some (address, _) \<Rightarrow>
            if parse_ipv4 address \<noteq> None then Ok (Some (HostExact (to_ascii_lowercase address)))
            else if parse_ipv6 address \<noteq> None then Err (invalid_ipv6_entry entry)
            else Ok None
        | None \<Rightarrow> Ok None) (\<lambda>early.
     case early of
       Some r \<Rightarrow> Ok (Some r)
     | None \<Rightarrow>
         if starts_with entry ''['' then Err (invalid_ipv6_entry entry)
         else case parse_ipv4 entry of
                Some a \<Rightarrow> Ok (Some (HostExact (show_ipv4 a)))
              | None \<Rightarrow>
                 (case parse_ipv6 entry of
                    Some a \<Rightarrow> Ok (Some (RHost (show_ipv6 a)))
                  | None \<Rightarrow>
                      if count_char CHR '':'' entry > 1 then Err (invalid_ipv6_entry entry)
                      else Ok None))"

definition parse_scheme_entry :: "url_parser \<Rightarrow> string \<Rightarrow> no_proxy_rule result" where
  "parse_scheme_entry url_parse entry =
     (case url_parse entry of
        Inl _ \<Rightarrow> Err (InvalidProxyUrl (''invalid URL in NO_PROXY entry: '' @ entry))
      | Inr pat \<Rightarrow>
         (case url_host_str pat of
            None \<Rightarrow> Err (InvalidProxyUrl (''NO_PROXY URL has no host: '' @ entry))
          | Some host \<Rightarrow>
              Ok (SchemeHostPort (to_ascii_lowercase (url_scheme pat)) (to_ascii_lowercase host) (url_port pat))))"

definition parse_cidr_entry :: "string \<Rightarrow> string \<Rightarrow> string \<Rightarrow> no_proxy_rule result" where
  "parse_cidr_entry entry network_str prefix_str =
     (case parse_ip_addr network_str of
        None \<Rightarrow> Err (InvalidProxyUrl (''invalid IP network in NO_PROXY entry: '' @ entry))
      | Some network \<Rightarrow>
         (case parse_u8 prefix_str of
            None \<Rightarrow> Err (InvalidProxyUrl (''invalid CIDR prefix in NO_PROXY entry: '' @ entry))
          | Some prefix_len \<Rightarrow>
              let max_prefix = (case network of V4 _ \<Rightarrow> 32 | V6 _ \<Rightarrow> 128)
              in if prefix_len > max_prefix
                 then Err (InvalidProxyUrl (''CIDR prefix exceeds address width in NO_PROXY entry: '' @ entry))
                 else Ok (IpNetwork network prefix_len)))"

definition port_entry_error :: "string \<Rightarrow> error" where
  "port_entry_error entry = InvalidProxyUrl (''invalid port in NO_PROXY entry: '' @ entry)"

text \<open>A bracketed entry: \<open>None\<close> when the entry is not of the form \<open>[..]\<close> or \<open>[..]:port\<close>.\<close>

definition parse_bracket_entry :: "string \<Rightarrow> bool \<Rightarrow> no_proxy_rule result option" where
  "parse_bracket_entry entry exact_localhost =
     Option.bind (strip_prefix entry ''['') (\<lambda>rest.
     Option.bind (find_char CHR '']'' rest) (\<lambda>close.
     let ipv6 = take close rest; remainder = drop (close + 1) rest
     in if remainder = []
        then Some (Ok (if exact_localhost then HostExact (to_ascii_lowercase ipv6) else RHost entry))
        else Option.bind (strip_prefix remainder '':'') (\<lambda>port_str.
          Some (case parse_u16 port_str of
                  None \<Rightarrow> Err (port_entry_error entry)
                | Some port \<Rightarrow>
                    Ok (if exact_localhost then HostPortExact (''['' @ ipv6 @ '']'') port
                        else HostPort (''['' @ ipv6 @ '']'') port)))))"

definition parse_host_port_entry :: "string \<Rightarrow> bool \<Rightarrow> nat \<Rightarrow> no_proxy_rule result" where
  "parse_host_port_entry entry exact_localhost colon_pos =
     (let host = take colon_pos entry; port_str = drop (colon_pos + 1) entry
      in if host = [] \<or> count_char CHR '':'' entry > 1
         then Err (InvalidProxyUrl (''invalid NO_PROXY host/port entry: '' @ entry))
         else case parse_u16 port_str of
                None \<Rightarrow> Err (port_entry_error entry)
              | Some port \<Rightarrow> Ok (if exact_localhost then HostPortHttpx host port else HostPort host port))"

text \<open>From the plain IPv6 test on, shared by both modes.\<close>

definition parse_plain_entry :: "string \<Rightarrow> bool \<Rightarrow> no_proxy_rule result" where
  "parse_plain_entry entry exact_localhost =
     (case parse_ipv6 entry of
        Some a \<Rightarrow> Ok (RHost (show_ipv6 a))
      | None \<Rightarrow>
         (case split_once CHR ''/'' entry of
            Some (network, prefix_str) \<Rightarrow> parse_cidr_entry entry network prefix_str
          | None \<Rightarrow>
             (case parse_bracket_entry entry exact_localhost of
                Some r \<Rightarrow> r
              | None \<Rightarrow>
                 (case rfind_char CHR '':'' entry of
                    Some colon_pos \<Rightarrow> parse_host_port_entry entry exact_localhost colon_pos
                  | None \<Rightarrow>
                     (case strip_prefix entry ''.'' of
                        Some sfx \<Rightarrow>
                          if sfx = [] then Err (InvalidProxyUrl ''NO_PROXY entry cannot be just a dot'')
                          else Ok (DomainSuffix entry)
                      | None \<Rightarrow> Ok (RHost entry))))))"

definition parse_entry :: "url_parser \<Rightarrow> string \<Rightarrow> bool \<Rightarrow> no_proxy_rule result" where
  "parse_entry url_parse entry exact_localhost =
     (if entry = ''*'' then Ok Wildcard
      else if eq_ignore_ascii_case entry ''localhost''
      then Ok (if exact_localhost then LocalhostExact else Localhost)
      else if exact_localhost \<and> contains_str entry ''://'' then parse_scheme_entry url_parse entry
      else if exact_localhost
      then bind_result (parse_httpx_ip_entry entry) (\<lambda>r.
             case r of Some rule \<Rightarrow> Ok rule | None \<Rightarrow> parse_plain_entry entry exact_localhost)
      else parse_plain_entry entry exact_localhost)"

fun parse_entries :: "url_parser \<Rightarrow> bool \<Rightarrow> string list \<Rightarrow> no_proxy_rule list result" where
  "parse_entries url_parse exact_localhost [] = Ok []"
| "parse_entries url_parse exact_localhost (e # es) =
     (let entry = trim e
      in if entry = [] then parse_entries url_parse exact_localhost es
         else bind_result (parse_entry url_parse entry exact_localhost) (\<lambda>r.
              bind_result (parse_entries url_parse exact_localhost es) (\<lambda>rs. Ok (r # rs))))"

definition parse_rules :: "url_parser \<Rightarrow> string \<Rightarrow> bool \<Rightarrow> no_proxy_rule list result" where
  "parse_rules url_parse s exact_localhost = parse_entries url_parse exact_localhost (split_char CHR '','' s)"

type_synonym no_proxy = "no_proxy_rule list"

definition no_proxy_parse :: "url_parser \<Rightarrow> string \<Rightarrow> no_proxy result" where
  "no_proxy_parse url_parse s = parse_rules url_parse s False"

definition no_proxy_parse_httpx :: "url_parser \<Rightarrow> string \<Rightarrow> no_proxy result" where
  "no_proxy_parse_httpx url_parse s = parse_rules url_parse s True"

subsection \<open>Matching\<close>

definition matches_domain_suffix :: "string \<Rightarrow> string \<Rightarrow> bool" where
  "matches_domain_suffix host sfx =
     (let host_lower = to_ascii_lowercase host;
          suffix_lower = to_ascii_lowercase (trim_start_matches CHR ''.'' sfx)
      in length host_lower > length suffix_lower
         \<and> host_lower ! (length host_lower - length suffix_lower - 1) = CHR ''.''
         \<and> ends_with host_lower suffix_lower)"

definition unbracket :: "string \<Rightarrow> string" where
  "unbracket s = trim_end_matches CHR '']'' (trim_start_matches CHR ''['' s)"

definition matches_host_rule :: "string \<Rightarrow> string \<Rightarrow> bool" where
  "matches_host_rule host rule =
     (let host_lower = to_ascii_lowercase (unbracket host);
          rule_lower = to_ascii_lowercase (unbracket (trim_start_matches CHR ''.'' rule))
      in host_lower = rule_lower
         \<or> (length host_lower > length rule_lower
            \<and> host_lower ! (length host_lower - length rule_lower - 1) = CHR ''.''
            \<and> ends_with host_lower rule_lower))"

definition matches_exact_host :: "string \<Rightarrow> string \<Rightarrow> bool" where
  "matches_exact_host host rule = eq_ignore_ascii_case (unbracket host) (unbracket rule)"

text \<open>The masks are words: the shift amounts are below the width because prefix 0 is taken apart.\<close>

fun ip_in_network :: "ip_addr \<Rightarrow> ip_addr \<Rightarrow> nat \<Rightarrow> bool" where
  "ip_in_network (V4 candidate) (V4 network) n =
     (let mask = (if n = 0 then 0 else push_bit (32 - n) (- 1 :: 32 word))
      in and candidate mask = and network mask)"
| "ip_in_network (V6 candidate) (V6 network) n =
     (let mask = (if n = 0 then 0 else push_bit (128 - n) (- 1 :: 128 word))
      in and candidate mask = and network mask)"
| "ip_in_network _ _ n = False"

definition default_port_for_scheme :: "string \<Rightarrow> nat" where
  "default_port_for_scheme scheme = (if scheme = ''https'' then 443 else 80)"

definition localhost_v4 :: "32 word" where "localhost_v4 = 0x7F000001"

definition port_matches :: "string \<Rightarrow> nat option \<Rightarrow> nat \<Rightarrow> bool" where
  "port_matches scheme port p =
     (case port of Some pu \<Rightarrow> pu = p | None \<Rightarrow> default_port_for_scheme scheme = p)"

fun rule_bypasses :: "string \<Rightarrow> string \<Rightarrow> nat option \<Rightarrow> no_proxy_rule \<Rightarrow> bool" where
  "rule_bypasses scheme host port Wildcard = True"
| "rule_bypasses scheme host port Localhost =
     (let ip_host = (case Option.bind (strip_prefix host ''['') (\<lambda>v. strip_suffix v '']'') of
                       Some v \<Rightarrow> v | None \<Rightarrow> host)
      in eq_ignore_ascii_case host ''localhost''
         \<or> is_some_and (parse_ip_addr ip_host) (\<lambda>ip. ip = V4 localhost_v4 \<or> ip = V6 1))"
| "rule_bypasses scheme host port LocalhostExact = eq_ignore_ascii_case host ''localhost''"
| "rule_bypasses scheme host port (RHost h) = matches_host_rule host h"
| "rule_bypasses scheme host port (HostExact h) = matches_exact_host host h"
| "rule_bypasses scheme host port (DomainSuffix sfx) = matches_domain_suffix host sfx"
| "rule_bypasses scheme host port (HostPort h p) =
     (port_matches scheme port p
      \<and> (if starts_with h ''.'' then matches_domain_suffix host h else matches_host_rule host h))"
| "rule_bypasses scheme host port (HostPortExact h p) = (port_matches scheme port p \<and> matches_exact_host host h)"
| "rule_bypasses scheme host port (HostPortHttpx h p) = (port = Some p \<and> matches_host_rule host h)"
| "rule_bypasses scheme host port (IpNetwork network n) =
     is_some_and (parse_ip_addr (unbracket host)) (\<lambda>candidate. ip_in_network candidate network n)"
| "rule_bypasses scheme host port (SchemeHostPort rs rh rp) =
     (eq_ignore_ascii_case scheme rs \<and> eq_ignore_ascii_case host rh
      \<and> is_none_or rp (\<lambda>p. port = Some p \<or> (port = None \<and> default_port_for_scheme scheme = p)))"

fun should_bypass_components :: "no_proxy_rule list \<Rightarrow> string \<Rightarrow> string \<Rightarrow> nat option \<Rightarrow> bool" where
  "should_bypass_components [] scheme host port = False"
| "should_bypass_components (rule # rules) scheme host port =
     (if rule_bypasses scheme host port rule then True
      else should_bypass_components rules scheme host port)"

definition should_bypass :: "no_proxy \<Rightarrow> url \<Rightarrow> bool" where
  "should_bypass rules u =
     should_bypass_components rules (url_scheme u)
       (case url_host_str u of None \<Rightarrow> [] | Some h \<Rightarrow> h) (url_port u)"

subsection \<open>What the rules mean\<close>

lemma should_bypass_iff:
  "should_bypass_components rules scheme host port \<longleftrightarrow> (\<exists>r\<in>set rules. rule_bypasses scheme host port r)"
  by (induction rules) auto

lemma label_boundary:
  fixes h r :: string
  shows "length h > length r \<and> h ! (length h - length r - 1) = CHR ''.'' \<and> ends_with h r \<longleftrightarrow>
   (\<exists>sub. h = sub @ ''.'' @ r)"
proof
  assume a: "length h > length r \<and> h ! (length h - length r - 1) = CHR ''.'' \<and> ends_with h r"
  then obtain p where p: "h = p @ r" by (auto simp: ends_with_iff_suffix suffix_def)
  with a have "p \<noteq> []" "last p = CHR ''.''" by (auto simp: nth_append last_conv_nth)
  then have "h = butlast p @ ''.'' @ r" using p by (metis append_butlast_last_id append.assoc)
  then show "\<exists>sub. h = sub @ ''.'' @ r" by blast
next
  assume "\<exists>sub. h = sub @ ''.'' @ r"
  then obtain sub where "h = sub @ ''.'' @ r" by blast
  then show "length h > length r \<and> h ! (length h - length r - 1) = CHR ''.'' \<and> ends_with h r"
    using ends_with_append [of "sub @ ''.''" r] by (simp add: nth_append)
qed

text \<open>Masking with the leading ones is comparing the leading bits, at any width.\<close>

lemma mask_compare:
  fixes a b :: "'a::len word"
  assumes "0 < n" "n \<le> LENGTH('a)"
  shows "and a (push_bit (LENGTH('a) - n) (- 1)) = and b (push_bit (LENGTH('a) - n) (- 1)) \<longleftrightarrow>
    drop_bit (LENGTH('a) - n) a = drop_bit (LENGTH('a) - n) b"
    (is "?l = ?r \<longleftrightarrow> _")
proof -
  let ?k = "LENGTH('a) - n"
  have "?l = ?r \<longleftrightarrow> (\<forall>i. ?k \<le> i \<longrightarrow> bit a i = bit b i)"
    by (auto simp: bit_eq_iff bit_and_iff bit_not_iff bit_mask_iff not_less dest: bit_imp_le_length)
  also have "\<dots> \<longleftrightarrow> (\<forall>j. bit a (?k + j) = bit b (?k + j))"
    by (metis le_add1 le_add_diff_inverse)
  also have "\<dots> \<longleftrightarrow> drop_bit ?k a = drop_bit ?k b"
  proof
    assume "\<forall>j. bit a (?k + j) = bit b (?k + j)"
    then show "drop_bit ?k a = drop_bit ?k b" by (intro bit_eqI) (simp add: bit_drop_bit_eq)
  next
    assume "drop_bit ?k a = drop_bit ?k b"
    then have "bit (drop_bit ?k a) j = bit (drop_bit ?k b) j" for j by simp
    then show "\<forall>j. bit a (?k + j) = bit b (?k + j)" by (simp add: bit_drop_bit_eq)
  qed
  finally show ?thesis .
qed

fun rule_wf :: "no_proxy_rule \<Rightarrow> bool" where
  "rule_wf (IpNetwork (V4 _) n) = (n \<le> 32)"
| "rule_wf (IpNetwork (V6 _) n) = (n \<le> 128)"
| "rule_wf (HostPort h p) = (p \<le> 65535)"
| "rule_wf (HostPortExact h p) = (p \<le> 65535)"
| "rule_wf (HostPortHttpx h p) = (p \<le> 65535)"
| "rule_wf (DomainSuffix s) = (starts_with s ''.'' \<and> s \<noteq> ''.'')"
| "rule_wf _ = True"

lemma parse_u16_le: "parse_u16 s = Some p \<Longrightarrow> p \<le> 65535"
  unfolding parse_u16_def by (rule parse_unsigned_le)

lemma parse_cidr_wf: "parse_cidr_entry e ns ps = Ok r \<Longrightarrow> rule_wf r"
  by (auto simp: parse_cidr_entry_def Let_def split: option.splits ip_addr.splits if_splits)

lemma parse_bracket_wf: "parse_bracket_entry e x = Some (Ok r) \<Longrightarrow> rule_wf r"
  by (auto simp: parse_bracket_entry_def Let_def bind_eq_Some_conv parse_u16_le
           split: option.splits if_splits)

lemma parse_host_port_wf: "parse_host_port_entry e x c = Ok r \<Longrightarrow> rule_wf r"
  by (auto simp: parse_host_port_entry_def Let_def parse_u16_le split: option.splits if_splits)

lemma dot_suffix_wf: "strip_prefix e ''.'' = Some sfx \<Longrightarrow> sfx \<noteq> [] \<Longrightarrow> rule_wf (DomainSuffix e)"
  by (auto simp: strip_prefix_def split: if_splits)

lemma parse_plain_wf:
  assumes "parse_plain_entry e x = Ok r"
  shows "rule_wf r"
proof -
  consider (v6) a where "parse_ipv6 e = Some a"
    | (cidr) n p where "parse_ipv6 e = None" "split_once CHR ''/'' e = Some (n, p)"
    | (bracket) q where "parse_ipv6 e = None" "split_once CHR ''/'' e = None" "parse_bracket_entry e x = Some q"
    | (port) c where "parse_ipv6 e = None" "split_once CHR ''/'' e = None" "parse_bracket_entry e x = None"
        "rfind_char CHR '':'' e = Some c"
    | (host) "parse_ipv6 e = None" "split_once CHR ''/'' e = None" "parse_bracket_entry e x = None"
        "rfind_char CHR '':'' e = None"
    by (metis option.exhaust surj_pair)
  then show ?thesis
  proof cases
    case host
    with assms show ?thesis
      using dot_suffix_wf by (cases "strip_prefix e ''.''") (auto simp: parse_plain_entry_def simp del: split_once_None rfind_char_None split: if_splits)
  qed (use assms parse_cidr_wf parse_bracket_wf parse_host_port_wf in
       \<open>auto simp: parse_plain_entry_def simp del: split_once_None\<close>)
qed

lemma parse_httpx_ip_shape:
  assumes "parse_httpx_ip_entry e = Ok (Some r)"
  shows "(\<exists>h. r = HostExact h) \<or> (\<exists>h. r = RHost h)"
proof -
  from assms obtain early where
    e: "(case split_once CHR ''/'' e of
          Some (address, _) \<Rightarrow>
            if parse_ipv4 address \<noteq> None then Ok (Some (HostExact (to_ascii_lowercase address)))
            else if parse_ipv6 address \<noteq> None then Err (invalid_ipv6_entry e)
            else Ok None
        | None \<Rightarrow> Ok None) = Ok early"
    and r: "(case early of
       Some r \<Rightarrow> Ok (Some r)
     | None \<Rightarrow>
         if starts_with e ''['' then Err (invalid_ipv6_entry e)
         else case parse_ipv4 e of
                Some a \<Rightarrow> Ok (Some (HostExact (show_ipv4 a)))
              | None \<Rightarrow>
                 (case parse_ipv6 e of
                    Some a \<Rightarrow> Ok (Some (RHost (show_ipv6 a)))
                  | None \<Rightarrow>
                      if count_char CHR '':'' e > 1 then Err (invalid_ipv6_entry e)
                      else Ok None)) = Ok (Some r)"
    unfolding parse_httpx_ip_entry_def bind_result_Inr by blast
  have "early = None \<or> (\<exists>h. early = Some (HostExact h))"
    using e by (cases "split_once CHR ''/'' e") (auto simp del: split_once_None split: if_splits)
  then show ?thesis
    using r by (cases "parse_ipv4 e"; cases "parse_ipv6 e") (auto split: if_splits)
qed

lemma parse_httpx_ip_wf: "parse_httpx_ip_entry e = Ok (Some r) \<Longrightarrow> rule_wf r"
  by (drule parse_httpx_ip_shape) auto

lemma parse_entry_wf: "parse_entry up e x = Ok r \<Longrightarrow> rule_wf r"
  by (auto simp: parse_entry_def bind_result_Inr parse_scheme_entry_def simp del: bind_result_simps
           split: option.splits if_splits sum.splits
           dest: parse_plain_wf parse_httpx_ip_wf)

lemma parse_entries_wf: "parse_entries up x es = Ok rs \<Longrightarrow> list_all rule_wf rs"
  by (induction es arbitrary: rs)
     (auto simp: Let_def bind_result_Inr simp del: bind_result_simps split: if_splits dest: parse_entry_wf)

subsection \<open>Properties\<close>

text \<open>A host rule without a port (\<open>example.com\<close>) bypasses the proxy for the rule's host itself and for
  every host that ends in a dot and that host, ASCII case and IPv6 brackets aside; nothing matches across
  a label boundary.\<close>

lemma host_rule_label_boundary:
  "rule_bypasses scheme host port (RHost r) \<longleftrightarrow>
     (let h = to_ascii_lowercase (unbracket host);
          d = to_ascii_lowercase (unbracket (trim_start_matches CHR ''.'' r))
      in h = d \<or> (\<exists>sub. h = sub @ ''.'' @ d))"
  unfolding rule_bypasses.simps matches_host_rule_def Let_def label_boundary ..

text \<open>C6: A CIDR rule that the parser accepted has a prefix no longer than its address, and over all
  addresses it matches exactly those of the same family whose leading prefix bits agree, and none of the
  other family; in particular prefix 0 matches the whole family and nothing else, and no shift is as long
  as the word.\<close>

theorem cidr_rule_matches_prefix:
  assumes "parse_rules up s x = Ok rs" "IpNetwork net n \<in> set rs"
  shows "case net of
      V4 b \<Rightarrow> n \<le> 32 \<and> (\<forall>a. ip_in_network a net n \<longleftrightarrow>
        (\<exists>c. a = V4 c \<and> (n = 0 \<or> drop_bit (32 - n) c = drop_bit (32 - n) b)))
    | V6 b \<Rightarrow> n \<le> 128 \<and> (\<forall>a. ip_in_network a net n \<longleftrightarrow>
        (\<exists>c. a = V6 c \<and> (n = 0 \<or> drop_bit (128 - n) c = drop_bit (128 - n) b)))"
proof -
  have wf: "rule_wf (IpNetwork net n)"
    using parse_entries_wf assms unfolding parse_rules_def by (fastforce simp: list_all_iff)
  show ?thesis
  proof (cases net)
    case (V4 b)
    have "ip_in_network a (V4 b) n \<longleftrightarrow> (\<exists>c. a = V4 c \<and> (n = 0 \<or> drop_bit (32 - n) c = drop_bit (32 - n) b))"
      if "n \<le> 32" for a
      using mask_compare [of n _ b] that by (cases a; cases "n = 0") simp_all
    with V4 wf show ?thesis by simp
  next
    case (V6 b)
    have "ip_in_network a (V6 b) n \<longleftrightarrow> (\<exists>c. a = V6 c \<and> (n = 0 \<or> drop_bit (128 - n) c = drop_bit (128 - n) b))"
      if "n \<le> 128" for a
      using mask_compare [of n _ b] that by (cases a; cases "n = 0") simp_all
    with V6 wf show ?thesis by simp
  qed
qed

text \<open>\<open>10.0.0.0/8\<close> and the addresses \<open>10.1.2.255\<close> and \<open>::a00:0\<close>.\<close>

theorem cidr_rule_matches_prefix_witness:
  "(ip_in_network (V4 0x0A0102FF) (V4 0x0A000000) 8 \<longleftrightarrow>
     8 = (0::nat) \<or> drop_bit 24 (0x0A0102FF :: 32 word) = drop_bit 24 0x0A000000)
   \<and> \<not> ip_in_network (V6 0x0A000000) (V4 0x0A000000) 8"
proof -
  have ip: "parse_ip_addr ''10.0.0.0'' = Some (V4 0x0A000000)"
    by (simp add: parse_ip_addr_def ipv4_eval)
  have slash: "parse_ipv6 ''10.0.0.0/8'' = None"
    by (rule not_ip_char_None [of "CHR ''/''"]) (simp_all add: ip_char_def hex_digit_def)
  have entry: "parse_entry up ''10.0.0.0/8'' False = Ok (IpNetwork (V4 0x0A000000) 8)" for up
    by (simp add: parse_entry_def eq_ignore_ascii_case_def to_ascii_lowercase_def parse_plain_entry_def slash
          split_once_def parse_cidr_entry_def ip parse_u8_def parse_unsigned_def is_digit_def)
  have "parse_rules (\<lambda>_. Inl []) ''10.0.0.0/8'' False = Ok [IpNetwork (V4 0x0A000000) 8]"
    by (simp add: parse_rules_def entry trim_def trim_start_def is_ascii_white_def)
  from cidr_rule_matches_prefix [OF this, of "V4 0x0A000000" 8] show ?thesis by simp
qed

end
