(* ===== verification/Header_Map.thy ===== *)
theory Header_Map
  imports Errors
begin

text \<open>
  Request and response headers (\<open>headers.rs\<close>, \<open>h2_headers.rs\<close>).  The container
  \<open>http::HeaderMap\<close> and the parsers of \<open>HeaderName\<close> and \<open>HeaderValue\<close> are code
  of the \<open>http\<close> crate: they are the record \<open>H\<close> of operations every definition
  here takes first, and what the program relies on is the locale
  \<open>http_headers\<close>.  A header name inside the program is canonical: its ASCII
  letters are lowercase, as \<open>HeaderName\<close> stores it.
\<close>

record 'h http_lib =
  hm_empty :: 'h
  hm_get_all :: "'h \<Rightarrow> string \<Rightarrow> string list"
  hm_insert :: "'h \<Rightarrow> string \<Rightarrow> string \<Rightarrow> 'h"
  hm_append :: "'h \<Rightarrow> string \<Rightarrow> string \<Rightarrow> 'h"
  hm_remove :: "'h \<Rightarrow> string \<Rightarrow> 'h"
  hm_extend :: "'h \<Rightarrow> 'h \<Rightarrow> 'h"
  hm_keys :: "'h \<Rightarrow> string list"
  hm_iter :: "'h \<Rightarrow> (string \<times> string) list"
  hm_header_name :: "string \<Rightarrow> string + string"
  hm_header_value :: "string \<Rightarrow> string + string"
  hm_to_str :: "string \<Rightarrow> string + string"

text \<open>The last three: the canonical name, the accepted value, or an error text (left).\<close>

definition canonical_name :: "string \<Rightarrow> bool" where
  "canonical_name n \<longleftrightarrow> n \<noteq> [] \<and> to_ascii_lowercase n = n"

locale http_headers =
  fixes H :: "'h http_lib"
  assumes get_empty: "canonical_name n \<Longrightarrow> hm_get_all H (hm_empty H) n = []"
    and get_insert: "canonical_name n \<Longrightarrow> canonical_name m \<Longrightarrow>
          hm_get_all H (hm_insert H h n v) m = (if m = n then [v] else hm_get_all H h m)"
    and get_append: "canonical_name n \<Longrightarrow> canonical_name m \<Longrightarrow>
          hm_get_all H (hm_append H h n v) m = hm_get_all H h m @ (if m = n then [v] else [])"
    and get_remove: "canonical_name n \<Longrightarrow> canonical_name m \<Longrightarrow>
          hm_get_all H (hm_remove H h n) m = (if m = n then [] else hm_get_all H h m)"
    and get_extend: "canonical_name m \<Longrightarrow>
          hm_get_all H (hm_extend H h g) m =
            (if hm_get_all H g m = [] then hm_get_all H h m else hm_get_all H g m)"
    and keys_canonical: "n \<in> set (hm_keys H h) \<Longrightarrow> canonical_name n"
    and keys_get: "canonical_name n \<Longrightarrow> n \<in> set (hm_keys H h) \<longleftrightarrow> hm_get_all H h n \<noteq> []"
    and keys_distinct: "distinct (hm_keys H h)"
    and header_name: "hm_header_name H s = Inr n \<Longrightarrow> n = to_ascii_lowercase s \<and> s \<noteq> []"
    and header_value: "hm_header_value H s = Inr v \<Longrightarrow> v = s"

subsection \<open>The container\<close>

definition validate_header_name :: "string \<Rightarrow> unit result" where
  "validate_header_name name =
     (if name = [] then Err (InvalidHeaderName ''header name must not be empty'')
      else if CHR 0x0A \<in> set name \<or> CHR 0x0D \<in> set name
      then Err (InvalidHeaderName ''header name must not contain newlines'')
      else Ok ())"

definition validate_header_value :: "string \<Rightarrow> unit result" where
  "validate_header_value v =
     (if list_ex (\<lambda>b. (byte b < 32 \<and> byte b \<noteq> 9) \<or> byte b = 127) v
      then Err (InvalidHeaderValue ''header value must not contain control characters'')
      else Ok ())"

definition parse_header_name :: "'h http_lib \<Rightarrow> string \<Rightarrow> string result" where
  "parse_header_name H n = (case hm_header_name H n of Inl e \<Rightarrow> Err (InvalidHeaderName e) | Inr x \<Rightarrow> Ok x)"

definition parse_header_value :: "'h http_lib \<Rightarrow> string \<Rightarrow> string result" where
  "parse_header_value H v = (case hm_header_value H v of Inl e \<Rightarrow> Err (InvalidHeaderValue e) | Inr x \<Rightarrow> Ok x)"

definition headers_insert :: "'h http_lib \<Rightarrow> 'h \<Rightarrow> string \<Rightarrow> string \<Rightarrow> 'h result" where
  "headers_insert H h name v =
     bind_result (validate_header_name name) (\<lambda>_.
     bind_result (validate_header_value v) (\<lambda>_.
     bind_result (parse_header_name H name) (\<lambda>n.
     bind_result (parse_header_value H v) (\<lambda>x.
     Ok (hm_insert H h n x)))))"

definition headers_insert_raw :: "'h http_lib \<Rightarrow> 'h \<Rightarrow> string \<Rightarrow> string \<Rightarrow> 'h" where
  "headers_insert_raw H h n v = hm_insert H h n v"

definition headers_append :: "'h http_lib \<Rightarrow> 'h \<Rightarrow> string \<Rightarrow> string \<Rightarrow> 'h result" where
  "headers_append H h name v =
     bind_result (validate_header_name name) (\<lambda>_.
     bind_result (validate_header_value v) (\<lambda>_.
     bind_result (parse_header_name H name) (\<lambda>n.
     bind_result (parse_header_value H v) (\<lambda>x.
     Ok (hm_append H h n x)))))"

definition headers_get_all :: "'h http_lib \<Rightarrow> 'h \<Rightarrow> string \<Rightarrow> string list" where
  "headers_get_all H h n = hm_get_all H h n"

definition headers_get :: "'h http_lib \<Rightarrow> 'h \<Rightarrow> string \<Rightarrow> string option" where
  "headers_get H h n = (case hm_get_all H h n of [] \<Rightarrow> None | v # _ \<Rightarrow> Some v)"

definition headers_contains :: "'h http_lib \<Rightarrow> 'h \<Rightarrow> string \<Rightarrow> bool" where
  "headers_contains H h n \<longleftrightarrow> hm_get_all H h n \<noteq> []"

definition headers_remove :: "'h http_lib \<Rightarrow> 'h \<Rightarrow> string \<Rightarrow> 'h" where
  "headers_remove H h n = hm_remove H h n"

definition headers_extend :: "'h http_lib \<Rightarrow> 'h \<Rightarrow> 'h \<Rightarrow> 'h" where
  "headers_extend H h other =
     fold (\<lambda>n a. fold (\<lambda>v b. hm_append H b n v) (hm_get_all H other n) a) (hm_keys H other) h"

definition headers_extend_replacing :: "'h http_lib \<Rightarrow> 'h \<Rightarrow> 'h \<Rightarrow> 'h" where
  "headers_extend_replacing H h other =
     fold (\<lambda>n a. fold (\<lambda>v b. hm_append H b n v) (hm_get_all H other n) (hm_remove H a n)) (hm_keys H other) h"

subsection \<open>The size bound\<close>

definition max_request_header_bytes :: nat where "max_request_header_bytes = 64 * 1024"

definition usize_max :: nat where "usize_max = 18446744073709551615"

definition checked_add :: "nat \<Rightarrow> nat \<Rightarrow> nat option" where
  "checked_add a b = (if a + b \<le> usize_max then Some (a + b) else None)"

definition request_line_size :: "string \<Rightarrow> nat \<Rightarrow> nat option" where
  "request_line_size meth target_len =
     Option.bind (Option.bind (checked_add (length meth) 1) (\<lambda>s. checked_add s target_len))
       (\<lambda>s. checked_add s (1 + length ''HTTP/1.1'' + 2))"

fun add_header_sizes :: "nat \<Rightarrow> (string \<times> string) list \<Rightarrow> nat option" where
  "add_header_sizes sz [] = Some sz"
| "add_header_sizes sz ((n, v) # hs) =
     Option.bind (checked_add sz (length n + length v + 4)) (\<lambda>s. add_header_sizes s hs)"

definition validate_request_size_len :: "'h http_lib \<Rightarrow> 'h \<Rightarrow> string \<Rightarrow> nat \<Rightarrow> unit result" where
  "validate_request_size_len H h meth target_len =
     (let total = Option.bind (request_line_size meth target_len) (\<lambda>s. add_header_sizes s (hm_iter H h))
      in if is_none_or total (\<lambda>s. is_none_or (checked_add s 2) (\<lambda>t. t > max_request_header_bytes))
         then Err (RequestBuild (''request headers exceed maximum size of '' @ show_nat max_request_header_bytes @ '' bytes''))
         else Ok ())"

definition validate_request_size :: "'h http_lib \<Rightarrow> 'h \<Rightarrow> string \<Rightarrow> string \<Rightarrow> unit result" where
  "validate_request_size H h meth request_target = validate_request_size_len H h meth (length request_target)"

text \<open>
  The bytes of an HTTP/1.1 request head with these headers: the reference the
  bound is about.
\<close>

definition crlf :: string where "crlf = [CHR 0x0D, CHR 0x0A]"

definition request_head :: "string \<Rightarrow> string \<Rightarrow> (string \<times> string) list \<Rightarrow> string" where
  "request_head meth target hs =
     meth @ '' '' @ target @ '' HTTP/1.1'' @ crlf
     @ concat (map (\<lambda>p. fst p @ '': '' @ snd p @ crlf) hs) @ crlf"

subsection \<open>HTTP/2\<close>

definition h2_forbidden_headers :: "string list" where
  "h2_forbidden_headers =
     [''connection'', ''keep-alive'', ''proxy-connection'', ''transfer-encoding'', ''upgrade'']"

definition te_allowed :: "string \<Rightarrow> bool" where
  "te_allowed te = list_all (\<lambda>v. to_ascii_lowercase (trim v) = ''trailers'') (split_char CHR '','' te)"

definition strip_h2_forbidden_headers :: "'h http_lib \<Rightarrow> 'h \<Rightarrow> 'h" where
  "strip_h2_forbidden_headers H h =
     (let h1 = fold (\<lambda>n a. headers_remove H a n) h2_forbidden_headers h
      in case headers_get H h1 ''te'' of
           None \<Rightarrow> h1
         | Some te_value \<Rightarrow>
             let te_str = (case hm_to_str H te_value of Inl _ \<Rightarrow> [] | Inr s \<Rightarrow> s)
             in if te_allowed te_str then h1 else headers_remove H h1 ''te'')"

subsection \<open>The contract of the container\<close>

text \<open>
  What the clients of \<open>Headers\<close> rely on: a view of each name's values, and how
  removal and raw insertion change it.
\<close>

locale header_store =
  fixes view :: "'h \<Rightarrow> string \<Rightarrow> string list"
    and rm :: "'h \<Rightarrow> string \<Rightarrow> 'h"
    and ins :: "'h \<Rightarrow> string \<Rightarrow> string \<Rightarrow> 'h"
  assumes view_rm: "canonical_name n \<Longrightarrow> canonical_name m \<Longrightarrow> view (rm h n) m = (if m = n then [] else view h m)"
    and view_ins: "canonical_name n \<Longrightarrow> canonical_name m \<Longrightarrow> view (ins h n v) m = (if m = n then [v] else view h m)"
begin

definition rm_all :: "string list \<Rightarrow> 'h \<Rightarrow> 'h" where
  "rm_all ns h = fold (\<lambda>n a. rm a n) ns h"

lemma view_rm_all:
  assumes "\<forall>n\<in>set ns. canonical_name n" "canonical_name m"
  shows "view (rm_all ns h) m = (if m \<in> set ns then [] else view h m)"
  using assms by (induction ns arbitrary: h) (auto simp: rm_all_def view_rm)

lemma rm_all_other: "canonical_name m \<Longrightarrow> \<forall>n\<in>set ns. canonical_name n \<Longrightarrow> m \<notin> set ns \<Longrightarrow> view (rm_all ns h) m = view h m"
  by (simp add: view_rm_all)

end

sublocale http_headers \<subseteq> store: header_store "headers_get_all H" "headers_remove H" "headers_insert_raw H"
  by unfold_locales (simp_all add: headers_get_all_def headers_remove_def headers_insert_raw_def get_remove get_insert)

context http_headers
begin

lemma get_append_all:
  assumes "canonical_name n" "canonical_name m"
  shows "hm_get_all H (fold (\<lambda>v b. hm_append H b n v) vs h) m = hm_get_all H h m @ (if m = n then vs else [])"
  using assms by (induction vs arbitrary: h) (auto simp: get_append)

lemma get_extend_fold:
  assumes "canonical_name m" "\<forall>n\<in>set ns. canonical_name n" "distinct ns"
  shows "hm_get_all H (fold (\<lambda>n a. fold (\<lambda>v b. hm_append H b n v) (f n) a) ns h) m =
     hm_get_all H h m @ (if m \<in> set ns then f m else [])"
  using assms by (induction ns arbitrary: h) (auto simp: get_append_all)

lemma get_replace_fold:
  assumes "canonical_name m" "\<forall>n\<in>set ns. canonical_name n" "distinct ns"
  shows "hm_get_all H (fold (\<lambda>n a. fold (\<lambda>v b. hm_append H b n v) (f n) (hm_remove H a n)) ns h) m =
     (if m \<in> set ns then f m else hm_get_all H h m)"
  using assms by (induction ns arbitrary: h) (auto simp: get_append_all get_remove)

lemma extend_view:
  assumes "canonical_name m"
  shows "headers_get_all H (headers_extend H h g) m = headers_get_all H h m @ headers_get_all H g m"
  using assms keys_get [OF assms, of g] keys_canonical keys_distinct
  unfolding headers_get_all_def headers_extend_def by (subst get_extend_fold) auto

lemma extend_replacing_view:
  assumes "canonical_name m"
  shows "headers_get_all H (headers_extend_replacing H h g) m =
    (if headers_get_all H g m = [] then headers_get_all H h m else headers_get_all H g m)"
  using assms keys_get [OF assms, of g] keys_canonical keys_distinct
  unfolding headers_get_all_def headers_extend_replacing_def by (subst get_replace_fold) auto

lemma headers_insert_view:
  assumes "headers_insert H h n v = Ok h'" "canonical_name n" "canonical_name m"
  shows "headers_get_all H h' m = (if m = n then [v] else headers_get_all H h m)"
proof -
  from assms(1) obtain n' v' where n': "hm_header_name H n = Inr n'" "hm_header_value H v = Inr v'"
    "h' = hm_insert H h n' v'"
    by (auto simp: headers_insert_def bind_result_Inr parse_header_name_def parse_header_value_def
             simp del: bind_result_simps split: sum.splits)
  with header_name header_value assms(2) have "n' = n" "v' = v" by (auto simp: canonical_name_def)
  with n'(3) assms(2,3) show ?thesis by (simp add: headers_get_all_def get_insert)
qed

end

lemma canonical_names [simp]:
  "canonical_name ''authorization''" "canonical_name ''proxy-authorization''" "canonical_name ''cookie''"
  "canonical_name ''host''" "canonical_name ''referer''" "canonical_name ''origin''"
  "canonical_name ''content-length''" "canonical_name ''content-type''" "canonical_name ''transfer-encoding''"
  "canonical_name ''te''" "canonical_name ''connection''" "canonical_name ''keep-alive''"
  "canonical_name ''proxy-connection''" "canonical_name ''upgrade''" "canonical_name ''location''"
  "canonical_name ''set-cookie''" "canonical_name ''retry-after''"
  by (simp_all add: canonical_name_def to_ascii_lowercase_def ascii_lower_def)

lemma headers_get_view: "headers_get H h n = (case headers_get_all H h n of [] \<Rightarrow> None | v # _ \<Rightarrow> Some v)"
  by (simp add: headers_get_def headers_get_all_def)

lemma headers_contains_view: "headers_contains H h n \<longleftrightarrow> headers_get_all H h n \<noteq> []"
  by (simp add: headers_contains_def headers_get_all_def)

subsection \<open>An instance of the library\<close>

text \<open>
  A list of canonical names with their values satisfies the laws: they can be
  met, and concrete inputs of the properties below use this list.
\<close>

type_synonym header_list = "(string \<times> string) list"

definition list_http :: "header_list http_lib" where
  "list_http =
     \<lparr>hm_empty = [],
      hm_get_all = (\<lambda>h n. map snd (filter (\<lambda>p. fst p = to_ascii_lowercase n) h)),
      hm_insert = (\<lambda>h n v. filter (\<lambda>p. fst p \<noteq> to_ascii_lowercase n) h @ [(to_ascii_lowercase n, v)]),
      hm_append = (\<lambda>h n v. h @ [(to_ascii_lowercase n, v)]),
      hm_remove = (\<lambda>h n. filter (\<lambda>p. fst p \<noteq> to_ascii_lowercase n) h),
      hm_extend = (\<lambda>h g. filter (\<lambda>p. fst p \<notin> set (map fst g)) h @ g),
      hm_keys = (\<lambda>h. remdups (filter canonical_name (map fst h))),
      hm_iter = (\<lambda>h. h),
      hm_header_name = (\<lambda>s. if s = [] then Inl ''invalid HTTP header name'' else Inr (to_ascii_lowercase s)),
      hm_header_value = (\<lambda>s. Inr s),
      hm_to_str = (\<lambda>s. if list_all (\<lambda>c. 32 \<le> byte c \<and> byte c < 127 \<or> byte c = 9) s then Inr s
                       else Inl ''failed to convert header to a str'')\<rparr>"

lemma filter_name_neq: "filter (\<lambda>p. fst p \<noteq> n \<and> fst p = m) h = (if m = n then [] else filter (\<lambda>p. fst p = m) h)"
  by (induction h) auto

lemma filter_name_empty: "filter (\<lambda>p. fst p = m) h = [] \<longleftrightarrow> m \<notin> set (map fst h)"
  by (auto simp: filter_empty_conv)

lemma filter_not_in_names:
  "filter (\<lambda>p. fst p \<notin> N \<and> fst p = m) h = (if m \<in> N then [] else filter (\<lambda>p. fst p = m) h)"
  by (induction h) auto

interpretation list_headers: http_headers list_http
proof
  fix h g :: header_list and n m v s :: string
  show "canonical_name n \<Longrightarrow> hm_get_all list_http (hm_empty list_http) n = []"
    by (simp add: list_http_def)
  assume m: "canonical_name m"
  show "canonical_name n \<Longrightarrow> hm_get_all list_http (hm_insert list_http h n v) m =
      (if m = n then [v] else hm_get_all list_http h m)"
    using m by (simp add: list_http_def canonical_name_def filter_name_neq)
  show "canonical_name n \<Longrightarrow> hm_get_all list_http (hm_append list_http h n v) m =
      hm_get_all list_http h m @ (if m = n then [v] else [])"
    using m by (simp add: list_http_def canonical_name_def)
  show "canonical_name n \<Longrightarrow> hm_get_all list_http (hm_remove list_http h n) m =
      (if m = n then [] else hm_get_all list_http h m)"
    using m by (simp add: list_http_def canonical_name_def filter_name_neq)
  show "hm_get_all list_http (hm_extend list_http h g) m =
      (if hm_get_all list_http g m = [] then hm_get_all list_http h m else hm_get_all list_http g m)"
    using m filter_name_empty [of m g]
    by (simp add: list_http_def canonical_name_def filter_not_in_names)
  show "m \<in> set (hm_keys list_http h) \<longleftrightarrow> hm_get_all list_http h m \<noteq> []"
    using m filter_name_empty [of m h] by (simp add: list_http_def canonical_name_def)
next
  fix h :: header_list and n s v :: string
  show "n \<in> set (hm_keys list_http h) \<Longrightarrow> canonical_name n" by (simp add: list_http_def)
  show "distinct (hm_keys list_http h)" by (simp add: list_http_def)
  show "hm_header_name list_http s = Inr n \<Longrightarrow> n = to_ascii_lowercase s \<and> s \<noteq> []"
    by (simp add: list_http_def split: if_splits)
  show "hm_header_value list_http s = Inr v \<Longrightarrow> v = s" by (simp add: list_http_def)
qed

subsection \<open>Properties\<close>

lemma checked_add_Some: "checked_add a b = Some c \<longleftrightarrow> c = a + b \<and> a + b \<le> usize_max"
  by (auto simp: checked_add_def)

lemma add_header_sizes_Some:
  "s \<le> usize_max \<Longrightarrow> add_header_sizes s hs = Some t \<longleftrightarrow>
     t = s + sum_list (map (\<lambda>p. length (fst p) + length (snd p) + 4) hs) \<and> t \<le> usize_max"
proof (induction hs arbitrary: s)
  case (Cons p hs)
  obtain n v where p: "p = (n, v)" by fastforce
  show ?case
  proof (cases "s + (length n + length v + 4) \<le> usize_max")
    case True
    with Cons.IH [OF True] p show ?thesis by (simp add: checked_add_def algebra_simps)
  next
    case False
    with p show ?thesis by (auto simp: checked_add_def)
  qed
qed auto

lemma length_request_head:
  "length (request_head m t hs) =
     length m + 1 + length t + 11 + sum_list (map (\<lambda>p. length (fst p) + length (snd p) + 4) hs) + 2"
proof -
  have "length (concat (map (\<lambda>p. fst p @ '': '' @ snd p @ crlf) hs)) =
      sum_list (map (\<lambda>p. length (fst p) + length (snd p) + 4) hs)"
    by (induction hs) (auto simp: crlf_def)
  then show ?thesis by (simp add: request_head_def crlf_def)
qed

lemma request_line_size_Some:
  "request_line_size m n = Some s \<longleftrightarrow> s = length m + 1 + n + 11 \<and> s \<le> usize_max"
  by (auto simp: request_line_size_def checked_add_def bind_eq_Some_conv split: if_splits)

text \<open>C8: The size check of an outgoing request accepts exactly the requests whose serialized HTTP/1.1
  head, request line and closing blank line included, has at most 64 KiB; arithmetic overflow is never
  mistaken for a small request.\<close>

theorem request_size_exact:
  "validate_request_size H h meth target = Ok () \<longleftrightarrow>
     length (request_head meth target (hm_iter H h)) \<le> max_request_header_bytes"
proof -
  let ?hs = "hm_iter H h" and ?sum = "sum_list (map (\<lambda>p. length (fst p) + length (snd p) + 4) (hm_iter H h))"
  let ?n = "length meth + 1 + length target + 11"
  let ?t = "Option.bind (request_line_size meth (length target)) (\<lambda>s. add_header_sizes s ?hs)"
  have max: "max_request_header_bytes \<le> usize_max" by (simp add: max_request_header_bytes_def usize_max_def)
  have t: "?t = Some s \<longleftrightarrow> s = ?n + ?sum \<and> s \<le> usize_max" for s
    by (auto simp: bind_eq_Some_conv request_line_size_Some add_header_sizes_Some)
  have "validate_request_size H h meth target = Ok () \<longleftrightarrow>
      (\<exists>s. ?t = Some s \<and> (\<exists>r. checked_add s 2 = Some r \<and> r \<le> max_request_header_bytes))"
    by (cases ?t) (auto simp: validate_request_size_def validate_request_size_len_def Let_def
        checked_add_def split: if_splits)
  also have "\<dots> \<longleftrightarrow> ?n + ?sum + 2 \<le> max_request_header_bytes"
    unfolding t checked_add_Some using max by auto
  finally show ?thesis by (simp add: length_request_head)
qed

context http_headers
begin

lemma h2_removed:
  assumes "canonical_name m"
  shows "headers_get_all H (fold (\<lambda>n a. headers_remove H a n) h2_forbidden_headers h) m =
    (if m \<in> set h2_forbidden_headers then [] else headers_get_all H h m)"
proof -
  have "\<forall>n\<in>set h2_forbidden_headers. canonical_name n" by (simp add: h2_forbidden_headers_def)
  from store.view_rm_all [OF this assms] show ?thesis by (simp add: store.rm_all_def)
qed

lemma strip_h2_view:
  assumes "canonical_name m"
  shows "headers_get_all H (strip_h2_forbidden_headers H h) m =
    (if m \<in> set h2_forbidden_headers then []
     else if m = ''te'' \<and> (\<exists>v vs. headers_get_all H h ''te'' = v # vs
            \<and> \<not> te_allowed (case hm_to_str H v of Inl _ \<Rightarrow> [] | Inr s \<Rightarrow> s)) then []
     else headers_get_all H h m)"
proof -
  let ?h1 = "fold (\<lambda>n a. headers_remove H a n) h2_forbidden_headers h"
  have te: "headers_get_all H ?h1 ''te'' = headers_get_all H h ''te''"
    by (simp add: h2_removed) (simp add: h2_forbidden_headers_def)
  have "headers_get_all H (headers_remove H ?h1 ''te'') m = (if m = ''te'' then [] else headers_get_all H ?h1 m)"
    using assms by (simp add: store.view_rm)
  then show ?thesis
    using te h2_removed [OF assms, of h]
    by (auto simp: strip_h2_forbidden_headers_def headers_get_view Let_def split: list.splits)
qed

end

text \<open>Before an HTTP/2 dispatch no connection-specific header is left, the first \<open>TE\<close> value names
  nothing but \<open>trailers\<close>, and every other header is untouched.\<close>

lemma h2_headers_stripped:
  assumes "http_headers H"
  shows "(\<forall>m\<in>set h2_forbidden_headers. headers_get_all H (strip_h2_forbidden_headers H h) m = [])
    \<and> (\<forall>v. headers_get H (strip_h2_forbidden_headers H h) ''te'' = Some v \<longrightarrow>
         te_allowed (case hm_to_str H v of Inl _ \<Rightarrow> [] | Inr s \<Rightarrow> s))
    \<and> (\<forall>m. canonical_name m \<longrightarrow> m \<notin> set h2_forbidden_headers \<longrightarrow> m \<noteq> ''te'' \<longrightarrow>
         headers_get_all H (strip_h2_forbidden_headers H h) m = headers_get_all H h m)"
proof -
  note view = http_headers.strip_h2_view [OF assms]
  have canon: "canonical_name m" if "m \<in> set h2_forbidden_headers" for m
    using that by (auto simp: h2_forbidden_headers_def)
  have te: "''te'' \<notin> set h2_forbidden_headers" by (simp add: h2_forbidden_headers_def)
  show ?thesis
  proof (intro conjI ballI allI impI)
    fix v assume "headers_get H (strip_h2_forbidden_headers H h) ''te'' = Some v"
    then show "te_allowed (case hm_to_str H v of Inl _ \<Rightarrow> [] | Inr s \<Rightarrow> s)"
      using view [of "''te''" h] te by (auto simp: headers_get_view split: list.splits if_splits)
  qed (use view canon in auto)
qed

text \<open>Only the first \<open>TE\<close> value is looked at: a request with \<open>TE: trailers\<close> and a second \<open>TE: gzip\<close>
  keeps both on an HTTP/2 connection.\<close>

lemma h2_second_te_survives:
  "headers_get_all list_http (strip_h2_forbidden_headers list_http
      [(''te'', ''trailers''), (''te'', ''gzip'')]) ''te'' = [''trailers'', ''gzip'']"
proof -
  have "te_allowed ''trailers''"
    by (simp add: te_allowed_def trim_def trim_start_def is_ascii_white_def to_ascii_lowercase_def ascii_lower_def)
  moreover have "hm_to_str list_http ''trailers'' = Inr ''trailers''" by (simp add: list_http_def)
  moreover have "headers_get_all list_http [(''te'', ''trailers''), (''te'', ''gzip'')] ''te'' = [''trailers'', ''gzip'']"
    by (simp add: headers_get_all_def list_http_def to_ascii_lowercase_def ascii_lower_def)
  ultimately show ?thesis
    using list_headers.strip_h2_view [of "''te''"] by (simp add: h2_forbidden_headers_def)
qed

end
