(* ===== verification/Proxy_Config.thy ===== *)
theory Proxy_Config
  imports No_Proxy Header_Map
begin

text \<open>
  Proxy configuration (\<open>proxy.rs\<close>, \<open>proxy/environment.rs\<close>, the selection in
  \<open>pipeline/prepare.rs\<close> and \<open>ResolvedTarget\<close> of \<open>transport_hints.rs\<close>): the
  constructors with their URL checks, the environment snapshot, and which proxy
  a request uses.  The URL crate's parser, its removal of the user information,
  the percent decoder and base64 are the record \<open>U\<close>; a TLS configuration is its
  opaque connection identity.
\<close>

record url_lib =
  ul_parse :: "string \<Rightarrow> string + url"
  ul_without_userinfo :: "url \<Rightarrow> url"
  ul_percent_decode :: "string \<Rightarrow> string"
  ul_base64 :: "string \<Rightarrow> string"

type_synonym tls_config = nat

datatype proxy_auth = ProxyBasic string string

definition proxy_auth_basic :: "string \<Rightarrow> string \<Rightarrow> proxy_auth result" where
  "proxy_auth_basic username password =
     (if CHR '':'' \<in> set username
      then Err (InvalidProxyUrl (''proxy auth username must not contain '' @ [CHR 0x27, CHR '':'', CHR 0x27]))
      else if CHR 0x0D \<in> set username \<or> CHR 0x0A \<in> set username
      then Err (InvalidProxyUrl ''proxy auth username must not contain CR/LF'')
      else if CHR 0x0D \<in> set password \<or> CHR 0x0A \<in> set password
      then Err (InvalidProxyUrl ''proxy auth password must not contain CR/LF'')
      else if CHR 0x00 \<in> set username \<or> CHR 0x00 \<in> set password
      then Err (InvalidProxyUrl ''proxy auth credentials must not contain NUL'')
      else Ok (ProxyBasic username password))"

fun proxy_auth_header_value :: "url_lib \<Rightarrow> proxy_auth \<Rightarrow> string" where
  "proxy_auth_header_value U (ProxyBasic username password) =
     ''Basic '' @ ul_base64 U (username @ '':'' @ password)"

datatype proxy_rule = RuleAll | RuleHttp | RuleHttps

record 'h proxy_config =
  pc_uri :: url
  pc_auth :: "proxy_auth option"
  pc_proxy_headers :: 'h
  pc_proxy_tls_config :: "tls_config option"
  pc_resolved_addresses :: "socket_addr list option"

definition is_socks_scheme :: "string \<Rightarrow> bool" where
  "is_socks_scheme s \<longleftrightarrow> s = ''socks5'' \<or> s = ''socks5h''"

definition proxy_port :: "'h proxy_config \<Rightarrow> nat result" where
  "proxy_port c =
     (case url_port_or_known_default (pc_uri c) of
        Some p \<Rightarrow> Ok p
      | None \<Rightarrow>
          if is_socks_scheme (url_scheme (pc_uri c)) then Ok 1080
          else Err (InvalidProxyUrl (''proxy scheme '' @ CHR 0x22 # url_scheme (pc_uri c) @ CHR 0x22 # '' has no known default port'')))"

record 'h proxy =
  px_uri :: url
  px_auth :: "proxy_auth option"
  px_rule :: proxy_rule
  px_bypass :: "no_proxy option"
  px_proxy_headers :: 'h
  px_proxy_tls_config :: "tls_config option"
  px_resolved_addresses :: "socket_addr list option"

subsection \<open>Proxy URLs\<close>

definition has_ctl_credential :: "string \<Rightarrow> bool" where
  "has_ctl_credential s \<longleftrightarrow> CHR 0x0D \<in> set s \<or> CHR 0x0A \<in> set s \<or> CHR 0x00 \<in> set s"

definition password_or_empty :: "url \<Rightarrow> string" where
  "password_or_empty u = (case url_password u of None \<Rightarrow> [] | Some p \<Rightarrow> p)"

definition has_userinfo :: "url \<Rightarrow> bool" where
  "has_userinfo u \<longleftrightarrow> url_username u \<noteq> [] \<or> url_password u \<noteq> None"

definition check_proxy_scheme :: "url_lib \<Rightarrow> url \<Rightarrow> unit result" where
  "check_proxy_scheme U u =
     (if url_scheme u = ''http'' \<or> url_scheme u = ''https'' then
        (if has_userinfo u
         then Err (InvalidProxyUrl ''proxy URL must not contain credentials; use .auth() instead'') else Ok ())
      else if is_socks_scheme (url_scheme u) then
        (if has_ctl_credential (ul_percent_decode U (url_username u))
            \<or> has_ctl_credential (ul_percent_decode U (password_or_empty u))
         then Err (InvalidProxyUrl ''proxy auth credentials must not contain CR/LF or NUL'') else Ok ())
      else Err (InvalidProxyUrl (''unsupported proxy scheme '' @ CHR 0x27 # url_scheme u
                  @ CHR 0x27 # ''; supported: http, https, socks5, socks5h'')))"

definition parse_proxy_url :: "url_lib \<Rightarrow> string \<Rightarrow> url result" where
  "parse_proxy_url U url_str =
     (case ul_parse U url_str of
        Inl e \<Rightarrow> Err (InvalidProxyUrl (''invalid proxy URL: '' @ e))
      | Inr u \<Rightarrow>
          bind_result (check_proxy_scheme U u) (\<lambda>_.
          if url_host_str u = None \<or> url_host_str u = Some []
          then Err (InvalidProxyUrl ''proxy URL must have a host'')
          else if url_fragment u \<noteq> None
          then Err (InvalidProxyUrl ''proxy URL must not contain a fragment'')
          else if url_query u \<noteq> None
          then Err (InvalidProxyUrl ''proxy URL must not contain a query string'')
          else Ok u))"

definition proxy_with_rule :: "'h http_lib \<Rightarrow> url_lib \<Rightarrow> proxy_rule \<Rightarrow> string \<Rightarrow> 'h proxy result" where
  "proxy_with_rule H U rule s =
     bind_result (parse_proxy_url U s) (\<lambda>u.
       Ok \<lparr>px_uri = u, px_auth = None, px_rule = rule, px_bypass = None,
           px_proxy_headers = hm_empty H, px_proxy_tls_config = None, px_resolved_addresses = None\<rparr>)"

definition proxy_all :: "'h http_lib \<Rightarrow> url_lib \<Rightarrow> string \<Rightarrow> 'h proxy result" where
  "proxy_all H U s = proxy_with_rule H U RuleAll s"

definition proxy_http :: "'h http_lib \<Rightarrow> url_lib \<Rightarrow> string \<Rightarrow> 'h proxy result" where
  "proxy_http H U s = proxy_with_rule H U RuleHttp s"

definition proxy_https :: "'h http_lib \<Rightarrow> url_lib \<Rightarrow> string \<Rightarrow> 'h proxy result" where
  "proxy_https H U s = proxy_with_rule H U RuleHttps s"

definition all_compat :: "'h http_lib \<Rightarrow> url_lib \<Rightarrow> string \<Rightarrow> 'h proxy result" where
  "all_compat H U s =
     (case ul_parse U s of
        Inl e \<Rightarrow> Err (InvalidProxyUrl (''invalid proxy URL: '' @ e))
      | Inr parsed \<Rightarrow>
          let username = ul_percent_decode U (url_username parsed);
              password = ul_percent_decode U (password_or_empty parsed);
              has_auth = (username \<noteq> [] \<or> url_password parsed \<noteq> None)
          in bind_result (proxy_all H U (url_as_str (ul_without_userinfo U parsed))) (\<lambda>px.
             if has_auth
             then bind_result (proxy_auth_basic username password) (\<lambda>a. Ok (px\<lparr>px_auth := Some a\<rparr>))
             else Ok px))"

definition http_compat :: "'h http_lib \<Rightarrow> url_lib \<Rightarrow> string \<Rightarrow> 'h proxy result" where
  "http_compat H U s = bind_result (all_compat H U s) (\<lambda>px. Ok (px\<lparr>px_rule := RuleHttp\<rparr>))"

definition https_compat :: "'h http_lib \<Rightarrow> url_lib \<Rightarrow> string \<Rightarrow> 'h proxy result" where
  "https_compat H U s = bind_result (all_compat H U s) (\<lambda>px. Ok (px\<lparr>px_rule := RuleHttps\<rparr>))"

definition proxy_set_auth :: "proxy_auth \<Rightarrow> 'h proxy \<Rightarrow> 'h proxy" where
  "proxy_set_auth a px = px\<lparr>px_auth := Some a\<rparr>"

definition proxy_set_no_proxy :: "no_proxy \<Rightarrow> 'h proxy \<Rightarrow> 'h proxy" where
  "proxy_set_no_proxy np px = px\<lparr>px_bypass := Some np\<rparr>"

definition should_use_for_scheme :: "'h proxy \<Rightarrow> string \<Rightarrow> bool" where
  "should_use_for_scheme px scheme =
     (case px_rule px of RuleAll \<Rightarrow> True | RuleHttp \<Rightarrow> scheme = ''http'' | RuleHttps \<Rightarrow> scheme = ''https'')"

definition proxy_config_of :: "url_lib \<Rightarrow> 'h proxy \<Rightarrow> 'h proxy_config" where
  "proxy_config_of U px =
     (let auth = (case px_auth px of
                    Some a \<Rightarrow> Some a
                  | None \<Rightarrow>
                      if is_socks_scheme (url_scheme (px_uri px)) then
                        let username = ul_percent_decode U (url_username (px_uri px));
                            password = ul_percent_decode U (password_or_empty (px_uri px))
                        in if username \<noteq> [] \<or> password \<noteq> [] then Some (ProxyBasic username password) else None
                      else None);
          uri = (if has_userinfo (px_uri px) then ul_without_userinfo U (px_uri px) else px_uri px)
      in \<lparr>pc_uri = uri, pc_auth = auth, pc_proxy_headers = px_proxy_headers px,
          pc_proxy_tls_config = px_proxy_tls_config px, pc_resolved_addresses = px_resolved_addresses px\<rparr>)"

definition resolved_target_new :: "socket_addr list \<Rightarrow> socket_addr list result" where
  "resolved_target_new addresses =
     (if addresses = [] then Err (InvalidResolvedTarget ''resolved destination set must not be empty'')
      else Ok addresses)"

definition proxy_resolved_addresses :: "url_lib \<Rightarrow> socket_addr list \<Rightarrow> 'h proxy \<Rightarrow> 'h proxy result" where
  "proxy_resolved_addresses U addresses px =
     bind_result
       (case resolved_target_new addresses of
          Inl _ \<Rightarrow> Err (InvalidProxyUrl ''invalid resolved proxy peers: invalid resolved destination: resolved destination set must not be empty'')
        | Inr t \<Rightarrow> Ok t) (\<lambda>target.
     bind_result (proxy_port (proxy_config_of U px)) (\<lambda>expected_port.
     bind_result (validate_effective_port ResolvedProxyPeer target expected_port) (\<lambda>_.
     Ok (px\<lparr>px_resolved_addresses := Some target\<rparr>))))"

subsection \<open>The environment snapshot\<close>

record proxy_environment =
  env_http_proxy :: "string option"
  env_https_proxy :: "string option"
  env_all_proxy :: "string option"
  env_no_proxy :: "string option"

definition prefer_lowercase :: "string option \<Rightarrow> string option \<Rightarrow> string option" where
  "prefer_lowercase lower upper = (case lower of Some v \<Rightarrow> Some v | None \<Rightarrow> upper)"

text \<open>The last non-empty occurrence of a key wins, as in the loop over the pairs.\<close>

fun last_nonempty :: "string \<Rightarrow> string option \<Rightarrow> (string \<times> string) list \<Rightarrow> string option" where
  "last_nonempty key acc [] = acc"
| "last_nonempty key acc ((k, v) # vars) =
     last_nonempty key (if trim v \<noteq> [] \<and> k = key then Some (trim v) else acc) vars"

definition env_from_map :: "(string \<times> string) list \<Rightarrow> proxy_environment" where
  "env_from_map vars =
     \<lparr>env_http_proxy = prefer_lowercase (last_nonempty ''http_proxy'' None vars) (last_nonempty ''HTTP_PROXY'' None vars),
      env_https_proxy = prefer_lowercase (last_nonempty ''https_proxy'' None vars) (last_nonempty ''HTTPS_PROXY'' None vars),
      env_all_proxy = prefer_lowercase (last_nonempty ''all_proxy'' None vars) (last_nonempty ''ALL_PROXY'' None vars),
      env_no_proxy = prefer_lowercase (last_nonempty ''no_proxy'' None vars) (last_nonempty ''NO_PROXY'' None vars)\<rparr>"

definition env_is_empty :: "proxy_environment \<Rightarrow> bool" where
  "env_is_empty env \<longleftrightarrow> env_http_proxy env = None \<and> env_https_proxy env = None \<and> env_all_proxy env = None"

definition normalize_proxy_url :: "string \<Rightarrow> string" where
  "normalize_proxy_url raw =
     (let trimmed = trim raw in if contains_str trimmed ''://'' then trimmed else ''http://'' @ trimmed)"

definition env_no_proxy_rules :: "url_lib \<Rightarrow> proxy_environment \<Rightarrow> no_proxy option result" where
  "env_no_proxy_rules U env =
     (case env_no_proxy env of
        None \<Rightarrow> Ok None
      | Some raw \<Rightarrow> bind_result (no_proxy_parse (ul_parse U) raw) (\<lambda>np. Ok (Some np)))"

definition select_proxy ::
  "string \<Rightarrow> string option \<Rightarrow> string option \<Rightarrow> string option \<Rightarrow> (string \<times> proxy_rule \<times> bool) option" where
  "select_proxy scheme proxy_for_http proxy_for_https all_proxy =
     (if scheme = ''https'' then
        map_option (\<lambda>raw. (raw, RuleHttps, proxy_for_https = None)) (prefer_lowercase proxy_for_https all_proxy)
      else if scheme = ''http'' then
        map_option (\<lambda>raw. (raw, RuleHttp, proxy_for_http = None)) (prefer_lowercase proxy_for_http all_proxy)
      else None)"

definition attach_bypass :: "no_proxy option \<Rightarrow> 'h proxy \<Rightarrow> 'h proxy" where
  "attach_bypass np px = (case np of None \<Rightarrow> px | Some rules \<Rightarrow> proxy_set_no_proxy rules px)"

definition env_resolve ::
  "'h http_lib \<Rightarrow> url_lib \<Rightarrow> proxy_environment \<Rightarrow> url \<Rightarrow> 'h proxy option result" where
  "env_resolve H U env u =
     bind_result (env_no_proxy_rules U env) (\<lambda>np.
     if is_some_and np (\<lambda>rules. should_bypass rules u) then Ok None
     else case select_proxy (url_scheme u) (env_http_proxy env) (env_https_proxy env) (env_all_proxy env) of
            None \<Rightarrow> Ok None
          | Some (raw, rule, from_all) \<Rightarrow>
              let normalized = normalize_proxy_url raw
              in bind_result
                   (if from_all then all_compat H U normalized
                    else case rule of
                           RuleAll \<Rightarrow> all_compat H U normalized
                         | RuleHttp \<Rightarrow> http_compat H U normalized
                         | RuleHttps \<Rightarrow> https_compat H U normalized)
                   (\<lambda>px. Ok (Some (attach_bypass np px))))"

definition env_candidate ::
  "(string \<Rightarrow> 'h proxy result) \<Rightarrow> no_proxy option \<Rightarrow> string option \<Rightarrow> 'h proxy list result" where
  "env_candidate mk np raw =
     (case raw of
        None \<Rightarrow> Ok []
      | Some r \<Rightarrow> bind_result (mk (normalize_proxy_url r)) (\<lambda>px. Ok [attach_bypass np px]))"

definition client_proxies :: "'h http_lib \<Rightarrow> url_lib \<Rightarrow> proxy_environment \<Rightarrow> 'h proxy list result" where
  "client_proxies H U env =
     bind_result (env_no_proxy_rules U env) (\<lambda>np.
     bind_result (env_candidate (http_compat H U) np (env_http_proxy env)) (\<lambda>p1.
     bind_result (env_candidate (https_compat H U) np (env_https_proxy env)) (\<lambda>p2.
     bind_result (env_candidate (all_compat H U) np (env_all_proxy env)) (\<lambda>p3.
     Ok (p1 @ p2 @ p3)))))"

subsection \<open>Which proxy a request uses\<close>

datatype 'h proxy_override = Inherit | Direct | Override "'h proxy_config"

definition not_bypassed :: "url \<Rightarrow> 'h proxy \<Rightarrow> bool" where
  "not_bypassed u px = is_none_or (px_bypass px) (\<lambda>np. \<not> should_bypass np u)"

fun resolve_proxy ::
  "url_lib \<Rightarrow> 'h proxy option \<Rightarrow> 'h proxy list \<Rightarrow> url \<Rightarrow> 'h proxy_override \<Rightarrow> 'h proxy_config option" where
  "resolve_proxy U client_proxy env_proxies u (Override c) = Some c"
| "resolve_proxy U client_proxy env_proxies u Direct = None"
| "resolve_proxy U client_proxy env_proxies u Inherit =
     map_option (proxy_config_of U)
       (List.find (not_bypassed u)
         (filter (\<lambda>p. should_use_for_scheme p (url_scheme u))
           ((case client_proxy of None \<Rightarrow> [] | Some p \<Rightarrow> [p]) @ env_proxies)))"

definition native_would_use_proxy ::
  "'h proxy option \<Rightarrow> 'h proxy list \<Rightarrow> http_origin \<Rightarrow> nat option \<Rightarrow> bool" where
  "native_would_use_proxy client_proxy env_proxies o1 explicit_port =
     list_ex (\<lambda>p. is_none_or (px_bypass p)
                 (\<lambda>np. \<not> should_bypass_components np (scheme_as_str (ho_scheme o1)) (ho_host o1) explicit_port))
       (filter (\<lambda>p. should_use_for_scheme p (scheme_as_str (ho_scheme o1)))
         ((case client_proxy of None \<Rightarrow> [] | Some p \<Rightarrow> [p]) @ env_proxies))"

subsection \<open>Facts about the constructors\<close>

lemma all_compat_fields:
  "all_compat H U s = Ok px \<Longrightarrow> px_rule px = RuleAll \<and> px_bypass px = None"
  by (auto simp: all_compat_def proxy_all_def proxy_with_rule_def Let_def bind_result_Inr
           simp del: bind_result_simps split: sum.splits if_splits)

lemma compat_Ok:
  "http_compat H U s = Ok px \<longleftrightarrow> (\<exists>p. all_compat H U s = Ok p \<and> px = p\<lparr>px_rule := RuleHttp\<rparr>)"
  "https_compat H U s = Ok px \<longleftrightarrow> (\<exists>p. all_compat H U s = Ok p \<and> px = p\<lparr>px_rule := RuleHttps\<rparr>)"
  by (auto simp: http_compat_def https_compat_def bind_result_Inr simp del: bind_result_simps)

lemma attach_bypass_fields [simp]:
  "px_rule (attach_bypass np px) = px_rule px"
  "px_bypass px = None \<Longrightarrow> px_bypass (attach_bypass np px) = np"
  by (simp_all add: attach_bypass_def proxy_set_no_proxy_def split: option.splits)

lemma attach_not_bypassed:
  "px_bypass px = None \<Longrightarrow> not_bypassed u (attach_bypass np px) \<longleftrightarrow> \<not> is_some_and np (\<lambda>r. should_bypass r u)"
  by (cases np) (simp_all add: not_bypassed_def)

lemma http_compat_fields: "http_compat H U s = Ok px \<Longrightarrow> px_rule px = RuleHttp \<and> px_bypass px = None"
  by (auto simp: compat_Ok dest: all_compat_fields)

lemma https_compat_fields: "https_compat H U s = Ok px \<Longrightarrow> px_rule px = RuleHttps \<and> px_bypass px = None"
  by (auto simp: compat_Ok dest: all_compat_fields)

text \<open>A candidate list has at most one proxy, whose use depends on the scheme and the shared rules only.\<close>

lemma env_candidate_usable:
  assumes "env_candidate mk np raw = Ok ps"
    and "\<And>s px. mk s = Ok px \<Longrightarrow> px_rule px = rule \<and> px_bypass px = None"
  shows "filter (\<lambda>p. should_use_for_scheme p sc) ps =
      (if rule = RuleAll \<or> rule = RuleHttp \<and> sc = ''http'' \<or> rule = RuleHttps \<and> sc = ''https'' then ps else [])"
    and "p \<in> set ps \<Longrightarrow> not_bypassed u p \<longleftrightarrow> \<not> is_some_and np (\<lambda>r. should_bypass r u)"
proof -
  have ps: "\<forall>p\<in>set ps. px_rule p = rule \<and> (not_bypassed u p \<longleftrightarrow> \<not> is_some_and np (\<lambda>r. should_bypass r u))"
    using assms(1) assms(2)
    by (cases raw) (auto simp: env_candidate_def bind_result_Inr attach_not_bypassed simp del: bind_result_simps)
  then show "p \<in> set ps \<Longrightarrow> not_bypassed u p \<longleftrightarrow> \<not> is_some_and np (\<lambda>r. should_bypass r u)" by blast
  have "should_use_for_scheme p sc \<longleftrightarrow>
      rule = RuleAll \<or> rule = RuleHttp \<and> sc = ''http'' \<or> rule = RuleHttps \<and> sc = ''https''" if "p \<in> set ps" for p
    using that ps by (cases rule) (auto simp: should_use_for_scheme_def)
  then show "filter (\<lambda>p. should_use_for_scheme p sc) ps =
      (if rule = RuleAll \<or> rule = RuleHttp \<and> sc = ''http'' \<or> rule = RuleHttps \<and> sc = ''https'' then ps else [])"
    by (auto simp: filter_empty_conv filter_id_conv)
qed

lemma find_all_hold: "\<forall>x\<in>set xs. P x \<Longrightarrow> List.find P xs = (case xs of [] \<Rightarrow> None | x # _ \<Rightarrow> Some x)"
  by (cases xs) auto

lemma find_none_hold: "\<forall>x\<in>set xs. \<not> P x \<Longrightarrow> List.find P xs = None"
  by (simp add: find_None_iff)

lemma env_candidate_Ok:
  "env_candidate mk np raw = Ok ps \<longleftrightarrow>
     (case raw of None \<Rightarrow> ps = []
      | Some r \<Rightarrow> \<exists>px. mk (normalize_proxy_url r) = Ok px \<and> ps = [attach_bypass np px])"
  by (auto simp: env_candidate_def bind_result_Inr simp del: bind_result_simps split: option.splits)

lemma parse_proxy_url_checked:
  assumes "parse_proxy_url U s = Ok u"
  shows "(url_scheme u \<in> {''http'', ''https''} \<and> \<not> has_userinfo u \<or> is_socks_scheme (url_scheme u)
      \<and> \<not> has_ctl_credential (ul_percent_decode U (url_username u))
      \<and> \<not> has_ctl_credential (ul_percent_decode U (password_or_empty u)))
    \<and> (\<exists>h. url_host_str u = Some h \<and> h \<noteq> []) \<and> url_fragment u = None \<and> url_query u = None"
  using assms
  by (auto simp: parse_proxy_url_def check_proxy_scheme_def bind_result_Inr simp del: bind_result_simps
           split: sum.splits if_splits)

lemma proxy_auth_basic_checked:
  "proxy_auth_basic n p = Ok a \<Longrightarrow>
     a = ProxyBasic n p \<and> \<not> has_ctl_credential n \<and> \<not> has_ctl_credential p \<and> CHR '':'' \<notin> set n"
  by (auto simp: proxy_auth_basic_def has_ctl_credential_def split: if_splits)

text \<open>A proxy from any compat constructor carries only checked credentials.\<close>

definition proxy_checked :: "url_lib \<Rightarrow> 'h proxy \<Rightarrow> bool" where
  "proxy_checked U px \<longleftrightarrow>
     (\<forall>n p. px_auth px = Some (ProxyBasic n p) \<longrightarrow> \<not> has_ctl_credential n \<and> \<not> has_ctl_credential p)
     \<and> (is_socks_scheme (url_scheme (px_uri px)) \<longrightarrow>
          \<not> has_ctl_credential (ul_percent_decode U (url_username (px_uri px)))
          \<and> \<not> has_ctl_credential (ul_percent_decode U (password_or_empty (px_uri px))))"

lemma proxy_all_checked: "proxy_all H U s = Ok px \<Longrightarrow> proxy_checked U px \<and> px_auth px = None"
  by (auto simp: proxy_all_def proxy_with_rule_def bind_result_Inr proxy_checked_def is_socks_scheme_def
           simp del: bind_result_simps dest!: parse_proxy_url_checked)

lemma all_compat_checked:
  assumes "all_compat H U s = Ok px"
  shows "proxy_checked U px"
proof -
  from assms obtain parsed p where p: "proxy_all H U (url_as_str (ul_without_userinfo U parsed)) = Ok p"
    and px: "px = p \<or> (\<exists>n q a. proxy_auth_basic n q = Ok a \<and> px = p\<lparr>px_auth := Some a\<rparr>)"
    by (auto simp: all_compat_def Let_def bind_result_Inr simp del: bind_result_simps
             split: sum.splits if_splits) blast+
  from px proxy_all_checked [OF p] show ?thesis
    by (auto simp: proxy_checked_def dest!: proxy_auth_basic_checked)
qed

lemma proxy_config_credentials:
  assumes "proxy_checked U px" "pc_auth (proxy_config_of U px) = Some (ProxyBasic n p)"
  shows "\<not> has_ctl_credential n \<and> \<not> has_ctl_credential p"
  using assms by (auto simp: proxy_checked_def proxy_config_of_def Let_def split: option.splits if_splits)

subsection \<open>Properties\<close>

text \<open>C7: Resolving the proxy of a URL from the environment and handing the environment's proxies to the
  client lead to the same proxy: when every configured proxy is valid, the client picks for an http or https
  request exactly the proxy (or the direct route) that the environment resolves.\<close>

theorem environment_routes_agree:
  assumes "client_proxies H U env = Ok ps" "url_scheme u = ''http'' \<or> url_scheme u = ''https''"
  shows "\<exists>r. env_resolve H U env u = Ok r
    \<and> resolve_proxy U None ps u Inherit = map_option (proxy_config_of U) r"
proof -
  from assms(1) obtain np p1 p2 p3 where np: "env_no_proxy_rules U env = Ok np"
    and p: "env_candidate (http_compat H U) np (env_http_proxy env) = Ok p1"
      "env_candidate (https_compat H U) np (env_https_proxy env) = Ok p2"
      "env_candidate (all_compat H U) np (env_all_proxy env) = Ok p3" and ps: "ps = p1 @ p2 @ p3"
    unfolding client_proxies_def bind_result_Inr by auto
  note use = env_candidate_usable(1) [OF p(1) http_compat_fields] env_candidate_usable(1) [OF p(2) https_compat_fields]
    env_candidate_usable(1) [OF p(3) all_compat_fields]
  have byp: "\<forall>x\<in>set ps. not_bypassed u x \<longleftrightarrow> \<not> is_some_and np (\<lambda>r. should_bypass r u)"
    using env_candidate_usable(2) [OF p(1) http_compat_fields] env_candidate_usable(2) [OF p(2) https_compat_fields]
      env_candidate_usable(2) [OF p(3) all_compat_fields] unfolding ps by auto
  let ?cs = "filter (\<lambda>x. should_use_for_scheme x (url_scheme u)) ps"
  have cs: "?cs = (if url_scheme u = ''http'' then p1 @ p3 else p2 @ p3)"
    using assms(2) by (auto simp: ps use)
  show ?thesis
  proof (cases "is_some_and np (\<lambda>r. should_bypass r u)")
    case True
    with byp have "List.find (not_bypassed u) ?cs = None" by (intro find_none_hold) auto
    with True np show ?thesis by (simp add: env_resolve_def)
  next
    case False
    with byp have "List.find (not_bypassed u) ?cs = (case ?cs of [] \<Rightarrow> None | x # _ \<Rightarrow> Some x)"
      by (intro find_all_hold) auto
    with False np show ?thesis
      using assms(2) p [unfolded env_candidate_Ok]
      by (auto simp: env_resolve_def cs select_proxy_def prefer_lowercase_def split: option.splits)
  qed
qed

text \<open>A proxy built from an environment value or a URL with embedded credentials never carries a CR,
  LF or NUL into its authentication, whether the credentials come from the URL's user information or are
  decoded from a SOCKS URL; and once the URL library removes the user information, the configuration handed
  to the transports has none in its URI.\<close>

lemma proxy_credentials_clean:
  assumes "all_compat H U s = Ok px"
    and "\<And>u. \<not> has_userinfo (ul_without_userinfo U u)"
  shows "\<not> has_userinfo (pc_uri (proxy_config_of U px))
    \<and> (\<forall>n p. pc_auth (proxy_config_of U px) = Some (ProxyBasic n p) \<longrightarrow>
          \<not> has_ctl_credential n \<and> \<not> has_ctl_credential p)"
  using proxy_config_credentials [OF all_compat_checked [OF assms(1)]] assms(2)
  by (auto simp: proxy_config_of_def Let_def)

definition demo_proxy_url :: url where
  "demo_proxy_url = \<lparr>url_scheme = ''http'', url_username = ''u'', url_password = Some ''p'',
     url_host_str = Some ''proxy'', url_port = Some 8080, url_port_or_known_default = Some 8080,
     url_path = ''/'', url_query = None, url_fragment = None, url_as_str = ''http://u:p@proxy:8080/''\<rparr>"

definition demo_url_lib :: url_lib where
  "demo_url_lib =
     \<lparr>ul_parse = (\<lambda>s. if s = ''http://u:p@proxy:8080/'' then Inr demo_proxy_url
                      else Inr (demo_proxy_url\<lparr>url_username := [], url_password := None,
                                               url_as_str := ''http://proxy:8080/''\<rparr>)),
      ul_without_userinfo = (\<lambda>u. u\<lparr>url_username := [], url_password := None, url_as_str := ''http://proxy:8080/''\<rparr>),
      ul_percent_decode = (\<lambda>s. s), ul_base64 = (\<lambda>s. s)\<rparr>"

lemma demo_all_compat:
  "\<exists>px. all_compat list_http demo_url_lib ''http://u:p@proxy:8080/'' = Ok px \<and> px_auth px = Some (ProxyBasic ''u'' ''p'')"
  by (simp add: all_compat_def demo_url_lib_def demo_proxy_url_def password_or_empty_def proxy_all_def
        proxy_with_rule_def parse_proxy_url_def check_proxy_scheme_def has_userinfo_def proxy_auth_basic_def Let_def)

definition demo_env :: proxy_environment where
  "demo_env = env_from_map [(''HTTPS_PROXY'', ''http://u:p@proxy:8080/''), (''no_proxy'', '' * '')]"

theorem environment_routes_agree_witness:
  "\<exists>r. env_resolve list_http demo_url_lib demo_env demo_proxy_url = Ok r
     \<and> (\<exists>ps. client_proxies list_http demo_url_lib demo_env = Ok ps
          \<and> resolve_proxy demo_url_lib None ps demo_proxy_url Inherit = map_option (proxy_config_of demo_url_lib) r)"
proof -
  obtain px where px: "all_compat list_http demo_url_lib ''http://u:p@proxy:8080/'' = Ok px"
    using demo_all_compat by blast
  have env: "demo_env = \<lparr>env_http_proxy = None, env_https_proxy = Some ''http://u:p@proxy:8080/'',
      env_all_proxy = None, env_no_proxy = Some ''*''\<rparr>"
    by (simp add: demo_env_def env_from_map_def prefer_lowercase_def trim_def trim_start_def is_ascii_white_def)
  have "\<exists>ps. client_proxies list_http demo_url_lib demo_env = Ok ps"
    by (simp add: client_proxies_def env env_no_proxy_rules_def no_proxy_parse_def parse_rules_def parse_entry_def
          trim_def trim_start_def is_ascii_white_def env_candidate_def https_compat_def normalize_proxy_url_def px)
  then obtain ps where ps: "client_proxies list_http demo_url_lib demo_env = Ok ps" by blast
  from environment_routes_agree [OF ps, of demo_proxy_url] ps show ?thesis
    by (simp add: demo_proxy_url_def)
qed

end
