(* ===== verification/Request_Model.thy ===== *)
theory Request_Model
  imports Proxy_Config
begin

text \<open>
  The data that travels through the request pipeline: timeouts
  (\<open>timeout.rs\<close>), request bodies (\<open>body.rs\<close>), authentication (\<open>auth.rs\<close>),
  transport hints (\<open>transport_hints.rs\<close>), the redirect and retry policies as
  records, requests (\<open>request.rs\<close>), responses and the client configuration the
  pipeline reads (\<open>client/config.rs\<close>).  The type \<open>'h\<close> is the header container,
  \<open>'f\<close> the floating-point numbers of the backoff factor; a decompression ratio
  is only passed along, as its bit pattern.
\<close>

subsection \<open>Timeouts\<close>

record timeout =
  to_pool :: "duration option"
  to_connect :: "duration option"
  to_write :: "duration option"
  to_read :: "duration option"
  to_total :: "duration option"

definition timeout_default :: timeout where
  "timeout_default = \<lparr>to_pool = None, to_connect = None, to_write = None, to_read = None, to_total = None\<rparr>"

definition timeout_phases :: "duration \<Rightarrow> timeout" where
  "timeout_phases d = \<lparr>to_pool = Some d, to_connect = Some d, to_write = Some d, to_read = Some d, to_total = None\<rparr>"

definition timeout_from_secs :: "nat \<Rightarrow> timeout" where
  "timeout_from_secs s = timeout_phases (from_secs_d s)"

definition timeout_compat :: timeout where "timeout_compat = timeout_phases (from_secs_d 5)"

definition timeout_native :: timeout where "timeout_native = timeout_phases (from_secs_d 30)"

definition or_else :: "'a option \<Rightarrow> 'a option \<Rightarrow> 'a option" where
  "or_else a b = (case a of Some v \<Rightarrow> Some v | None \<Rightarrow> b)"

definition timeout_merge :: "timeout \<Rightarrow> timeout option \<Rightarrow> timeout" where
  "timeout_merge self ov =
     (case ov of
        Some req \<Rightarrow>
          \<lparr>to_pool = or_else (to_pool req) (to_pool self),
           to_connect = or_else (to_connect req) (to_connect self),
           to_write = or_else (to_write req) (to_write self),
           to_read = or_else (to_read req) (to_read self),
           to_total = or_else (to_total req) (to_total self)\<rparr>
      | None \<Rightarrow> self)"

definition timeout_has_any :: "timeout \<Rightarrow> bool" where
  "timeout_has_any t \<longleftrightarrow> to_pool t \<noteq> None \<or> to_connect t \<noteq> None \<or> to_write t \<noteq> None
     \<or> to_read t \<noteq> None \<or> to_total t \<noteq> None"

text \<open>\<open>saturating_add_instant\<close>: on overflow ten years out, and the base itself as a last resort.\<close>

definition saturating_add_instant :: "instant \<Rightarrow> duration \<Rightarrow> instant" where
  "saturating_add_instant base d =
     (case checked_add_time base d of
        Some t \<Rightarrow> t
      | None \<Rightarrow> (case checked_add_time base (from_secs_d (86400 * 365 * 10)) of Some t \<Rightarrow> t | None \<Rightarrow> base))"

definition duration_since :: "instant \<Rightarrow> instant \<Rightarrow> duration" where
  "duration_since later earlier = nat (later - earlier)"

definition duration_checked_add :: "duration \<Rightarrow> duration \<Rightarrow> duration option" where
  "duration_checked_add a b = (if a + b \<le> duration_max then Some (a + b) else None)"

subsection \<open>Bodies\<close>

datatype request_body = BodyEmpty | BodyBytes string | BodyStream nat "nat option"

datatype replay_class = Immutable | Seekable | OneShot | Consumed

fun body_is_empty :: "request_body \<Rightarrow> bool" where
  "body_is_empty BodyEmpty = True"
| "body_is_empty (BodyBytes b) = (b = [])"
| "body_is_empty (BodyStream s n) = False"

fun body_len :: "request_body \<Rightarrow> nat" where
  "body_len BodyEmpty = 0"
| "body_len (BodyBytes b) = length b"
| "body_len (BodyStream s n) = (case n of None \<Rightarrow> 0 | Some k \<Rightarrow> k)"

fun body_has_known_length :: "request_body \<Rightarrow> bool" where
  "body_has_known_length (BodyStream s n) = (n \<noteq> None)"
| "body_has_known_length _ = True"

fun body_is_replayable :: "request_body \<Rightarrow> bool" where
  "body_is_replayable (BodyStream s n) = False"
| "body_is_replayable _ = True"

fun body_replay_class :: "request_body \<Rightarrow> replay_class" where
  "body_replay_class (BodyStream s n) = OneShot"
| "body_replay_class _ = Immutable"

fun try_clone_for_redirect :: "request_body \<Rightarrow> request_body result" where
  "try_clone_for_redirect (BodyStream s n) = Err BodyNotReplayableForRedirect"
| "try_clone_for_redirect b = Ok b"

fun try_clone_for_retry :: "request_body \<Rightarrow> request_body result" where
  "try_clone_for_retry (BodyStream s n) = Err BodyNotReplayableForRetry"
| "try_clone_for_retry b = Ok b"

subsection \<open>Authentication\<close>

datatype auth_scheme = AuthBasic string string | AuthBearer string

definition validate_auth_bytes :: "string \<Rightarrow> string \<Rightarrow> unit result" where
  "validate_auth_bytes bytes field_name =
     (if CHR 0x0D \<in> set bytes then Err (InvalidAuthHeader (''auth '' @ field_name @ '' must not contain CR''))
      else if CHR 0x0A \<in> set bytes then Err (InvalidAuthHeader (''auth '' @ field_name @ '' must not contain LF''))
      else Ok ())"

definition auth_basic :: "string \<Rightarrow> string \<Rightarrow> auth_scheme result" where
  "auth_basic username password =
     (if CHR '':'' \<in> set username
      then Err (InvalidAuthHeader (''basic auth username must not contain '' @ [CHR 0x27, CHR '':'', CHR 0x27]))
      else bind_result (validate_auth_bytes username ''username'') (\<lambda>_.
           bind_result (validate_auth_bytes password ''password'') (\<lambda>_.
           Ok (AuthBasic username password))))"

definition auth_bearer :: "'h http_lib \<Rightarrow> string \<Rightarrow> auth_scheme result" where
  "auth_bearer H token =
     bind_result (validate_auth_bytes token ''token'') (\<lambda>_.
       case hm_header_value H (''Bearer '' @ token) of
         Inl _ \<Rightarrow> Err (InvalidAuthHeader ''auth token must contain only characters valid in an HTTP header'')
       | Inr _ \<Rightarrow> Ok (AuthBearer token))"

fun auth_header_value :: "url_lib \<Rightarrow> auth_scheme \<Rightarrow> string" where
  "auth_header_value U (AuthBasic u p) = ''Basic '' @ ul_base64 U (u @ '':'' @ p)"
| "auth_header_value U (AuthBearer t) = ''Bearer '' @ t"

definition auth_apply :: "'h http_lib \<Rightarrow> url_lib \<Rightarrow> auth_scheme \<Rightarrow> 'h \<Rightarrow> 'h result" where
  "auth_apply H U a h = headers_insert H h ''authorization'' (auth_header_value U a)"

definition resolve_request_auth ::
  "'h http_lib \<Rightarrow> auth_scheme option \<Rightarrow> bool \<Rightarrow> auth_scheme option \<Rightarrow> 'h \<Rightarrow> auth_scheme option result" where
  "resolve_request_auth H request_auth request_auth_disabled client_auth h =
     (if headers_contains H h ''authorization'' then
        (if request_auth \<noteq> None \<or> client_auth \<noteq> None
         then Err (ConflictingAuth ''explicit Authorization header conflicts with configured auth; use .auth() or remove the header, but not both'')
         else Ok None)
      else case request_auth of
             Some a \<Rightarrow> Ok (Some a)
           | None \<Rightarrow> if request_auth_disabled then Ok None else Ok client_auth)"

subsection \<open>Policies, requests and responses\<close>

datatype downgrade_policy = Allow | Deny

record redirect_policy =
  rp_follow :: bool
  rp_max_redirects :: nat
  rp_downgrade :: downgrade_policy

definition redirect_policy_default :: redirect_policy where
  "redirect_policy_default = \<lparr>rp_follow = False, rp_max_redirects = 20, rp_downgrade = Allow\<rparr>"

definition redirect_policy_new :: "bool \<Rightarrow> nat \<Rightarrow> redirect_policy" where
  "redirect_policy_new follow max_redirects = \<lparr>rp_follow = follow, rp_max_redirects = max_redirects, rp_downgrade = Allow\<rparr>"

definition redirect_policy_strict :: "nat \<Rightarrow> redirect_policy" where
  "redirect_policy_strict max_redirects = \<lparr>rp_follow = True, rp_max_redirects = max_redirects, rp_downgrade = Deny\<rparr>"

record 'f backoff_policy =
  bo_factor :: 'f
  bo_max_delay :: duration
  bo_initial_delay :: duration

record 'f retry_policy =
  ry_max_attempts :: nat
  ry_max_elapsed :: "duration option"
  ry_backoff :: "'f backoff_policy"
  ry_methods :: "string list"
  ry_statuses :: "nat list"
  ry_respect_retry_after :: bool

datatype http_version = Http09 | Http10 | Http11 | Http2 | Http3

record transport_hints =
  th_target :: "string option"
  th_sni_hostname :: "string option"
  th_resolved_target :: "socket_addr list option"
  th_trace :: "nat option"

definition hints_default :: transport_hints where
  "hints_default = \<lparr>th_target = None, th_sni_hostname = None, th_resolved_target = None, th_trace = None\<rparr>"

record ('h, 'f) request =
  rq_method :: string
  rq_url :: url
  rq_headers :: 'h
  rq_body :: request_body
  rq_version :: http_version
  rq_timeout :: "timeout option"
  rq_redirect :: "redirect_policy option"
  rq_auth :: "auth_scheme option"
  rq_auth_disabled :: bool
  rq_decompress :: "bool option"
  rq_max_decoded_body_size :: "nat option"
  rq_max_decompression_ratio :: "64 word option"
  rq_proxy_override :: "'h proxy_override"
  rq_retry :: "'f retry_policy option"
  rq_transport_hints :: transport_hints
  rq_proxied_target :: "socket_addr list option"
  rq_failure_context :: "nat option"

definition request_new :: "'h http_lib \<Rightarrow> string \<Rightarrow> url \<Rightarrow> ('h, 'f) request" where
  "request_new H meth u =
     \<lparr>rq_method = meth, rq_url = u, rq_headers = hm_empty H, rq_body = BodyEmpty, rq_version = Http11,
      rq_timeout = None, rq_redirect = None, rq_auth = None, rq_auth_disabled = False, rq_decompress = None,
      rq_max_decoded_body_size = None, rq_max_decompression_ratio = None, rq_proxy_override = Inherit,
      rq_retry = None, rq_transport_hints = hints_default, rq_proxied_target = None, rq_failure_context = None\<rparr>"

text \<open>\<open>retry_request\<close>: a fresh request for one attempt, every field copied but the timeout.\<close>

definition retry_request :: "'h http_lib \<Rightarrow> ('h, 'f) request \<Rightarrow> timeout option \<Rightarrow> ('h, 'f) request result" where
  "retry_request H saved attempt_timeout =
     bind_result (try_clone_for_retry (rq_body saved)) (\<lambda>replayed.
       Ok ((request_new H (rq_method saved) (rq_url saved))
            \<lparr>rq_headers := rq_headers saved, rq_body := replayed, rq_version := rq_version saved,
             rq_timeout := attempt_timeout, rq_redirect := rq_redirect saved, rq_auth := rq_auth saved,
             rq_auth_disabled := rq_auth_disabled saved, rq_decompress := rq_decompress saved,
             rq_max_decoded_body_size := rq_max_decoded_body_size saved,
             rq_max_decompression_ratio := rq_max_decompression_ratio saved,
             rq_proxy_override := rq_proxy_override saved, rq_retry := rq_retry saved,
             rq_transport_hints := rq_transport_hints saved, rq_proxied_target := rq_proxied_target saved,
             rq_failure_context := rq_failure_context saved\<rparr>))"

definition shrink_total_deadline :: "timeout \<Rightarrow> duration \<Rightarrow> timeout" where
  "shrink_total_deadline t elapsed = t\<lparr>to_total := map_option (\<lambda>t. t - elapsed) (to_total t)\<rparr>"

record 'h history_entry =
  he_status :: nat
  he_url :: url
  he_headers :: 'h

record 'h response =
  rs_status :: nat
  rs_url :: url
  rs_headers :: 'h
  rs_history :: "'h history_entry list"

record ('h, 'f) client_config =
  cc_default_headers :: 'h
  cc_timeout :: "timeout option"
  cc_redirect :: redirect_policy
  cc_auth :: "auth_scheme option"
  cc_retry :: "'f retry_policy option"

subsection \<open>Facts\<close>

lemma retry_request_same:
  "body_is_replayable (rq_body saved) \<Longrightarrow> retry_request H saved t = Ok (saved\<lparr>rq_timeout := t\<rparr>)"
  by (cases "rq_body saved") (simp_all add: retry_request_def request_new_def)

lemma try_clone_for_redirect_Ok: "try_clone_for_redirect b = Ok c \<longleftrightarrow> c = b \<and> body_is_replayable b"
  by (cases b) auto

lemma resolve_request_auth_none:
  "resolve_request_auth H None d None h = Ok None"
  by (simp add: resolve_request_auth_def)

end
