(* ===== verification/Redirect_Policy.thy ===== *)
theory Redirect_Policy
  imports Request_Model
begin

text \<open>
  The redirect engine (\<open>redirect.rs\<close>): which statuses redirect, what happens to
  the method, the body and the headers, and the checks on the target URL.
  Joining a location to a base URL and comparing origins are functions of the
  \<open>url\<close> crate, the arguments \<open>join\<close> and \<open>same_origin\<close>.
\<close>

definition is_https_downgrade :: "url \<Rightarrow> url \<Rightarrow> bool" where
  "is_https_downgrade from to \<longleftrightarrow> url_scheme from = ''https'' \<and> url_scheme to = ''http''"

definition check_https_downgrade :: "url \<Rightarrow> url \<Rightarrow> downgrade_policy \<Rightarrow> unit result" where
  "check_https_downgrade from to policy =
     (if policy = Deny \<and> is_https_downgrade from to
      then Err (InvalidRedirectLocation ''redirect downgrade from https to http is not allowed'')
      else Ok ())"

definition body_headers :: "string list" where
  "body_headers = [''content-length'', ''content-type'', ''transfer-encoding'']"

definition is_redirect_status :: "nat \<Rightarrow> bool" where
  "is_redirect_status s \<longleftrightarrow> s \<in> {301, 302, 303, 307, 308}"

definition redirect_method :: "nat \<Rightarrow> string \<Rightarrow> string" where
  "redirect_method status current_method =
     (if status = 303 then (if current_method = ''HEAD'' then ''HEAD'' else ''GET'')
      else if status = 301 \<or> status = 302
      then (if current_method = ''POST'' then ''GET'' else current_method)
      else current_method)"

definition drops_body_on_redirect :: "nat \<Rightarrow> string \<Rightarrow> bool" where
  "drops_body_on_redirect status current_method =
     (if status = 303 then current_method \<noteq> ''HEAD''
      else current_method = ''POST'' \<and> redirect_method status current_method = ''GET'')"

definition resolve_redirect_url :: "(url \<Rightarrow> string \<Rightarrow> string + url) \<Rightarrow> url \<Rightarrow> string \<Rightarrow> url result" where
  "resolve_redirect_url join base location =
     (case join base location of Inl e \<Rightarrow> Err (InvalidRedirectLocation e) | Inr u \<Rightarrow> Ok u)"

definition validate_redirect_url :: "url \<Rightarrow> unit result" where
  "validate_redirect_url u =
     (if has_userinfo u then Err (InvalidRedirectLocation ''redirect URL userinfo is not supported'')
      else if url_scheme u = ''http'' \<or> url_scheme u = ''https'' then Ok ()
      else Err (Unsupported (''redirect to unsupported scheme '' @ CHR 0x27 # url_scheme u
                 @ CHR 0x27 # '': only http and https are allowed'')))"

definition remove_all :: "'h http_lib \<Rightarrow> string list \<Rightarrow> 'h \<Rightarrow> 'h" where
  "remove_all H ns h = fold (\<lambda>n a. headers_remove H a n) ns h"

definition strip_headers_for_redirect ::
  "'h http_lib \<Rightarrow> (url \<Rightarrow> url \<Rightarrow> bool) \<Rightarrow> 'h \<Rightarrow> url \<Rightarrow> url \<Rightarrow> bool \<Rightarrow> 'h" where
  "strip_headers_for_redirect H same_origin h original_url new_url drop_body =
     (let h1 = remove_all H [''authorization'', ''proxy-authorization''] h;
          h2 = (if \<not> same_origin original_url new_url
                then remove_all H [''cookie'', ''host'', ''referer'', ''origin''] h1 else h1)
      in if drop_body then remove_all H body_headers h2 else h2)"

definition build_redirect_request_with_method ::
  "'h http_lib \<Rightarrow> (url \<Rightarrow> url \<Rightarrow> bool) \<Rightarrow> (url \<Rightarrow> string \<Rightarrow> string + url) \<Rightarrow> ('h, 'f) request \<Rightarrow> string
   \<Rightarrow> string \<Rightarrow> bool \<Rightarrow> downgrade_policy \<Rightarrow> ('h, 'f) request result" where
  "build_redirect_request_with_method H same_origin join original location new_method drop_body downgrade =
     bind_result (resolve_redirect_url join (rq_url original) location) (\<lambda>new_url.
     bind_result (validate_redirect_url new_url) (\<lambda>_.
     bind_result (check_https_downgrade (rq_url original) new_url downgrade) (\<lambda>_.
     let new_headers = strip_headers_for_redirect H same_origin (rq_headers original) (rq_url original) new_url drop_body
     in bind_result (if drop_body then Ok BodyEmpty else try_clone_for_redirect (rq_body original)) (\<lambda>new_body.
        Ok ((request_new H new_method new_url)\<lparr>rq_headers := new_headers, rq_body := new_body\<rparr>)))))"

definition build_redirect_request ::
  "'h http_lib \<Rightarrow> (url \<Rightarrow> url \<Rightarrow> bool) \<Rightarrow> (url \<Rightarrow> string \<Rightarrow> string + url) \<Rightarrow> ('h, 'f) request \<Rightarrow> nat
   \<Rightarrow> string \<Rightarrow> ('h, 'f) request result" where
  "build_redirect_request H same_origin join original status location =
     build_redirect_request_with_method H same_origin join original location
       (redirect_method status (rq_method original)) (drops_body_on_redirect status (rq_method original)) Allow"

definition build_redirect_request_with_redirect_policy ::
  "'h http_lib \<Rightarrow> (url \<Rightarrow> url \<Rightarrow> bool) \<Rightarrow> (url \<Rightarrow> string \<Rightarrow> string + url) \<Rightarrow> ('h, 'f) request \<Rightarrow> nat
   \<Rightarrow> string \<Rightarrow> redirect_policy \<Rightarrow> ('h, 'f) request result" where
  "build_redirect_request_with_redirect_policy H same_origin join original status location policy =
     build_redirect_request_with_method H same_origin join original location
       (redirect_method status (rq_method original)) (drops_body_on_redirect status (rq_method original))
       (rp_downgrade policy)"

subsection \<open>What survives a redirect\<close>

context http_headers
begin

lemma remove_all_view:
  assumes "\<forall>n\<in>set ns. canonical_name n" "canonical_name m"
  shows "headers_get_all H (remove_all H ns h) m = (if m \<in> set ns then [] else headers_get_all H h m)"
  using store.view_rm_all [OF assms] by (simp add: remove_all_def store.rm_all_def)

lemma strip_view:
  assumes "canonical_name m"
  shows "headers_get_all H (strip_headers_for_redirect H so h u v drop_body) m =
    (if m \<in> {''authorization'', ''proxy-authorization''} then []
     else if \<not> so u v \<and> m \<in> {''cookie'', ''host'', ''referer'', ''origin''} then []
     else if drop_body \<and> m \<in> set body_headers then []
     else headers_get_all H h m)"
proof -
  have b: "\<forall>n\<in>set body_headers. canonical_name n" by (simp add: body_headers_def)
  have s: "\<forall>n\<in>set [''authorization'', ''proxy-authorization'']. canonical_name n"
    "\<forall>n\<in>set [''cookie'', ''host'', ''referer'', ''origin'']. canonical_name n" by simp_all
  show ?thesis
    unfolding strip_headers_for_redirect_def Let_def
    by (simp add: remove_all_view [OF b assms] remove_all_view [OF s(1) assms] remove_all_view [OF s(2) assms])
qed

end

lemma build_redirect_Ok:
  assumes "build_redirect_request_with_method H so join original location meth drop_body dg = Ok r"
  obtains new_url new_body where "join (rq_url original) location = Inr new_url"
    "\<not> has_userinfo new_url" "url_scheme new_url \<in> {''http'', ''https''}"
    "\<not> (dg = Deny \<and> is_https_downgrade (rq_url original) new_url)"
    "new_body = (if drop_body then BodyEmpty else rq_body original)"
    "drop_body \<or> body_is_replayable (rq_body original)"
    "r = (request_new H meth new_url)\<lparr>rq_headers := strip_headers_for_redirect H so (rq_headers original)
           (rq_url original) new_url drop_body, rq_body := new_body\<rparr>"
proof -
  from assms obtain new_url new_body where
    *: "resolve_redirect_url join (rq_url original) location = Ok new_url"
    "validate_redirect_url new_url = Ok ()" "check_https_downgrade (rq_url original) new_url dg = Ok ()"
    "(if drop_body then Ok BodyEmpty else try_clone_for_redirect (rq_body original)) = Ok new_body"
    "r = (request_new H meth new_url)\<lparr>rq_headers := strip_headers_for_redirect H so (rq_headers original)
           (rq_url original) new_url drop_body, rq_body := new_body\<rparr>"
    unfolding build_redirect_request_with_method_def bind_result_Inr Let_def by auto
  show thesis
    by (rule that [of new_url new_body])
       (use * in \<open>auto simp: resolve_redirect_url_def validate_redirect_url_def check_https_downgrade_def
          try_clone_for_redirect_Ok split: sum.splits if_splits\<close>)
qed

end
