(* ===== verification/Retry_Policy.thy ===== *)
theory Retry_Policy
  imports Request_Model
begin

text \<open>
  The retry policy (\<open>retry.rs\<close>): its builder, which methods, statuses and errors
  it retries, the exponential backoff with full jitter, and the \<open>Retry-After\<close>
  delay.  The floating-point operations are the record \<open>F\<close> over an abstract type
  of numbers, with the facts about rounding that the bounds need in the locale
  \<open>float_seconds\<close>; the jitter generator itself works on 64-bit words.
\<close>

unbundle bit_operations_syntax

record 'f float_lib =
  fl_as_secs :: "duration \<Rightarrow> 'f"
  fl_powf :: "'f \<Rightarrow> nat \<Rightarrow> 'f"
  fl_mul :: "'f \<Rightarrow> 'f \<Rightarrow> 'f"
  fl_is_finite :: "'f \<Rightarrow> bool"
  fl_is_negative :: "'f \<Rightarrow> bool"
  fl_less :: "'f \<Rightarrow> 'f \<Rightarrow> bool"
  fl_min :: "'f \<Rightarrow> 'f \<Rightarrow> 'f"
  fl_try_duration :: "'f \<Rightarrow> duration option"
  fl_max_value :: 'f
  fl_of_jitter :: "nat \<Rightarrow> 'f"
  fl_two :: 'f
  fl_three_halves :: 'f

text \<open>
  \<open>fl_as_secs\<close> and \<open>fl_try_duration\<close> are \<open>as_secs_f64\<close> and \<open>try_from_secs_f64\<close>;
  \<open>fl_of_jitter n\<close> is \<open>n / 2^53\<close>.
\<close>

subsection \<open>Policies and their builder\<close>

definition default_retryable_statuses :: "nat list" where
  "default_retryable_statuses = [408, 429, 502, 503, 504]"

definition default_retryable_methods :: "string list" where
  "default_retryable_methods = [''GET'', ''HEAD'', ''OPTIONS'']"

definition backoff_default :: "'f float_lib \<Rightarrow> 'f backoff_policy" where
  "backoff_default F = \<lparr>bo_factor = fl_two F, bo_max_delay = from_secs_d 30, bo_initial_delay = from_millis_d 500\<rparr>"

definition retry_policy_default :: "'f float_lib \<Rightarrow> 'f retry_policy" where
  "retry_policy_default F =
     \<lparr>ry_max_attempts = 1, ry_max_elapsed = None, ry_backoff = backoff_default F,
      ry_methods = default_retryable_methods, ry_statuses = default_retryable_statuses,
      ry_respect_retry_after = False\<rparr>"

definition retry_is_enabled :: "'f retry_policy \<Rightarrow> bool" where
  "retry_is_enabled p \<longleftrightarrow> ry_max_attempts p > 1"

definition is_method_retryable :: "'f retry_policy \<Rightarrow> string \<Rightarrow> bool" where
  "is_method_retryable p m \<longleftrightarrow> m \<in> set (ry_methods p)"

definition is_status_retryable :: "'f retry_policy \<Rightarrow> nat \<Rightarrow> bool" where
  "is_status_retryable p s \<longleftrightarrow> s \<in> set (ry_statuses p)"

text \<open>The builder is a policy under construction and the mark that the statuses were customised.\<close>

record 'f retry_builder =
  rb_policy :: "'f retry_policy"
  rb_custom_statuses_used :: bool

definition retry_builder_new :: "'f float_lib \<Rightarrow> 'f retry_builder" where
  "retry_builder_new F = \<lparr>rb_policy = retry_policy_default F, rb_custom_statuses_used = False\<rparr>"

definition push_new :: "'a \<Rightarrow> 'a list \<Rightarrow> 'a list" where
  "push_new x xs = (if x \<in> set xs then xs else xs @ [x])"

definition rb_max_attempts :: "nat \<Rightarrow> 'f retry_builder \<Rightarrow> 'f retry_builder" where
  "rb_max_attempts n b = b\<lparr>rb_policy := (rb_policy b)\<lparr>ry_max_attempts := n\<rparr>\<rparr>"

definition rb_max_elapsed :: "duration \<Rightarrow> 'f retry_builder \<Rightarrow> 'f retry_builder" where
  "rb_max_elapsed d b = b\<lparr>rb_policy := (rb_policy b)\<lparr>ry_max_elapsed := Some d\<rparr>\<rparr>"

definition rb_retry_status :: "nat \<Rightarrow> 'f retry_builder \<Rightarrow> 'f retry_builder" where
  "rb_retry_status s b =
     (let base = (if rb_custom_statuses_used b then ry_statuses (rb_policy b) else [])
      in \<lparr>rb_policy = (rb_policy b)\<lparr>ry_statuses := push_new s base\<rparr>, rb_custom_statuses_used = True\<rparr>)"

definition rb_retry_statuses :: "nat list \<Rightarrow> 'f retry_builder \<Rightarrow> 'f retry_builder" where
  "rb_retry_statuses ss b =
     \<lparr>rb_policy = (rb_policy b)\<lparr>ry_statuses := ss\<rparr>, rb_custom_statuses_used = True\<rparr>"

definition rb_retry_method :: "string \<Rightarrow> 'f retry_builder \<Rightarrow> 'f retry_builder" where
  "rb_retry_method m b =
     b\<lparr>rb_policy := (rb_policy b)\<lparr>ry_methods := push_new m (ry_methods (rb_policy b))\<rparr>\<rparr>"

definition rb_respect_retry_after :: "bool \<Rightarrow> 'f retry_builder \<Rightarrow> 'f retry_builder" where
  "rb_respect_retry_after r b = b\<lparr>rb_policy := (rb_policy b)\<lparr>ry_respect_retry_after := r\<rparr>\<rparr>"

definition rb_build :: "'f retry_builder \<Rightarrow> 'f retry_policy" where
  "rb_build b = rb_policy b"

subsection \<open>What is retried\<close>

definition is_error_retryable :: "error \<Rightarrow> bool" where
  "is_error_retryable e =
     (case e of
        HyperClient inner \<Rightarrow> legacy_is_connect inner \<or> hyper_legacy_is_canceled inner
      | Connect _ \<Rightarrow> True
      | Io _ \<Rightarrow> True
      | Hyper _ \<Rightarrow> True
      | Timeout phase _ \<Rightarrow> phase \<in> {PhaseConnect, PhasePool, PhaseProxyConnect, PhaseProxyTls}
      | H3Connect _ \<Rightarrow> True
      | CustomTransport k _ \<Rightarrow> k = DialConnection \<or> k = DialTimeout
      | Http2StreamReset reason \<Rightarrow> starts_with reason ''REFUSED_STREAM''
      | _ \<Rightarrow> False)"

datatype retry_cause = TransportError error | Status nat

definition should_retry ::
  "'f retry_policy \<Rightarrow> string \<Rightarrow> request_body \<Rightarrow> error option \<Rightarrow> nat option \<Rightarrow> retry_cause option" where
  "should_retry policy meth body err status =
     (if \<not> is_method_retryable policy meth then None
      else if \<not> body_is_replayable body then None
      else case err of
             Some e \<Rightarrow> if is_error_retryable e then Some (TransportError e) else None
           | None \<Rightarrow>
              (case status of
                 Some s \<Rightarrow> if is_status_retryable policy s then Some (Status s) else None
               | None \<Rightarrow> None))"

subsection \<open>Jitter\<close>

definition xorshift_step :: "64 word \<Rightarrow> 64 word" where
  "xorshift_step v =
     (let v1 = v XOR push_bit 13 v; v2 = v1 XOR drop_bit 7 v1; v3 = v2 XOR push_bit 17 v2 in max v3 1)"

text \<open>
  One call: the state is seeded on first use from the system generator (\<open>seed\<close>,
  \<open>None\<close> when it fails); the value used is the one before the update, and the
  result is its upper 53 bits.
\<close>

definition get_random :: "64 word option \<Rightarrow> 64 word option \<Rightarrow> nat option \<times> 64 word option" where
  "get_random seed state =
     (case or_else state (map_option (\<lambda>s. max s 1) seed) of
        None \<Rightarrow> (None, None)
      | Some v \<Rightarrow> (Some (unat (drop_bit 11 v)), Some (xorshift_step v)))"

subsection \<open>Delays\<close>

definition capped_delay :: "'f float_lib \<Rightarrow> 'f backoff_policy \<Rightarrow> nat \<Rightarrow> duration" where
  "capped_delay F b attempt =
     (let raw = fl_mul F (fl_as_secs F (bo_initial_delay b)) (fl_powf F (bo_factor b) (attempt - 2));
          max_float = fl_as_secs F (bo_max_delay b);
          max_secs = (if fl_try_duration F max_float \<noteq> None then max_float else fl_max_value F)
      in if \<not> fl_is_finite F raw \<or> fl_is_negative F raw \<or> fl_less F max_secs raw then bo_max_delay b
         else (case fl_try_duration F raw of Some d \<Rightarrow> d | None \<Rightarrow> bo_max_delay b))"

definition backoff_delay :: "'f float_lib \<Rightarrow> 'f backoff_policy \<Rightarrow> nat \<Rightarrow> nat option \<Rightarrow> duration option" where
  "backoff_delay F b attempt jitter =
     (if attempt \<le> 1 then None
      else
        let capped = capped_delay F b attempt;
            jittered_secs = (case jitter of
                               Some j \<Rightarrow> fl_mul F (fl_as_secs F capped) (fl_of_jitter F j)
                             | None \<Rightarrow> fl_as_secs F capped);
            final_delay = (if \<not> fl_is_finite F jittered_secs \<or> fl_is_negative F jittered_secs then capped
                           else (case fl_try_duration F jittered_secs of Some d \<Rightarrow> d | None \<Rightarrow> capped))
        in Some (max final_delay (min (from_millis_d 1) capped)))"

definition retry_after_delay ::
  "(string \<Rightarrow> system_time option) \<Rightarrow> 'f retry_policy \<Rightarrow> string \<Rightarrow> system_time \<Rightarrow> duration option" where
  "retry_after_delay parse_http_date p retry_after now =
     (if \<not> ry_respect_retry_after p then None
      else
        let cap = bo_max_delay (ry_backoff p);
            limit = (\<lambda>d. Some (if d > cap then cap else d))
        in case parse_u64 (trim retry_after) of
             Some secs \<Rightarrow> limit (from_secs_d secs)
           | None \<Rightarrow>
              (case parse_http_date (trim retry_after) of
                 Some date \<Rightarrow> if date < now then None else limit (nat (date - now))
               | None \<Rightarrow> None))"

definition compute_retry_delay ::
  "'f float_lib \<Rightarrow> (string \<Rightarrow> system_time option) \<Rightarrow> 'f retry_policy \<Rightarrow> retry_cause \<Rightarrow> nat \<Rightarrow> string option
   \<Rightarrow> nat option \<Rightarrow> system_time \<Rightarrow> duration option" where
  "compute_retry_delay F parse_http_date p cause attempt retry_after jitter now =
     (case Option.bind retry_after (\<lambda>v. retry_after_delay parse_http_date p v now) of
        Some d \<Rightarrow> Some d
      | None \<Rightarrow>
         (case backoff_delay F (ry_backoff p) attempt jitter of
            None \<Rightarrow> None
          | Some base \<Rightarrow>
              if cause = Status 429 then
                let m = bo_max_delay (ry_backoff p);
                    increased = fl_mul F (fl_as_secs F base) (fl_three_halves F)
                in if \<not> fl_is_finite F increased \<or> fl_is_negative F increased then Some m
                   else (case fl_try_duration F (fl_min F increased (fl_as_secs F m)) of
                           Some d \<Rightarrow> Some d | None \<Rightarrow> Some m)
              else Some base))"

subsection \<open>Rounding facts and the bound on delays\<close>

text \<open>
  Below \<open>2^52\<close> nanoseconds (52 days) a duration survives the trip through seconds
  in double precision, conversion does not exceed an upper bound that was compared
  in seconds, and multiplying by a jitter below one does not exceed the duration.
\<close>

definition exact_limit :: duration where "exact_limit = 2 ^ 52"

locale float_seconds =
  fixes F :: "'f float_lib"
  assumes secs_round_trip: "d \<le> exact_limit \<Longrightarrow> fl_try_duration F (fl_as_secs F d) = Some d"
    and below_in_secs: "m \<le> exact_limit \<Longrightarrow> \<not> fl_less F (fl_as_secs F m) x \<Longrightarrow>
          fl_try_duration F x = Some d \<Longrightarrow> d \<le> m"
    and jitter_shrinks: "c \<le> exact_limit \<Longrightarrow> j < 2 ^ 53 \<Longrightarrow>
          fl_try_duration F (fl_mul F (fl_as_secs F c) (fl_of_jitter F j)) = Some d \<Longrightarrow> d \<le> c"
    and min_not_above: "\<not> fl_less F y (fl_min F x y)"
begin

lemma capped_delay_le:
  assumes "bo_max_delay b \<le> exact_limit"
  shows "capped_delay F b attempt \<le> bo_max_delay b"
  using secs_round_trip [OF assms] below_in_secs [OF assms]
  by (auto simp: capped_delay_def Let_def split: option.splits)

lemma backoff_delay_le:
  assumes m: "bo_max_delay b \<le> exact_limit" and j: "\<forall>n. jitter = Some n \<longrightarrow> n < 2 ^ 53"
    and d: "backoff_delay F b attempt jitter = Some d"
  shows "d \<le> bo_max_delay b"
proof -
  let ?c = "capped_delay F b attempt"
  have c: "?c \<le> bo_max_delay b" "?c \<le> exact_limit" using capped_delay_le [OF m, of attempt] m by simp_all
  let ?x = "case jitter of Some j \<Rightarrow> fl_mul F (fl_as_secs F ?c) (fl_of_jitter F j) | None \<Rightarrow> fl_as_secs F ?c"
  have "e \<le> ?c" if "fl_try_duration F ?x = Some e" for e
    using that j secs_round_trip [OF c(2)] jitter_shrinks [OF c(2)] by (cases jitter) auto
  then have "(case fl_try_duration F ?x of Some e \<Rightarrow> e | None \<Rightarrow> ?c) \<le> ?c" by (cases "fl_try_duration F ?x") auto
  with d c(1) show ?thesis
    unfolding backoff_delay_def Let_def by (auto split: if_splits)
qed

lemma compute_retry_delay_le:
  assumes m: "bo_max_delay (ry_backoff p) \<le> exact_limit" and j: "\<forall>n. jitter = Some n \<longrightarrow> n < 2 ^ 53"
    and d: "compute_retry_delay F phd p cause attempt ra jitter now = Some d"
  shows "d \<le> bo_max_delay (ry_backoff p)"
proof (cases "Option.bind ra (\<lambda>v. retry_after_delay phd p v now)")
  case (Some e)
  then obtain v where "retry_after_delay phd p v now = Some e" by (cases ra) auto
  then have "e \<le> bo_max_delay (ry_backoff p)"
    by (auto simp: retry_after_delay_def Let_def split: if_splits option.splits)
  with Some d show ?thesis by (simp add: compute_retry_delay_def)
next
  case None
  with d obtain base where base: "backoff_delay F (ry_backoff p) attempt jitter = Some base"
    by (auto simp: compute_retry_delay_def split: option.splits)
  show ?thesis
  proof (cases "cause = Status 429")
    case True
    with None base d show ?thesis
      using below_in_secs [OF m min_not_above]
      by (auto simp: compute_retry_delay_def Let_def split: if_splits option.splits)
  next
    case False
    with None base d backoff_delay_le [OF m j base] show ?thesis by (simp add: compute_retry_delay_def)
  qed
qed

end

lemma get_random_bound: "get_random seed st = (Some n, st') \<Longrightarrow> n < 2 ^ 53"
proof -
  assume "get_random seed st = (Some n, st')"
  then obtain v :: "64 word" where n: "n = unat (drop_bit 11 v)"
    by (auto simp: get_random_def split: option.splits)
  have "unat (drop_bit 11 v) = unat v div 2 ^ 11" by (subst unat_drop_bit_eq) (rule drop_bit_eq_div)
  moreover have "unat v < 2 ^ 64" using unsigned_less [of v] by simp
  ultimately show ?thesis using n by (simp add: less_mult_imp_div_less)
qed

lemma xorshift_step_ne: "xorshift_step v \<noteq> 0"
proof -
  have "1 \<le> xorshift_step v" by (simp add: xorshift_step_def Let_def)
  then show ?thesis by auto
qed

end
