(* ===== verification/Pipeline.thy ===== *)
theory Pipeline
  imports Redirect_Policy Retry_Policy Cookie_Props
begin

text \<open>
  The request pipeline (\<open>pipeline/hop.rs\<close>, \<open>pipeline/redirect.rs\<close>,
  \<open>pipeline/retry.rs\<close>, \<open>pipeline/lean.rs\<close>): one hop with its cookies and
  credentials, the redirect loop around it and the retry loop around that.

  The environment \<open>E\<close> holds everything the pipeline calls outside itself: the
  libraries, the clocks (reading number \<open>n\<close> of the monotonic and of the system
  clock), the transport, which answers a request knowing all earlier
  dispatches, and the seed of the jitter generator.  The world \<open>w\<close> holds what
  changes: the cookie jar and the creation counter, how often each clock was
  read, the dispatches in order, the failure context, the jitter state and the
  backoff sleeps.  Draining a discarded response body only takes time, which
  the clock readings are free to show.
\<close>

record ('h, 'f) dispatch =
  dp_request :: "('h, 'f) request"
  dp_timeout :: timeout

record ('h, 'f) env =
  e_http :: "'h http_lib"
  e_url :: url_lib
  e_float :: "'f float_lib"
  e_join :: "url \<Rightarrow> string \<Rightarrow> string + url"
  e_same_origin :: "url \<Rightarrow> url \<Rightarrow> bool"
  e_parse_cookie :: "string \<Rightarrow> parsed_cookie option"
  e_parse_http_date :: "string \<Rightarrow> system_time option"
  e_instant :: "nat \<Rightarrow> instant"
  e_system :: "nat \<Rightarrow> system_time"
  e_seed :: "64 word option"
  e_transport :: "('h, 'f) dispatch list \<Rightarrow> ('h, 'f) request \<Rightarrow> timeout \<Rightarrow> 'h response result"

record ('h, 'f) world =
  w_jar :: jar
  w_counter :: "64 word"
  w_instants :: nat
  w_systems :: nat
  w_log :: "('h, 'f) dispatch list"
  w_context :: request_failure_context
  w_jitter :: "64 word option"
  w_sleeps :: "duration list"

definition read_instant :: "('h, 'f) env \<Rightarrow> ('h, 'f) world \<Rightarrow> instant \<times> ('h, 'f) world" where
  "read_instant E w = (e_instant E (w_instants w), w\<lparr>w_instants := Suc (w_instants w)\<rparr>)"

definition elapsed_since :: "('h, 'f) env \<Rightarrow> instant \<Rightarrow> ('h, 'f) world \<Rightarrow> duration \<times> ('h, 'f) world" where
  "elapsed_since E start w =
     (case read_instant E w of (now, w') \<Rightarrow> (duration_since now start, w'))"

definition send_single_request ::
  "('h, 'f) env \<Rightarrow> ('h, 'f) request \<Rightarrow> timeout \<Rightarrow> ('h, 'f) world \<Rightarrow> 'h response result \<times> ('h, 'f) world" where
  "send_single_request E rq t w =
     (e_transport E (w_log w) rq t, w\<lparr>w_log := w_log w @ [\<lparr>dp_request = rq, dp_timeout = t\<rparr>]\<rparr>)"

subsection \<open>One hop\<close>

record ('h, 'f) hop_params =
  hp_method :: string
  hp_url :: url
  hp_headers :: 'h
  hp_body :: request_body
  hp_version :: http_version
  hp_timeout :: timeout
  hp_decompress :: "bool option"
  hp_max_decoded_body_size :: "nat option"
  hp_max_decompression_ratio :: "64 word option"
  hp_proxy_override :: "'h proxy_override"
  hp_transport_hints :: transport_hints
  hp_proxied_target :: "socket_addr list option"
  hp_auth :: "auth_scheme option"
  hp_auth_disabled :: bool
  hp_is_first_hop :: bool
  hp_preserve_resolved_target :: bool
  hp_credentials_allowed :: bool
  hp_cookie_allowed :: bool
  hp_failure_context :: "nat option"

definition merge_headers :: "'h http_lib \<Rightarrow> 'h \<Rightarrow> 'h \<Rightarrow> 'h" where
  "merge_headers H defaults request_headers =
     hm_extend H (fold (\<lambda>n a. hm_remove H a n) (hm_keys H request_headers) defaults) request_headers"

definition effective_timeout :: "timeout option \<Rightarrow> timeout option \<Rightarrow> timeout" where
  "effective_timeout client_timeout request_timeout =
     (case client_timeout of
        Some t \<Rightarrow> timeout_merge t request_timeout
      | None \<Rightarrow> (case request_timeout of Some t \<Rightarrow> t | None \<Rightarrow> timeout_default))"

definition prepare_first_hop ::
  "('h, 'f) env \<Rightarrow> ('h, 'f) client_config \<Rightarrow> ('h, 'f) request \<Rightarrow> ('h, 'f) hop_params" where
  "prepare_first_hop E cc rq =
     \<lparr>hp_method = rq_method rq, hp_url = rq_url rq,
      hp_headers = merge_headers (e_http E) (cc_default_headers cc) (rq_headers rq),
      hp_body = rq_body rq, hp_version = rq_version rq,
      hp_timeout = effective_timeout (cc_timeout cc) (rq_timeout rq),
      hp_decompress = rq_decompress rq, hp_max_decoded_body_size = rq_max_decoded_body_size rq,
      hp_max_decompression_ratio = rq_max_decompression_ratio rq, hp_proxy_override = rq_proxy_override rq,
      hp_transport_hints = rq_transport_hints rq, hp_proxied_target = rq_proxied_target rq,
      hp_auth = rq_auth rq, hp_auth_disabled = rq_auth_disabled rq, hp_is_first_hop = True,
      hp_preserve_resolved_target = False, hp_credentials_allowed = True, hp_cookie_allowed = True,
      hp_failure_context = rq_failure_context rq\<rparr>"

definition hop_base_request :: "'h http_lib \<Rightarrow> ('h, 'f) hop_params \<Rightarrow> ('h, 'f) request" where
  "hop_base_request H p =
     (let rq = (request_new H (hp_method p) (hp_url p))
                 \<lparr>rq_headers := hp_headers p, rq_body := hp_body p, rq_version := hp_version p,
                  rq_timeout := Some (hp_timeout p), rq_decompress := hp_decompress p,
                  rq_max_decoded_body_size := hp_max_decoded_body_size p,
                  rq_max_decompression_ratio := hp_max_decompression_ratio p,
                  rq_proxy_override := hp_proxy_override p\<rparr>;
          rq1 = (if hp_is_first_hop p
                 then rq\<lparr>rq_transport_hints := hp_transport_hints p, rq_proxied_target := hp_proxied_target p\<rparr>
                 else if hp_preserve_resolved_target p
                 then rq\<lparr>rq_transport_hints := hints_default
                            \<lparr>th_resolved_target := th_resolved_target (hp_transport_hints p),
                             th_sni_hostname := th_sni_hostname (hp_transport_hints p)\<rparr>,
                         rq_proxied_target := hp_proxied_target p\<rparr>
                 else rq)
      in rq1\<lparr>rq_auth := (if hp_credentials_allowed p then hp_auth p else None),
             rq_auth_disabled := hp_auth_disabled p, rq_failure_context := hp_failure_context p\<rparr>)"

text \<open>Cookie injection: the jar is read (and swept) only when no cookie header is set and cookies are allowed.\<close>

definition inject_cookies ::
  "('h, 'f) env \<Rightarrow> bool \<Rightarrow> url \<Rightarrow> 'h \<Rightarrow> ('h, 'f) world \<Rightarrow> 'h result \<times> ('h, 'f) world" where
  "inject_cookies E cookie_allowed u h w =
     (let H = e_http E
      in if \<not> cookie_allowed then (Ok (headers_remove H h ''cookie''), w)
         else if headers_contains H h ''cookie'' then (Ok h, w)
         else case cookies_for_url (e_system E (w_systems w)) u (w_jar w) of
                (j', hdr) \<Rightarrow>
                  let w' = w\<lparr>w_jar := j', w_systems := Suc (w_systems w)\<rparr>
                  in case hdr of
                       None \<Rightarrow> (Ok h, w')
                     | Some c \<Rightarrow> (headers_insert H h ''cookie'' c, w'))"

definition apply_auth ::
  "('h, 'f) env \<Rightarrow> ('h, 'f) client_config \<Rightarrow> bool \<Rightarrow> ('h, 'f) request \<Rightarrow> ('h, 'f) request result" where
  "apply_auth E cc credentials_allowed rq =
     bind_result (resolve_request_auth (e_http E) (rq_auth rq) (rq_auth_disabled rq)
                    (if credentials_allowed then cc_auth cc else None) (rq_headers rq)) (\<lambda>eff.
       case eff of
         None \<Rightarrow> Ok rq
       | Some a \<Rightarrow> bind_result (auth_apply (e_http E) (e_url E) a (rq_headers rq)) (\<lambda>h. Ok (rq\<lparr>rq_headers := h\<rparr>)))"

definition build_hop_request ::
  "('h, 'f) env \<Rightarrow> ('h, 'f) client_config \<Rightarrow> ('h, 'f) hop_params \<Rightarrow> ('h, 'f) world
   \<Rightarrow> ('h, 'f) request result \<times> ('h, 'f) world" where
  "build_hop_request E cc p w =
     (let hop = hop_base_request (e_http E) p
      in case inject_cookies E (hp_cookie_allowed p) (rq_url hop) (rq_headers hop) w of
           (Inl e, w') \<Rightarrow> (Err e, w')
         | (Inr h, w') \<Rightarrow> (apply_auth E cc (hp_credentials_allowed p) (hop\<lparr>rq_headers := h\<rparr>), w'))"

definition set_cookie_headers :: "'h http_lib \<Rightarrow> 'h response \<Rightarrow> string list" where
  "set_cookie_headers H rs =
     List.map_filter (\<lambda>v. case hm_to_str H v of Inl _ \<Rightarrow> None | Inr s \<Rightarrow> Some s)
       (headers_get_all H (rs_headers rs) ''set-cookie'')"

text \<open>The clock is read once for the update and once for each header it parses.\<close>

definition update_cookie_jar :: "('h, 'f) env \<Rightarrow> 'h response \<Rightarrow> ('h, 'f) world \<Rightarrow> ('h, 'f) world" where
  "update_cookie_jar E rs w =
     (let hs = set_cookie_headers (e_http E) rs
      in if hs = [] then w
         else let now = e_system E (w_systems w);
                  clk = (\<lambda>i. e_system E (w_systems w + 1 + i));
                  (j, c) = update_from_response (e_parse_cookie E) (rs_url rs) hs now clk (w_jar w, w_counter w)
              in w\<lparr>w_jar := j, w_counter := c, w_systems := w_systems w + 1 + length hs\<rparr>)"

definition send_lean ::
  "('h, 'f) env \<Rightarrow> ('h, 'f) client_config \<Rightarrow> ('h, 'f) request \<Rightarrow> ('h, 'f) world
   \<Rightarrow> 'h response result \<times> ('h, 'f) world" where
  "send_lean E cc rq w =
     (let p = prepare_first_hop E cc rq
      in case build_hop_request E cc p w of
           (Inl e, w1) \<Rightarrow> (Err e, w1)
         | (Inr hop, w1) \<Rightarrow>
            (case send_single_request E hop (hp_timeout p) w1 of
               (Inl e, w2) \<Rightarrow> (Err e, w2)
             | (Inr rs, w2) \<Rightarrow> (Ok rs, update_cookie_jar E rs w2)))"

subsection \<open>The redirect loop\<close>

record 'h redirect_hop =
  rh_method :: string
  rh_url :: url
  rh_headers :: 'h
  rh_body :: request_body
  rh_version :: http_version

definition advance_redirect_hop ::
  "('h, 'f) env \<Rightarrow> string \<Rightarrow> url \<Rightarrow> 'h \<Rightarrow> http_version \<Rightarrow> string option \<Rightarrow> nat \<Rightarrow> string \<Rightarrow> downgrade_policy
   \<Rightarrow> ('h redirect_hop \<times> string option) result" where
  "advance_redirect_hop E cur_method cur_url cur_headers cur_version replay_body status location downgrade =
     (let H = e_http E;
          new_method = redirect_method status cur_method;
          drop_body = drops_body_on_redirect status cur_method
      in bind_result (if drop_body then Ok (Some [])
                      else case replay_body of
                             None \<Rightarrow> Err BodyNotReplayableForRedirect
                           | Some b \<Rightarrow> Ok (Some b)) (\<lambda>replay.
         let temp_body = (if drop_body then BodyEmpty else BodyBytes (case replay of Some b \<Rightarrow> b | None \<Rightarrow> []));
             temp = (request_new H cur_method cur_url :: ('h, 'f) request)
                      \<lparr>rq_headers := cur_headers, rq_body := temp_body, rq_version := cur_version\<rparr>
         in bind_result (build_redirect_request_with_method H (e_same_origin E) (e_join E) temp location
                           new_method drop_body downgrade) (\<lambda>redirect_req.
            let new_headers =
                  (case headers_get H cur_headers ''authorization'' of
                     Some v \<Rightarrow>
                       if e_same_origin E cur_url (rq_url redirect_req)
                       then headers_insert_raw H (rq_headers redirect_req) ''authorization'' v
                       else rq_headers redirect_req
                   | None \<Rightarrow> rq_headers redirect_req)
            in Ok (\<lparr>rh_method = new_method, rh_url = rq_url redirect_req, rh_headers = new_headers,
                    rh_body = rq_body redirect_req, rh_version = rq_version redirect_req\<rparr>, replay))))"

record 'h redirect_state =
  st_method :: string
  st_url :: url
  st_headers :: 'h
  st_body :: request_body
  st_version :: http_version
  st_replay_body :: "string option"
  st_prev_url :: "url option"
  st_credentials_allowed :: bool
  st_cookie_allowed :: bool
  st_redirect_count :: nat
  st_history :: "'h history_entry list"

text \<open>The head of an iteration: the remaining total budget of this hop, or the timeout error.\<close>

definition hop_timeout_of ::
  "('h, 'f) env \<Rightarrow> timeout \<Rightarrow> instant \<Rightarrow> ('h, 'f) world \<Rightarrow> timeout result \<times> ('h, 'f) world" where
  "hop_timeout_of E timeout start w =
     (case to_total timeout of
        None \<Rightarrow> (Ok timeout, w)
      | Some budget \<Rightarrow>
         (case elapsed_since E start w of
            (elapsed, w') \<Rightarrow>
              if elapsed \<ge> budget then (Err (Timeout PhaseTotal elapsed), w')
              else (Ok (timeout\<lparr>to_total := Some (budget - elapsed)\<rparr>), w')))"

definition is_cross_origin_redirect :: "('h, 'f) env \<Rightarrow> 'h redirect_state \<Rightarrow> bool" where
  "is_cross_origin_redirect E st =
     is_some_and (st_prev_url st) (\<lambda>prev. \<not> e_same_origin E prev (st_url st))"

definition hop_params_of ::
  "('h, 'f) env \<Rightarrow> ('h, 'f) hop_params \<Rightarrow> 'h redirect_state \<Rightarrow> timeout \<Rightarrow> ('h, 'f) hop_params" where
  "hop_params_of E params st hop_timeout =
     (let cross = is_cross_origin_redirect E st
      in params\<lparr>hp_method := st_method st, hp_url := st_url st, hp_headers := st_headers st,
                hp_body := st_body st, hp_version := st_version st, hp_timeout := hop_timeout,
                hp_is_first_hop := (st_prev_url st = None), hp_preserve_resolved_target := \<not> cross,
                hp_credentials_allowed := st_credentials_allowed st,
                hp_cookie_allowed := st_cookie_allowed st\<rparr>)"

definition history_entry_of :: "'h response \<Rightarrow> 'h history_entry" where
  "history_entry_of rs = \<lparr>he_status = rs_status rs, he_url = rs_url rs, he_headers = rs_headers rs\<rparr>"

text \<open>
  What follows a response in the loop: return it with the history, fail, or go
  on with the next state.  Draining reads the clock once when a total is set.
\<close>

definition after_response ::
  "('h, 'f) env \<Rightarrow> redirect_policy \<Rightarrow> timeout \<Rightarrow> 'h redirect_state \<Rightarrow> 'h response \<Rightarrow> ('h, 'f) world
   \<Rightarrow> ('h response result + 'h redirect_state) \<times> ('h, 'f) world" where
  "after_response E pol timeout st rs w =
     (if \<not> is_redirect_status (rs_status rs) \<or> \<not> rp_follow pol
      then (Inl (Ok (rs\<lparr>rs_history := st_history st\<rparr>)), w)
      else case headers_get (e_http E) (rs_headers rs) ''location'' of
             None \<Rightarrow> (Inl (Ok (rs\<lparr>rs_history := st_history st\<rparr>)), w)
           | Some v \<Rightarrow>
              (case hm_to_str (e_http E) v of
                 Inl e \<Rightarrow> (Inl (Err (InvalidRedirectLocation e)), w)
               | Inr location \<Rightarrow>
                   let w' = (if to_total timeout = None then w else snd (read_instant E w));
                       count = st_redirect_count st + 1
                   in if count > rp_max_redirects pol
                      then (Inl (Err (TooManyRedirects (count - 1) (rp_max_redirects pol))), w')
                      else case advance_redirect_hop E (st_method st) (st_url st) (st_headers st) (st_version st)
                                  (st_replay_body st) (rs_status rs) location (rp_downgrade pol) of
                             Inl e \<Rightarrow> (Inl (Err e), w')
                           | Inr (hop, replay) \<Rightarrow>
                               (Inr \<lparr>st_method = rh_method hop, st_url = rh_url hop, st_headers = rh_headers hop,
                                     st_body = rh_body hop, st_version = rh_version hop, st_replay_body = replay,
                                     st_prev_url = Some (st_url st),
                                     st_credentials_allowed = st_credentials_allowed st,
                                     st_cookie_allowed = st_cookie_allowed st,
                                     st_redirect_count = count,
                                     st_history = st_history st @ [history_entry_of rs]\<rparr>, w')))"

definition redirect_iteration ::
  "('h, 'f) env \<Rightarrow> ('h, 'f) client_config \<Rightarrow> redirect_policy \<Rightarrow> ('h, 'f) hop_params \<Rightarrow> instant
   \<Rightarrow> 'h redirect_state \<Rightarrow> ('h, 'f) world
   \<Rightarrow> ('h response result + 'h redirect_state) \<times> ('h, 'f) world" where
  "redirect_iteration E cc pol params start st w =
     (case hop_timeout_of E (hp_timeout params) start w of
        (Inl e, w1) \<Rightarrow> (Inl (Err e), w1)
      | (Inr hop_timeout, w1) \<Rightarrow>
          let cross = is_cross_origin_redirect E st;
              st1 = (if cross then st\<lparr>st_credentials_allowed := False, st_cookie_allowed := False\<rparr> else st)
          in if cross \<and> (th_resolved_target (hp_transport_hints params) \<noteq> None \<or> hp_proxied_target params \<noteq> None)
             then (Inl (Err ResolvedTargetRedirect), w1)
             else case build_hop_request E cc (hop_params_of E params st1 hop_timeout) w1 of
                    (Inl e, w2) \<Rightarrow> (Inl (Err e), w2)
                  | (Inr hop, w2) \<Rightarrow>
                     (case send_single_request E hop hop_timeout w2 of
                        (Inl e, w3) \<Rightarrow> (Inl (Err e), w3)
                      | (Inr rs, w3) \<Rightarrow> after_response E pol (hp_timeout params) st1 rs (update_cookie_jar E rs w3)))"

lemma redirect_iteration_count:
  "redirect_iteration E cc pol params start st w = (Inr st', w') \<Longrightarrow>
     st_redirect_count st' = Suc (st_redirect_count st) \<and> st_redirect_count st' \<le> rp_max_redirects pol"
  by (auto simp: redirect_iteration_def after_response_def Let_def
           split: prod.splits sum.splits if_splits option.splits)

function redirect_loop ::
  "('h, 'f) env \<Rightarrow> ('h, 'f) client_config \<Rightarrow> redirect_policy \<Rightarrow> ('h, 'f) hop_params \<Rightarrow> instant
   \<Rightarrow> 'h redirect_state \<Rightarrow> ('h, 'f) world \<Rightarrow> 'h response result \<times> ('h, 'f) world" where
  "redirect_loop E cc pol params start st w =
     (case redirect_iteration E cc pol params start st w of
        (Inl r, w') \<Rightarrow> (r, w')
      | (Inr st', w') \<Rightarrow> redirect_loop E cc pol params start st' w')"
  by pat_completeness auto
termination
  by (relation "measure (\<lambda>(E, cc, pol, params, start, st, w). Suc (rp_max_redirects pol) - st_redirect_count st)")
     (auto dest!: redirect_iteration_count [OF sym])

declare redirect_loop.simps [simp del]

definition initial_replay :: "request_body \<Rightarrow> string option" where
  "initial_replay b = (case b of BodyEmpty \<Rightarrow> Some [] | BodyBytes x \<Rightarrow> Some x | BodyStream _ _ \<Rightarrow> None)"

definition initial_redirect_state :: "('h, 'f) hop_params \<Rightarrow> 'h redirect_state" where
  "initial_redirect_state p =
     \<lparr>st_method = hp_method p, st_url = hp_url p, st_headers = hp_headers p, st_body = hp_body p,
      st_version = hp_version p, st_replay_body = initial_replay (hp_body p), st_prev_url = None,
      st_credentials_allowed = True, st_cookie_allowed = True, st_redirect_count = 0, st_history = []\<rparr>"

definition effective_redirect :: "('h, 'f) client_config \<Rightarrow> ('h, 'f) request \<Rightarrow> redirect_policy" where
  "effective_redirect cc rq = (case rq_redirect rq of Some p \<Rightarrow> p | None \<Rightarrow> cc_redirect cc)"

definition send_with_redirects ::
  "('h, 'f) env \<Rightarrow> ('h, 'f) client_config \<Rightarrow> ('h, 'f) request \<Rightarrow> ('h, 'f) world
   \<Rightarrow> 'h response result \<times> ('h, 'f) world" where
  "send_with_redirects E cc rq w =
     (let pol = effective_redirect cc rq; params = prepare_first_hop E cc rq
      in if \<not> rp_follow pol then send_lean E cc rq w
         else case read_instant E w of
                (start, w1) \<Rightarrow>
                  redirect_loop E cc pol (params\<lparr>hp_body := BodyEmpty\<rparr>) start (initial_redirect_state params) w1)"

subsection \<open>The retry loop\<close>

definition has_budget ::
  "('h, 'f) env \<Rightarrow> 'f retry_policy \<Rightarrow> nat \<Rightarrow> instant \<Rightarrow> ('h, 'f) world \<Rightarrow> bool \<times> ('h, 'f) world" where
  "has_budget E policy attempt start w =
     (if attempt \<ge> ry_max_attempts policy then (False, w)
      else case ry_max_elapsed policy of
             None \<Rightarrow> (True, w)
           | Some m \<Rightarrow> (case elapsed_since E start w of (el, w') \<Rightarrow> (\<not> el \<ge> m, w')))"

definition fits :: "duration \<Rightarrow> duration \<Rightarrow> duration \<Rightarrow> bool" where
  "fits el delay limit = is_some_and (duration_checked_add el delay) (\<lambda>t. t \<le> limit)"

definition sleep_if_budget_allows ::
  "('h, 'f) env \<Rightarrow> 'f retry_policy \<Rightarrow> duration \<Rightarrow> nat \<Rightarrow> instant \<Rightarrow> duration option \<Rightarrow> ('h, 'f) world
   \<Rightarrow> unit result \<times> ('h, 'f) world" where
  "sleep_if_budget_allows E policy delay attempt start budget w =
     (let (ok1, w1) = (case ry_max_elapsed policy of
                         None \<Rightarrow> (True, w)
                       | Some m \<Rightarrow> (case elapsed_since E start w of (el, w') \<Rightarrow> (fits el delay m, w')))
      in if \<not> ok1 then (Err (RetryBudgetExhausted attempt), w1)
         else case budget of
                None \<Rightarrow> (Ok (), w1\<lparr>w_sleeps := w_sleeps w1 @ [delay]\<rparr>)
              | Some tot \<Rightarrow>
                 (case elapsed_since E start w1 of
                    (el, w2) \<Rightarrow>
                      if fits el delay tot then (Ok (), w2\<lparr>w_sleeps := w_sleeps w2 @ [delay]\<rparr>)
                      else (case elapsed_since E start w2 of
                              (el2, w3) \<Rightarrow> (Err (Timeout PhaseTotal el2), w3))))"

text \<open>
  The delay of an attempt.  Jitter is drawn only when the backoff is reached; a
  reading of the system clock is set aside for the date form of \<open>Retry-After\<close>.
\<close>

definition next_delay ::
  "('h, 'f) env \<Rightarrow> 'f retry_policy \<Rightarrow> retry_cause \<Rightarrow> nat \<Rightarrow> string option \<Rightarrow> ('h, 'f) world
   \<Rightarrow> duration option \<times> ('h, 'f) world" where
  "next_delay E policy cause attempt retry_after w =
     (let now = e_system E (w_systems w);
          directed = Option.bind retry_after (\<lambda>v. retry_after_delay (e_parse_http_date E) policy v now);
          (jitter, js) = (if directed = None \<and> attempt > 1 then get_random (e_seed E) (w_jitter w)
                          else (None, w_jitter w))
      in (compute_retry_delay (e_float E) (e_parse_http_date E) policy cause attempt retry_after jitter now,
          w\<lparr>w_jitter := js, w_systems := Suc (w_systems w)\<rparr>))"

definition sleep_before_retry ::
  "('h, 'f) env \<Rightarrow> 'f retry_policy \<Rightarrow> retry_cause \<Rightarrow> nat \<Rightarrow> string option \<Rightarrow> instant \<Rightarrow> duration option
   \<Rightarrow> ('h, 'f) world \<Rightarrow> unit result \<times> ('h, 'f) world" where
  "sleep_before_retry E policy cause attempt retry_after start budget w =
     (case next_delay E policy cause attempt retry_after w of
        (None, w1) \<Rightarrow> (Ok (), w1)
      | (Some d, w1) \<Rightarrow> sleep_if_budget_allows E policy d attempt start budget w1)"

definition retry_after_header :: "'h http_lib \<Rightarrow> 'h response \<Rightarrow> string option" where
  "retry_after_header H rs =
     Option.bind (headers_get H (rs_headers rs) ''retry-after'')
       (\<lambda>v. case hm_to_str H v of Inl _ \<Rightarrow> None | Inr s \<Rightarrow> Some s)"

definition saved_total :: "('h, 'f) request \<Rightarrow> duration option" where
  "saved_total saved = Option.bind (rq_timeout saved) to_total"

text \<open>The checks before an attempt: the error that ends the loop, or the attempt's timeout.\<close>

definition attempt_timeout ::
  "'f retry_policy \<Rightarrow> ('h, 'f) request \<Rightarrow> nat \<Rightarrow> duration \<Rightarrow> timeout option result" where
  "attempt_timeout policy saved attempt elapsed =
     (if is_some_and (ry_max_elapsed policy) (\<lambda>m. elapsed \<ge> m) then Err (RetryBudgetExhausted (attempt - 1))
      else if is_some_and (saved_total saved) (\<lambda>t. elapsed \<ge> t) then Err (Timeout PhaseTotal elapsed)
      else let t = map_option (\<lambda>t. shrink_total_deadline t elapsed) (rq_timeout saved)
           in if is_some_and (Option.bind t to_total) (\<lambda>r. r = 0) then Err (Timeout PhaseTotal elapsed)
              else Ok t)"

definition clear_context :: "('h, 'f) request \<Rightarrow> ('h, 'f) world \<Rightarrow> ('h, 'f) world" where
  "clear_context saved w =
     (if rq_failure_context saved \<noteq> None then w\<lparr>w_context := rfc_clear (w_context w)\<rparr> else w)"

definition is_success_status :: "nat \<Rightarrow> bool" where
  "is_success_status s \<longleftrightarrow> 200 \<le> s \<and> s < 300"

text \<open>
  The part of an attempt after its dispatch: \<open>Inl\<close> is the value the loop
  returns, \<open>Inr ()\<close> the next attempt.
\<close>

definition after_attempt ::
  "('h, 'f) env \<Rightarrow> 'f retry_policy \<Rightarrow> ('h, 'f) request \<Rightarrow> nat \<Rightarrow> instant \<Rightarrow> 'h response result
   \<Rightarrow> ('h, 'f) world \<Rightarrow> ('h response result + unit) \<times> ('h, 'f) world" where
  "after_attempt E policy saved attempt start r w =
     (let cause = (case r of
                     Inr rs \<Rightarrow> if is_success_status (rs_status rs) then None
                               else should_retry policy (rq_method saved) (rq_body saved) None (Some (rs_status rs))
                   | Inl e \<Rightarrow> should_retry policy (rq_method saved) (rq_body saved) (Some e) None);
          retry_after = (case r of Inr rs \<Rightarrow> retry_after_header (e_http E) rs | Inl _ \<Rightarrow> None)
      in case cause of
           None \<Rightarrow> (Inl r, w)
         | Some c \<Rightarrow>
            (case has_budget E policy attempt start w of
               (False, w1) \<Rightarrow> (Inl r, w1)
             | (True, w1) \<Rightarrow>
                 let w2 = (if saved_total saved = None \<or> isl r then w1 else snd (read_instant E w1))
                 in (case sleep_before_retry E policy c attempt retry_after start (saved_total saved) w2 of
                       (Inl e, w3) \<Rightarrow> (Inl (Err e), w3)
                     | (Inr _, w3) \<Rightarrow> (Inr (), w3))))"

definition retry_iteration ::
  "('h, 'f) env \<Rightarrow> ('h, 'f) client_config \<Rightarrow> 'f retry_policy \<Rightarrow> ('h, 'f) request \<Rightarrow> instant \<Rightarrow> nat
   \<Rightarrow> ('h, 'f) world \<Rightarrow> ('h response result + unit) \<times> ('h, 'f) world" where
  "retry_iteration E cc policy saved start attempt w =
     (let w0 = clear_context saved w
      in if attempt > ry_max_attempts policy then (Inl (Err (RetryBudgetExhausted (attempt - 1))), w0)
         else case elapsed_since E start w0 of
                (elapsed, w1) \<Rightarrow>
                  (case attempt_timeout policy saved attempt elapsed of
                     Inl e \<Rightarrow> (Inl (Err e), w1)
                   | Inr t \<Rightarrow>
                      (case retry_request (e_http E) saved t of
                         Inl e \<Rightarrow> (Inl (Err e), w1)
                       | Inr rq \<Rightarrow>
                          (case send_with_redirects E cc rq w1 of
                             (r, w2) \<Rightarrow> after_attempt E policy saved attempt start r w2))))"

lemma retry_iteration_continues:
  "retry_iteration E cc policy saved start attempt w = (Inr u, w') \<Longrightarrow> attempt < ry_max_attempts policy"
  by (auto simp: retry_iteration_def after_attempt_def has_budget_def Let_def
           split: prod.splits sum.splits if_splits option.splits bool.splits)

function retry_loop ::
  "('h, 'f) env \<Rightarrow> ('h, 'f) client_config \<Rightarrow> 'f retry_policy \<Rightarrow> ('h, 'f) request \<Rightarrow> instant \<Rightarrow> nat
   \<Rightarrow> ('h, 'f) world \<Rightarrow> 'h response result \<times> ('h, 'f) world" where
  "retry_loop E cc policy saved start attempt w =
     (case retry_iteration E cc policy saved start attempt w of
        (Inl r, w') \<Rightarrow> (r, w')
      | (Inr _, w') \<Rightarrow> retry_loop E cc policy saved start (attempt + 1) w')"
  by pat_completeness auto
termination
  by (relation "measure (\<lambda>(E, cc, policy, saved, start, attempt, w). ry_max_attempts policy - attempt)")
     (auto dest!: retry_iteration_continues [OF sym])

declare retry_loop.simps [simp del]

definition effective_retry :: "('h, 'f) client_config \<Rightarrow> ('h, 'f) request \<Rightarrow> 'f retry_policy option" where
  "effective_retry cc rq = or_else (rq_retry rq) (cc_retry cc)"

definition send_with_retry ::
  "('h, 'f) env \<Rightarrow> ('h, 'f) client_config \<Rightarrow> ('h, 'f) request \<Rightarrow> ('h, 'f) world
   \<Rightarrow> 'h response result \<times> ('h, 'f) world" where
  "send_with_retry E cc rq w =
     (case effective_retry cc rq of
        None \<Rightarrow> send_with_redirects E cc rq w
      | Some policy \<Rightarrow>
          if \<not> retry_is_enabled policy then send_with_redirects E cc rq w
          else if \<not> body_is_replayable (rq_body rq) then send_with_redirects E cc rq w
          else case read_instant E w of (start, w1) \<Rightarrow> retry_loop E cc policy rq start 1 w1)"

end
