(* ===== verification/Pipeline_Trace.thy ===== *)
theory Pipeline_Trace
  imports Pipeline
begin

text \<open>
  The dispatches of one redirect loop as a trace.  The inductive predicate
  \<open>hops\<close> describes the dispatches a loop can make from a state: each is a hop
  built from the state, and two successive ones are linked by one redirect
  step.  The loop produces such a trace (\<open>redirect_loop_hops\<close>), so what the
  pipeline guarantees about several dispatches is shown by rule induction.
\<close>

definition taint :: "('h, 'f) env \<Rightarrow> 'h redirect_state \<Rightarrow> 'h redirect_state" where
  "taint E st = (if is_cross_origin_redirect E st
                 then st\<lparr>st_credentials_allowed := False, st_cookie_allowed := False\<rparr> else st)"

definition pinned :: "('h, 'f) hop_params \<Rightarrow> bool" where
  "pinned params \<longleftrightarrow> th_resolved_target (hp_transport_hints params) \<noteq> None \<or> hp_proxied_target params \<noteq> None"

definition hop_ok ::
  "('h, 'f) env \<Rightarrow> ('h, 'f) client_config \<Rightarrow> ('h, 'f) hop_params \<Rightarrow> 'h redirect_state \<Rightarrow> ('h, 'f) dispatch \<Rightarrow> bool" where
  "hop_ok E cc params st d \<longleftrightarrow>
     \<not> (is_cross_origin_redirect E st \<and> pinned params)
     \<and> (\<exists>w1 w2. build_hop_request E cc (hop_params_of E params (taint E st) (dp_timeout d)) w1 = (Ok (dp_request d), w2))
     \<and> (dp_timeout d = hp_timeout params \<and> to_total (hp_timeout params) = None
        \<or> (\<exists>T el. to_total (hp_timeout params) = Some T \<and> el < T
              \<and> dp_timeout d = (hp_timeout params)\<lparr>to_total := Some (T - el)\<rparr>))"

definition step_ok :: "('h, 'f) env \<Rightarrow> redirect_policy \<Rightarrow> 'h redirect_state \<Rightarrow> 'h redirect_state \<Rightarrow> bool" where
  "step_ok E pol st st' \<longleftrightarrow>
     (\<exists>status location hop replay entry.
        advance_redirect_hop E (st_method st) (st_url st) (st_headers st) (st_version st) (st_replay_body st)
          status location (rp_downgrade pol) = Ok (hop, replay)
        \<and> is_redirect_status status \<and> rp_follow pol
        \<and> Suc (st_redirect_count st) \<le> rp_max_redirects pol
        \<and> st' = \<lparr>st_method = rh_method hop, st_url = rh_url hop, st_headers = rh_headers hop,
                 st_body = rh_body hop, st_version = rh_version hop, st_replay_body = replay,
                 st_prev_url = Some (st_url st),
                 st_credentials_allowed = st_credentials_allowed (taint E st),
                 st_cookie_allowed = st_cookie_allowed (taint E st),
                 st_redirect_count = Suc (st_redirect_count st),
                 st_history = st_history st @ [entry]\<rparr>)"

inductive hops ::
  "('h, 'f) env \<Rightarrow> ('h, 'f) client_config \<Rightarrow> redirect_policy \<Rightarrow> ('h, 'f) hop_params
   \<Rightarrow> 'h redirect_state \<Rightarrow> ('h, 'f) dispatch list \<Rightarrow> bool"
  for E cc pol params where
  hops_none: "hops E cc pol params st []"
| hops_last: "hop_ok E cc params st d \<Longrightarrow> hops E cc pol params st [d]"
| hops_step: "hop_ok E cc params st d \<Longrightarrow> step_ok E pol st st' \<Longrightarrow> hops E cc pol params st' ds
    \<Longrightarrow> hops E cc pol params st (d # ds)"

inductive_cases hops_NilE: "hops E cc pol params st []"
inductive_cases hops_ConsE: "hops E cc pol params st (d # ds)"
inductive_simps hops_Cons: "hops E cc pol params st (d # ds)"

subsection \<open>What leaves the log alone\<close>

lemma read_instant_log [simp]: "w_log (snd (read_instant E w)) = w_log w"
  by (simp add: read_instant_def)

lemma elapsed_since_log: "elapsed_since E s w = (d, w') \<Longrightarrow> w_log w' = w_log w \<and> w_jar w' = w_jar w"
  by (auto simp: elapsed_since_def read_instant_def)

lemma hop_timeout_of_log: "hop_timeout_of E t s w = (r, w') \<Longrightarrow> w_log w' = w_log w \<and> w_jar w' = w_jar w"
  by (auto simp: hop_timeout_of_def split: option.splits prod.splits if_splits dest!: elapsed_since_log)

lemma inject_cookies_log: "inject_cookies E a u h w = (r, w') \<Longrightarrow> w_log w' = w_log w"
  by (auto simp: inject_cookies_def Let_def split: if_splits prod.splits option.splits)

lemma build_hop_request_log: "build_hop_request E cc p w = (r, w') \<Longrightarrow> w_log w' = w_log w"
  by (auto simp: build_hop_request_def Let_def split: prod.splits sum.splits dest!: inject_cookies_log)

lemma update_cookie_jar_log [simp]: "w_log (update_cookie_jar E rs w) = w_log w"
  by (simp add: update_cookie_jar_def Let_def split: prod.splits)

lemma after_response_log: "after_response E pol t st rs w = (out, w') \<Longrightarrow> w_log w' = w_log w \<and> w_jar w' = w_jar w"
  by (auto simp: after_response_def Let_def read_instant_def
           split: if_splits option.splits sum.splits prod.splits)

subsection \<open>One iteration\<close>

lemma after_response_step:
  assumes "after_response E pol t (taint E st) rs w = (Inr st', w')"
  shows "step_ok E pol st st'"
proof -
  have eqs: "st_method (taint E st) = st_method st" "st_url (taint E st) = st_url st"
    "st_headers (taint E st) = st_headers st" "st_version (taint E st) = st_version st"
    "st_replay_body (taint E st) = st_replay_body st" "st_redirect_count (taint E st) = st_redirect_count st"
    "st_history (taint E st) = st_history st"
    by (simp_all add: taint_def)
  from assms obtain location hop replay where
    "advance_redirect_hop E (st_method st) (st_url st) (st_headers st) (st_version st) (st_replay_body st)
       (rs_status rs) location (rp_downgrade pol) = Ok (hop, replay)"
    "is_redirect_status (rs_status rs)" "rp_follow pol" "Suc (st_redirect_count st) \<le> rp_max_redirects pol"
    "st' = \<lparr>st_method = rh_method hop, st_url = rh_url hop, st_headers = rh_headers hop,
                 st_body = rh_body hop, st_version = rh_version hop, st_replay_body = replay,
                 st_prev_url = Some (st_url st),
                 st_credentials_allowed = st_credentials_allowed (taint E st),
                 st_cookie_allowed = st_cookie_allowed (taint E st),
                 st_redirect_count = Suc (st_redirect_count st),
                 st_history = st_history st @ [history_entry_of rs]\<rparr>"
    unfolding after_response_def eqs
    by (auto simp: Let_def not_less split: if_splits option.splits sum.splits prod.splits)
  then show ?thesis unfolding step_ok_def by blast
qed

lemma hop_timeout_of_Ok:
  "hop_timeout_of E t s w = (Ok t', w') \<Longrightarrow>
     t' = t \<and> to_total t = None \<or> (\<exists>T el. to_total t = Some T \<and> el < T \<and> t' = t\<lparr>to_total := Some (T - el)\<rparr>)"
  by (auto simp: hop_timeout_of_def not_le split: option.splits prod.splits if_splits)

lemma redirect_iteration_trace:
  assumes "redirect_iteration E cc pol params start st w = (out, w')"
  shows "w_log w' = w_log w \<and> isl out
    \<or> (\<exists>d. w_log w' = w_log w @ [d] \<and> hop_ok E cc params st d
         \<and> (\<forall>st'. out = Inr st' \<longrightarrow> step_ok E pol st st'))"
proof -
  obtain rt w1 where t: "hop_timeout_of E (hp_timeout params) start w = (rt, w1)" by fastforce
  note log1 = hop_timeout_of_log [OF t]
  show ?thesis
  proof (cases rt)
    case (Inl e)
    with assms t log1 show ?thesis by (auto simp: redirect_iteration_def)
  next
    case (Inr ht)
    note ht = hop_timeout_of_Ok [OF t [unfolded Inr]]
    have it: "redirect_iteration E cc pol params start st w =
       (if is_cross_origin_redirect E st \<and> pinned params then (Inl (Err ResolvedTargetRedirect), w1)
        else case build_hop_request E cc (hop_params_of E params (taint E st) ht) w1 of
               (Inl e, w2) \<Rightarrow> (Inl (Err e), w2)
             | (Inr hop, w2) \<Rightarrow>
                (case send_single_request E hop ht w2 of
                   (Inl e, w3) \<Rightarrow> (Inl (Err e), w3)
                 | (Inr rs, w3) \<Rightarrow> after_response E pol (hp_timeout params) (taint E st) rs (update_cookie_jar E rs w3)))"
      unfolding redirect_iteration_def t Inr Let_def pinned_def [symmetric] taint_def [symmetric] by simp
    show ?thesis
    proof (cases "is_cross_origin_redirect E st \<and> pinned params")
      case True
      with assms it log1 show ?thesis by auto
    next
      case np: False
      obtain rb w2 where b: "build_hop_request E cc (hop_params_of E params (taint E st) ht) w1 = (rb, w2)" by fastforce
      note log2 = build_hop_request_log [OF b]
      show ?thesis
      proof (cases rb)
        case (Inl e)
        with assms it np b log1 log2 show ?thesis by auto
      next
        case hop: (Inr hop)
        let ?d = "\<lparr>dp_request = hop, dp_timeout = ht\<rparr>"
        have ok: "hop_ok E cc params st ?d"
          using np b hop ht unfolding hop_ok_def by auto
        have "w_log w' = w_log w @ [?d] \<and> (\<forall>st'. out = Inr st' \<longrightarrow> step_ok E pol st st')"
          using assms it np b hop log1 log2 after_response_step
          by (auto simp: send_single_request_def split: sum.splits dest: after_response_log)
        with ok show ?thesis by blast
      qed
    qed
  qed
qed

lemma redirect_loop_hops:
  "\<exists>ds. w_log (snd (redirect_loop E cc pol params start st w)) = w_log w @ ds \<and> hops E cc pol params st ds"
proof (induction E cc pol params start st w rule: redirect_loop.induct)
  case (1 E cc pol params start st w)
  obtain out w' where it: "redirect_iteration E cc pol params start st w = (out, w')" by fastforce
  show ?case
  proof (cases out)
    case (Inl r)
    with it have "w_log (snd (redirect_loop E cc pol params start st w)) = w_log w'"
      by (simp add: redirect_loop.simps)
    with redirect_iteration_trace [OF it] show ?thesis
      by (metis append_Nil2 hops_last hops_none)
  next
    case (Inr st')
    with it have loop: "redirect_loop E cc pol params start st w = redirect_loop E cc pol params start st' w'"
      by (subst redirect_loop.simps) simp
    from 1 [OF it [symmetric] Inr] obtain ds where
      ds: "w_log (snd (redirect_loop E cc pol params start st' w')) = w_log w' @ ds" "hops E cc pol params st' ds"
      by blast
    from redirect_iteration_trace [OF it] Inr obtain d where
      "w_log w' = w_log w @ [d]" "hop_ok E cc params st d" "step_ok E pol st st'" by auto
    with ds show ?thesis unfolding loop by (intro exI [of _ "d # ds"]) (simp add: hops_step)
  qed
qed

subsection \<open>One attempt\<close>

text \<open>
  What one attempt dispatches: the trace of its redirect loop from the initial
  state, or, when redirects are not followed, at most the one hop of
  \<open>send_lean\<close>.
\<close>

definition attempt_trace ::
  "('h, 'f) env \<Rightarrow> ('h, 'f) client_config \<Rightarrow> ('h, 'f) request \<Rightarrow> ('h, 'f) dispatch list \<Rightarrow> bool" where
  "attempt_trace E cc rq ds \<longleftrightarrow>
     (let pol = effective_redirect cc rq; p = prepare_first_hop E cc rq
      in if rp_follow pol then hops E cc pol (p\<lparr>hp_body := BodyEmpty\<rparr>) (initial_redirect_state p) ds
         else ds = [] \<or> (\<exists>d w1 w2. ds = [d] \<and> build_hop_request E cc p w1 = (Ok (dp_request d), w2)
                            \<and> dp_timeout d = hp_timeout p))"

lemma send_lean_trace:
  "\<exists>ds. w_log (snd (send_lean E cc rq w)) = w_log w @ ds
     \<and> (ds = [] \<or> (\<exists>d w1 w2. ds = [d] \<and> build_hop_request E cc (prepare_first_hop E cc rq) w1 = (Ok (dp_request d), w2)
           \<and> dp_timeout d = hp_timeout (prepare_first_hop E cc rq)))"
proof -
  let ?p = "prepare_first_hop E cc rq"
  obtain rb w1 where b: "build_hop_request E cc ?p w = (rb, w1)" by fastforce
  note log1 = build_hop_request_log [OF b]
  show ?thesis
  proof (cases rb)
    case (Inl e)
    with b log1 show ?thesis by (intro exI [of _ "[]"]) (simp add: send_lean_def)
  next
    case (Inr hop)
    with b log1 show ?thesis
      by (intro exI [of _ "[\<lparr>dp_request = hop, dp_timeout = hp_timeout ?p\<rparr>]"])
         (auto simp: send_lean_def send_single_request_def Let_def split: sum.splits)
  qed
qed

lemma send_with_redirects_trace:
  "\<exists>ds. w_log (snd (send_with_redirects E cc rq w)) = w_log w @ ds \<and> attempt_trace E cc rq ds"
proof (cases "rp_follow (effective_redirect cc rq)")
  case False
  then show ?thesis using send_lean_trace [of E cc rq w]
    by (simp add: send_with_redirects_def attempt_trace_def Let_def)
next
  case True
  then show ?thesis
    using redirect_loop_hops [of E cc "effective_redirect cc rq" "(prepare_first_hop E cc rq)\<lparr>hp_body := BodyEmpty\<rparr>"
        "fst (read_instant E w)" "initial_redirect_state (prepare_first_hop E cc rq)" "snd (read_instant E w)"]
    by (simp add: send_with_redirects_def attempt_trace_def Let_def case_prod_beta)
qed

subsection \<open>The attempts of one call\<close>

text \<open>An attempt is given the caller's timeout with the total reduced by the time already spent.\<close>

definition attempt_of :: "('h, 'f) request \<Rightarrow> ('h, 'f) request \<Rightarrow> bool" where
  "attempt_of saved rq \<longleftrightarrow>
     (\<exists>el. rq = saved\<lparr>rq_timeout := map_option (\<lambda>t. shrink_total_deadline t el) (rq_timeout saved)\<rparr>
        \<and> (\<forall>T. saved_total saved = Some T \<longrightarrow> el < T))"

lemma attempt_timeout_Ok:
  assumes "attempt_timeout policy saved attempt el = Ok t" "body_is_replayable (rq_body saved)"
    "retry_request H saved t = Ok rq"
  shows "attempt_of saved rq"
proof -
  from assms(1) have "t = map_option (\<lambda>t. shrink_total_deadline t el) (rq_timeout saved)"
    "\<forall>T. saved_total saved = Some T \<longrightarrow> el < T"
    by (auto simp: attempt_timeout_def Let_def split: if_splits)
  with assms(2,3) show ?thesis
    unfolding attempt_of_def by (intro exI [of _ el]) (auto simp: retry_request_same)
qed

lemma next_delay_log: "next_delay E p c a ra w = (d, w') \<Longrightarrow> w_log w' = w_log w \<and> w_jar w' = w_jar w"
  by (auto simp: next_delay_def Let_def split: if_splits prod.splits)

lemma sleep_if_budget_allows_log:
  "sleep_if_budget_allows E p d a s b w = (r, w') \<Longrightarrow> w_log w' = w_log w \<and> w_jar w' = w_jar w"
  by (auto simp: sleep_if_budget_allows_def Let_def split: option.splits prod.splits if_splits
           dest!: elapsed_since_log)

lemma sleep_before_retry_log:
  "sleep_before_retry E p c a ra s b w = (r, w') \<Longrightarrow> w_log w' = w_log w \<and> w_jar w' = w_jar w"
  by (auto simp: sleep_before_retry_def split: prod.splits option.splits
           dest!: next_delay_log sleep_if_budget_allows_log)

lemma has_budget_log: "has_budget E p a s w = (b, w') \<Longrightarrow> w_log w' = w_log w \<and> w_jar w' = w_jar w"
  by (auto simp: has_budget_def split: if_splits option.splits prod.splits dest!: elapsed_since_log)

lemma after_attempt_log: "after_attempt E p saved a s r w = (out, w') \<Longrightarrow> w_log w' = w_log w \<and> w_jar w' = w_jar w"
  by (auto simp: after_attempt_def Let_def read_instant_def
           split: option.splits prod.splits bool.splits sum.splits if_splits
           dest!: has_budget_log sleep_before_retry_log)

lemma clear_context_log [simp]:
  "w_log (clear_context rq w) = w_log w" "w_jar (clear_context rq w) = w_jar w"
  by (simp_all add: clear_context_def)

lemma retry_iteration_trace:
  assumes "retry_iteration E cc policy saved start attempt w = (out, w')" "body_is_replayable (rq_body saved)"
  shows "w_log w' = w_log w \<and> isl out
    \<or> attempt \<le> ry_max_attempts policy
      \<and> (\<exists>rq ds. w_log w' = w_log w @ ds \<and> attempt_of saved rq \<and> attempt_trace E cc rq ds)"
proof (cases "attempt > ry_max_attempts policy")
  case True
  with assms(1) show ?thesis by (auto simp: retry_iteration_def Let_def)
next
  case False
  obtain el w1 where e: "elapsed_since E start (clear_context saved w) = (el, w1)" by fastforce
  then have log1: "w_log w1 = w_log w" using elapsed_since_log by fastforce
  show ?thesis
  proof (cases "attempt_timeout policy saved attempt el")
    case (Inl x)
    with assms(1) False e log1 show ?thesis by (auto simp: retry_iteration_def Let_def)
  next
    case t: (Inr t)
    have rr: "retry_request (e_http E) saved t = Ok (saved\<lparr>rq_timeout := t\<rparr>)"
      by (rule retry_request_same [OF assms(2)])
    obtain r w2 where s: "send_with_redirects E cc (saved\<lparr>rq_timeout := t\<rparr>) w1 = (r, w2)" by fastforce
    from send_with_redirects_trace [of E cc "saved\<lparr>rq_timeout := t\<rparr>" w1] s obtain ds where
      ds: "w_log w2 = w_log w1 @ ds" "attempt_trace E cc (saved\<lparr>rq_timeout := t\<rparr>) ds" by auto
    from assms(1) False e t rr s have "after_attempt E policy saved attempt start r w2 = (out, w')"
      by (simp add: retry_iteration_def Let_def)
    from after_attempt_log [OF this] ds log1 have "w_log w' = w_log w @ ds" by simp
    with ds(2) attempt_timeout_Ok [OF t assms(2) rr] False show ?thesis by auto
  qed
qed

text \<open>The log of a call is the concatenation of the traces of its attempts.\<close>

definition attempts_trace ::
  "('h, 'f) env \<Rightarrow> ('h, 'f) client_config \<Rightarrow> ('h, 'f) request \<Rightarrow> ('h, 'f) dispatch list list \<Rightarrow> bool" where
  "attempts_trace E cc saved dss \<longleftrightarrow> (\<forall>ds\<in>set dss. \<exists>rq. attempt_of saved rq \<and> attempt_trace E cc rq ds)"

lemma retry_loop_trace:
  assumes "body_is_replayable (rq_body saved)"
  shows "\<exists>dss. w_log (snd (retry_loop E cc policy saved start attempt w)) = w_log w @ concat dss
     \<and> length dss \<le> Suc (ry_max_attempts policy) - attempt \<and> attempts_trace E cc saved dss"
  using assms
proof (induction E cc policy saved start attempt w rule: retry_loop.induct)
  case (1 E cc policy saved start attempt w)
  obtain out w' where it: "retry_iteration E cc policy saved start attempt w = (out, w')" by fastforce
  from retry_iteration_trace [OF it 1(2)] obtain dss1 where
    d1: "w_log w' = w_log w @ concat dss1" "attempts_trace E cc saved dss1" "length dss1 \<le> 1"
    "dss1 \<noteq> [] \<Longrightarrow> attempt \<le> ry_max_attempts policy"
    unfolding attempts_trace_def
    by (metis append.right_neutral concat.simps(1,2) empty_iff le_numeral_extra(4) length_Cons list.set(1,2)
        list.size(3) One_nat_def singletonD zero_le)
  show ?case
  proof (cases out)
    case (Inl r)
    with it have "w_log (snd (retry_loop E cc policy saved start attempt w)) = w_log w'"
      by (simp add: retry_loop.simps)
    with d1 show ?thesis by (cases dss1) (auto intro!: exI [of _ dss1])
  next
    case (Inr u)
    with it have loop: "retry_loop E cc policy saved start attempt w = retry_loop E cc policy saved start (attempt + 1) w'"
      by (subst retry_loop.simps) simp
    from 1(1) [OF it [symmetric] Inr 1(2)] obtain dss where
      d2: "w_log (snd (retry_loop E cc policy saved start (attempt + 1) w')) = w_log w' @ concat dss"
      "length dss \<le> Suc (ry_max_attempts policy) - (attempt + 1)" "attempts_trace E cc saved dss" by blast
    have "attempt < ry_max_attempts policy"
      using retry_iteration_continues it Inr by (cases u) blast
    with d1 d2 show ?thesis unfolding loop
      by (intro exI [of _ "dss1 @ dss"]) (auto simp: attempts_trace_def)
  qed
qed

lemma attempt_of_refl: "attempt_of rq rq' \<Longrightarrow> rq_redirect rq' = rq_redirect rq \<and> rq_body rq' = rq_body rq
    \<and> rq_transport_hints rq' = rq_transport_hints rq \<and> rq_proxied_target rq' = rq_proxied_target rq
    \<and> rq_method rq' = rq_method rq \<and> rq_url rq' = rq_url rq \<and> rq_headers rq' = rq_headers rq"
  by (auto simp: attempt_of_def)

text \<open>How many attempts a call may make: one, unless a policy retries this method and body.\<close>

definition attempts_allowed :: "('h, 'f) client_config \<Rightarrow> ('h, 'f) request \<Rightarrow> nat" where
  "attempts_allowed cc rq =
     (case effective_retry cc rq of
        None \<Rightarrow> 1
      | Some policy \<Rightarrow> if retry_is_enabled policy \<and> body_is_replayable (rq_body rq)
                          \<and> is_method_retryable policy (rq_method rq)
                       then ry_max_attempts policy else 1)"

definition redirects_allowed :: "('h, 'f) client_config \<Rightarrow> ('h, 'f) request \<Rightarrow> nat" where
  "redirects_allowed cc rq =
     (if rp_follow (effective_redirect cc rq) then rp_max_redirects (effective_redirect cc rq) else 0)"

lemma after_attempt_stops:
  "\<not> is_method_retryable policy (rq_method saved) \<Longrightarrow>
     after_attempt E policy saved attempt start r w = (Inl r, w)"
  by (cases r) (simp_all add: after_attempt_def should_retry_def Let_def)

lemma retry_iteration_stops:
  "\<not> is_method_retryable policy (rq_method saved) \<Longrightarrow>
     isl (fst (retry_iteration E cc policy saved start attempt w))"
  by (auto simp: retry_iteration_def Let_def after_attempt_stops split: prod.splits sum.splits)

text \<open>The total of the caller's timeout may be kept as it is when there is no retry loop.\<close>

lemma send_with_retry_trace:
  "\<exists>dss. w_log (snd (send_with_retry E cc rq w)) = w_log w @ concat dss
     \<and> length dss \<le> attempts_allowed cc rq
     \<and> (\<forall>ds\<in>set dss. \<exists>rq'. (rq' = rq \<or> attempt_of rq rq') \<and> attempt_trace E cc rq' ds)"
proof (cases "\<exists>policy. effective_retry cc rq = Some policy \<and> retry_is_enabled policy \<and> body_is_replayable (rq_body rq)")
  case False
  then have "send_with_retry E cc rq w = send_with_redirects E cc rq w"
    by (auto simp: send_with_retry_def split: option.splits)
  moreover from False have "attempts_allowed cc rq = 1" by (auto simp: attempts_allowed_def split: option.splits)
  ultimately show ?thesis using send_with_redirects_trace [of E cc rq w]
    by (metis append.right_neutral concat.simps le_refl length_Cons list.set(1,2) list.size(3) One_nat_def
        singletonD)
next
  case True
  then obtain policy where p: "effective_retry cc rq = Some policy" "retry_is_enabled policy"
    and b: "body_is_replayable (rq_body rq)" by blast
  obtain start w1 where s: "read_instant E w = (start, w1)" by fastforce
  then have log1: "w_log w1 = w_log w" by (auto simp: read_instant_def)
  have send: "send_with_retry E cc rq w = retry_loop E cc policy rq start 1 w1"
    using p b s by (simp add: send_with_retry_def)
  show ?thesis
  proof (cases "is_method_retryable policy (rq_method rq)")
    case True
    with retry_loop_trace [OF b, of E cc policy start 1 w1] p b log1 show ?thesis
      unfolding send attempts_trace_def attempts_allowed_def by fastforce
  next
    case False
    obtain out w2 where it: "retry_iteration E cc policy rq start 1 w1 = (out, w2)" by fastforce
    with retry_iteration_stops [OF False] obtain r where "out = Inl r" by (metis fst_conv isl_def)
    with it have "w_log (snd (retry_loop E cc policy rq start 1 w1)) = w_log w2"
      by (simp add: retry_loop.simps)
    moreover have "attempts_allowed cc rq = 1" using p False by (simp add: attempts_allowed_def)
    ultimately show ?thesis using retry_iteration_trace [OF it b] log1 unfolding send
      by (metis append.right_neutral concat.simps empty_iff le_refl length_Cons list.set(1,2) list.size(3)
          One_nat_def singletonD zero_le)
  qed
qed

end
