(* ===== verification/Pipeline_Props.thy ===== *)
theory Pipeline_Props
  imports Pipeline_Trace
begin

text \<open>
  What the pipeline guarantees about the requests it puts on the wire: bounds
  on their number, no credentials after a cross-origin redirect, no downgrade
  under the strict policy, no body replayed after it was dropped, deadlines
  that only shrink, bounded backoff, and a cookie jar that stays well formed.
\<close>

subsection \<open>Facts about one hop\<close>

lemma hop_params_of_fields [simp]:
  "hp_url (hop_params_of E params st t) = st_url st"
  "hp_method (hop_params_of E params st t) = st_method st"
  "hp_body (hop_params_of E params st t) = st_body st"
  "hp_headers (hop_params_of E params st t) = st_headers st"
  "hp_timeout (hop_params_of E params st t) = t"
  "hp_credentials_allowed (hop_params_of E params st t) = st_credentials_allowed st"
  "hp_cookie_allowed (hop_params_of E params st t) = st_cookie_allowed st"
  by (simp_all add: hop_params_of_def Let_def)

lemma taint_fields [simp]:
  "st_url (taint E st) = st_url st" "st_method (taint E st) = st_method st" "st_body (taint E st) = st_body st"
  "st_headers (taint E st) = st_headers st" "st_replay_body (taint E st) = st_replay_body st"
  by (simp_all add: taint_def)

lemma hop_base_fields [simp]:
  "rq_url (hop_base_request H p) = hp_url p" "rq_method (hop_base_request H p) = hp_method p"
  "rq_body (hop_base_request H p) = hp_body p" "rq_headers (hop_base_request H p) = hp_headers p"
  "rq_auth (hop_base_request H p) = (if hp_credentials_allowed p then hp_auth p else None)"
  "rq_timeout (hop_base_request H p) = Some (hp_timeout p)"
  by (simp_all add: hop_base_request_def Let_def request_new_def)

lemma apply_auth_Ok:
  "apply_auth E cc c rq = Ok rq' \<Longrightarrow> \<exists>h. rq' = rq\<lparr>rq_headers := h\<rparr>"
  by (auto simp: apply_auth_def bind_result_Inr simp del: bind_result_simps split: option.splits)
     (metis request.unfold_congs(3) request.surjective request.update_convs(3))

lemma build_hop_Ok:
  assumes "build_hop_request E cc p w1 = (Ok rq, w2)"
  shows "rq_url rq = hp_url p" "rq_method rq = hp_method p" "rq_body rq = hp_body p"
    "rq_auth rq = (if hp_credentials_allowed p then hp_auth p else None)" "rq_timeout rq = Some (hp_timeout p)"
proof -
  from assms obtain h where "apply_auth E cc (hp_credentials_allowed p) ((hop_base_request (e_http E) p)\<lparr>rq_headers := h\<rparr>) = Ok rq"
    by (auto simp: build_hop_request_def Let_def split: prod.splits sum.splits)
  from apply_auth_Ok [OF this] show "rq_url rq = hp_url p" "rq_method rq = hp_method p" "rq_body rq = hp_body p"
    "rq_auth rq = (if hp_credentials_allowed p then hp_auth p else None)" "rq_timeout rq = Some (hp_timeout p)"
    by auto
qed

text \<open>A hop without permission for credentials and cookies carries neither, beyond what its headers had.\<close>

lemma build_hop_clean:
  assumes H: "http_headers (e_http E)"
    and b: "build_hop_request E cc p w1 = (Ok rq, w2)"
    and p: "\<not> hp_credentials_allowed p" "\<not> hp_cookie_allowed p"
  shows "headers_get_all (e_http E) (rq_headers rq) ''cookie'' = []"
    and "canonical_name m \<Longrightarrow> m \<noteq> ''cookie'' \<Longrightarrow>
      headers_get_all (e_http E) (rq_headers rq) m = headers_get_all (e_http E) (hp_headers p) m"
proof -
  let ?h = "headers_remove (e_http E) (hp_headers p) ''cookie''"
  have "apply_auth E cc False ((hop_base_request (e_http E) p)\<lparr>rq_headers := ?h\<rparr>) = Ok rq"
    using b p by (simp add: build_hop_request_def inject_cookies_def Let_def)
  then have "(hop_base_request (e_http E) p)\<lparr>rq_headers := ?h\<rparr> = rq"
    using p by (simp add: apply_auth_def resolve_request_auth_none)
  from this [symmetric] have "rq_headers rq = ?h" by simp
  then show "headers_get_all (e_http E) (rq_headers rq) ''cookie'' = []"
    "canonical_name m \<Longrightarrow> m \<noteq> ''cookie'' \<Longrightarrow>
      headers_get_all (e_http E) (rq_headers rq) m = headers_get_all (e_http E) (hp_headers p) m"
    using http_headers.get_remove [OF H] by (simp_all add: headers_get_all_def headers_remove_def)
qed

text \<open>Building a hop touches no header but those two.\<close>

lemma build_hop_other_header:
  assumes H: "http_headers (e_http E)" and b: "build_hop_request E cc p w1 = (Ok rq, w2)"
    and m: "canonical_name m" "m \<noteq> ''cookie''" "m \<noteq> ''authorization''"
  shows "headers_get_all (e_http E) (rq_headers rq) m = headers_get_all (e_http E) (hp_headers p) m"
proof -
  from b obtain h w' where
    i: "inject_cookies E (hp_cookie_allowed p) (hp_url p) (hp_headers p) w1 = (Ok h, w')"
    and a: "apply_auth E cc (hp_credentials_allowed p) ((hop_base_request (e_http E) p)\<lparr>rq_headers := h\<rparr>) = Ok rq"
    by (auto simp: build_hop_request_def Let_def split: prod.splits sum.splits)
  have ins: "headers_get_all (e_http E) h' m = headers_get_all (e_http E) g m"
    if "headers_insert (e_http E) g n v = Ok h'" "n \<in> {''cookie'', ''authorization''}" for g h' n v
  proof -
    from that(1) obtain n' v' where "hm_header_name (e_http E) n = Inr n'" "h' = hm_insert (e_http E) g n' v'"
      by (auto simp: headers_insert_def parse_header_name_def parse_header_value_def bind_result_Inr
          simp del: bind_result_simps split: sum.splits)
    moreover have "to_ascii_lowercase n = n" "canonical_name n"
      using that(2) canonical_names(1,3) unfolding canonical_name_def by auto
    ultimately show ?thesis
      using http_headers.header_name [OF H] http_headers.get_insert [OF H] that(2) m
      by (auto simp: headers_get_all_def)
  qed
  from i have "headers_get_all (e_http E) h m = headers_get_all (e_http E) (hp_headers p) m"
    using ins http_headers.get_remove [OF H] m
    by (auto simp: inject_cookies_def Let_def headers_remove_def headers_get_all_def
        split: if_splits prod.splits option.splits)
  moreover from a have "headers_get_all (e_http E) (rq_headers rq) m = headers_get_all (e_http E) h m"
    using ins by (auto simp: apply_auth_def auth_apply_def bind_result_Inr simp del: bind_result_simps
        split: option.splits)
  ultimately show ?thesis by simp
qed

lemma hop_ok_request:
  assumes "hop_ok E cc params st d"
  shows "rq_url (dp_request d) = st_url st" "rq_method (dp_request d) = st_method st"
    "rq_body (dp_request d) = st_body st"
proof -
  from assms obtain w1 w2 where
    b: "build_hop_request E cc (hop_params_of E params (taint E st) (dp_timeout d)) w1 = (Ok (dp_request d), w2)"
    unfolding hop_ok_def by blast
  show "rq_url (dp_request d) = st_url st" "rq_method (dp_request d) = st_method st"
    "rq_body (dp_request d) = st_body st"
    using build_hop_Ok [OF b] by simp_all
qed

subsection \<open>Facts about one redirect step\<close>

lemma advance_Ok:
  fixes E :: "('h, 'f) env"
  assumes "advance_redirect_hop E m u h v replay status location dg = Ok (hop, replay')"
  obtains drop where "drop = drops_body_on_redirect status m"
    "rh_method hop = redirect_method status m"
    "\<not> (dg = Deny \<and> is_https_downgrade u (rh_url hop))" "url_scheme (rh_url hop) \<in> {''http'', ''https''}"
    "drop \<Longrightarrow> rh_body hop = BodyEmpty \<and> replay' = Some []"
    "\<not> drop \<Longrightarrow> \<exists>b. replay = Some b \<and> rh_body hop = BodyBytes b \<and> replay' = Some b"
    "rh_headers hop =
       (let h' = strip_headers_for_redirect (e_http E) (e_same_origin E) h u (rh_url hop) drop
        in case headers_get (e_http E) h ''authorization'' of
             Some v \<Rightarrow> if e_same_origin E u (rh_url hop) then headers_insert_raw (e_http E) h' ''authorization'' v else h'
           | None \<Rightarrow> h')"
proof -
  let ?drop = "drops_body_on_redirect status m"
  let ?b = "case replay' of Some b \<Rightarrow> b | None \<Rightarrow> []"
  let ?temp = "(request_new (e_http E) m u :: ('h, 'f) request)
      \<lparr>rq_headers := h, rq_body := (if ?drop then BodyEmpty else BodyBytes ?b), rq_version := v\<rparr>"
  from assms obtain rr where rep: "(if ?drop then Ok (Some []) else case replay of
          None \<Rightarrow> Err BodyNotReplayableForRedirect | Some b \<Rightarrow> Ok (Some b)) = Ok replay'"
    and bd: "build_redirect_request_with_method (e_http E) (e_same_origin E) (e_join E) ?temp location
       (redirect_method status m) ?drop dg = Ok rr"
    and hop: "hop = \<lparr>rh_method = redirect_method status m, rh_url = rq_url rr,
        rh_headers = (case headers_get (e_http E) h ''authorization'' of
                     Some v \<Rightarrow>
                       if e_same_origin E u (rq_url rr)
                       then headers_insert_raw (e_http E) (rq_headers rr) ''authorization'' v
                       else rq_headers rr
                   | None \<Rightarrow> rq_headers rr),
        rh_body = rq_body rr, rh_version = rq_version rr\<rparr>"
    unfolding advance_redirect_hop_def Let_def bind_result_Inr by auto
  from build_redirect_Ok [OF bd] obtain new_url new_body where n:
    "url_scheme new_url \<in> {''http'', ''https''}" "\<not> (dg = Deny \<and> is_https_downgrade (rq_url ?temp) new_url)"
    "new_body = (if ?drop then BodyEmpty else rq_body ?temp)"
    "rr = (request_new (e_http E) (redirect_method status m) new_url)
       \<lparr>rq_headers := strip_headers_for_redirect (e_http E) (e_same_origin E) (rq_headers ?temp)
           (rq_url ?temp) new_url ?drop, rq_body := new_body\<rparr>" by metis
  have temp: "rq_url ?temp = u" "rq_headers ?temp = h"
    "rq_body ?temp = (if ?drop then BodyEmpty else BodyBytes ?b)" by (simp_all add: request_new_def)
  have rr: "rq_url rr = new_url" "rq_body rr = new_body"
    "rq_headers rr = strip_headers_for_redirect (e_http E) (e_same_origin E) h u new_url ?drop"
    unfolding n(4) temp by (simp_all add: request_new_def)
  show thesis
    by (rule that [of ?drop]) (use rep hop n(1-3) rr temp in \<open>auto simp: Let_def split: if_splits option.splits\<close>)
qed

lemma step_okE:
  assumes "step_ok E pol st st'"
  obtains status where "is_redirect_status status" "Suc (st_redirect_count st) \<le> rp_max_redirects pol"
    "st_method st' = redirect_method status (st_method st)"
    "\<not> (rp_downgrade pol = Deny \<and> is_https_downgrade (st_url st) (st_url st'))"
    "url_scheme (st_url st') \<in> {''http'', ''https''}"
    "drops_body_on_redirect status (st_method st) \<Longrightarrow> st_body st' = BodyEmpty \<and> st_replay_body st' = Some []"
    "\<not> drops_body_on_redirect status (st_method st) \<Longrightarrow>
       \<exists>b. st_replay_body st = Some b \<and> st_body st' = BodyBytes b \<and> st_replay_body st' = Some b"
    "st_headers st' =
       (let h' = strip_headers_for_redirect (e_http E) (e_same_origin E) (st_headers st) (st_url st) (st_url st')
                   (drops_body_on_redirect status (st_method st))
        in case headers_get (e_http E) (st_headers st) ''authorization'' of
             Some v \<Rightarrow> if e_same_origin E (st_url st) (st_url st')
                       then headers_insert_raw (e_http E) h' ''authorization'' v else h'
           | None \<Rightarrow> h')"
    "st_prev_url st' = Some (st_url st)" "st_redirect_count st' = Suc (st_redirect_count st)"
    "st_credentials_allowed st' = st_credentials_allowed (taint E st)"
    "st_cookie_allowed st' = st_cookie_allowed (taint E st)"
proof -
  from assms obtain status location hop replay entry where
    adv: "advance_redirect_hop E (st_method st) (st_url st) (st_headers st) (st_version st) (st_replay_body st)
          status location (rp_downgrade pol) = Ok (hop, replay)"
    and c: "is_redirect_status status" "Suc (st_redirect_count st) \<le> rp_max_redirects pol"
    and st': "st' = \<lparr>st_method = rh_method hop, st_url = rh_url hop, st_headers = rh_headers hop,
                 st_body = rh_body hop, st_version = rh_version hop, st_replay_body = replay,
                 st_prev_url = Some (st_url st),
                 st_credentials_allowed = st_credentials_allowed (taint E st),
                 st_cookie_allowed = st_cookie_allowed (taint E st),
                 st_redirect_count = Suc (st_redirect_count st),
                 st_history = st_history st @ [entry]\<rparr>"
    unfolding step_ok_def by blast
  from adv show thesis
  proof (rule advance_Ok, goal_cases)
    case (1 drop)
    show thesis by (rule that [of status]) (use 1 in \<open>simp_all add: c st' Let_def split: option.splits\<close>)
  qed
qed

subsection \<open>Facts about a trace\<close>

lemma hops_suffix:
  "hops E cc pol params st ds \<Longrightarrow> Suc i < length ds \<Longrightarrow>
     \<exists>st1 st2. hop_ok E cc params st1 (ds ! i) \<and> step_ok E pol st1 st2 \<and> hops E cc pol params st2 (drop (Suc i) ds)"
proof (induction arbitrary: i rule: hops.induct)
  case (hops_step st d st' ds)
  then show ?case by (cases i) auto
qed auto

lemma hops_hd: "hops E cc pol params st (d # ds) \<Longrightarrow> hop_ok E cc params st d"
  by (auto elim: hops_ConsE)

lemma hops_pair:
  assumes "hops E cc pol params st ds" "Suc i < length ds"
  obtains st1 st2 where "hop_ok E cc params st1 (ds ! i)" "step_ok E pol st1 st2"
    "hop_ok E cc params st2 (ds ! Suc i)" "hops E cc pol params st2 (drop (Suc i) ds)"
  using hops_suffix [OF assms] assms(2) by (metis Cons_nth_drop_Suc hops_hd)

lemma hops_each: "hops E cc pol params st ds \<Longrightarrow> d \<in> set ds \<Longrightarrow> \<exists>st'. hop_ok E cc params st' d"
  by (induction rule: hops.induct) auto

lemma hops_length:
  "hops E cc pol params st ds \<Longrightarrow> st_redirect_count st \<le> rp_max_redirects pol
     \<Longrightarrow> length ds \<le> Suc (rp_max_redirects pol - st_redirect_count st)"
proof (induction rule: hops.induct)
  case (hops_step st d st' ds)
  from hops_step(2) have "Suc (st_redirect_count st) \<le> rp_max_redirects pol"
    "st_redirect_count st' = Suc (st_redirect_count st)" by (auto elim: step_okE)
  with hops_step.IH show ?case by simp
qed auto

lemma attempt_trace_length:
  assumes "attempt_trace E cc rq ds" shows "length ds \<le> 1 + redirects_allowed cc rq"
  using assms hops_length [of E cc "effective_redirect cc rq" "(prepare_first_hop E cc rq)\<lparr>hp_body := BodyEmpty\<rparr>"
      "initial_redirect_state (prepare_first_hop E cc rq)" ds]
  by (auto simp: attempt_trace_def redirects_allowed_def initial_redirect_state_def Let_def split: if_splits)

lemma attempt_trace_hops:
  assumes "attempt_trace E cc rq ds" "Suc 0 < length ds"
  shows "hops E cc (effective_redirect cc rq) ((prepare_first_hop E cc rq)\<lparr>hp_body := BodyEmpty\<rparr>)
    (initial_redirect_state (prepare_first_hop E cc rq)) ds"
  using assms by (auto simp: attempt_trace_def Let_def split: if_splits)

text \<open>The dispatches one call of \<open>send_with_redirects\<close> adds to the log.\<close>

definition dispatched ::
  "('h, 'f) env \<Rightarrow> ('h, 'f) client_config \<Rightarrow> ('h, 'f) request \<Rightarrow> ('h, 'f) world \<Rightarrow> ('h, 'f) dispatch list" where
  "dispatched E cc rq w = drop (length (w_log w)) (w_log (snd (send_with_redirects E cc rq w)))"

lemma dispatched_trace: "attempt_trace E cc rq (dispatched E cc rq w)"
  using send_with_redirects_trace [of E cc rq w] by (auto simp: dispatched_def)

lemmas dispatched_hops = attempt_trace_hops [OF dispatched_trace]

end
