(* ===== verification/Exact_Floats.thy ===== *)
theory Exact_Floats
  imports Complex_Main Retry_Policy
begin

text \<open>
  Exact rational arithmetic as an instance of the floating-point operations: it
  satisfies the rounding laws of \<open>float_seconds\<close>, so the laws can hold
  together, and concrete inputs are evaluated over it.
\<close>

definition rat_floats :: "rat float_lib" where
  "rat_floats =
     \<lparr>fl_as_secs = (\<lambda>d. of_nat d / of_nat nanos_per_sec), fl_powf = (\<lambda>x n. x ^ n), fl_mul = (\<lambda>x y. x * y),
      fl_is_finite = (\<lambda>_. True), fl_is_negative = (\<lambda>x. x < 0), fl_less = (\<lambda>x y. x < y), fl_min = min,
      fl_try_duration = (\<lambda>x. if 0 \<le> x \<and> x * of_nat nanos_per_sec \<le> of_nat duration_max
                             then Some (nat \<lfloor>x * of_nat nanos_per_sec\<rfloor>) else None),
      fl_max_value = of_nat duration_max / of_nat nanos_per_sec, fl_of_jitter = (\<lambda>n. of_nat n / 2 ^ 53),
      fl_two = 2, fl_three_halves = 3 / 2\<rparr>"

lemma exact_limit_le: "d \<le> exact_limit \<Longrightarrow> d \<le> duration_max"
  by (simp add: exact_limit_def duration_max_def nanos_per_sec_def)

interpretation rat_seconds: float_seconds rat_floats
proof
  fix d m c j :: nat and x y :: rat
  have n: "(of_nat nanos_per_sec :: rat) > 0" by (simp add: nanos_per_sec_def)
  show "d \<le> exact_limit \<Longrightarrow> fl_try_duration rat_floats (fl_as_secs rat_floats d) = Some d"
    using n by (auto simp: rat_floats_def exact_limit_le)
  show "\<not> fl_less rat_floats y (fl_min rat_floats x y)" by (simp add: rat_floats_def)
  assume "m \<le> exact_limit" "\<not> fl_less rat_floats (fl_as_secs rat_floats m) x" "fl_try_duration rat_floats x = Some d"
  then have "d = nat \<lfloor>x * of_nat nanos_per_sec\<rfloor>" "x * of_nat nanos_per_sec \<le> of_nat m" "0 \<le> x"
    using n by (auto simp: rat_floats_def not_less field_simps split: if_splits)
  then show "d \<le> m" by (simp add: nat_le_iff floor_le_iff)
next
  fix c j d :: nat
  have n: "(of_nat nanos_per_sec :: rat) > 0" by (simp add: nanos_per_sec_def)
  assume "c \<le> exact_limit" "j < 2 ^ 53"
    and t: "fl_try_duration rat_floats (fl_mul rat_floats (fl_as_secs rat_floats c) (fl_of_jitter rat_floats j)) = Some d"
  have "of_nat j / 2 ^ 53 \<le> (1 :: rat)"
  proof -
    have "(of_nat j :: rat) \<le> of_nat (2 ^ 53)" using \<open>j < 2 ^ 53\<close> by (subst of_nat_le_iff) simp
    then show ?thesis by simp
  qed
  then have "of_nat c * (of_nat j / 2 ^ 53) \<le> (of_nat c :: rat)" by (rule mult_left_le) simp
  moreover have "d = nat \<lfloor>of_nat c * (of_nat j / 2 ^ 53) :: rat\<rfloor>"
    using t n by (auto simp: rat_floats_def split: if_splits)
  ultimately show "d \<le> c" by (simp add: nat_le_iff floor_le_iff)
qed

end
