(* ===== verification/Pipeline_Example.thy ===== *)
theory Pipeline_Example
  imports Pipeline_Props Exact_Floats
begin

text \<open>
  One run of the pipeline, evaluated: the concrete input of the properties of
  \<open>Pipeline_Safety\<close>.
\<close>

text \<open>
  A client that posts to one origin and is redirected with status 302 to
  another one: the transport answers the first dispatch with the redirect and
  every later one with 200.
\<close>

definition site :: "string \<Rightarrow> url" where
  "site h = \<lparr>url_scheme = ''https'', url_username = [], url_password = None, url_host_str = Some h,
     url_port = None, url_port_or_known_default = Some 443, url_path = ''/'', url_query = None,
     url_fragment = None, url_as_str = ''https://'' @ h @ ''/''\<rparr>"

definition run_env :: "(header_list, rat) env" where
  "run_env =
     \<lparr>e_http = list_http,
      e_url = \<lparr>ul_parse = (\<lambda>s. Inl ''empty''), ul_without_userinfo = (\<lambda>u. u), ul_percent_decode = (\<lambda>s. s),
               ul_base64 = (\<lambda>s. s)\<rparr>,
      e_float = rat_floats, e_join = (\<lambda>u l. Inr (site l)), e_same_origin = (\<lambda>u v. url_host_str u = url_host_str v),
      e_parse_cookie = (\<lambda>s. None), e_parse_http_date = (\<lambda>s. None), e_instant = int, e_system = int,
      e_seed = Some 7,
      e_transport = (\<lambda>log rq t.
        Ok (if log = [] then \<lparr>rs_status = 302, rs_url = rq_url rq, rs_headers = [(''location'', ''b'')], rs_history = []\<rparr>
            else \<lparr>rs_status = 200, rs_url = rq_url rq, rs_headers = [], rs_history = []\<rparr>))\<rparr>"

definition run_client :: "(header_list, rat) client_config" where
  "run_client = \<lparr>cc_default_headers = [], cc_timeout = None, cc_redirect = redirect_policy_strict 5,
     cc_auth = Some (AuthBearer ''t''), cc_retry = None\<rparr>"

definition run_request :: "(header_list, rat) request" where
  "run_request = (request_new list_http ''POST'' (site ''a''))
     \<lparr>rq_body := BodyBytes ''x'', rq_headers := [(''content-type'', ''text'')],
      rq_timeout := Some (timeout_default\<lparr>to_total := Some 100\<rparr>)\<rparr>"

definition run_world :: "(header_list, rat) world" where
  "run_world = \<lparr>w_jar = jar_new, w_counter = 0, w_instants = 0, w_systems = 0, w_log = [],
     w_context = rfc_new, w_jitter = None, w_sleeps = []\<rparr>"

subsection \<open>Evaluation rules\<close>

lemma run_env_simps [simp]:
  "e_http run_env = list_http" "e_join run_env u l = Inr (site l)"
  "e_same_origin run_env u v \<longleftrightarrow> url_host_str u = url_host_str v"
  "e_instant run_env = int" "e_system run_env = int" "e_float run_env = rat_floats"
  "e_parse_cookie run_env s = None"
  "e_transport run_env ds rq t =
        Ok (if ds = [] then \<lparr>rs_status = 302, rs_url = rq_url rq, rs_headers = [(''location'', ''b'')], rs_history = []\<rparr>
            else \<lparr>rs_status = 200, rs_url = rq_url rq, rs_headers = [], rs_history = []\<rparr>)"
  by (simp_all add: run_env_def)
lemma run_client_simps [simp]:
  "cc_default_headers run_client = []" "cc_timeout run_client = None" "cc_redirect run_client = redirect_policy_strict 5"
  "cc_auth run_client = Some (AuthBearer ''t'')" "cc_retry run_client = None"
  by (simp_all add: run_client_def)
lemma site_simps [simp]: "url_host_str (site h) = Some h" "url_scheme (site h) = ''https''"
  "url_username (site h) = []" "url_password (site h) = None" "url_path (site h) = ''/''" by (simp_all add: site_def)
lemma list_http_simps [simp]:
  "hm_get_all list_http h n = map snd (filter (\<lambda>p. fst p = to_ascii_lowercase n) h)"
  "hm_insert list_http h n v = filter (\<lambda>p. fst p \<noteq> to_ascii_lowercase n) h @ [(to_ascii_lowercase n, v)]"
  "hm_remove list_http h n = filter (\<lambda>p. fst p \<noteq> to_ascii_lowercase n) h"
  "hm_extend list_http h g = filter (\<lambda>p. fst p \<notin> set (map fst g)) h @ g"
  "hm_header_name list_http s = (if s = [] then Inl ''invalid HTTP header name'' else Inr (to_ascii_lowercase s))"
  "hm_header_value list_http s = Inr s" "hm_empty list_http = []"
  "hm_to_str list_http s = (if list_all (\<lambda>c. 32 \<le> byte c \<and> byte c < 127 \<or> byte c = 9) s then Inr s
                       else Inl ''failed to convert header to a str'')"
  "hm_keys list_http h = remdups (filter canonical_name (map fst h))"
 by (simp_all add: list_http_def)
lemma no_cookies [simp]: "cookies_for_url now u jar_new = (jar_new, None)"
  by (simp add: cookies_for_url_def jar_new_def expire_if_due_def matching_cookies_def)


lemma lower_names [simp]:
  "to_ascii_lowercase ''cookie'' = ''cookie''" "to_ascii_lowercase ''set-cookie'' = ''set-cookie''"
  "to_ascii_lowercase ''authorization'' = ''authorization''" "to_ascii_lowercase ''location'' = ''location''"
  "to_ascii_lowercase ''proxy-authorization'' = ''proxy-authorization''" "to_ascii_lowercase ''host'' = ''host''"
  "to_ascii_lowercase ''referer'' = ''referer''" "to_ascii_lowercase ''origin'' = ''origin''"
  "to_ascii_lowercase ''content-type'' = ''content-type''" "to_ascii_lowercase ''content-length'' = ''content-length''"
  "to_ascii_lowercase ''transfer-encoding'' = ''transfer-encoding''"
  by (simp_all add: to_ascii_lowercase_def ascii_lower_def)

lemma run_prepare: "prepare_first_hop run_env run_client run_request =
   \<lparr>hp_method = ''POST'', hp_url = site ''a'',
      hp_headers = [(''content-type'', ''text'')],
      hp_body = BodyBytes ''x'', hp_version = Http11,
      hp_timeout = timeout_default\<lparr>to_total := Some 100\<rparr>,
      hp_decompress = None, hp_max_decoded_body_size = None,
      hp_max_decompression_ratio = None, hp_proxy_override = Inherit,
      hp_transport_hints = hints_default, hp_proxied_target = None,
      hp_auth = None, hp_auth_disabled = False, hp_is_first_hop = True,
      hp_preserve_resolved_target = False, hp_credentials_allowed = True, hp_cookie_allowed = True,
      hp_failure_context = None\<rparr>"
  by (simp add: prepare_first_hop_def run_request_def merge_headers_def effective_timeout_def request_new_def canonical_name_def)

subsection \<open>The run\<close>

definition run_first :: "(header_list, rat) dispatch" where
  "run_first =
     \<lparr>dp_request = (request_new list_http ''POST'' (site ''a''))
        \<lparr>rq_headers := [(''content-type'', ''text''), (''authorization'', ''Bearer t'')], rq_body := BodyBytes ''x'',
         rq_timeout := Some (timeout_default\<lparr>to_total := Some 99\<rparr>)\<rparr>,
      dp_timeout = timeout_default\<lparr>to_total := Some 99\<rparr>\<rparr>"

definition run_second :: "(header_list, rat) dispatch" where
  "run_second =
     \<lparr>dp_request = (request_new list_http ''GET'' (site ''b''))\<lparr>rq_timeout := Some (timeout_default\<lparr>to_total := Some 97\<rparr>)\<rparr>,
      dp_timeout = timeout_default\<lparr>to_total := Some 97\<rparr>\<rparr>"

definition run_state :: "header_list redirect_state" where
  "run_state = \<lparr>st_method = ''GET'', st_url = site ''b'', st_headers = [], st_body = BodyEmpty,
     st_version = Http11, st_replay_body = Some [], st_prev_url = Some (site ''a''),
     st_credentials_allowed = True, st_cookie_allowed = True, st_redirect_count = Suc 0,
     st_history = [\<lparr>he_status = 302, he_url = site ''a'', he_headers = [(''location'', ''b'')]\<rparr>]\<rparr>"

lemmas hop_eval = redirect_iteration_def hop_timeout_of_def elapsed_since_def read_instant_def duration_since_def
  run_world_def is_cross_origin_redirect_def

lemmas build_eval = build_hop_request_def hop_params_of_def hop_base_request_def request_new_def inject_cookies_def
  headers_contains_def headers_remove_def is_cross_origin_redirect_def apply_auth_def resolve_request_auth_def
  auth_apply_def headers_insert_def parse_header_name_def parse_header_value_def validate_header_name_def
  validate_header_value_def

lemmas response_eval = send_single_request_def update_cookie_jar_def set_cookie_headers_def headers_get_all_def
  after_response_def is_redirect_status_def redirect_policy_strict_def headers_get_def read_instant_def

lemmas advance_eval = advance_redirect_hop_def redirect_method_def drops_body_on_redirect_def
  build_redirect_request_with_method_def request_new_def resolve_redirect_url_def validate_redirect_url_def
  has_userinfo_def check_https_downgrade_def is_https_downgrade_def headers_get_def history_entry_of_def

abbreviation run_params :: "(header_list, rat) hop_params" where
  "run_params \<equiv> prepare_first_hop run_env run_client run_request"

lemma run_hop1:
  "redirect_iteration run_env run_client (redirect_policy_strict 5) (run_params\<lparr>hp_body := BodyEmpty\<rparr>) 0
     (initial_redirect_state run_params) (run_world\<lparr>w_instants := 1\<rparr>) =
   (Inr run_state, run_world\<lparr>w_instants := 3, w_systems := 1, w_log := [run_first]\<rparr>)"
  unfolding run_prepare
  apply (simp add: hop_eval)
  apply (simp add: initial_redirect_state_def is_cross_origin_redirect_def initial_replay_def)
  apply (simp add: build_eval)
  apply (simp add: response_eval)
  apply (simp add: advance_eval)
  apply (simp add: strip_headers_for_redirect_def remove_all_def headers_remove_def body_headers_def run_state_def
      run_first_def request_new_def)
  done

lemma run_hop2:
  "\<exists>r w. redirect_iteration run_env run_client (redirect_policy_strict 5) (run_params\<lparr>hp_body := BodyEmpty\<rparr>) 0
     run_state (run_world\<lparr>w_instants := 3, w_systems := 1, w_log := [run_first]\<rparr>) = (Inl (Ok r), w)
     \<and> w_log w = [run_first, run_second] \<and> rs_status r = 200 \<and> rs_history r = st_history run_state"
  unfolding run_prepare
  apply (simp add: hop_eval)
  apply (simp add: run_state_def is_cross_origin_redirect_def initial_replay_def Let_def)
  apply (simp add: build_eval hints_default_def)
  apply (simp add: response_eval)
  apply (simp add: run_second_def request_new_def hints_default_def run_state_def)
  done

lemma run_policy: "effective_redirect run_client run_request = redirect_policy_strict 5"
  by (simp add: effective_redirect_def run_request_def request_new_def)

lemma run_result:
  "\<exists>r w. send_with_redirects run_env run_client run_request run_world = (Ok r, w)
     \<and> w_log w = [run_first, run_second] \<and> rs_status r = 200 \<and> rs_history r = st_history run_state"
proof -
  note run_policy
  moreover have "read_instant run_env run_world = (0, run_world\<lparr>w_instants := 1\<rparr>)"
    by (simp add: read_instant_def run_world_def)
  ultimately have "send_with_redirects run_env run_client run_request run_world =
      redirect_loop run_env run_client (redirect_policy_strict 5) (run_params\<lparr>hp_body := BodyEmpty\<rparr>) 0
        (initial_redirect_state run_params) (run_world\<lparr>w_instants := 1\<rparr>)"
    by (simp add: send_with_redirects_def Let_def) (simp add: redirect_policy_strict_def)
  also have "\<dots> = redirect_loop run_env run_client (redirect_policy_strict 5) (run_params\<lparr>hp_body := BodyEmpty\<rparr>) 0
        run_state (run_world\<lparr>w_instants := 3, w_systems := 1, w_log := [run_first]\<rparr>)"
    by (subst redirect_loop.simps) (simp add: run_hop1 del: One_nat_def)
  finally have run: "send_with_redirects run_env run_client run_request run_world = \<dots>" .
  show ?thesis
    unfolding run using run_hop2 by (subst redirect_loop.simps) auto
qed

lemma run_dispatched: "dispatched run_env run_client run_request run_world = [run_first, run_second]"
  using run_result by (auto simp: dispatched_def run_world_def)

lemma run_dispatch_fields [simp]:
  "rq_url (dp_request run_first) = site ''a''" "rq_url (dp_request run_second) = site ''b''"
  "rq_method (dp_request run_first) = ''POST''" "rq_method (dp_request run_second) = ''GET''"
  "rq_body (dp_request run_second) = BodyEmpty" "rq_headers (dp_request run_second) = []"
  by (simp_all add: run_first_def run_second_def request_new_def)

end
