(* ===== verification/Pipeline_Safety.thy ===== *)
theory Pipeline_Safety
  imports Pipeline_Example
begin

text \<open>
  What the redirect loop guarantees about the requests of one attempt:
  credentials and cookies stay with the origins they belong to, the strict
  policy admits no downgrade, a pinned target is never left, and a body is
  replayed unchanged or dropped for good.
\<close>

subsection \<open>Credentials\<close>

text \<open>
  A state from which no credential can be sent any more: no \<open>Authorization\<close> in
  its headers, and neither permission for the hop built from it.
\<close>

definition clean_state :: "('h, 'f) env \<Rightarrow> 'h redirect_state \<Rightarrow> bool" where
  "clean_state E st \<longleftrightarrow> headers_get_all (e_http E) (st_headers st) ''authorization'' = []
     \<and> \<not> st_credentials_allowed (taint E st) \<and> \<not> st_cookie_allowed (taint E st)"

definition clean_dispatch :: "('h, 'f) env \<Rightarrow> ('h, 'f) dispatch \<Rightarrow> bool" where
  "clean_dispatch E d \<longleftrightarrow> headers_get_all (e_http E) (rq_headers (dp_request d)) ''authorization'' = []
     \<and> headers_get_all (e_http E) (rq_headers (dp_request d)) ''cookie'' = [] \<and> rq_auth (dp_request d) = None"

lemma insert_raw_view:
  "http_headers H \<Longrightarrow> canonical_name n \<Longrightarrow> canonical_name m \<Longrightarrow>
     headers_get_all H (headers_insert_raw H h n v) m = (if m = n then [v] else headers_get_all H h m)"
  by (simp add: headers_get_all_def headers_insert_raw_def http_headers.get_insert)

lemma step_authorization:
  assumes H: "http_headers (e_http E)" and s: "step_ok E pol st st'"
  shows "\<not> e_same_origin E (st_url st) (st_url st') \<or> headers_get_all (e_http E) (st_headers st) ''authorization'' = []
    \<Longrightarrow> headers_get_all (e_http E) (st_headers st') ''authorization'' = []"
  using s
proof (rule step_okE, goal_cases)
  case (1 status)
  from 1(1) have "headers_get (e_http E) (st_headers st) ''authorization'' = None
      \<or> \<not> e_same_origin E (st_url st) (st_url st')" by (auto simp: headers_get_view)
  then show ?case unfolding 1(9)
    by (auto simp: Let_def http_headers.strip_view [OF H] split: option.splits)
qed

lemma step_clean:
  assumes H: "http_headers (e_http E)" and s: "step_ok E pol st st'"
    and "clean_state E st \<or> \<not> e_same_origin E (st_url st) (st_url st')"
  shows "clean_state E st'"
proof -
  from s have f: "st_prev_url st' = Some (st_url st)" "st_credentials_allowed st' = st_credentials_allowed (taint E st)"
    "st_cookie_allowed st' = st_cookie_allowed (taint E st)" by (auto elim: step_okE)
  with assms(3) have "\<not> st_credentials_allowed (taint E st') \<and> \<not> st_cookie_allowed (taint E st')"
    by (auto simp: clean_state_def taint_def [of E st'] is_cross_origin_redirect_def)
  with step_authorization [OF H s] assms(3) show ?thesis by (auto simp: clean_state_def)
qed

lemma hop_clean:
  assumes H: "http_headers (e_http E)" and "hop_ok E cc params st d" "clean_state E st"
  shows "clean_dispatch E d"
proof -
  from assms(2) obtain w1 w2 where
    b: "build_hop_request E cc (hop_params_of E params (taint E st) (dp_timeout d)) w1 = (Ok (dp_request d), w2)"
    unfolding hop_ok_def by blast
  have p: "\<not> hp_credentials_allowed (hop_params_of E params (taint E st) (dp_timeout d))"
    "\<not> hp_cookie_allowed (hop_params_of E params (taint E st) (dp_timeout d))"
    using assms(3) by (simp_all add: clean_state_def)
  from build_hop_clean [OF H b p] build_hop_Ok [OF b] p assms(3) show ?thesis
    by (simp add: clean_dispatch_def clean_state_def)
qed

lemma hops_clean:
  assumes H: "http_headers (e_http E)" and "hops E cc pol params st ds" "clean_state E st"
  shows "\<forall>d\<in>set ds. clean_dispatch E d"
  using assms(2,3)
proof (induction rule: hops.induct)
  case (hops_step st d st' ds)
  with step_clean [OF H hops_step(2)] hop_clean [OF H hops_step(1)] show ?case by simp
qed (simp_all add: hop_clean [OF H])

text \<open>
  C1: once a redirect of an attempt has led to another origin, no later request
  of the attempt carries an \<open>Authorization\<close> or a \<open>Cookie\<close> header or
  authentication to be applied, whatever the headers, the client's credentials
  and the jar are, and also when a later redirect comes back to the first origin.
\<close>

theorem cross_origin_drops_credentials:
  assumes "http_headers (e_http E)"
    and "ds = dispatched E cc rq w" "Suc i \<le> j" "j < length ds"
    and "\<not> e_same_origin E (rq_url (dp_request (ds ! i))) (rq_url (dp_request (ds ! Suc i)))"
  shows "headers_get_all (e_http E) (rq_headers (dp_request (ds ! j))) ''authorization'' = []
    \<and> headers_get_all (e_http E) (rq_headers (dp_request (ds ! j))) ''cookie'' = []
    \<and> rq_auth (dp_request (ds ! j)) = None"
proof -
  have i: "Suc i < length ds" using assms(3,4) by simp
  from i have "Suc 0 < length ds" by simp
  from hops_pair [OF dispatched_hops [of E cc rq w, folded assms(2), OF this] i] obtain st1 st2 where
    "hop_ok E cc ((prepare_first_hop E cc rq)\<lparr>hp_body := BodyEmpty\<rparr>) st1 (ds ! i)"
    "step_ok E (effective_redirect cc rq) st1 st2"
    "hop_ok E cc ((prepare_first_hop E cc rq)\<lparr>hp_body := BodyEmpty\<rparr>) st2 (ds ! Suc i)"
    and h: "hops E cc (effective_redirect cc rq) ((prepare_first_hop E cc rq)\<lparr>hp_body := BodyEmpty\<rparr>) st2 (drop (Suc i) ds)"
    by metis
  then have "clean_state E st2" using step_clean [OF assms(1)] assms(5) by (simp add: hop_ok_request)
  moreover have "ds ! j \<in> set (drop (Suc i) ds)"
    using assms(3,4) by (auto simp: in_set_conv_nth intro!: exI [of _ "j - Suc i"])
  ultimately have "clean_dispatch E (ds ! j)" using hops_clean [OF assms(1) h] by blast
  then show ?thesis by (simp add: clean_dispatch_def)
qed

theorem cross_origin_drops_credentials_witness:
  "headers_get_all list_http (rq_headers (dp_request (dispatched run_env run_client run_request run_world ! 1))) ''authorization'' = []"
  using cross_origin_drops_credentials [of run_env _ run_client run_request run_world 0 1] list_headers.http_headers_axioms
  by (simp add: run_dispatched)

subsection \<open>Downgrades and pinned targets\<close>

text \<open>
  C2: a redirect is followed only to \<open>http\<close> or \<open>https\<close>; under the strict
  policy never from \<open>https\<close> to \<open>http\<close>; and when the caller pinned the
  addresses of the target, only within its origin.
\<close>

theorem redirect_targets_allowed:
  assumes "ds = dispatched E cc rq w" "Suc i < length ds"
  shows "url_scheme (rq_url (dp_request (ds ! Suc i))) \<in> {''http'', ''https''}
    \<and> \<not> (rp_downgrade (effective_redirect cc rq) = Deny
          \<and> is_https_downgrade (rq_url (dp_request (ds ! i))) (rq_url (dp_request (ds ! Suc i))))
    \<and> (th_resolved_target (rq_transport_hints rq) \<noteq> None \<or> rq_proxied_target rq \<noteq> None
         \<longrightarrow> e_same_origin E (rq_url (dp_request (ds ! i))) (rq_url (dp_request (ds ! Suc i))))"
proof -
  let ?p = "(prepare_first_hop E cc rq)\<lparr>hp_body := BodyEmpty\<rparr>"
  from assms have "Suc 0 < length (dispatched E cc rq w)" by simp
  from hops_pair [OF dispatched_hops [OF this, folded assms(1)] assms(2)] obtain st1 st2 where
    h: "hop_ok E cc ?p st1 (ds ! i)" "step_ok E (effective_redirect cc rq) st1 st2" "hop_ok E cc ?p st2 (ds ! Suc i)"
    by metis
  note u = hop_ok_request(1) [OF h(1)] hop_ok_request(1) [OF h(3)]
  from h(2) have "url_scheme (st_url st2) \<in> {''http'', ''https''}" "st_prev_url st2 = Some (st_url st1)"
    "\<not> (rp_downgrade (effective_redirect cc rq) = Deny \<and> is_https_downgrade (st_url st1) (st_url st2))"
    by (auto elim: step_okE)
  moreover from h(3) have "\<not> (is_cross_origin_redirect E st2 \<and> pinned ?p)" by (simp add: hop_ok_def)
  ultimately show ?thesis
    unfolding u by (auto simp: pinned_def is_cross_origin_redirect_def prepare_first_hop_def)
qed

theorem redirect_targets_allowed_witness:
  "\<not> is_https_downgrade (rq_url (dp_request (dispatched run_env run_client run_request run_world ! 0)))
       (rq_url (dp_request (dispatched run_env run_client run_request run_world ! 1)))"
  using redirect_targets_allowed [of _ run_env run_client run_request run_world 0]
  by (simp add: run_dispatched run_policy redirect_policy_strict_def)

subsection \<open>Bodies\<close>

lemma hop_header:
  assumes H: "http_headers (e_http E)" and "hop_ok E cc params st d"
    and m: "canonical_name m" "m \<noteq> ''cookie''" "m \<noteq> ''authorization''"
  shows "headers_get_all (e_http E) (rq_headers (dp_request d)) m = headers_get_all (e_http E) (st_headers st) m"
proof -
  from assms(2) obtain w1 w2 where
    b: "build_hop_request E cc (hop_params_of E params (taint E st) (dp_timeout d)) w1 = (Ok (dp_request d), w2)"
    unfolding hop_ok_def by blast
  from build_hop_other_header [OF H b m] show ?thesis by simp
qed

text \<open>The body of every hop after the first, and how dropping a body is final.\<close>

lemma hops_bodies:
  assumes "hops E cc pol params st ds" "st_replay_body st = b \<or> st_replay_body st = Some []"
  shows "\<forall>d\<in>set (tl ds). rq_body (dp_request d) \<in> {BodyEmpty, BodyBytes []} \<or> (\<exists>x. b = Some x \<and> rq_body (dp_request d) = BodyBytes x)"
  using assms
proof (induction rule: hops.induct)
  case (hops_step st d st' ds)
  from hops_step(2,5) have st': "st_replay_body st' = b \<or> st_replay_body st' = Some []"
    "st_body st' \<in> {BodyEmpty, BodyBytes []} \<or> (\<exists>x. b = Some x \<and> st_body st' = BodyBytes x)"
    by (elim step_okE; fastforce)+
  show ?case
  proof (cases ds)
    case (Cons d' ds')
    with hops_step(3) have "rq_body (dp_request d') = st_body st'" by (auto dest: hops_hd hop_ok_request)
    with hops_step.IH [OF st'(1)] st'(2) Cons show ?thesis by auto
  qed simp
qed auto

lemma hops_empty_bodies:
  assumes "hops E cc pol params st ds" "st_replay_body st = Some []" "body_is_empty (st_body st)"
  shows "\<forall>d\<in>set ds. body_is_empty (rq_body (dp_request d))"
  using assms
proof (induction rule: hops.induct)
  case (hops_step st d st' ds)
  from hops_step(2,5) have "st_replay_body st' = Some []" "body_is_empty (st_body st')"
    by (elim step_okE; fastforce)+
  with hops_step show ?case by (auto simp: hop_ok_request)
qed (auto simp: hop_ok_request)

lemma step_empty:
  "step_ok E pol st st' \<Longrightarrow> body_is_empty (st_body st') \<Longrightarrow> st_replay_body st' = Some []"
  by (elim step_okE) fastforce

text \<open>
  Every redirected request of an attempt has the bytes of the caller's
  body, unchanged, or no body at all; a streamed body is never sent again.  Once
  a body was dropped, none is sent for the rest of the attempt.
\<close>

lemma redirected_bodies:
  assumes "ds = dispatched E cc rq w" "Suc i < length ds"
  shows "(body_is_empty (rq_body (dp_request (ds ! Suc i)))
          \<or> (\<exists>b. rq_body rq = BodyBytes b \<and> rq_body (dp_request (ds ! Suc i)) = BodyBytes b))
    \<and> (\<forall>j. Suc i \<le> j \<and> j < length ds \<and> body_is_empty (rq_body (dp_request (ds ! Suc i)))
          \<longrightarrow> body_is_empty (rq_body (dp_request (ds ! j))))"
proof -
  let ?p = "(prepare_first_hop E cc rq)\<lparr>hp_body := BodyEmpty\<rparr>"
  let ?s = "initial_redirect_state (prepare_first_hop E cc rq)"
  from assms have "Suc 0 < length (dispatched E cc rq w)" by simp
  note h = dispatched_hops [OF this, folded assms(1)]
  have rep: "st_replay_body ?s = initial_replay (rq_body rq)"
    by (simp add: initial_redirect_state_def prepare_first_hop_def)
  have mem: "ds ! Suc i \<in> set (tl ds)" using assms(2) by (cases ds) auto
  have first: "body_is_empty (rq_body (dp_request (ds ! Suc i)))
      \<or> (\<exists>b. rq_body rq = BodyBytes b \<and> rq_body (dp_request (ds ! Suc i)) = BodyBytes b)"
    using hops_bodies [OF h disjI1, OF rep] mem
    by (cases "rq_body rq") (fastforce simp: initial_replay_def)+
  from hops_pair [OF h assms(2)] obtain st1 st2 where
    s: "step_ok E (effective_redirect cc rq) st1 st2" "hop_ok E cc ?p st2 (ds ! Suc i)"
      "hops E cc (effective_redirect cc rq) ?p st2 (drop (Suc i) ds)" by metis
  have "body_is_empty (rq_body (dp_request (ds ! j)))"
    if "Suc i \<le> j" "j < length ds" "body_is_empty (rq_body (dp_request (ds ! Suc i)))" for j
  proof -
    from that(1,2) have "ds ! j \<in> set (drop (Suc i) ds)"
      by (auto simp: in_set_conv_nth intro!: exI [of _ "j - Suc i"])
    moreover from that(3) s(2) have "body_is_empty (st_body st2)" by (simp add: hop_ok_request)
    ultimately show ?thesis using hops_empty_bodies [OF s(3)] step_empty [OF s(1)] by blast
  qed
  with first show ?thesis by blast
qed

text \<open>
  When a redirect changes the method, the next request is a \<open>GET\<close> without
  a body and without the headers that described one.
\<close>

lemma method_change_drops_body:
  assumes "http_headers (e_http E)" "ds = dispatched E cc rq w" "Suc i < length ds"
    and "rq_method (dp_request (ds ! Suc i)) \<noteq> rq_method (dp_request (ds ! i))"
  shows "rq_method (dp_request (ds ! Suc i)) = ''GET'' \<and> rq_body (dp_request (ds ! Suc i)) = BodyEmpty
    \<and> (\<forall>n\<in>set body_headers. headers_get_all (e_http E) (rq_headers (dp_request (ds ! Suc i))) n = [])"
proof -
  let ?p = "(prepare_first_hop E cc rq)\<lparr>hp_body := BodyEmpty\<rparr>"
  from assms have "Suc 0 < length (dispatched E cc rq w)" by simp
  from hops_pair [OF dispatched_hops [OF this, folded assms(2)] assms(3)] obtain st1 st2 where
    h: "hop_ok E cc ?p st1 (ds ! i)" "step_ok E (effective_redirect cc rq) st1 st2" "hop_ok E cc ?p st2 (ds ! Suc i)"
    by metis
  note u = hop_ok_request [OF h(1)] hop_ok_request [OF h(3)]
  have hd: "headers_get_all (e_http E) (rq_headers (dp_request (ds ! Suc i))) n = headers_get_all (e_http E) (st_headers st2) n"
    if "n \<in> set body_headers" for n
    using that by (intro hop_header [OF assms(1) h(3)]) (auto simp: body_headers_def)
  from h(2) show ?thesis
  proof (rule step_okE, goal_cases)
    case (1 status)
    from assms(4) 1(3) have m: "redirect_method status (st_method st1) = ''GET''"
      "drops_body_on_redirect status (st_method st1)"
      unfolding u by (auto simp: redirect_method_def drops_body_on_redirect_def split: if_splits)
    have "headers_get_all (e_http E) (st_headers st2) n = []" if "n \<in> set body_headers" for n
    proof -
      from that have "canonical_name n" "n \<noteq> ''authorization''" by (auto simp: body_headers_def)
      then show ?thesis unfolding 1(8) using that m(2)
        by (auto simp: Let_def http_headers.strip_view [OF assms(1)] insert_raw_view [OF assms(1)]
            split: option.splits)
    qed
    with m 1(3,6) hd show ?case unfolding u by simp
  qed
qed

end
