(* ===== verification/Pipeline_Deadline.thy ===== *)
theory Pipeline_Deadline
  imports Pipeline_Safety
begin

text \<open>
  The time budget of a call, reading by reading.  The clock is a sequence of
  readings \<open>e_instant E\<close>, and \<open>w_instants\<close> counts those made.  Each lemma says of one
  loop which readings it made and that the budget of every dispatch is what the
  caller gave less the time between them.
\<close>

subsection \<open>The readings made\<close>

lemma elapsed_since_reads:
  "elapsed_since E s w = (d, w') \<Longrightarrow>
     d = duration_since (e_instant E (w_instants w)) s \<and> w_instants w' = Suc (w_instants w)"
  by (auto simp: elapsed_since_def read_instant_def)

lemma read_instant_reads [simp]:
  "fst (read_instant E w) = e_instant E (w_instants w)" "w_instants (snd (read_instant E w)) = Suc (w_instants w)"
  by (simp_all add: read_instant_def)

lemma inject_cookies_reads: "inject_cookies E a u h w = (r, w') \<Longrightarrow> w_instants w' = w_instants w"
  by (auto simp: inject_cookies_def Let_def split: if_splits prod.splits option.splits)

lemma build_hop_request_reads: "build_hop_request E cc p w = (r, w') \<Longrightarrow> w_instants w' = w_instants w"
  by (auto simp: build_hop_request_def Let_def split: prod.splits sum.splits dest!: inject_cookies_reads)

lemma update_cookie_jar_reads [simp]: "w_instants (update_cookie_jar E rs w) = w_instants w"
  by (simp add: update_cookie_jar_def Let_def split: prod.splits)

lemma after_response_reads:
  "after_response E pol t st rs w = (out, w') \<Longrightarrow> w_instants w \<le> w_instants w' \<and> w_log w' = w_log w"
  by (auto simp: after_response_def Let_def read_instant_def
           split: if_splits option.splits sum.splits prod.splits)

lemma next_delay_reads: "next_delay E p c a ra w = (d, w') \<Longrightarrow> w_instants w' = w_instants w"
  by (auto simp: next_delay_def Let_def split: if_splits prod.splits)

lemma sleep_if_budget_allows_reads:
  "sleep_if_budget_allows E p d a s b w = (r, w') \<Longrightarrow> w_instants w \<le> w_instants w'"
  by (auto simp: sleep_if_budget_allows_def Let_def split: option.splits prod.splits if_splits
           dest!: elapsed_since_reads)

lemma sleep_before_retry_reads:
  "sleep_before_retry E p c a ra s b w = (r, w') \<Longrightarrow> w_instants w \<le> w_instants w'"
  by (auto simp: sleep_before_retry_def split: prod.splits option.splits
           dest!: next_delay_reads sleep_if_budget_allows_reads)

lemma has_budget_reads: "has_budget E p a s w = (b, w') \<Longrightarrow> w_instants w \<le> w_instants w'"
  by (auto simp: has_budget_def split: if_splits option.splits prod.splits dest!: elapsed_since_reads)

lemma after_attempt_reads: "after_attempt E p saved a s r w = (out, w') \<Longrightarrow> w_instants w \<le> w_instants w'"
  by (auto simp: after_attempt_def Let_def read_instant_def
           split: option.splits prod.splits bool.splits sum.splits if_splits
           dest!: has_budget_reads sleep_before_retry_reads)

lemma clear_context_reads [simp]: "w_instants (clear_context rq w) = w_instants w"
  by (simp add: clear_context_def)

subsection \<open>One attempt\<close>

text \<open>A dispatch whose total is \<open>B\<close> less the time from \<open>start\<close> to reading \<open>j\<close>, with some of it left.\<close>

definition given_at :: "('h, 'f) env \<Rightarrow> duration \<Rightarrow> instant \<Rightarrow> ('h, 'f) dispatch \<Rightarrow> nat \<Rightarrow> bool" where
  "given_at E B start d j \<longleftrightarrow>
     (\<exists>r. to_total (dp_timeout d) = Some r \<and> 0 < r \<and> r + duration_since (e_instant E j) start = B)"

lemma hop_timeout_of_given:
  assumes "hop_timeout_of E t start w = (r, w')" "to_total t = Some B"
  shows "w_instants w' = Suc (w_instants w)
    \<and> (\<forall>t'. r = Ok t' \<longrightarrow> given_at E B start \<lparr>dp_request = rq, dp_timeout = t'\<rparr> (w_instants w))"
  using assms
  by (auto simp: hop_timeout_of_def given_at_def not_le split: prod.splits if_splits dest!: elapsed_since_reads)

lemma redirect_iteration_given:
  assumes it: "redirect_iteration E cc pol params start st w = (out, w')" and B: "to_total (hp_timeout params) = Some B"
  shows "w_instants w < w_instants w'
    \<and> (w_log w' = w_log w \<and> isl out \<or> (\<exists>d. w_log w' = w_log w @ [d] \<and> given_at E B start d (w_instants w)))"
proof -
  obtain rt w1 where t: "hop_timeout_of E (hp_timeout params) start w = (rt, w1)" by fastforce
  note log1 = hop_timeout_of_log [OF t] and given = hop_timeout_of_given [OF t B]
  show ?thesis
  proof (cases rt)
    case (Inl e)
    with it t log1 given show ?thesis by (auto simp: redirect_iteration_def)
  next
    case (Inr ht)
    have step: "redirect_iteration E cc pol params start st w =
       (if is_cross_origin_redirect E st \<and> pinned params then (Inl (Err ResolvedTargetRedirect), w1)
        else case build_hop_request E cc (hop_params_of E params (taint E st) ht) w1 of
               (Inl e, w2) \<Rightarrow> (Inl (Err e), w2)
             | (Inr hop, w2) \<Rightarrow>
                (case send_single_request E hop ht w2 of
                   (Inl e, w3) \<Rightarrow> (Inl (Err e), w3)
                 | (Inr rs, w3) \<Rightarrow> after_response E pol (hp_timeout params) (taint E st) rs (update_cookie_jar E rs w3)))"
      unfolding redirect_iteration_def t Inr Let_def pinned_def [symmetric] taint_def [symmetric] by simp
    obtain rb w2 where b: "build_hop_request E cc (hop_params_of E params (taint E st) ht) w1 = (rb, w2)" by fastforce
    note log2 = build_hop_request_log [OF b] and reads2 = build_hop_request_reads [OF b]
    have g: "given_at E B start \<lparr>dp_request = hop, dp_timeout = ht\<rparr> (w_instants w)" for hop
      using hop_timeout_of_given [OF t B, of hop] Inr by simp
    show ?thesis
      using it given log1 log2 reads2 g unfolding step b
      by (auto simp: send_single_request_def split: if_splits sum.splits dest!: after_response_reads)
  qed
qed

text \<open>The readings of a loop, one for each dispatch and in their order.\<close>

definition readings_from :: "nat \<Rightarrow> nat \<Rightarrow> nat list \<Rightarrow> bool" where
  "readings_from i i' js \<longleftrightarrow> sorted_wrt (<) js \<and> list_all (\<lambda>j. i \<le> j \<and> j < i') js"

lemma readings_from_Nil: "readings_from i i' []"
  by (simp add: readings_from_def)

lemma readings_from_Cons: "i < i' \<Longrightarrow> i' \<le> i'' \<Longrightarrow> readings_from i' i'' js \<Longrightarrow> readings_from i i'' (i # js)"
  by (auto simp: readings_from_def list_all_iff)

lemma redirect_loop_given:
  assumes "to_total (hp_timeout params) = Some B"
  shows "w_instants w < w_instants (snd (redirect_loop E cc pol params start st w))
    \<and> (\<exists>ds js. w_log (snd (redirect_loop E cc pol params start st w)) = w_log w @ ds
       \<and> list_all2 (given_at E B start) ds js
       \<and> readings_from (w_instants w) (w_instants (snd (redirect_loop E cc pol params start st w))) js)"
  using assms
proof (induction E cc pol params start st w rule: redirect_loop.induct)
  case (1 E cc pol params start st w)
  obtain out w' where it: "redirect_iteration E cc pol params start st w = (out, w')" by fastforce
  note step = redirect_iteration_given [OF it 1(2)]
  show ?case
  proof (cases out)
    case (Inl r)
    with it have loop: "snd (redirect_loop E cc pol params start st w) = w'" by (simp add: redirect_loop.simps)
    from step consider "w_log w' = w_log w"
      | d where "w_log w' = w_log w @ [d]" "given_at E B start d (w_instants w)" by blast
    then show ?thesis
    proof cases
      case 1
      with step show ?thesis unfolding loop by (auto intro!: exI [of _ "[]"] readings_from_Nil)
    next
      case 2
      with step show ?thesis unfolding loop
        by (intro conjI exI [of _ "[d]"] exI [of _ "[w_instants w]"]) (auto intro: readings_from_Cons readings_from_Nil)
    qed
  next
    case (Inr st')
    with it have loop: "redirect_loop E cc pol params start st w = redirect_loop E cc pol params start st' w'"
      by (subst redirect_loop.simps) simp
    let ?w2 = "snd (redirect_loop E cc pol params start st' w')"
    from 1(1) [OF it [symmetric] Inr 1(2)] obtain ds js where
      tail: "w_instants w' < w_instants ?w2" "w_log ?w2 = w_log w' @ ds" "list_all2 (given_at E B start) ds js"
        "readings_from (w_instants w') (w_instants ?w2) js" by blast
    from step Inr obtain d where d: "w_log w' = w_log w @ [d]" "given_at E B start d (w_instants w)"
      "w_instants w < w_instants w'" by auto
    show ?thesis unfolding loop
    proof (intro conjI exI)
      show "w_instants w < w_instants ?w2" using d tail by simp
      show "w_log ?w2 = w_log w @ d # ds" using d tail by simp
      show "list_all2 (given_at E B start) (d # ds) (w_instants w # js)" using d tail by simp
      show "readings_from (w_instants w) (w_instants ?w2) (w_instants w # js)"
        using d tail by (intro readings_from_Cons [of _ "w_instants w'"]) simp_all
    qed
  qed
qed

lemma send_lean_reads [simp]: "w_instants (snd (send_lean E cc rq w)) = w_instants w"
  by (auto simp: send_lean_def Let_def send_single_request_def split: prod.splits sum.splits dest: build_hop_request_reads)

lemma attempt_given:
  assumes B: "to_total (effective_timeout (cc_timeout cc) (rq_timeout rq)) = Some B"
  shows "w_instants w \<le> w_instants (snd (send_with_redirects E cc rq w))
    \<and> (\<exists>ds. w_log (snd (send_with_redirects E cc rq w)) = w_log w @ ds
      \<and> (if rp_follow (effective_redirect cc rq)
         then \<exists>js. list_all2 (given_at E B (e_instant E (w_instants w))) ds js
                \<and> readings_from (Suc (w_instants w)) (w_instants (snd (send_with_redirects E cc rq w))) js
         else length ds \<le> 1 \<and> list_all (\<lambda>d. to_total (dp_timeout d) = Some B) ds))"
proof (cases "rp_follow (effective_redirect cc rq)")
  case True
  let ?p = "prepare_first_hop E cc rq"
  have "to_total (hp_timeout (?p\<lparr>hp_body := BodyEmpty\<rparr>)) = Some B" using B by (simp add: prepare_first_hop_def)
  from redirect_loop_given [OF this, of "snd (read_instant E w)" E cc "effective_redirect cc rq" "fst (read_instant E w)"
      "initial_redirect_state ?p"] True
  show ?thesis by (auto simp: send_with_redirects_def Let_def case_prod_beta)
next
  case False
  then have lean: "send_with_redirects E cc rq w = send_lean E cc rq w" by (simp add: send_with_redirects_def)
  have p: "to_total (hp_timeout (prepare_first_hop E cc rq)) = Some B" using B by (simp add: prepare_first_hop_def)
  from send_lean_trace [of E cc rq w] p obtain ds where
    "w_log (snd (send_lean E cc rq w)) = w_log w @ ds" "length ds \<le> 1"
    "list_all (\<lambda>d. to_total (dp_timeout d) = Some B) ds" by fastforce
  with False show ?thesis unfolding lean by auto
qed

subsection \<open>One call\<close>

text \<open>
  A dispatch is made after two readings: \<open>a\<close>, the one before its attempt, and \<open>j\<close>, the one
  before its hop.  The redirect loop of an attempt starts its own watch: at the reading
  after \<open>a\<close> in a retry loop, and at \<open>a\<close> itself, the first of the call, without one.  An attempt
  that does not follow redirects makes no reading of its own, and \<open>j\<close> is \<open>a\<close>.
\<close>

definition loop_start :: "bool \<Rightarrow> nat \<Rightarrow> nat" where
  "loop_start retry a = (if retry then Suc a else a)"

text \<open>The time counted against the total: from the call to the attempt, and from the loop's start to the hop.\<close>

definition time_spent :: "('h, 'f) env \<Rightarrow> bool \<Rightarrow> bool \<Rightarrow> bool \<Rightarrow> nat \<Rightarrow> nat \<times> nat \<Rightarrow> duration" where
  "time_spent E counted retry follow i p =
     (if counted then duration_since (e_instant E (fst p)) (e_instant E i) else 0)
     + (if follow then duration_since (e_instant E (snd p)) (e_instant E (loop_start retry (fst p))) else 0)"

definition spent_at :: "('h, 'f) env \<Rightarrow> bool \<Rightarrow> bool \<Rightarrow> bool \<Rightarrow> duration \<Rightarrow> nat \<Rightarrow> ('h, 'f) dispatch \<Rightarrow> nat \<times> nat \<Rightarrow> bool" where
  "spent_at E counted retry follow T i d p \<longleftrightarrow>
     (\<exists>r. to_total (dp_timeout d) = Some r \<and> (follow \<longrightarrow> 0 < r) \<and> r + time_spent E counted retry follow i p = T)"

definition later_reading :: "nat \<times> nat \<Rightarrow> nat \<times> nat \<Rightarrow> bool" where
  "later_reading p q \<longleftrightarrow> snd p < snd q \<and> (fst q = fst p \<or> snd p < fst q)"

definition hop_after_attempt :: "bool \<Rightarrow> bool \<Rightarrow> nat \<times> nat \<Rightarrow> bool" where
  "hop_after_attempt retry follow p \<longleftrightarrow> (if follow then loop_start retry (fst p) < snd p else snd p = fst p)"

definition attempts_between :: "bool \<Rightarrow> nat \<Rightarrow> nat \<Rightarrow> (nat \<times> nat) list \<Rightarrow> bool" where
  "attempts_between follow lo hi ps \<longleftrightarrow> sorted_wrt later_reading ps
     \<and> list_all (\<lambda>p. lo \<le> fst p \<and> hop_after_attempt True follow p \<and> snd p < hi) ps"

lemma attempts_between_Nil: "attempts_between follow lo hi []"
  by (simp add: attempts_between_def)

lemma attempts_between_append:
  assumes "attempts_between follow lo mid ps" "attempts_between follow mid hi qs" "lo \<le> mid" "mid \<le> hi"
  shows "attempts_between follow lo hi (ps @ qs)"
proof -
  have "later_reading p q" if "p \<in> set ps" "q \<in> set qs" for p q
    using assms(1,2) that
    by (fastforce simp: attempts_between_def list_all_iff later_reading_def hop_after_attempt_def loop_start_def split: if_splits)
  with assms show ?thesis
    by (fastforce simp: attempts_between_def list_all_iff sorted_wrt_append)
qed

lemma hops_of_attempt:
  assumes "readings_from (Suc (Suc a)) hi js"
  shows "attempts_between True a hi (map (Pair a) js)"
  using assms
  by (auto simp: attempts_between_def readings_from_def list_all_iff later_reading_def hop_after_attempt_def loop_start_def
      sorted_wrt_map)

text \<open>What the caller gave, less the time before the attempt when it was given with the request.\<close>

lemma attempt_total:
  assumes "attempt_timeout policy saved attempt el = Ok t"
    and "to_total (effective_timeout ct (rq_timeout saved)) = Some T"
  shows "\<exists>B. to_total (effective_timeout ct t) = Some B \<and> B + (if saved_total saved \<noteq> None then el else 0) = T"
  using assms
  by (auto simp: attempt_timeout_def Let_def saved_total_def shrink_total_deadline_def effective_timeout_def
      timeout_merge_def or_else_def not_le split: if_splits option.splits bind_splits)

lemma retry_iteration_given:
  assumes it: "retry_iteration E cc policy saved (e_instant E i) attempt w = (out, w')"
    and T: "to_total (effective_timeout (cc_timeout cc) (rq_timeout saved)) = Some T"
    and rep: "body_is_replayable (rq_body saved)"
    and f: "follow = rp_follow (effective_redirect cc saved)" and c: "counted = (saved_total saved \<noteq> None)"
  shows "w_instants w \<le> w_instants w' \<and> (\<exists>ds ps. w_log w' = w_log w @ ds
    \<and> list_all2 (spent_at E counted True follow T i) ds ps \<and> attempts_between follow (w_instants w) (w_instants w') ps)"
proof (cases "attempt > ry_max_attempts policy")
  case True
  with it show ?thesis by (auto simp: retry_iteration_def Let_def intro!: exI [of _ "[]"] attempts_between_Nil)
next
  case False
  let ?a = "w_instants w"
  obtain el w1 where e: "elapsed_since E (e_instant E i) (clear_context saved w) = (el, w1)" by fastforce
  note log1 = elapsed_since_log [OF e] and reads1 = elapsed_since_reads [OF e]
  show ?thesis
  proof (cases "attempt_timeout policy saved attempt el")
    case (Inl x)
    with it False e log1 reads1 show ?thesis
      by (auto simp: retry_iteration_def Let_def intro!: exI [of _ "[]"] attempts_between_Nil)
  next
    case t: (Inr t)
    let ?rq = "saved\<lparr>rq_timeout := t\<rparr>"
    have rr: "retry_request (e_http E) saved t = Ok ?rq" by (rule retry_request_same [OF rep])
    obtain r w2 where s: "send_with_redirects E cc ?rq w1 = (r, w2)" by fastforce
    from it False e t rr s have "after_attempt E policy saved attempt (e_instant E i) r w2 = (out, w')"
      by (simp add: retry_iteration_def Let_def)
    note log3 = after_attempt_log [OF this] and reads3 = after_attempt_reads [OF this]
    from attempt_total [OF t T] obtain B where
      B: "to_total (effective_timeout (cc_timeout cc) t) = Some B" "B + (if counted then el else 0) = T"
      unfolding c by blast
    have follow: "rp_follow (effective_redirect cc ?rq) = follow" by (simp add: f effective_redirect_def)
    from attempt_given [of cc ?rq B w1 E] B(1) s follow reads1 obtain ds where
      ds: "w_log w2 = w_log w1 @ ds" "Suc ?a \<le> w_instants w2"
      "if follow then \<exists>js. list_all2 (given_at E B (e_instant E (Suc ?a))) ds js
            \<and> readings_from (Suc (Suc ?a)) (w_instants w2) js
       else length ds \<le> 1 \<and> list_all (\<lambda>d. to_total (dp_timeout d) = Some B) ds"
      by auto
    have log: "w_log w' = w_log w @ ds" "?a \<le> w_instants w'" using ds(1,2) log1 log3 reads3 by auto
    have el: "el = duration_since (e_instant E ?a) (e_instant E i)" using reads1 by simp
    have "\<exists>ps. list_all2 (spent_at E counted True follow T i) ds ps \<and> attempts_between follow ?a (w_instants w') ps"
    proof (cases follow)
      case True
      with ds(3) obtain js where js: "list_all2 (given_at E B (e_instant E (Suc ?a))) ds js"
        "readings_from (Suc (Suc ?a)) (w_instants w2) js" by auto
      have "spent_at E counted True follow T i d (?a, j)" if "given_at E B (e_instant E (Suc ?a)) d j" for d j
        using that B(2) True by (auto simp: spent_at_def given_at_def time_spent_def loop_start_def el)
      with js(1) have given: "list_all2 (spent_at E counted True follow T i) ds (map (Pair ?a) js)"
        by (auto simp: list_all2_map2 elim: list_all2_mono)
      have "readings_from (Suc (Suc ?a)) (w_instants w') js"
        using js(2) reads3 by (auto simp: readings_from_def list_all_iff)
      with True have "attempts_between follow ?a (w_instants w') (map (Pair ?a) js)" by (simp add: hops_of_attempt)
      with given show ?thesis by blast
    next
      case False
      have "attempts_between follow ?a (w_instants w') (map (\<lambda>_. (?a, ?a)) ds)"
        using ds(2,3) reads3 False
        by (cases ds) (auto simp: attempts_between_def hop_after_attempt_def)
      moreover have "list_all2 (spent_at E counted True follow T i) ds (map (\<lambda>_. (?a, ?a)) ds)"
        using ds(3) False B(2)
        by (auto simp: list_all2_map2 list_all2_same list_all_iff spent_at_def time_spent_def el)
      ultimately show ?thesis by blast
    qed
    with log show ?thesis by blast
  qed
qed

lemma retry_loop_given:
  assumes "to_total (effective_timeout (cc_timeout cc) (rq_timeout saved)) = Some T" "body_is_replayable (rq_body saved)"
    and "follow = rp_follow (effective_redirect cc saved)" "counted = (saved_total saved \<noteq> None)"
    and "start = e_instant E i"
  shows "w_instants w \<le> w_instants (snd (retry_loop E cc policy saved start attempt w))
    \<and> (\<exists>ds ps. w_log (snd (retry_loop E cc policy saved start attempt w)) = w_log w @ ds
      \<and> list_all2 (spent_at E counted True follow T i) ds ps
      \<and> attempts_between follow (w_instants w) (w_instants (snd (retry_loop E cc policy saved start attempt w))) ps)"
  using assms
proof (induction E cc policy saved start attempt w rule: retry_loop.induct)
  case (1 E cc policy saved start attempt w)
  obtain out w' where it: "retry_iteration E cc policy saved start attempt w = (out, w')" by fastforce
  from retry_iteration_given [OF it [unfolded 1(6)] 1(2-5)] obtain ds ps where
    head: "w_instants w \<le> w_instants w'" "w_log w' = w_log w @ ds" "list_all2 (spent_at E counted True follow T i) ds ps"
      "attempts_between follow (w_instants w) (w_instants w') ps" by blast
  show ?case
  proof (cases out)
    case (Inl r)
    with it have "snd (retry_loop E cc policy saved start attempt w) = w'" by (simp add: retry_loop.simps)
    with head show ?thesis by auto
  next
    case (Inr u)
    with it have loop: "retry_loop E cc policy saved start attempt w = retry_loop E cc policy saved start (attempt + 1) w'"
      by (subst retry_loop.simps) simp
    let ?w2 = "snd (retry_loop E cc policy saved start (attempt + 1) w')"
    from 1(1) [OF it [symmetric] Inr 1(2-6)] obtain ds' ps' where
      tail: "w_instants w' \<le> w_instants ?w2" "w_log ?w2 = w_log w' @ ds'" "list_all2 (spent_at E counted True follow T i) ds' ps'"
        "attempts_between follow (w_instants w') (w_instants ?w2) ps'" by blast
    show ?thesis unfolding loop
    proof (intro conjI exI)
      show "w_instants w \<le> w_instants ?w2" using head(1) tail(1) by simp
      show "w_log ?w2 = w_log w @ ds @ ds'" using head(2) tail(2) by simp
      show "list_all2 (spent_at E counted True follow T i) (ds @ ds') (ps @ ps')"
        using head(3) tail(3) by (rule list_all2_appendI)
      show "attempts_between follow (w_instants w) (w_instants ?w2) (ps @ ps')"
        using attempts_between_append [OF head(4) tail(4) head(1) tail(1)] .
    qed
  qed
qed

text \<open>Whether a call goes through the retry loop.\<close>

definition retries :: "('h, 'f) client_config \<Rightarrow> ('h, 'f) request \<Rightarrow> bool" where
  "retries cc rq \<longleftrightarrow> is_some_and (effective_retry cc rq) retry_is_enabled \<and> body_is_replayable (rq_body rq)"

text \<open>
  The readings of a call whose first reading is number \<open>lo\<close>, as pairs for its dispatches in
  their order: without a retry loop there is one attempt, which starts with the call.
\<close>

definition readings_of_call :: "bool \<Rightarrow> bool \<Rightarrow> nat \<Rightarrow> nat \<Rightarrow> (nat \<times> nat) list \<Rightarrow> bool" where
  "readings_of_call retry follow lo hi ps \<longleftrightarrow> sorted_wrt later_reading ps
     \<and> list_all (\<lambda>p. (if retry then lo < fst p else fst p = lo) \<and> hop_after_attempt retry follow p
          \<and> (retry \<or> follow \<longrightarrow> snd p < hi)) ps"

lemma call_readings:
  assumes T: "to_total (effective_timeout (cc_timeout cc) (rq_timeout rq)) = Some T"
  shows "\<exists>ds ps. w_log (snd (send_with_retry E cc rq w)) = w_log w @ ds
    \<and> list_all2 (spent_at E (saved_total rq \<noteq> None) (retries cc rq) (rp_follow (effective_redirect cc rq)) T (w_instants w)) ds ps
    \<and> readings_of_call (retries cc rq) (rp_follow (effective_redirect cc rq)) (w_instants w)
        (w_instants (snd (send_with_retry E cc rq w))) ps"
proof (cases "retries cc rq")
  case True
  then obtain policy where p: "effective_retry cc rq = Some policy" "retry_is_enabled policy"
    and rep: "body_is_replayable (rq_body rq)"
    by (auto simp: retries_def is_some_and_def split: option.splits)
  let ?w1 = "snd (read_instant E w)"
  have send: "send_with_retry E cc rq w = retry_loop E cc policy rq (e_instant E (w_instants w)) 1 ?w1"
    using p rep by (simp add: send_with_retry_def case_prod_beta)
  from retry_loop_given [OF T rep refl refl refl, where E = E and i = "w_instants w" and w = ?w1 and policy = policy and attempt = 1] obtain ds ps where
    "w_log (snd (send_with_retry E cc rq w)) = w_log w @ ds"
    "list_all2 (spent_at E (saved_total rq \<noteq> None) True (rp_follow (effective_redirect cc rq)) T (w_instants w)) ds ps"
    "attempts_between (rp_follow (effective_redirect cc rq)) (Suc (w_instants w))
       (w_instants (snd (send_with_retry E cc rq w))) ps"
    unfolding send by auto
  with True show ?thesis
    by (intro exI [of _ ds] exI [of _ ps]) (auto simp: readings_of_call_def attempts_between_def list_all_iff)
next
  case False
  then have send: "send_with_retry E cc rq w = send_with_redirects E cc rq w"
    by (auto simp: send_with_retry_def retries_def split: option.splits)
  let ?i = "w_instants w" and ?f = "rp_follow (effective_redirect cc rq)"
  from attempt_given [OF T, where w = w and E = E] obtain ds where
    ds: "w_log (snd (send_with_redirects E cc rq w)) = w_log w @ ds"
    "if ?f then \<exists>js. list_all2 (given_at E T (e_instant E ?i)) ds js
          \<and> readings_from (Suc ?i) (w_instants (snd (send_with_redirects E cc rq w))) js
     else length ds \<le> 1 \<and> list_all (\<lambda>d. to_total (dp_timeout d) = Some T) ds" by blast
  show ?thesis
  proof (cases ?f)
    case True
    with ds(2) obtain js where js: "list_all2 (given_at E T (e_instant E ?i)) ds js"
      "readings_from (Suc ?i) (w_instants (snd (send_with_redirects E cc rq w))) js" by auto
    have "spent_at E c False True T ?i d (?i, j)" if "given_at E T (e_instant E ?i) d j" for c d j
      using that by (auto simp: spent_at_def given_at_def time_spent_def loop_start_def duration_since_def)
    with js(1) have "list_all2 (spent_at E (saved_total rq \<noteq> None) False True T ?i) ds (map (Pair ?i) js)"
      by (auto simp: list_all2_map2 elim: list_all2_mono)
    moreover have "readings_of_call False True ?i (w_instants (snd (send_with_redirects E cc rq w))) (map (Pair ?i) js)"
      using js(2) by (auto simp: readings_of_call_def readings_from_def list_all_iff later_reading_def
          hop_after_attempt_def loop_start_def sorted_wrt_map)
    ultimately show ?thesis using ds(1) True \<open>\<not> retries cc rq\<close> unfolding send by auto
  next
    case nf: False
    have "list_all2 (spent_at E (saved_total rq \<noteq> None) False False T ?i) ds (map (\<lambda>_. (?i, ?i)) ds)"
      using ds(2) nf
      by (auto simp: list_all2_map2 list_all2_same list_all_iff spent_at_def time_spent_def duration_since_def)
    moreover have "readings_of_call False False ?i hi (map (\<lambda>_. (?i, ?i)) ds)" for hi
      using ds(2) nf by (cases ds) (auto simp: readings_of_call_def hop_after_attempt_def)
    ultimately show ?thesis using ds(1) nf \<open>\<not> retries cc rq\<close> unfolding send by auto
  qed
qed

text \<open>On a clock that never goes back the time counted never gets less, so no budget grows.\<close>

lemma time_spent_grows:
  assumes "mono (e_instant E)" "later_reading p q" "hop_after_attempt retry follow p" "hop_after_attempt retry follow q"
    "i \<le> fst p" "counted"
  shows "time_spent E counted retry follow i p \<le> time_spent E counted retry follow i q"
proof -
  have m: "e_instant E x \<le> e_instant E y" if "x \<le> y" for x y using assms(1) that by (rule monoD)
  let ?p = "loop_start retry (fst p)"
  have p: "fst p \<le> ?p" "follow \<Longrightarrow> ?p < snd p" "\<not> follow \<Longrightarrow> snd p = fst p"
    using assms(3) by (auto simp: loop_start_def hop_after_attempt_def)
  from assms(2) consider "fst q = fst p" "snd p < snd q" | "snd p < fst q" "snd p < snd q"
    by (auto simp: later_reading_def)
  then show ?thesis
  proof cases
    case 1
    with m [of "snd p" "snd q"] show ?thesis by (auto simp: time_spent_def duration_since_def intro!: nat_mono)
  next
    case 2
    from p m have "e_instant E (fst p) \<le> e_instant E ?p" by blast
    moreover have "e_instant E i \<le> e_instant E (fst p)" using assms(5) by (rule m)
    moreover have "e_instant E (snd p) \<le> e_instant E (fst q)" using 2 by (intro m) simp
    moreover have "follow \<Longrightarrow> e_instant E ?p \<le> e_instant E (snd p)" using p(2) by (intro m) simp
    moreover have "\<not> follow \<Longrightarrow> e_instant E (fst p) \<le> e_instant E (fst q)" using p(3) 2 by (intro m) simp
    ultimately show ?thesis using \<open>counted\<close> by (cases follow) (simp_all add: time_spent_def duration_since_def)
  qed
qed

lemma budgets_shrink:
  assumes "mono (e_instant E)" "list_all2 (spent_at E True retry follow T i) ds ps" "readings_of_call retry follow i hi ps"
  shows "sorted_wrt (\<lambda>d d'. the (to_total (dp_timeout d')) \<le> the (to_total (dp_timeout d))) ds"
proof -
  have len: "length ds = length ps" using assms(2) by (rule list_all2_lengthD)
  have "the (to_total (dp_timeout (ds ! l))) \<le> the (to_total (dp_timeout (ds ! k)))"
    if k: "k < l" "l < length ds" for k l
  proof -
    have at: "hop_after_attempt retry follow (ps ! n) \<and> i \<le> fst (ps ! n)" if "n < length ds" for n
      using assms(3) that len by (auto simp: readings_of_call_def list_all_length split: if_splits)
    have "later_reading (ps ! k) (ps ! l)"
      using assms(3) k len by (auto simp: readings_of_call_def sorted_wrt_iff_nth_less)
    then have "time_spent E True retry follow i (ps ! k) \<le> time_spent E True retry follow i (ps ! l)"
      using time_spent_grows [OF assms(1)] at [of k] at [of l] k by simp
    moreover have "spent_at E True retry follow T i (ds ! n) (ps ! n)" if "n < length ds" for n
      using assms(2) that by (simp add: list_all2_nthD)
    from this [of k] this [of l] k have "the (to_total (dp_timeout (ds ! k))) + time_spent E True retry follow i (ps ! k) = T"
      "the (to_total (dp_timeout (ds ! l))) + time_spent E True retry follow i (ps ! l) = T"
      by (auto simp: spent_at_def)
    ultimately show ?thesis by linarith
  qed
  then show ?thesis by (simp add: sorted_wrt_iff_nth_less)
qed

end
