(* ===== verification/Pipeline_Bounds.thy ===== *)
theory Pipeline_Bounds
  imports Pipeline_Deadline
begin

text \<open>
  The bounds on a whole call: how many requests it dispatches, the deadline each
  of them carries, how long it sleeps between attempts, and what it leaves in
  the cookie jar.
\<close>

subsection \<open>The number of requests\<close>

text \<open>
  C9: a call dispatches at most the number of allowed attempts times one more
  than the number of allowed redirects; there is a single attempt unless the retry
  policy is enabled, lists the method and the body can be sent again.
\<close>

theorem dispatch_bound:
  "length (w_log (snd (send_with_retry E cc rq w)))
     \<le> length (w_log w) + attempts_allowed cc rq * (1 + redirects_allowed cc rq)"
proof -
  from send_with_retry_trace [of E cc rq w] obtain dss where
    d: "w_log (snd (send_with_retry E cc rq w)) = w_log w @ concat dss" "length dss \<le> attempts_allowed cc rq"
    "\<forall>ds\<in>set dss. \<exists>rq'. (rq' = rq \<or> attempt_of rq rq') \<and> attempt_trace E cc rq' ds" by blast
  have "length ds \<le> 1 + redirects_allowed cc rq" if "ds \<in> set dss" for ds
  proof -
    from d(3) that obtain rq' where "rq' = rq \<or> attempt_of rq rq'" "attempt_trace E cc rq' ds" by blast
    moreover from this(1) have "redirects_allowed cc rq' = redirects_allowed cc rq"
      by (auto simp: redirects_allowed_def effective_redirect_def dest!: attempt_of_refl)
    ultimately show ?thesis using attempt_trace_length by metis
  qed
  then have "length (concat dss) \<le> length dss * (1 + redirects_allowed cc rq)"
    by (induction dss) fastforce+
  also have "\<dots> \<le> attempts_allowed cc rq * (1 + redirects_allowed cc rq)" using d(2) by (rule mult_le_mono1)
  finally show ?thesis by (simp add: d(1))
qed

subsection \<open>Deadlines\<close>

lemma trace_deadline:
  assumes "attempt_trace E cc rq ds" "d \<in> set ds"
  shows "rq_timeout (dp_request d) = Some (dp_timeout d)
    \<and> (\<forall>T. to_total (effective_timeout (cc_timeout cc) (rq_timeout rq)) = Some T \<longrightarrow>
          (\<exists>r\<le>T. to_total (dp_timeout d) = Some r))"
proof (cases "rp_follow (effective_redirect cc rq)")
  case True
  let ?p = "(prepare_first_hop E cc rq)\<lparr>hp_body := BodyEmpty\<rparr>"
  from assms True obtain st where h: "hop_ok E cc ?p st d"
    using hops_each by (fastforce simp: attempt_trace_def Let_def)
  then obtain w1 w2 where
    "build_hop_request E cc (hop_params_of E ?p (taint E st) (dp_timeout d)) w1 = (Ok (dp_request d), w2)"
    unfolding hop_ok_def by blast
  from build_hop_Ok(5) [OF this] h show ?thesis
    by (auto simp: hop_ok_def prepare_first_hop_def)
next
  case False
  with assms obtain w1 w2 where
    b: "build_hop_request E cc (prepare_first_hop E cc rq) w1 = (Ok (dp_request d), w2)"
    "dp_timeout d = hp_timeout (prepare_first_hop E cc rq)"
    by (auto simp: attempt_trace_def Let_def)
  from build_hop_Ok(5) [OF b(1)] b(2) show ?thesis by (simp add: prepare_first_hop_def)
qed

text \<open>
  C10: every request of a call is dispatched with the deadline it was built with.  When a
  total \<open>T\<close> applies, the total given to each dispatch is exactly \<open>T\<close> less the time already
  spent: the time from the call to its attempt (counted when \<open>T\<close> came with the request; one of the
  client starts anew with each attempt) and the time from the start of its redirect loop to its
  hop.  The readings of the clock these times lie between are made during the call, in the
  order of the dispatches.  On a clock that never goes back, a total that came with the request
  never grows from one dispatch to a later one, across attempts and redirects.
\<close>

theorem total_deadline_bound:
  "\<exists>ds. w_log (snd (send_with_retry E cc rq w)) = w_log w @ ds
    \<and> list_all (\<lambda>d. rq_timeout (dp_request d) = Some (dp_timeout d)) ds
    \<and> (\<forall>T. to_total (effective_timeout (cc_timeout cc) (rq_timeout rq)) = Some T \<longrightarrow>
        (let follow = rp_follow (effective_redirect cc rq); counted = (saved_total rq \<noteq> None)
         in (\<exists>ps. list_all2 (\<lambda>d p. \<exists>r. to_total (dp_timeout d) = Some r \<and> (follow \<longrightarrow> 0 < r)
                \<and> r + time_spent E counted (retries cc rq) follow (w_instants w) p = T) ds ps
              \<and> readings_of_call (retries cc rq) follow (w_instants w) (w_instants (snd (send_with_retry E cc rq w))) ps)
          \<and> (mono (e_instant E) \<and> counted \<longrightarrow>
              sorted_wrt (\<lambda>d d'. the (to_total (dp_timeout d')) \<le> the (to_total (dp_timeout d))) ds)))"
proof -
  from send_with_retry_trace [of E cc rq w] obtain dss where
    d: "w_log (snd (send_with_retry E cc rq w)) = w_log w @ concat dss"
    "\<forall>ds\<in>set dss. \<exists>rq'. (rq' = rq \<or> attempt_of rq rq') \<and> attempt_trace E cc rq' ds" by blast
  have "list_all (\<lambda>d. rq_timeout (dp_request d) = Some (dp_timeout d)) (concat dss)"
    using d(2) trace_deadline by (fastforce simp: list_all_iff)
  moreover have "(\<exists>ps. list_all2 (\<lambda>d p. \<exists>r. to_total (dp_timeout d) = Some r
          \<and> (rp_follow (effective_redirect cc rq) \<longrightarrow> 0 < r)
          \<and> r + time_spent E (saved_total rq \<noteq> None) (retries cc rq) (rp_follow (effective_redirect cc rq)) (w_instants w) p = T)
        (concat dss) ps
      \<and> readings_of_call (retries cc rq) (rp_follow (effective_redirect cc rq)) (w_instants w)
          (w_instants (snd (send_with_retry E cc rq w))) ps)
      \<and> (mono (e_instant E) \<and> saved_total rq \<noteq> None \<longrightarrow>
          sorted_wrt (\<lambda>d d'. the (to_total (dp_timeout d')) \<le> the (to_total (dp_timeout d))) (concat dss))"
    if T: "to_total (effective_timeout (cc_timeout cc) (rq_timeout rq)) = Some T" for T
  proof -
    from call_readings [OF T, of E w] d(1) obtain ps where
      ps: "list_all2 (spent_at E (saved_total rq \<noteq> None) (retries cc rq) (rp_follow (effective_redirect cc rq)) T (w_instants w))
        (concat dss) ps" "readings_of_call (retries cc rq) (rp_follow (effective_redirect cc rq)) (w_instants w)
          (w_instants (snd (send_with_retry E cc rq w))) ps" by auto
    from ps(1,2) budgets_shrink [OF _ _ ps(2), of E T "concat dss"] show ?thesis
      unfolding spent_at_def [abs_def] by auto
  qed
  ultimately show ?thesis using d(1) unfolding Let_def by blast
qed

lemma run_no_retry:
  "send_with_retry run_env run_client run_request run_world = send_with_redirects run_env run_client run_request run_world"
  by (simp add: send_with_retry_def effective_retry_def or_else_def run_request_def request_new_def)

lemma run_log: "w_log (snd (send_with_retry run_env run_client run_request run_world)) = [run_first, run_second]"
  using run_result by (auto simp: run_no_retry)

text \<open>Two readings of a clock that ticks at each; the second hop has 97 of the 100 left.\<close>

theorem total_deadline_bound_witness:
  "\<exists>j k. 99 + time_spent run_env True False True 0 (0, j) = 100
     \<and> 97 + time_spent run_env True False True 0 (0, k) = 100 \<and> 0 < j \<and> j < k"
proof -
  have e: "to_total (effective_timeout (cc_timeout run_client) (rq_timeout run_request)) = Some 100"
    "saved_total run_request = Some 100" "\<not> retries run_client run_request" "rp_follow (effective_redirect run_client run_request)"
    "w_instants run_world = 0" "w_log run_world = []"
    by (simp_all add: effective_timeout_def run_request_def saved_total_def retries_def effective_retry_def or_else_def
        request_new_def run_world_def effective_redirect_def redirect_policy_strict_def)
  from total_deadline_bound [of run_env run_client run_request run_world] e obtain ps where
    "list_all2 (\<lambda>d p. \<exists>r. to_total (dp_timeout d) = Some r \<and> 0 < r \<and> r + time_spent run_env True False True 0 p = 100)
       [run_first, run_second] ps"
    "\<exists>hi. readings_of_call False True 0 hi ps"
    by (auto simp: run_log Let_def)
  moreover have "to_total (dp_timeout run_first) = Some 99" "to_total (dp_timeout run_second) = Some 97"
    by (simp_all add: run_first_def run_second_def)
  ultimately show ?thesis
    by (auto simp: list_all2_Cons1 readings_of_call_def later_reading_def hop_after_attempt_def loop_start_def) blast
qed

subsection \<open>The cookie jar\<close>

lemma inject_cookies_jar:
  "inject_cookies E a u h w = (r, w') \<Longrightarrow> jar_inv (w_jar w) \<Longrightarrow> jar_inv (w_jar w')"
  by (auto simp: inject_cookies_def Let_def cookies_for_url_def expire_if_due_inv
      split: if_splits prod.splits option.splits)

lemma build_hop_request_jar:
  "build_hop_request E cc p w = (r, w') \<Longrightarrow> jar_inv (w_jar w) \<Longrightarrow> jar_inv (w_jar w')"
  by (auto simp: build_hop_request_def Let_def split: prod.splits sum.splits dest!: inject_cookies_jar)

lemma update_cookie_jar_jar: "jar_inv (w_jar w) \<Longrightarrow> jar_inv (w_jar (update_cookie_jar E rs w))"
  using update_from_response_inv [of "w_jar w"]
  by (auto simp: update_cookie_jar_def Let_def split: prod.splits) (metis fst_conv)

lemma send_single_request_jar [simp]:
  "w_jar (snd (send_single_request E rq t w)) = w_jar w"
  by (simp add: send_single_request_def)

lemma send_lean_jar: "jar_inv (w_jar w) \<Longrightarrow> jar_inv (w_jar (snd (send_lean E cc rq w)))"
  by (auto simp: send_lean_def Let_def send_single_request_def update_cookie_jar_jar
      split: prod.splits sum.splits dest: build_hop_request_jar)

lemma redirect_iteration_jar:
  assumes "redirect_iteration E cc pol params start st w = (out, w')" "jar_inv (w_jar w)"
  shows "jar_inv (w_jar w')"
proof -
  obtain rt w1 where t: "hop_timeout_of E (hp_timeout params) start w = (rt, w1)" by fastforce
  with assms(2) have j1: "jar_inv (w_jar w1)" using hop_timeout_of_log by metis
  show ?thesis
    using assms(1) j1 unfolding redirect_iteration_def t
    by (auto simp: Let_def send_single_request_def split: sum.splits if_splits prod.splits
        dest!: after_response_log
        dest: build_hop_request_jar update_cookie_jar_jar)
      (metis build_hop_request_jar update_cookie_jar_jar world.select_convs(1) world.surjective world.update_convs(5))+
qed

lemma redirect_loop_jar:
  "jar_inv (w_jar w) \<Longrightarrow> jar_inv (w_jar (snd (redirect_loop E cc pol params start st w)))"
proof (induction E cc pol params start st w rule: redirect_loop.induct)
  case (1 E cc pol params start st w)
  obtain out w' where it: "redirect_iteration E cc pol params start st w = (out, w')" by fastforce
  from redirect_iteration_jar [OF it 1(2)] 1(1) [OF it [symmetric]] show ?case
    by (subst redirect_loop.simps) (auto simp: it split: sum.splits)
qed

lemma send_with_redirects_jar:
  "jar_inv (w_jar w) \<Longrightarrow> jar_inv (w_jar (snd (send_with_redirects E cc rq w)))"
  by (auto simp: send_with_redirects_def Let_def send_lean_jar redirect_loop_jar read_instant_def)

lemma retry_iteration_jar:
  assumes "retry_iteration E cc policy saved start attempt w = (out, w')" "jar_inv (w_jar w)"
  shows "jar_inv (w_jar w')"
proof -
  obtain el w1 where e: "elapsed_since E start (clear_context saved w) = (el, w1)" by fastforce
  with assms(2) have j1: "jar_inv (w_jar w1)" using elapsed_since_log by fastforce
  have j2: "jar_inv (w_jar (snd (send_with_redirects E cc rq w1)))" for rq
    by (rule send_with_redirects_jar [OF j1])
  show ?thesis
    using assms j1 j2 unfolding retry_iteration_def Let_def e
    by (auto split: if_splits sum.splits prod.splits dest!: after_attempt_log) (metis snd_conv)+
qed

lemma retry_loop_jar:
  "jar_inv (w_jar w) \<Longrightarrow> jar_inv (w_jar (snd (retry_loop E cc policy saved start attempt w)))"
proof (induction E cc policy saved start attempt w rule: retry_loop.induct)
  case (1 E cc policy saved start attempt w)
  obtain out w' where it: "retry_iteration E cc policy saved start attempt w = (out, w')" by fastforce
  from retry_iteration_jar [OF it 1(2)] 1(1) [OF it [symmetric]] show ?case
    by (subst retry_loop.simps) (auto simp: it split: sum.splits)
qed

text \<open>
  Whatever the transport answers, a call leaves a well-formed cookie jar well
  formed: the pipeline composes with the jar's invariant.
\<close>

lemma call_keeps_jar:
  assumes "jar_inv (w_jar w)"
  shows "jar_inv (w_jar (snd (send_with_retry E cc rq w)))"
  using assms
  by (auto simp: send_with_retry_def send_with_redirects_jar retry_loop_jar read_instant_def split: option.splits)

subsection \<open>Sleeps\<close>

lemma build_hop_request_sleeps: "build_hop_request E cc p w = (r, w') \<Longrightarrow> w_sleeps w' = w_sleeps w"
  by (auto simp: build_hop_request_def inject_cookies_def Let_def split: prod.splits sum.splits if_splits option.splits)

lemma update_cookie_jar_sleeps [simp]: "w_sleeps (update_cookie_jar E rs w) = w_sleeps w"
  by (simp add: update_cookie_jar_def Let_def split: prod.splits)

lemma elapsed_since_sleeps: "elapsed_since E s w = (d, w') \<Longrightarrow> w_sleeps w' = w_sleeps w"
  by (auto simp: elapsed_since_def read_instant_def)

lemma hop_timeout_of_sleeps: "hop_timeout_of E t s w = (r, w') \<Longrightarrow> w_sleeps w' = w_sleeps w"
  by (auto simp: hop_timeout_of_def split: option.splits prod.splits if_splits dest!: elapsed_since_sleeps)

lemma after_response_sleeps: "after_response E pol t st rs w = (out, w') \<Longrightarrow> w_sleeps w' = w_sleeps w"
  by (auto simp: after_response_def Let_def read_instant_def split: if_splits option.splits sum.splits prod.splits)

lemma redirect_iteration_sleeps:
  "redirect_iteration E cc pol params start st w = (out, w') \<Longrightarrow> w_sleeps w' = w_sleeps w"
  by (auto simp: redirect_iteration_def send_single_request_def Let_def
      split: prod.splits sum.splits if_splits
      dest!: hop_timeout_of_sleeps build_hop_request_sleeps after_response_sleeps)

lemma redirect_loop_sleeps: "w_sleeps (snd (redirect_loop E cc pol params start st w)) = w_sleeps w"
proof (induction E cc pol params start st w rule: redirect_loop.induct)
  case (1 E cc pol params start st w)
  obtain out w' where it: "redirect_iteration E cc pol params start st w = (out, w')" by fastforce
  from redirect_iteration_sleeps [OF it] 1 [OF it [symmetric]] show ?case
    by (subst redirect_loop.simps) (auto simp: it split: sum.splits)
qed

lemma send_with_redirects_sleeps: "w_sleeps (snd (send_with_redirects E cc rq w)) = w_sleeps w"
  by (auto simp: send_with_redirects_def send_lean_def Let_def redirect_loop_sleeps read_instant_def
      send_single_request_def split: prod.splits sum.splits dest: build_hop_request_sleeps)

text \<open>The sleeps of a step are the old ones and new ones within the cap.\<close>

definition sleeps_within :: "duration \<Rightarrow> ('h, 'f) world \<Rightarrow> ('h, 'f) world \<Rightarrow> bool" where
  "sleeps_within m w w' \<longleftrightarrow> (\<exists>ds. w_sleeps w' = w_sleeps w @ ds \<and> (\<forall>d\<in>set ds. d \<le> m))"

lemma sleeps_within_same: "w_sleeps w' = w_sleeps w \<Longrightarrow> sleeps_within m w w'"
  by (simp add: sleeps_within_def)

lemma sleeps_within_trans: "sleeps_within m w w1 \<Longrightarrow> sleeps_within m w1 w2 \<Longrightarrow> sleeps_within m w w2"
  by (auto simp: sleeps_within_def)

lemma sleep_if_budget_allows_sleeps:
  assumes "sleep_if_budget_allows E p d a s b w = (r, w')" "d \<le> m"
  shows "sleeps_within m w w'"
  using assms
  by (auto simp: sleep_if_budget_allows_def Let_def sleeps_within_def
      split: option.splits prod.splits if_splits dest!: elapsed_since_sleeps)

lemma next_delay_le:
  assumes F: "float_seconds (e_float E)" and m: "bo_max_delay (ry_backoff p) \<le> exact_limit"
    and n: "next_delay E p c a ra w = (Some d, w')"
  shows "d \<le> bo_max_delay (ry_backoff p) \<and> w_sleeps w' = w_sleeps w"
proof -
  let ?now = "e_system E (w_systems w)"
  let ?dir = "Option.bind ra (\<lambda>v. retry_after_delay (e_parse_http_date E) p v ?now)"
  obtain j js where j: "(if ?dir = None \<and> a > 1 then get_random (e_seed E) (w_jitter w) else (None, w_jitter w)) = (j, js)"
    by fastforce
  then have b: "\<forall>k. j = Some k \<longrightarrow> k < 2 ^ 53" using get_random_bound by (auto split: if_splits)
  from n j have "compute_retry_delay (e_float E) (e_parse_http_date E) p c a ra j ?now = Some d"
    "w_sleeps w' = w_sleeps w" by (auto simp: next_delay_def Let_def)
  with float_seconds.compute_retry_delay_le [OF F m b] show ?thesis by blast
qed

lemma after_attempt_sleeps:
  assumes F: "float_seconds (e_float E)" and m: "bo_max_delay (ry_backoff p) \<le> exact_limit"
    and a: "after_attempt E p saved a s r w = (out, w')"
  shows "sleeps_within (bo_max_delay (ry_backoff p)) w w'"
proof -
  let ?m = "bo_max_delay (ry_backoff p)"
  have slp: "sleeps_within ?m w1 w2" if "sleep_before_retry E p c a ra s b w1 = (q, w2)" for c ra b q w1 w2
  proof -
    obtain d w0 where n: "next_delay E p c a ra w1 = (d, w0)" by fastforce
    show ?thesis
    proof (cases d)
      case None
      with n that show ?thesis
        by (auto simp: sleep_before_retry_def next_delay_def Let_def intro!: sleeps_within_same split: prod.splits)
    next
      case (Some e)
      with n that have "sleep_if_budget_allows E p e a s b w0 = (q, w2)" by (simp add: sleep_before_retry_def)
      with next_delay_le [OF F m n [unfolded Some]] sleep_if_budget_allows_sleeps show ?thesis
        by (metis sleeps_within_def)
    qed
  qed
  have bud: "w_sleeps w2 = w_sleeps w1" if "has_budget E p a s w1 = (b, w2)" for b w1 w2
    using that by (auto simp: has_budget_def split: if_splits option.splits prod.splits dest!: elapsed_since_sleeps)
  have inst: "w_sleeps (snd (read_instant E w1)) = w_sleeps w1" for w1 by (simp add: read_instant_def)
  show ?thesis
    using a unfolding after_attempt_def Let_def
    by (auto simp: inst intro: sleeps_within_same split: option.splits prod.splits bool.splits sum.splits if_splits
        dest!: slp bud simp: sleeps_within_def)
qed

lemma retry_iteration_sleeps:
  assumes F: "float_seconds (e_float E)" and m: "bo_max_delay (ry_backoff p) \<le> exact_limit"
    and r: "retry_iteration E cc p saved start attempt w = (out, w')"
  shows "sleeps_within (bo_max_delay (ry_backoff p)) w w'"
proof -
  obtain el w1 where e: "elapsed_since E start (clear_context saved w) = (el, w1)" by fastforce
  then have s1: "w_sleeps w1 = w_sleeps w" using elapsed_since_sleeps by (fastforce simp: clear_context_def)
  have s0: "w_sleeps (clear_context saved w) = w_sleeps w" by (simp add: clear_context_def)
  have s2: "sleeps_within (bo_max_delay (ry_backoff p)) w w2"
    if "after_attempt E p saved attempt start (fst (send_with_redirects E cc rq w1)) (snd (send_with_redirects E cc rq w1)) = (q, w2)"
    for rq q w2
    using after_attempt_sleeps [OF F m that] by (simp add: sleeps_within_def send_with_redirects_sleeps s1)
  show ?thesis
    using r unfolding retry_iteration_def Let_def e
    by (auto simp: case_prod_beta s0 split: if_splits sum.splits intro: sleeps_within_same s2)
      (use s1 in \<open>auto intro!: sleeps_within_same\<close>)
qed

lemma retry_loop_sleeps:
  assumes F: "float_seconds (e_float E)" and m: "bo_max_delay (ry_backoff p) \<le> exact_limit"
  shows "sleeps_within (bo_max_delay (ry_backoff p)) w (snd (retry_loop E cc p saved start attempt w))"
  using assms
proof (induction E cc p saved start attempt w rule: retry_loop.induct)
  case (1 E cc p saved start attempt w)
  obtain out w' where it: "retry_iteration E cc p saved start attempt w = (out, w')" by fastforce
  from retry_iteration_sleeps [OF 1(2,3) it] 1(1) [OF it [symmetric] _ 1(2,3)] show ?case
    by (subst retry_loop.simps) (auto simp: it split: sum.splits intro: sleeps_within_trans)
qed

text \<open>
  A call never sleeps longer between two attempts than the maximal delay of
  its backoff policy, whatever the jitter, the status and the \<open>Retry-After\<close>
  header are; without a policy it does not sleep.
\<close>

lemma sleeps_bounded:
  assumes "float_seconds (e_float E)"
    and "\<forall>p. effective_retry cc rq = Some p \<longrightarrow> bo_max_delay (ry_backoff p) \<le> exact_limit"
  shows "\<exists>ds. w_sleeps (snd (send_with_retry E cc rq w)) = w_sleeps w @ ds
    \<and> (\<forall>d\<in>set ds. \<exists>p. effective_retry cc rq = Some p \<and> d \<le> bo_max_delay (ry_backoff p))"
proof (cases "effective_retry cc rq")
  case None
  then show ?thesis by (simp add: send_with_retry_def send_with_redirects_sleeps)
next
  case (Some p)
  with assms have m: "bo_max_delay (ry_backoff p) \<le> exact_limit" by simp
  have "sleeps_within (bo_max_delay (ry_backoff p)) w (snd (send_with_retry E cc rq w))"
    using retry_loop_sleeps [OF assms(1) m, of "w\<lparr>w_instants := Suc (w_instants w)\<rparr>"] Some
    by (auto simp: send_with_retry_def read_instant_def send_with_redirects_sleeps sleeps_within_def)
  with Some show ?thesis by (auto simp: sleeps_within_def)
qed

definition retrying_client :: "(header_list, rat) client_config" where
  "retrying_client = run_client\<lparr>cc_retry := Some ((retry_policy_default rat_floats)\<lparr>ry_max_attempts := 3\<rparr>)\<rparr>"

subsection \<open>The response of an attempt\<close>

lemma after_response_Ok:
  assumes "after_response E pol t st rs w = (Inl (Ok r), w')"
  shows "rs_history r = st_history st \<and> rs_status r = rs_status rs \<and> w_log w' = w_log w
    \<and> (is_redirect_status (rs_status rs) \<and> rp_follow pol \<longrightarrow> headers_get (e_http E) (rs_headers r) ''location'' = None)"
  using assms by (auto simp: after_response_def Let_def split: if_splits option.splits sum.splits prod.splits)

lemma redirect_iteration_result:
  assumes "redirect_iteration E cc pol params start st w = (out, w')"
  shows "case out of
      Inr st' \<Rightarrow> length (w_log w') = Suc (length (w_log w)) \<and> length (st_history st') = Suc (length (st_history st))
    | Inl (Inr r) \<Rightarrow> length (w_log w') = Suc (length (w_log w)) \<and> rs_history r = st_history st
        \<and> (is_redirect_status (rs_status r) \<and> rp_follow pol \<longrightarrow> headers_get (e_http E) (rs_headers r) ''location'' = None)
    | Inl (Inl e) \<Rightarrow> True"
proof -
  from redirect_iteration_trace [OF assms] have "\<not> isl out \<Longrightarrow> length (w_log w') = Suc (length (w_log w))
      \<and> length (st_history (projr out)) = Suc (length (st_history st))"
    by (cases out) (auto simp: step_ok_def)
  moreover have "length (w_log w') = Suc (length (w_log w)) \<and> rs_history r = st_history st
        \<and> (is_redirect_status (rs_status r) \<and> rp_follow pol \<longrightarrow> headers_get (e_http E) (rs_headers r) ''location'' = None)"
    if "out = Inl (Inr r)" for r
    using assms unfolding that redirect_iteration_def Let_def taint_def [symmetric]
    by (auto simp: send_single_request_def taint_def split: prod.splits sum.splits if_splits
        dest!: after_response_Ok hop_timeout_of_log build_hop_request_log)
  ultimately show ?thesis by (auto split: sum.splits)
qed

lemma redirect_loop_result:
  "redirect_loop E cc pol params start st w = (Ok r, w') \<Longrightarrow>
     length (w_log w') + length (st_history st) = Suc (length (w_log w) + length (rs_history r))
     \<and> (is_redirect_status (rs_status r) \<and> rp_follow pol \<longrightarrow> headers_get (e_http E) (rs_headers r) ''location'' = None)"
proof (induction E cc pol params start st w rule: redirect_loop.induct)
  case (1 E cc pol params start st w)
  obtain out w1 where it: "redirect_iteration E cc pol params start st w = (out, w1)" by fastforce
  note res = redirect_iteration_result [OF it]
  show ?case
  proof (cases out)
    case (Inl q)
    with 1(2) it have "q = Ok r" "w1 = w'" by (subst (asm) redirect_loop.simps, simp)+
    with res Inl show ?thesis by simp
  next
    case (Inr st')
    with 1(2) it have "redirect_loop E cc pol params start st' w1 = (Ok r, w')"
      by (subst (asm) redirect_loop.simps) simp
    from 1(1) [OF it [symmetric] Inr this] res Inr show ?thesis by simp
  qed
qed

text \<open>
  An attempt that follows redirects and returns a response returns it with one
  history entry for each request before the last one, and the response is
  not a redirect that could have been followed.
\<close>

lemma response_history_complete:
  assumes "rp_follow (effective_redirect cc rq)" "send_with_redirects E cc rq w = (Ok r, w')"
  shows "length (dispatched E cc rq w) = Suc (length (rs_history r))
    \<and> (is_redirect_status (rs_status r) \<longrightarrow> headers_get (e_http E) (rs_headers r) ''location'' = None)"
proof -
  have "redirect_loop E cc (effective_redirect cc rq) ((prepare_first_hop E cc rq)\<lparr>hp_body := BodyEmpty\<rparr>)
      (fst (read_instant E w)) (initial_redirect_state (prepare_first_hop E cc rq)) (snd (read_instant E w)) = (Ok r, w')"
    using assms by (simp add: send_with_redirects_def Let_def case_prod_beta)
  from redirect_loop_result [OF this] assms show ?thesis
    by (simp add: dispatched_def initial_redirect_state_def)
qed

subsection \<open>What retrying does not do\<close>

text \<open>
  Before the first retry there is no backoff: after a failed first attempt
  without a \<open>Retry-After\<close> header the next one starts at once, whatever the initial
  delay of the policy is.
\<close>

lemma first_retry_immediate:
  "fst (sleep_before_retry E policy cause 1 None start budget w) = Ok ()
   \<and> w_sleeps (snd (sleep_before_retry E policy cause 1 None start budget w)) = w_sleeps w"
  by (simp add: sleep_before_retry_def next_delay_def compute_retry_delay_def backoff_delay_def)

text \<open>
  A total that is set on the client and not on the request starts anew with
  every attempt: the timeout of an attempt does not depend on the time already
  spent, and is the whole total of the client.
\<close>

lemma client_total_restarts:
  assumes "rq_timeout rq = None" "ry_max_elapsed policy = None"
  shows "attempt_timeout policy rq n elapsed = Ok None
    \<and> to_total (effective_timeout (Some t) None) = to_total t"
  using assms by (simp add: attempt_timeout_def saved_total_def effective_timeout_def timeout_merge_def)

end
