(* ===== verification/Http_Connect.thy ===== *)
theory Http_Connect
  imports Header_Map Net
begin

text \<open>
  The CONNECT wire format (crate \<open>eggfetch-http-connect\<close>): the authority of a
  tunnel target (\<open>target.rs\<close>), the request head (\<open>request.rs\<close>) and the bounded
  reader of the response head (\<open>response.rs\<close>).

  Strings are the UTF-8 bytes of the program's strings.  The stream of the reader
  is what the peer will still send: its bytes and how it ends.  The Base64 encoder is
  an argument.
\<close>

datatype connect_error =
    InvalidTarget
  | InvalidHeader
  | InvalidCredentials
  | DuplicateAuthorization
  | ReservedHeader
  | RequestHeadTooLarge nat nat
  | ConnectIo string
  | MalformedStatus
  | MalformedHeader
  | StatusLineTooLarge nat
  | HeaderLineTooLarge nat
  | ResponseHeadTooLarge nat
  | TooManyHeaders nat
  | ConnectUnexpectedEof

subsection \<open>Targets\<close>

record connect_target =
  ct_host :: string
  ct_port :: nat

text \<open>
  \<open>char::is_control\<close> somewhere in the text: an ASCII control, or a C1 control,
  which is the byte \<open>0xC2\<close> followed by one below \<open>0xA0\<close>.
\<close>

fun has_control :: "string \<Rightarrow> bool" where
  "has_control [] = False"
| "has_control (c # cs) =
     (byte c < 32 \<or> byte c = 127
      \<or> (byte c = 194 \<and> cs \<noteq> [] \<and> 128 \<le> byte (hd cs) \<and> byte (hd cs) < 160)
      \<or> has_control cs)"

definition strip_brackets :: "string \<Rightarrow> string option" where
  "strip_brackets host =
     (if starts_with host ''['' \<and> ends_with host '']'' \<and> length host \<ge> 2
      then Some (take (length host - 2) (tl host)) else None)"

definition authority_form :: "string \<Rightarrow> nat \<Rightarrow> string" where
  "authority_form host port =
     (case strip_brackets host of
        Some inner \<Rightarrow> ''['' @ inner @ '']:'' @ show_nat port
      | None \<Rightarrow> if CHR '':'' \<in> set host then ''['' @ host @ '']:'' @ show_nat port
                else host @ '':'' @ show_nat port)"

definition authority :: "connect_target \<Rightarrow> string" where
  "authority t = authority_form (ct_host t) (ct_port t)"

text \<open>The byte tests of the loop over the characters, in one predicate: any of them gives the same error.\<close>

definition host_byte_ok :: "char \<Rightarrow> bool" where
  "host_byte_ok c \<longleftrightarrow> c \<noteq> CHR '' '' \<and> c \<noteq> CHR ''/'' \<and> c \<noteq> CHR ''?'' \<and> c \<noteq> CHR ''#'' \<and> c \<noteq> CHR ''@''"

definition validate_host_inner :: "string \<Rightarrow> connect_error + unit" where
  "validate_host_inner host =
     (if host = [] then Inl InvalidTarget
      else if has_control host \<or> \<not> list_all host_byte_ok host then Inl InvalidTarget
      else if CHR '':'' \<in> set host then
        (let candidate = (case split_once CHR ''%'' host of Some (base, _) \<Rightarrow> base | None \<Rightarrow> host)
         in if parse_ipv6 candidate = None then Inl InvalidTarget else Inr ())
      else Inr ())"

definition validate_host :: "string \<Rightarrow> connect_error + unit" where
  "validate_host host =
     (if host = [] then Inl InvalidTarget
      else if CHR ''['' \<in> set host \<or> CHR '']'' \<in> set host then
        (case strip_brackets host of
           None \<Rightarrow> Inl InvalidTarget
         | Some inner \<Rightarrow>
             if inner = [] \<or> CHR ''['' \<in> set inner \<or> CHR '']'' \<in> set inner then Inl InvalidTarget
             else validate_host_inner inner)
      else validate_host_inner host)"

definition connect_target_new :: "string \<Rightarrow> nat \<Rightarrow> connect_error + connect_target" where
  "connect_target_new host port =
     (if port = 0 then Inl InvalidTarget
      else case validate_host host of
             Inl e \<Rightarrow> Inl e
           | Inr _ \<Rightarrow> Inr \<lparr>ct_host = host, ct_port = port\<rparr>)"

subsection \<open>The request head\<close>

record connect_request =
  cr_target :: connect_target
  cr_proxy_authorization :: "string option"
  cr_extra_headers :: "(string \<times> string) list"
  cr_max_head_bytes :: nat

definition basic_auth_value :: "(string \<Rightarrow> string) \<Rightarrow> string \<Rightarrow> string \<Rightarrow> connect_error + string" where
  "basic_auth_value base64 username password =
     (if CHR '':'' \<in> set username then Inl InvalidCredentials
      else if has_control username \<or> has_control password then Inl InvalidCredentials
      else Inr (''Basic '' @ base64 (username @ '':'' @ password)))"

definition is_token_byte :: "char \<Rightarrow> bool" where
  "is_token_byte c \<longleftrightarrow>
     c \<in> {CHR ''!'', CHR ''#'', CHR ''$'', CHR ''%'', CHR ''&'', CHR 0x27, CHR ''*'', CHR ''+'', CHR ''-'', CHR ''.'',
          CHR ''^'', CHR ''_'', CHR 0x60, CHR ''|'', CHR ''~''}
     \<or> (48 \<le> byte c \<and> byte c \<le> 57) \<or> (65 \<le> byte c \<and> byte c \<le> 90) \<or> (97 \<le> byte c \<and> byte c \<le> 122)"

definition connect_header_name :: "string \<Rightarrow> connect_error + unit" where
  "connect_header_name name =
     (if name = [] \<or> length name > 256 then Inl InvalidHeader
      else if \<not> list_all is_token_byte name then Inl InvalidHeader
      else Inr ())"

definition connect_header_value :: "string \<Rightarrow> connect_error + unit" where
  "connect_header_value v =
     (if list_ex (\<lambda>b. byte b \<le> 8 \<or> (10 \<le> byte b \<and> byte b \<le> 31) \<or> byte b = 127) v
      then Inl InvalidHeader else Inr ())"

text \<open>The first pass over the extra headers: checks, and the number of authorizations among them.\<close>

fun check_extra_headers :: "(string \<times> string) list \<Rightarrow> nat \<Rightarrow> connect_error + nat" where
  "check_extra_headers [] n = Inr n"
| "check_extra_headers ((name, v) # hs) n =
     (case connect_header_name name of
        Inl e \<Rightarrow> Inl e
      | Inr _ \<Rightarrow>
         (case connect_header_value v of
            Inl e \<Rightarrow> Inl e
          | Inr _ \<Rightarrow>
              let n' = (if eq_ignore_ascii_case name ''proxy-authorization'' then n + 1 else n)
              in if eq_ignore_ascii_case name ''host'' then Inl ReservedHeader
                 else check_extra_headers hs n'))"

text \<open>The incremental bound: the length so far, or the error with the length that exceeded it.\<close>

fun bound_chunks :: "nat \<Rightarrow> nat list \<Rightarrow> nat \<Rightarrow> connect_error + nat" where
  "bound_chunks max_bytes [] len = Inr len"
| "bound_chunks max_bytes (c # cs) len =
     (case checked_add len c of
        None \<Rightarrow> Inl (RequestHeadTooLarge usize_max max_bytes)
      | Some l \<Rightarrow> if l > max_bytes then Inl (RequestHeadTooLarge l max_bytes) else bound_chunks max_bytes cs l)"

definition request_line_of :: "string \<Rightarrow> string" where
  "request_line_of a = ''CONNECT '' @ a @ '' HTTP/1.1''"

definition header_line_of :: "string \<times> string \<Rightarrow> string" where
  "header_line_of p = fst p @ '': '' @ snd p"

text \<open>
  The chunk lengths in the order the code adds them.  The length of one header is a
  checked sum as well, which no string that fits in memory overflows.
\<close>

definition head_chunks :: "connect_request \<Rightarrow> nat list" where
  "head_chunks r =
     (let a = authority (cr_target r)
      in [length (request_line_of a) + 2, length (''Host: '' @ a) + 2,
          (case cr_proxy_authorization r of None \<Rightarrow> 0 | Some v \<Rightarrow> length ''Proxy-Authorization: '' + length v + 2)]
         @ map (\<lambda>p. length (fst p) + (2 + length (snd p) + 2)) (cr_extra_headers r) @ [2])"

definition encode_connect_request :: "connect_request \<Rightarrow> connect_error + string" where
  "encode_connect_request r =
     (let a = authority (cr_target r)
      in case (case cr_proxy_authorization r of None \<Rightarrow> Inr () | Some v \<Rightarrow> connect_header_value v) of
           Inl e \<Rightarrow> Inl e
         | Inr _ \<Rightarrow>
            (case check_extra_headers (cr_extra_headers r) 0 of
               Inl e \<Rightarrow> Inl e
             | Inr n \<Rightarrow>
                 if cr_proxy_authorization r \<noteq> None \<and> n > 0 then Inl DuplicateAuthorization
                 else if n > 1 then Inl DuplicateAuthorization
                 else (case bound_chunks (cr_max_head_bytes r) (head_chunks r) 0 of
                         Inl e \<Rightarrow> Inl e
                       | Inr _ \<Rightarrow>
                           Inr (request_line_of a @ crlf @ ''Host: '' @ a @ crlf
                                @ (case cr_proxy_authorization r of
                                     None \<Rightarrow> [] | Some v \<Rightarrow> ''Proxy-Authorization: '' @ v @ crlf)
                                @ concat (map (\<lambda>p. header_line_of p @ crlf) (cr_extra_headers r))
                                @ crlf))))"

subsection \<open>The response head\<close>

record connect_limits =
  cl_max_status_line :: nat
  cl_max_header_line :: nat
  cl_max_headers_bytes :: nat
  cl_max_header_count :: nat

definition connect_limits_default :: connect_limits where
  "connect_limits_default = \<lparr>cl_max_status_line = 4096, cl_max_header_line = 8192, cl_max_headers_bytes = 65536,
     cl_max_header_count = 100\<rparr>"

record connect_head =
  ch_status :: nat
  ch_headers :: "(string \<times> string) list"
  ch_reason_phrase :: "string option"

datatype stream_end = AtEof | AtError string

definition end_error :: "stream_end \<Rightarrow> connect_error" where
  "end_error e = (case e of AtEof \<Rightarrow> ConnectUnexpectedEof | AtError m \<Rightarrow> ConnectIo m)"

text \<open>One line: \<open>buf\<close> is the buffer so far, in order; the result comes with what is left of the stream.\<close>

definition drop_cr :: "string \<Rightarrow> string" where
  "drop_cr buf = (if buf \<noteq> [] \<and> last buf = CHR 0x0D then butlast buf else buf)"

fun read_bounded_line :: "stream_end \<Rightarrow> nat \<Rightarrow> string \<Rightarrow> string \<Rightarrow> (connect_error + string) \<times> string" where
  "read_bounded_line e max_len buf [] = (Inl (end_error e), [])"
| "read_bounded_line e max_len buf (b # s) =
     (if b = CHR 0x0A then (Inr (drop_cr buf), s)
      else if length (buf @ [b]) > max_len then (Inl (HeaderLineTooLarge max_len), s)
      else read_bounded_line e max_len (buf @ [b]) s)"

definition is_ows :: "char \<Rightarrow> bool" where
  "is_ows c \<longleftrightarrow> c = CHR '' '' \<or> c = CHR 0x09"

definition trim_ows :: "string \<Rightarrow> string" where
  "trim_ows v = rev (dropWhile is_ows (rev (dropWhile is_ows v)))"

definition response_header_name :: "string \<Rightarrow> connect_error + unit" where
  "response_header_name name =
     (if name = [] \<or> length name > 256 then Inl MalformedHeader
      else if \<not> list_all is_token_byte name then Inl MalformedHeader
      else Inr ())"

definition parse_header_line :: "string \<Rightarrow> connect_error + string \<times> string" where
  "parse_header_line line =
     (case split_once CHR '':'' line of
        None \<Rightarrow> Inl MalformedHeader
      | Some (n, v) \<Rightarrow>
         (case response_header_name (trim_ows n) of
            Inl e \<Rightarrow> Inl e
          | Inr _ \<Rightarrow> Inr (trim_ows n, trim_ows v)))"

lemma read_bounded_line_shorter:
  "read_bounded_line e m buf s = (Inr line, s') \<Longrightarrow> length s' < length s"
  by (induction e m buf s rule: read_bounded_line.induct) (fastforce split: if_splits)+

text \<open>The header loop: every turn takes a line off the stream.\<close>

function read_headers ::
  "stream_end \<Rightarrow> connect_limits \<Rightarrow> (string \<times> string) list \<Rightarrow> nat \<Rightarrow> string
   \<Rightarrow> (connect_error + (string \<times> string) list) \<times> string" where
  "read_headers e lim hs total_bytes s =
     (case read_bounded_line e (cl_max_header_line lim) [] s of
        (Inl err, s') \<Rightarrow> (Inl err, s')
      | (Inr line, s') \<Rightarrow>
          if line = [] then (Inr hs, s')
          else case checked_add total_bytes (length line) of
                 None \<Rightarrow> (Inl (ResponseHeadTooLarge (cl_max_headers_bytes lim)), s')
               | Some t \<Rightarrow>
                   if t > cl_max_headers_bytes lim then (Inl (ResponseHeadTooLarge (cl_max_headers_bytes lim)), s')
                   else if length hs \<ge> cl_max_header_count lim
                   then (Inl (TooManyHeaders (cl_max_header_count lim)), s')
                   else (case parse_header_line line of
                           Inl err \<Rightarrow> (Inl err, s')
                         | Inr h \<Rightarrow> read_headers e lim (hs @ [h]) t s'))"
  by pat_completeness auto
termination
  by (relation "measure (\<lambda>(e, lim, hs, t, s). length s)") (auto dest: read_bounded_line_shorter [OF sym])

declare read_headers.simps [simp del]

text \<open>The status line: the version is not looked at, the reason is what follows the second space.\<close>

definition parse_status_line :: "string \<Rightarrow> connect_error + nat \<times> string option" where
  "parse_status_line line =
     (if line = [] then Inl MalformedStatus
      else case split_once CHR '' '' line of
             None \<Rightarrow> Inl MalformedStatus
           | Some (_, rest) \<Rightarrow>
               let (tok, reason) = (case split_once CHR '' '' rest of
                                      None \<Rightarrow> (rest, None) | Some (t, r) \<Rightarrow> (t, Some r))
               in (case parse_u16 tok of
                     None \<Rightarrow> Inl MalformedStatus
                   | Some status \<Rightarrow> Inr (status, if reason = Some [] then None else reason)))"

definition read_connect_response_head ::
  "stream_end \<Rightarrow> connect_limits \<Rightarrow> string \<Rightarrow> (connect_error + connect_head) \<times> string" where
  "read_connect_response_head e lim s =
     (case read_bounded_line e (cl_max_status_line lim) [] s of
        (Inl err, s') \<Rightarrow>
          (Inl (case err of HeaderLineTooLarge _ \<Rightarrow> StatusLineTooLarge (cl_max_status_line lim) | _ \<Rightarrow> err), s')
      | (Inr line, s') \<Rightarrow>
         (case parse_status_line line of
            Inl err \<Rightarrow> (Inl err, s')
          | Inr (status, reason) \<Rightarrow>
             (case read_headers e lim [] 0 s' of
                (Inl err, s'') \<Rightarrow> (Inl err, s'')
              | (Inr hs, s'') \<Rightarrow>
                  (Inr \<lparr>ch_status = status, ch_headers = hs, ch_reason_phrase = reason\<rparr>, s''))))"

subsection \<open>Lines\<close>

abbreviation LF :: char where "LF \<equiv> CHR 0x0A"
abbreviation CR :: char where "CR \<equiv> CHR 0x0D"

lemma read_line_ok:
  "LF \<notin> set line \<Longrightarrow> length (buf @ line) \<le> m \<Longrightarrow>
     read_bounded_line e m buf (line @ LF # s) = (Inr (drop_cr (buf @ line)), s)"
  by (induction line arbitrary: buf) auto

lemma read_line_crlf:
  assumes "LF \<notin> set line" "length line < m"
  shows "read_bounded_line e m [] (line @ crlf @ s) = (Inr line, s)"
  using read_line_ok [of "line @ [CR]" "[]" m e s] assms by (simp add: crlf_def drop_cr_def)

lemma read_line_consumes:
  "read_bounded_line e m buf s = (r, s') \<Longrightarrow> length buf \<le> m \<Longrightarrow>
     \<exists>c. s = c @ s' \<and> length c + length buf \<le> Suc m
        \<and> (\<forall>line. r = Inr line \<longrightarrow> length line \<le> m)"
proof (induction e m buf s rule: read_bounded_line.induct)
  case (2 e m buf b s)
  show ?case
  proof (cases "b = LF")
    case True
    with 2(2,3) show ?thesis by (auto simp: drop_cr_def intro!: exI [of _ "[b]"])
  next
    case nl: False
    show ?thesis
    proof (cases "length (buf @ [b]) > m")
      case True
      with nl 2(2,3) show ?thesis by (auto intro!: exI [of _ "[b]"])
    next
      case False
      with nl 2 obtain c where "s = c @ s'" "length c + length (buf @ [b]) \<le> Suc m"
        "\<forall>line. r = Inr line \<longrightarrow> length line \<le> m" by auto
      then show ?thesis by (intro exI [of _ "b # c"]) auto
    qed
  qed
qed auto

lemma read_headers_consumes:
  "read_headers e lim hs t s = (r, s') \<Longrightarrow> length hs \<le> cl_max_header_count lim \<Longrightarrow>
     \<exists>c. s = c @ s' \<and> length c \<le> Suc (cl_max_header_count lim - length hs) * Suc (cl_max_header_line lim)
        \<and> (\<forall>hs'. r = Inr hs' \<longrightarrow> length hs' \<le> cl_max_header_count lim)"
proof (induction e lim hs t s rule: read_headers.induct)
  case (1 e lim hs t s)
  obtain q s1 where q: "read_bounded_line e (cl_max_header_line lim) [] s = (q, s1)" by fastforce
  from read_line_consumes [OF q] obtain c where
    c: "s = c @ s1" "length c \<le> Suc (cl_max_header_line lim)" by auto
  then have le: "length c \<le> Suc n * Suc (cl_max_header_line lim)" for n by simp
  show ?case
  proof (cases "\<exists>line t' h. q = Inr line \<and> line \<noteq> [] \<and> checked_add t (length line) = Some t'
      \<and> t' \<le> cl_max_headers_bytes lim \<and> length hs < cl_max_header_count lim \<and> parse_header_line line = Inr h")
    case False
    with 1(2,3) q c le show ?thesis
      by (subst (asm) read_headers.simps)
         (auto split: sum.splits if_splits option.splits simp: not_less intro!: exI [of _ c])
  next
    case True
    then obtain line t' h where l: "q = Inr line" "line \<noteq> []" "checked_add t (length line) = Some t'"
      "t' \<le> cl_max_headers_bytes lim" "length hs < cl_max_header_count lim" "parse_header_line line = Inr h" by blast
    from 1(2) q l have "read_headers e lim (hs @ [h]) t' s1 = (r, s')"
      by (subst (asm) read_headers.simps) simp
    with 1(1) [OF q [symmetric] l(1,2,3)] l obtain c' where
      c': "s1 = c' @ s'" "length c' \<le> Suc (cl_max_header_count lim - Suc (length hs)) * Suc (cl_max_header_line lim)"
      "\<forall>hs'. r = Inr hs' \<longrightarrow> length hs' \<le> cl_max_header_count lim" by auto
    from l(5) have "Suc (cl_max_header_count lim - length hs) = Suc (Suc (cl_max_header_count lim - Suc (length hs)))"
      by simp
    with c c' show ?thesis by (intro exI [of _ "c @ c'"]) auto
  qed
qed

text \<open>
  Reading a response head, whether it succeeds or fails, takes a prefix off the
  stream whose length the limits bound; all later bytes stay for the tunnel.  A head
  that is returned has no more headers than allowed.
\<close>

lemma connect_read_bounded:
  assumes "read_connect_response_head e lim s = (r, s')"
  shows "\<exists>c. s = c @ s'
    \<and> length c \<le> Suc (cl_max_status_line lim) + Suc (cl_max_header_count lim) * Suc (cl_max_header_line lim)
    \<and> (\<forall>h. r = Inr h \<longrightarrow> length (ch_headers h) \<le> cl_max_header_count lim)"
proof -
  obtain q s1 where q: "read_bounded_line e (cl_max_status_line lim) [] s = (q, s1)" by fastforce
  from read_line_consumes [OF q] obtain c where c: "s = c @ s1" "length c \<le> Suc (cl_max_status_line lim)" by auto
  obtain hr s2 where h: "read_headers e lim [] 0 s1 = (hr, s2)" by fastforce
  from read_headers_consumes [OF h] obtain c' where c': "s1 = c' @ s2"
    "length c' \<le> Suc (cl_max_header_count lim) * Suc (cl_max_header_line lim)"
    "\<forall>hs'. hr = Inr hs' \<longrightarrow> length hs' \<le> cl_max_header_count lim" by auto
  have "(\<exists>hd. r = Inr hd) \<Longrightarrow> s' = s2 \<and> hr = Inr (ch_headers (projr r))" "s' = s1 \<or> s' = s2"
    "s' = s1 \<Longrightarrow> s1 \<noteq> s2 \<Longrightarrow> isl r"
    using assms unfolding read_connect_response_head_def q
    by (auto simp: h split: sum.splits prod.splits)
  with c c' show ?thesis
    by (cases "s' = s2") (auto intro!: exI [of _ "c @ c'"] exI [of _ c])
qed

subsection \<open>The round trip of a response head\<close>

text \<open>The reference: the bytes a proxy sends for a head.\<close>

definition status_line_of :: "connect_head \<Rightarrow> string" where
  "status_line_of h = ''HTTP/1.1 '' @ show_nat (ch_status h)
     @ (case ch_reason_phrase h of None \<Rightarrow> [] | Some p \<Rightarrow> '' '' @ p)"

definition render_head :: "connect_head \<Rightarrow> string" where
  "render_head h = status_line_of h @ crlf @ concat (map (\<lambda>p. header_line_of p @ crlf) (ch_headers h)) @ crlf"

definition header_ok :: "string \<times> string \<Rightarrow> bool" where
  "header_ok p \<longleftrightarrow> fst p \<noteq> [] \<and> length (fst p) \<le> 256 \<and> list_all is_token_byte (fst p)
     \<and> trim_ows (snd p) = snd p \<and> LF \<notin> set (snd p)"

definition head_fits :: "connect_limits \<Rightarrow> connect_head \<Rightarrow> bool" where
  "head_fits lim h \<longleftrightarrow> ch_status h \<le> 65535 \<and> ch_reason_phrase h \<noteq> Some []
     \<and> (\<forall>p. ch_reason_phrase h = Some p \<longrightarrow> LF \<notin> set p)
     \<and> length (status_line_of h) < cl_max_status_line lim
     \<and> list_all header_ok (ch_headers h)
     \<and> list_all (\<lambda>p. length (header_line_of p) < cl_max_header_line lim) (ch_headers h)
     \<and> sum_list (map (\<lambda>p. length (header_line_of p)) (ch_headers h)) \<le> cl_max_headers_bytes lim
     \<and> cl_max_headers_bytes lim \<le> usize_max
     \<and> length (ch_headers h) \<le> cl_max_header_count lim"

lemma token_not [simp]: "\<not> is_token_byte CHR '':''" "\<not> is_token_byte LF" "\<not> is_token_byte CHR '' ''" "\<not> is_token_byte CHR 0x09"
  by (simp_all add: is_token_byte_def)

lemma token_not_in: "list_all is_token_byte n \<Longrightarrow> \<not> is_token_byte c \<Longrightarrow> c \<notin> set n"
  by (auto simp: list_all_iff)

lemma trim_ows_token: "list_all is_token_byte n \<Longrightarrow> trim_ows n = n"
proof -
  have dw: "dropWhile is_ows xs = xs" if "list_all is_token_byte xs" for xs
  proof (cases xs)
    case (Cons y ys)
    with that have "\<not> is_ows y" by (auto simp: is_ows_def)
    then show ?thesis by (simp add: Cons)
  qed simp
  assume "list_all is_token_byte n"
  then show ?thesis by (simp add: trim_ows_def dw)
qed

lemma trim_ows_space: "trim_ows (CHR '' '' # v) = trim_ows v"
  by (simp add: trim_ows_def is_ows_def)

lemma parse_header_line_of: "header_ok p \<Longrightarrow> parse_header_line (header_line_of p) = Inr p"
proof -
  assume ok: "header_ok p"
  then have "split_once CHR '':'' (header_line_of p) = Some (fst p, CHR '' '' # snd p)"
    using split_once_append [of "CHR '':''" "fst p" "CHR '' '' # snd p"] token_not_in [of "fst p" "CHR '':''"]
    by (simp add: header_line_of_def header_ok_def)
  with ok show ?thesis
    by (simp add: parse_header_line_def response_header_name_def header_ok_def trim_ows_token trim_ows_space)
qed

lemma header_line_bytes: "header_ok p \<Longrightarrow> LF \<notin> set (header_line_of p) \<and> header_line_of p \<noteq> []"
  using token_not_in [of "fst p" LF] by (auto simp: header_line_of_def header_ok_def)

lemma read_headers_render:
  assumes "list_all header_ok ps" "list_all (\<lambda>p. length (header_line_of p) < cl_max_header_line lim) ps"
    and "t + sum_list (map (\<lambda>p. length (header_line_of p)) ps) \<le> cl_max_headers_bytes lim"
    and "cl_max_headers_bytes lim \<le> usize_max" "length hs + length ps \<le> cl_max_header_count lim"
    and "0 < cl_max_header_line lim"
  shows "read_headers e lim hs t (concat (map (\<lambda>p. header_line_of p @ crlf) ps) @ crlf @ rest) = (Inr (hs @ ps), rest)"
  using assms
proof (induction ps arbitrary: hs t)
  case Nil
  then show ?case using read_line_crlf [of "[]" "cl_max_header_line lim" e rest]
    by (subst read_headers.simps) simp
next
  case (Cons p ps)
  let ?s = "concat (map (\<lambda>p. header_line_of p @ crlf) ps) @ crlf @ rest"
  have "read_bounded_line e (cl_max_header_line lim) [] (header_line_of p @ crlf @ ?s) = (Inr (header_line_of p), ?s)"
    using Cons(2,3) header_line_bytes by (intro read_line_crlf) auto
  moreover have "checked_add t (length (header_line_of p)) = Some (t + length (header_line_of p))"
    using Cons(4,5) by (simp add: checked_add_def)
  moreover have "parse_header_line (header_line_of p) = Inr p" "header_line_of p \<noteq> []"
    using Cons(2) parse_header_line_of header_line_bytes by auto
  ultimately have "read_headers e lim hs t (header_line_of p @ crlf @ ?s) =
      read_headers e lim (hs @ [p]) (t + length (header_line_of p)) ?s"
    using Cons(4,6) by (subst read_headers.simps) simp
  also have "\<dots> = (Inr ((hs @ [p]) @ ps), rest)" using Cons by (intro Cons.IH) (simp_all add: add.assoc)
  finally show ?case by simp
qed

lemma is_digit_space [simp]: "\<not> is_digit CHR '' ''" "\<not> is_digit LF" "\<not> is_digit CHR '':''" "\<not> is_digit CR"
  by (simp_all add: is_digit_def)

lemma parse_status_line_of:
  assumes "ch_status h \<le> 65535" "ch_reason_phrase h \<noteq> Some []"
  shows "parse_status_line (status_line_of h) = Inr (ch_status h, ch_reason_phrase h)"
proof -
  let ?rest = "show_nat (ch_status h) @ (case ch_reason_phrase h of None \<Rightarrow> [] | Some p \<Rightarrow> '' '' @ p)"
  have "split_once CHR '' '' (status_line_of h) = Some (''HTTP/1.1'', ?rest)"
    using split_once_append [of "CHR '' ''" "''HTTP/1.1''" ?rest] by (simp add: status_line_of_def)
  moreover have "split_once CHR '' '' ?rest =
      (case ch_reason_phrase h of None \<Rightarrow> None | Some p \<Rightarrow> Some (show_nat (ch_status h), p))"
    using split_once_append [of "CHR '' ''" "show_nat (ch_status h)"] show_nat_no_char
    by (auto split: option.splits)
  moreover have "parse_u16 (show_nat (ch_status h)) = Some (ch_status h)"
    using assms(1) by (simp add: parse_u16_def parse_show_nat)
  moreover have "status_line_of h \<noteq> []" by (simp add: status_line_of_def)
  ultimately show ?thesis
    using assms(2) by (cases "ch_reason_phrase h") (simp_all add: parse_status_line_def del: split_once_None)
qed

lemma read_rendered_head:
  assumes "head_fits lim h" "0 < cl_max_header_line lim"
  shows "read_connect_response_head e lim (render_head h @ rest) = (Inr h, rest)"
proof -
  let ?s = "concat (map (\<lambda>p. header_line_of p @ crlf) (ch_headers h)) @ crlf @ rest"
  have "LF \<notin> set (status_line_of h)"
    using assms show_nat_no_char [of LF] by (auto simp: head_fits_def status_line_of_def split: option.splits)
  then have "read_bounded_line e (cl_max_status_line lim) [] (status_line_of h @ crlf @ ?s) = (Inr (status_line_of h), ?s)"
    using assms by (intro read_line_crlf) (simp_all add: head_fits_def)
  moreover have "read_headers e lim [] 0 ?s = (Inr ([] @ ch_headers h), rest)"
    using assms by (intro read_headers_render) (simp_all add: head_fits_def)
  ultimately show ?thesis
    using parse_status_line_of [of h] assms
    by (simp add: read_connect_response_head_def render_head_def head_fits_def)
qed

text \<open>
  C26: a response head within the limits is read back exactly, headers in order and
  duplicates kept, and the bytes that follow it are left in the stream untouched.
\<close>

theorem connect_response_roundtrip:
  assumes "head_fits lim h" "0 < cl_max_header_line lim"
  shows "read_connect_response_head e lim (render_head h @ rest) = (Inr h, rest)"
  by (rule read_rendered_head [OF assms])

definition example_head :: connect_head where
  "example_head = \<lparr>ch_status = 200, ch_headers = [(''via'', ''p'')], ch_reason_phrase = Some ''OK''\<rparr>"

lemma example_head_fits: "head_fits connect_limits_default example_head"
proof -
  have "show_nat 200 = ''200''" by code_simp
  then show ?thesis by (simp add: head_fits_def example_head_def connect_limits_default_def status_line_of_def header_line_of_def
      header_ok_def is_token_byte_def trim_ows_def is_ows_def usize_max_def)
qed

theorem connect_response_roundtrip_witness:
  "read_connect_response_head AtEof connect_limits_default (render_head example_head @ ''tunnel'') = (Inr example_head, ''tunnel'')"
  by (rule connect_response_roundtrip [OF example_head_fits]) (simp add: connect_limits_default_def)

text \<open>
  The length of a line is bounded together with its carriage return: a line of
  exactly the allowed length that ends in CRLF is refused.
\<close>

lemma crlf_line_at_limit_refused:
  assumes "LF \<notin> set line" "length line = m"
  shows "read_bounded_line e m [] (line @ crlf @ s) = (Inl (HeaderLineTooLarge m), LF # s)"
proof -
  have "read_bounded_line e m buf (xs @ CR # LF # s) = (Inl (HeaderLineTooLarge m), LF # s)"
    if "LF \<notin> set xs" "length buf + length xs = m" for buf xs
    using that by (induction xs arbitrary: buf) auto
  from this [of line "[]"] assms show ?thesis by (simp add: crlf_def)
qed

subsection \<open>The request head on the wire\<close>

definition clean_text :: "string \<Rightarrow> bool" where
  "clean_text s \<longleftrightarrow> CR \<notin> set s \<and> LF \<notin> set s"

lemma clean_text_append [simp]: "clean_text (a @ b) \<longleftrightarrow> clean_text a \<and> clean_text b"
  by (auto simp: clean_text_def)

lemma clean_text_Cons [simp]: "clean_text (c # b) \<longleftrightarrow> c \<noteq> CR \<and> c \<noteq> LF \<and> clean_text b"
  by (auto simp: clean_text_def)

lemma clean_text_Nil [simp]: "clean_text []"
  by (simp add: clean_text_def)

lemma clean_show_nat [simp]: "clean_text (show_nat n)"
  using show_nat_no_char by (simp add: clean_text_def)

lemma has_control_member: "byte c < 32 \<Longrightarrow> c \<in> set s \<Longrightarrow> has_control s"
  by (induction s) auto

lemma validate_host_inner_clean: "validate_host_inner h = Inr () \<Longrightarrow> clean_text h"
  using has_control_member [of CR h] has_control_member [of LF h]
  by (auto simp: validate_host_inner_def clean_text_def split: if_splits)

lemma strip_brackets_Some: "strip_brackets h = Some i \<longleftrightarrow> h = ''['' @ i @ '']''"
proof
  assume a: "strip_brackets h = Some i"
  then have h: "h \<noteq> []" "hd h = CHR ''[''" "last h = CHR '']''" "length h \<ge> 2" "i = take (length h - 2) (tl h)"
    by (auto simp: strip_brackets_def starts_with_def split: if_splits) (cases h; simp)+
  then obtain t where t: "h = CHR ''['' # t" "t \<noteq> []" by (cases h) force+
  have "i = butlast t" "last t = CHR '']''" using h t by (simp_all add: butlast_conv_take)
  with append_butlast_last_id [OF t(2)] show "h = ''['' @ i @ '']''" by (simp add: t(1))
next
  assume "h = ''['' @ i @ '']''"
  then show "strip_brackets h = Some i" by (simp add: strip_brackets_def starts_with_def)
qed

lemma target_new_clean:
  assumes "connect_target_new h p = Inr t" shows "clean_text (authority t)"
proof -
  from assms have v: "validate_host h = Inr ()" "t = \<lparr>ct_host = h, ct_port = p\<rparr>"
    by (auto simp: connect_target_new_def split: if_splits sum.splits)
  have "clean_text h"
  proof (cases "strip_brackets h")
    case None
    with v(1) have "validate_host_inner h = Inr ()" by (auto simp: validate_host_def split: if_splits)
    then show ?thesis by (rule validate_host_inner_clean)
  next
    case (Some i)
    then have "CHR ''['' \<in> set h" by (auto simp: strip_brackets_Some)
    with v(1) Some have "validate_host_inner i = Inr ()" by (auto simp: validate_host_def split: if_splits)
    with Some show ?thesis using validate_host_inner_clean by (auto simp: strip_brackets_Some)
  qed
  then show ?thesis
    by (auto simp: v(2) authority_def authority_form_def strip_brackets_Some split: option.splits)
qed

lemma header_value_clean: "connect_header_value v = Inr () \<Longrightarrow> clean_text v"
  by (auto simp: connect_header_value_def clean_text_def list_ex_iff split: if_splits)

lemma header_name_clean: "connect_header_name n = Inr () \<Longrightarrow> clean_text n \<and> n \<noteq> []"
  using token_not_in [of n CR] token_not_in [of n LF]
  by (auto simp: connect_header_name_def clean_text_def is_token_byte_def split: if_splits)

definition is_auth_header :: "string \<times> string \<Rightarrow> bool" where
  "is_auth_header p \<longleftrightarrow> eq_ignore_ascii_case (fst p) ''proxy-authorization''"

lemma check_extra_headers_Ok:
  "check_extra_headers hs n = Inr m \<Longrightarrow> m = n + length (filter is_auth_header hs)
     \<and> (\<forall>p\<in>set hs. clean_text (header_line_of p) \<and> fst p \<noteq> [] \<and> \<not> eq_ignore_ascii_case (fst p) ''host'')"
proof (induction hs n rule: check_extra_headers.induct)
  case (2 name v hs n)
  from 2(2) have ok: "connect_header_name name = Inr ()" "connect_header_value v = Inr ()"
    by (auto split: sum.splits)
  with 2(2) have "check_extra_headers hs (if eq_ignore_ascii_case name ''proxy-authorization'' then n + 1 else n) = Inr m"
    "\<not> eq_ignore_ascii_case name ''host''" by (auto simp: Let_def split: if_splits)
  with 2(1) [OF ok] header_name_clean [OF ok(1)] header_value_clean [OF ok(2)] show ?case
    by (auto simp: is_auth_header_def header_line_of_def split: if_splits)
qed simp

lemma bound_chunks_Ok: "bound_chunks m cs len = Inr l \<Longrightarrow> l = len + sum_list cs \<and> (cs \<noteq> [] \<longrightarrow> l \<le> m)"
  by (induction m cs len rule: bound_chunks.induct)
     (auto simp: checked_add_def split: option.splits if_splits)

text \<open>
  C27: the CONNECT head that is sent for a validated target is the request line, the
  \<open>Host\<close> line with the same authority, at most one authorization and the caller's
  headers, each on one line of its own: no header text can start a further line.  It
  respects the size bound, and no caller header replaces \<open>Host\<close>.
\<close>

theorem connect_request_lines:
  assumes "connect_target_new host port = Inr (cr_target r)" "encode_connect_request r = Inr out"
  defines "a \<equiv> authority (cr_target r)"
  shows "\<exists>lines. out = concat (map (\<lambda>l. l @ crlf) (lines @ [[]]))
    \<and> lines = [''CONNECT '' @ a @ '' HTTP/1.1'', ''Host: '' @ a]
        @ (case cr_proxy_authorization r of None \<Rightarrow> [] | Some v \<Rightarrow> [''Proxy-Authorization: '' @ v])
        @ map (\<lambda>p. fst p @ '': '' @ snd p) (cr_extra_headers r)
    \<and> (\<forall>l\<in>set lines. l \<noteq> [] \<and> CR \<notin> set l \<and> LF \<notin> set l)
    \<and> length out \<le> cr_max_head_bytes r
    \<and> (if cr_proxy_authorization r = None then 0 else 1) + length (filter is_auth_header (cr_extra_headers r)) \<le> (1::nat)
    \<and> (\<forall>p\<in>set (cr_extra_headers r). \<not> eq_ignore_ascii_case (fst p) ''host'')"
proof -
  from assms(2) obtain n l where
    auth: "\<forall>v. cr_proxy_authorization r = Some v \<longrightarrow> connect_header_value v = Inr ()"
    and n: "check_extra_headers (cr_extra_headers r) 0 = Inr n" "\<not> (cr_proxy_authorization r \<noteq> None \<and> n > 0)" "\<not> n > 1"
    and l: "bound_chunks (cr_max_head_bytes r) (head_chunks r) 0 = Inr l"
    and out: "out = request_line_of a @ crlf @ ''Host: '' @ a @ crlf
        @ (case cr_proxy_authorization r of None \<Rightarrow> [] | Some v \<Rightarrow> ''Proxy-Authorization: '' @ v @ crlf)
        @ concat (map (\<lambda>p. header_line_of p @ crlf) (cr_extra_headers r)) @ crlf"
    unfolding encode_connect_request_def a_def
    by (auto simp: Let_def split: sum.splits option.splits if_splits)
  note hs = check_extra_headers_Ok [OF n(1)]
  let ?auth = "case cr_proxy_authorization r of None \<Rightarrow> [] | Some v \<Rightarrow> [''Proxy-Authorization: '' @ v]"
  let ?lines = "[''CONNECT '' @ a @ '' HTTP/1.1'', ''Host: '' @ a] @ ?auth @ map (\<lambda>p. fst p @ '': '' @ snd p) (cr_extra_headers r)"
  have clean_a: "clean_text a" unfolding a_def by (rule target_new_clean [OF assms(1)])
  have "clean_text x \<and> x \<noteq> []" if "x \<in> set ?lines" for x
    using that clean_a hs auth header_value_clean
    by (auto simp: header_line_of_def split: option.splits)
  moreover have out2: "out = concat (map (\<lambda>l. l @ crlf) (?lines @ [[]]))"
    by (simp add: out request_line_of_def header_line_of_def comp_def split: option.splits)
  moreover have "length out = sum_list (head_chunks r)"
    by (simp add: out head_chunks_def Let_def a_def request_line_of_def header_line_of_def crlf_def length_concat
        comp_def add.assoc split: option.splits)
  moreover have "sum_list (head_chunks r) \<le> cr_max_head_bytes r"
    using bound_chunks_Ok [OF l] by (simp add: head_chunks_def Let_def)
  moreover have "(if cr_proxy_authorization r = None then 0 else 1) + length (filter is_auth_header (cr_extra_headers r)) \<le> (1::nat)"
    using hs n(2,3) by auto
  ultimately show ?thesis using hs by (intro exI [of _ ?lines]) (auto simp: clean_text_def)
qed

definition example_connect :: connect_request where
  "example_connect = \<lparr>cr_target = \<lparr>ct_host = ''a.b'', ct_port = 7\<rparr>, cr_proxy_authorization = Some ''Basic eA'',
     cr_extra_headers = [(''x'', ''y'')], cr_max_head_bytes = 100\<rparr>"

lemma show_nat_7: "show_nat 7 = ''7''"
  by code_simp

lemma example_connect_encodes:
  "connect_target_new ''a.b'' 7 = Inr (cr_target example_connect)"
  "\<exists>out. encode_connect_request example_connect = Inr out"
  by (simp_all add: example_connect_def connect_target_new_def validate_host_def validate_host_inner_def
      host_byte_ok_def encode_connect_request_def authority_def authority_form_def strip_brackets_def starts_with_def
      connect_header_value_def connect_header_name_def is_token_byte_def eq_ignore_ascii_case_def to_ascii_lowercase_def
      ascii_lower_def head_chunks_def request_line_of_def checked_add_def usize_max_def Let_def show_nat_7)

theorem connect_request_lines_witness:
  "\<exists>out. encode_connect_request example_connect = Inr out \<and> length out \<le> 100"
  using connect_request_lines [OF example_connect_encodes(1)] example_connect_encodes(2)
  by (fastforce simp: example_connect_def)

subsection \<open>Authorities\<close>

lemma rsplit_port:
  "rsplit_once CHR '':'' (x @ '':'' @ show_nat p) = Some (x, show_nat p)"
  using rfind_char_append [of "CHR '':''" "show_nat p" x] show_nat_no_char [of "CHR '':''" p]
  by (simp add: rsplit_once_def)

text \<open>
  The authority of a validated target splits at its last colon into the host and
  a port that parses back to the target's; an IPv6 address gives the same authority
  with and without brackets, and is always bracketed.
\<close>

lemma connect_authority_normal:
  assumes "connect_target_new h p = Inr t" "p \<le> 65535"
  shows "\<exists>hp. rsplit_once CHR '':'' (authority t) = Some (hp, show_nat p) \<and> parse_u16 (show_nat p) = Some p
    \<and> (CHR '':'' \<in> set hp \<longrightarrow> starts_with hp ''['' \<and> ends_with hp '']'')
    \<and> (CHR '':'' \<in> set h \<and> CHR ''['' \<notin> set h \<longrightarrow>
         connect_target_new (''['' @ h @ '']'') p = Inr \<lparr>ct_host = ''['' @ h @ '']'', ct_port = p\<rparr>
         \<and> authority \<lparr>ct_host = ''['' @ h @ '']'', ct_port = p\<rparr> = authority t)"
proof -
  from assms(1) have p: "p \<noteq> 0" and v: "validate_host h = Inr ()" and t: "t = \<lparr>ct_host = h, ct_port = p\<rparr>"
    by (auto simp: connect_target_new_def split: if_splits sum.splits)
  let ?hp = "case strip_brackets h of Some i \<Rightarrow> ''['' @ i @ '']''
    | None \<Rightarrow> if CHR '':'' \<in> set h then ''['' @ h @ '']'' else h"
  have a: "authority t = ?hp @ '':'' @ show_nat p"
    by (simp add: t authority_def authority_form_def split: option.splits)
  have br: "connect_target_new (''['' @ h @ '']'') p = Inr \<lparr>ct_host = ''['' @ h @ '']'', ct_port = p\<rparr>
      \<and> authority \<lparr>ct_host = ''['' @ h @ '']'', ct_port = p\<rparr> = authority t"
    if c: "CHR '':'' \<in> set h" "CHR ''['' \<notin> set h"
  proof -
    from c(2) have sb: "strip_brackets h = None" by (cases "strip_brackets h") (auto simp: strip_brackets_Some)
    have sb': "strip_brackets (''['' @ h @ '']'') = Some h" by (simp only: strip_brackets_Some)
    from v c sb have "validate_host_inner h = Inr ()" "CHR '']'' \<notin> set h" "h \<noteq> []"
      by (auto simp: validate_host_def split: if_splits)
    with sb' c p have "connect_target_new (''['' @ h @ '']'') p = Inr \<lparr>ct_host = ''['' @ h @ '']'', ct_port = p\<rparr>"
      by (simp add: connect_target_new_def validate_host_def)
    moreover have "authority \<lparr>ct_host = ''['' @ h @ '']'', ct_port = p\<rparr> = authority t"
      using sb sb' c by (simp add: t authority_def authority_form_def)
    ultimately show ?thesis ..
  qed
  have "parse_u16 (show_nat p) = Some p" using assms(2) by (simp add: parse_u16_def parse_show_nat)
  moreover have "CHR '':'' \<in> set ?hp \<longrightarrow> starts_with ?hp ''['' \<and> ends_with ?hp '']''"
    by (auto split: option.splits)
  ultimately show ?thesis using br rsplit_port [of ?hp p] unfolding a by blast
qed

end
