(* ===== verification/Bounded_Table.thy ===== *)
theory Bounded_Table
  imports Prelude
begin

text \<open>
  The contract of a table with a fixed number of slots that makes room before an
  insertion by dropping some other entry.  The two tables of the Alt-Svc state
  follow it; the client's lemmas are proved once here.
\<close>

lemma length_alist_update:
  "length (AList.update k v t) = (if k \<in> fst ` set t then length t else Suc (length t))"
  by (induction t) auto

locale bounded_table =
  fixes limit :: nat
    and make_room :: "('k, 'v) hash_map \<Rightarrow> 'k \<Rightarrow> ('k, 'v) hash_map"
  assumes limit_pos: "0 < limit"
    and room_sublist: "\<exists>P. make_room t k = filter P t"
    and room_keeps: "map_of (make_room t k) k = map_of t k"
    and room_size: "distinct_keys t \<Longrightarrow> length t \<le> limit \<Longrightarrow> k \<notin> fst ` set t \<Longrightarrow> length (make_room t k) < limit"
begin

definition table_ok :: "('k, 'v) hash_map \<Rightarrow> bool" where
  "table_ok t \<longleftrightarrow> distinct_keys t \<and> length t \<le> limit"

lemma table_ok_Nil: "table_ok []"
  by (simp add: table_ok_def)

lemma table_ok_update_present:
  assumes "table_ok t" "map_of t k \<noteq> None" shows "table_ok (AList.update k v t)"
  using assms by (simp add: table_ok_def distinct_update length_alist_update map_of_eq_None_iff)

lemma table_ok_delete: "table_ok t \<Longrightarrow> table_ok (AList.delete k t)"
  using length_delete_le [of k t] by (auto simp: table_ok_def distinct_delete)

lemma table_ok_room: "table_ok t \<Longrightarrow> table_ok (make_room t k)"
  using room_sublist [of t k] by (auto simp: table_ok_def distinct_keys_filter intro: order.trans [OF length_filter_le])

lemma table_ok_insert:
  assumes "table_ok t" shows "table_ok (AList.update k v (make_room t k))"
proof (cases "k \<in> fst ` set (make_room t k)")
  case True
  then show ?thesis
    by (intro table_ok_update_present table_ok_room assms) (simp add: map_of_eq_None_iff)
next
  case False
  then have "k \<notin> fst ` set t" using room_keeps [of t k] by (metis map_of_eq_None_iff)
  with assms have "length (make_room t k) < limit" by (intro room_size) (simp_all add: table_ok_def)
  with table_ok_room [OF assms, of k] False show ?thesis
    by (simp add: table_ok_def distinct_update length_alist_update)
qed

lemma insert_lookup: "map_of (AList.update k v (make_room t k)) k = Some v"
  by (simp add: update_conv)

lemma room_lookup: "distinct_keys t \<Longrightarrow> map_of (make_room t k) k' \<in> {map_of t k', None}"
proof -
  assume d: "distinct_keys t"
  obtain P where P: "make_room t k = filter P t" using room_sublist by blast
  show ?thesis
  proof (cases "map_of (filter P t) k'")
    case (Some v)
    then have "(k', v) \<in> set t" by (auto dest: map_of_SomeD)
    with d have "map_of t k' = Some v" by simp
    with Some show ?thesis by (simp add: P)
  qed (simp add: P)
qed

lemma insert_lookup_other:
  "table_ok t \<Longrightarrow> k' \<noteq> k \<Longrightarrow> map_of (AList.update k v (make_room t k)) k' \<in> {map_of t k', None}"
  using room_lookup [of t k k'] by (simp add: update_conv table_ok_def)

end

end
