(* ===== verification/Alt_Svc.thy ===== *)
theory Alt_Svc
  imports Bounded_Table Url_Origin Errors
begin

text \<open>
  Alt-Svc discovery (\<open>transport/alt_svc.rs\<close>): the parser of the header, the
  bounded cache of alternatives per origin and the suppression of broken routes.
  Instants are nanoseconds; a table is an association list whose order is the
  arbitrary iteration order of the hash map.
\<close>

definition altsvc_cache_max_entries :: nat where "altsvc_cache_max_entries = 64"
definition altsvc_max_header_bytes :: nat where "altsvc_max_header_bytes = 8192"
definition altsvc_max_alternatives :: nat where "altsvc_max_alternatives = 16"
definition altsvc_default_ma_secs :: nat where "altsvc_default_ma_secs = 86400"
definition suppression_base :: duration where "suppression_base = from_secs_d 5"
definition suppression_max :: duration where "suppression_max = from_secs_d 300"
definition suppression_max_entries :: nat where "suppression_max_entries = 64"

subsection \<open>Origins and entries\<close>

record alt_origin =
  ao_scheme :: string
  ao_host :: string
  ao_port :: nat

definition alt_origin_new :: "string \<Rightarrow> string \<Rightarrow> nat \<Rightarrow> alt_origin option" where
  "alt_origin_new scheme host port =
     (if host = [] \<or> port = 0 then None
      else
        let h = to_ascii_lowercase (trim_end_matches CHR ''.'' (trim host))
        in if h = [] \<or> length h > 253 then None
           else if list_ex (\<lambda>c. c \<in> {CHR ''@'', CHR ''/'', CHR ''?'', CHR ''#'', CHR '' '', CHR 0x09, CHR 0x0D, CHR 0x0A}) h
           then None
           else Some \<lparr>ao_scheme = to_ascii_lowercase scheme, ao_host = h, ao_port = port\<rparr>)"

definition alt_origin_from_url :: "url \<Rightarrow> alt_origin option" where
  "alt_origin_from_url u =
     (case url_host_str u of
        None \<Rightarrow> None
      | Some host \<Rightarrow>
          alt_origin_new (url_scheme u) host (case url_port_or_known_default u of Some p \<Rightarrow> p | None \<Rightarrow> 443))"

record alt_entry =
  ae_host :: string
  ae_port :: nat
  ae_expires_at :: instant
  ae_generation :: "64 word"

definition alt_is_expired :: "alt_entry \<Rightarrow> instant \<Rightarrow> bool" where
  "alt_is_expired e now \<longleftrightarrow> now \<ge> ae_expires_at e"

record learn_context =
  lc_is_https :: bool
  lc_tls_authenticated :: bool
  lc_via_proxy :: bool
  lc_origin_matches_hop :: bool

definition trustworthy :: "learn_context \<Rightarrow> bool" where
  "trustworthy c \<longleftrightarrow> lc_is_https c \<and> lc_tls_authenticated c \<and> \<not> lc_via_proxy c \<and> lc_origin_matches_hop c"

datatype learn_outcome = Absent | Learned | Cleared | Rejected

subsection \<open>The header\<close>

record parsed_alternative =
  pa_protocol :: string
  pa_authority :: string
  pa_ma :: "nat option"

text \<open>The list splitter: the part so far, whether inside quotes, whether the last byte was an escape.\<close>

fun split_parts :: "string \<Rightarrow> bool \<Rightarrow> bool \<Rightarrow> string \<Rightarrow> string list" where
  "split_parts cur in_quotes escaped [] = [cur]"
| "split_parts cur in_quotes escaped (b # bs) =
     (if escaped then split_parts (cur @ [b]) in_quotes False bs
      else if b = CHR 0x5C \<and> in_quotes then split_parts (cur @ [b]) in_quotes True bs
      else if b = CHR 0x22 then split_parts (cur @ [b]) (\<not> in_quotes) False bs
      else if b = CHR '','' \<and> \<not> in_quotes then cur # split_parts [] in_quotes False bs
      else split_parts (cur @ [b]) in_quotes False bs)"

definition split_header_list :: "string \<Rightarrow> string list" where
  "split_header_list v = split_parts [] False False v"

text \<open>\<open>String::push\<close> of a byte as a character: two bytes from \<open>0x80\<close> on.\<close>

definition push_byte :: "string \<Rightarrow> char \<Rightarrow> string" where
  "push_byte out c =
     out @ (if byte c < 128 then [c] else [char_of (192 + byte c div 64), char_of (128 + byte c mod 64)])"

fun quoted_body :: "string \<Rightarrow> string \<Rightarrow> (string \<times> string) option" where
  "quoted_body out [] = None"
| "quoted_body out (b # s) =
     (if b = CHR 0x5C then
        (case s of
           [] \<Rightarrow> None
         | c # s' \<Rightarrow>
             if c \<noteq> CHR 0x22 \<and> c \<noteq> CHR 0x5C then None
             else if length out \<ge> 512 then None
             else quoted_body (push_byte out c) s')
      else if b = CHR 0x22 then Some (out, s)
      else if byte b < 32 \<or> byte b = 127 then None
      else if length out \<ge> 512 then None
      else quoted_body (push_byte out b) s)"

definition parse_quoted_string :: "string \<Rightarrow> (string \<times> string) option" where
  "parse_quoted_string s =
     (case s of [] \<Rightarrow> None | b # s' \<Rightarrow> if b = CHR 0x22 then quoted_body [] s' else None)"

definition token_separators :: "char list" where
  "token_separators = [CHR ''('', CHR '')'', CHR ''<'', CHR ''>'', CHR ''@'', CHR '','', CHR '';'', CHR '':'', CHR 0x5C, CHR 0x22,
     CHR ''/'', CHR ''['', CHR '']'', CHR ''?'', CHR ''='', CHR ''{'', CHR ''}'', CHR '' '', CHR 0x09]"

definition is_token :: "string \<Rightarrow> bool" where
  "is_token s \<longleftrightarrow> s \<noteq> [] \<and> list_all (\<lambda>b. byte b > 32 \<and> byte b < 127 \<and> b \<notin> set token_separators) s"

definition parse_authority :: "string \<Rightarrow> (string \<times> nat) option" where
  "parse_authority authority =
     (if authority = [] \<or> length authority > 512 then None
      else if CHR ''@'' \<in> set authority then None
      else case strip_prefix authority ''['' of
             Some rest \<Rightarrow>
               (case split_once CHR '']'' rest of
                  None \<Rightarrow> None
                | Some (host, after) \<Rightarrow>
                   (case strip_prefix after '':'' of
                      None \<Rightarrow> None
                    | Some port_str \<Rightarrow>
                        if host = [] \<or> port_str = [] then None
                        else (case parse_u16 port_str of
                                None \<Rightarrow> None
                              | Some port \<Rightarrow> if port = 0 then None else Some (to_ascii_lowercase host, port))))
           | None \<Rightarrow>
               (case rsplit_once CHR '':'' authority of
                  None \<Rightarrow> None
                | Some (host, port_str) \<Rightarrow>
                    if port_str = [] then None
                    else (case parse_u16 port_str of
                            None \<Rightarrow> None
                          | Some port \<Rightarrow>
                              if port = 0 then None
                              else if host = [] then Some ([], port)
                              else if list_ex (\<lambda>c. c \<in> {CHR '' '', CHR 0x09, CHR 0x0D, CHR 0x0A, CHR ''/'', CHR ''?'', CHR ''#''}) host
                              then None
                              else Some (to_ascii_lowercase host, port))))"

definition trim_quotes :: "string \<Rightarrow> string" where
  "trim_quotes s = trim_end_matches CHR 0x22 (trim_start_matches CHR 0x22 s)"

text \<open>
  The parameter loop: \<open>None\<close> when a \<open>ma\<close> parameter is invalid, otherwise the
  last value of \<open>ma\<close> (a present one always has a value then).
\<close>

fun parse_params :: "nat option \<Rightarrow> string list \<Rightarrow> nat option option" where
  "parse_params ma [] = Some ma"
| "parse_params ma (p # ps) =
     (let param = trim p
      in if param = [] then parse_params ma ps
         else
           let (name, pvalue) = (case split_once CHR ''='' param of
                                   Some (n, v) \<Rightarrow> (trim n, Some (trim v))
                                 | None \<Rightarrow> (param, None))
           in if eq_ignore_ascii_case name ''ma''
              then (case pvalue of
                      None \<Rightarrow> None
                    | Some v \<Rightarrow>
                       (case parse_u64 (trim_quotes (trim v)) of
                          None \<Rightarrow> None
                        | Some n \<Rightarrow> parse_params (Some n) ps))
              else parse_params ma ps)"

definition parse_alternative :: "string \<Rightarrow> parsed_alternative option" where
  "parse_alternative p =
     (let part = trim p
      in if part = [] then None
         else if eq_ignore_ascii_case part ''clear'' then None
         else case split_once CHR ''='' part of
                None \<Rightarrow> None
              | Some (proto0, rest) \<Rightarrow>
                  let proto = trim proto0
                  in if proto = [] \<or> \<not> is_token proto then None
                     else (case parse_quoted_string (trim_start rest) of
                             None \<Rightarrow> None
                           | Some (authority, params) \<Rightarrow>
                              (case parse_params None (tl (split_char CHR '';'' params)) of
                                 None \<Rightarrow> None
                               | Some ma \<Rightarrow>
                                   Some \<lparr>pa_protocol = proto, pa_authority = authority, pa_ma = ma\<rparr>)))"

fun collect_alternatives :: "parsed_alternative list \<Rightarrow> string list \<Rightarrow> parsed_alternative list" where
  "collect_alternatives out [] = out"
| "collect_alternatives out (p # ps) =
     (if length out \<ge> altsvc_max_alternatives then out
      else case parse_alternative p of
             None \<Rightarrow> collect_alternatives out ps
           | Some a \<Rightarrow> collect_alternatives (out @ [a]) ps)"

definition parse_alternatives :: "string \<Rightarrow> parsed_alternative list" where
  "parse_alternatives v = collect_alternatives [] (split_header_list v)"

definition is_clear_value :: "string \<Rightarrow> bool" where
  "is_clear_value v = eq_ignore_ascii_case (trim (trim_quotes (trim v))) ''clear''"

subsection \<open>The cache\<close>

record alt_cache =
  ac_entries :: "(alt_origin, alt_entry) hash_map"
  ac_sequence :: "64 word"

definition alt_cache_new :: alt_cache where
  "alt_cache_new = \<lparr>ac_entries = [], ac_sequence = 1\<rparr>"

definition alt_cache_len :: "alt_cache \<Rightarrow> nat" where
  "alt_cache_len c = length (ac_entries c)"

definition get_fresh_counted :: "alt_cache \<Rightarrow> alt_origin \<Rightarrow> instant \<Rightarrow> (alt_entry option \<times> bool) \<times> alt_cache" where
  "get_fresh_counted c origin now =
     (case map_of (ac_entries c) origin of
        None \<Rightarrow> ((None, False), c)
      | Some e \<Rightarrow>
          if alt_is_expired e now then ((None, True), c\<lparr>ac_entries := AList.delete origin (ac_entries c)\<rparr>)
          else ((Some e, False), c))"

definition get_fresh :: "alt_cache \<Rightarrow> alt_origin \<Rightarrow> instant \<Rightarrow> alt_entry option \<times> alt_cache" where
  "get_fresh c origin now =
     (case map_of (ac_entries c) origin of
        None \<Rightarrow> (None, c)
      | Some e \<Rightarrow>
          if alt_is_expired e now then (None, c\<lparr>ac_entries := AList.delete origin (ac_entries c)\<rparr>)
          else (Some e, c))"

definition alt_clear :: "alt_cache \<Rightarrow> alt_origin \<Rightarrow> bool \<times> alt_cache" where
  "alt_clear c origin =
     (map_of (ac_entries c) origin \<noteq> None, c\<lparr>ac_entries := AList.delete origin (ac_entries c)\<rparr>)"

definition alt_ensure_bound :: "(alt_origin, alt_entry) hash_map \<Rightarrow> alt_origin \<Rightarrow> (alt_origin, alt_entry) hash_map" where
  "alt_ensure_bound table except =
     (if length table < altsvc_cache_max_entries then table
      else case List.find (\<lambda>k. k \<noteq> except) (map fst table) of
             Some victim \<Rightarrow> AList.delete victim table
           | None \<Rightarrow> table)"

text \<open>The usable alternative: the first one for \<open>h3\<close> with a good authority and a life time.\<close>

definition usable_alternative :: "alt_origin \<Rightarrow> instant \<Rightarrow> parsed_alternative \<Rightarrow> (string \<times> nat \<times> instant) option" where
  "usable_alternative origin now alt =
     (if \<not> eq_ignore_ascii_case (pa_protocol alt) ''h3'' then None
      else case parse_authority (pa_authority alt) of
             None \<Rightarrow> None
           | Some (host, port) \<Rightarrow>
               let ma_secs = (case pa_ma alt of Some n \<Rightarrow> n | None \<Rightarrow> altsvc_default_ma_secs)
               in if ma_secs = 0 then None
                  else (case checked_add_time now (from_secs_d ma_secs) of
                          None \<Rightarrow> None
                        | Some expires_at \<Rightarrow> Some (if host = [] then ao_host origin else host, port, expires_at)))"

fun best_alternative :: "alt_origin \<Rightarrow> instant \<Rightarrow> parsed_alternative list \<Rightarrow> (string \<times> nat \<times> instant) option" where
  "best_alternative origin now [] = None"
| "best_alternative origin now (a # as) =
     (case usable_alternative origin now a of
        Some b \<Rightarrow> Some b
      | None \<Rightarrow> best_alternative origin now as)"

definition join_values :: "string list \<Rightarrow> string" where
  "join_values vs = (case vs of [] \<Rightarrow> [] | v # rest \<Rightarrow> v @ concat (map (\<lambda>x. '', '' @ x) rest))"

definition learn_counted ::
  "alt_cache \<Rightarrow> alt_origin \<Rightarrow> string list \<Rightarrow> instant \<Rightarrow> (learn_outcome \<times> bool) \<times> alt_cache" where
  "learn_counted c origin values now =
     (if values = [] then ((Absent, False), c)
      else
        let combined = join_values values
        in if length combined > altsvc_max_header_bytes then ((Rejected, False), c)
           else if is_clear_value (trim combined)
           then (case alt_clear c origin of (had, c') \<Rightarrow> ((Cleared, had), c'))
           else case best_alternative origin now (parse_alternatives combined) of
                  None \<Rightarrow>
                    (case alt_clear c origin of
                       (had, c') \<Rightarrow> if had then ((Cleared, True), c') else ((Absent, False), c'))
                | Some (alt_host, alt_port, expires_at) \<Rightarrow>
                   (case map_of (ac_entries c) origin of
                      Some existing \<Rightarrow>
                        if ae_host existing = alt_host \<and> ae_port existing = alt_port
                        then let new_expiry = max expires_at (ae_expires_at existing)
                             in if new_expiry \<noteq> ae_expires_at existing
                                then ((Learned, False),
                                      c\<lparr>ac_entries := AList.update origin
                                          \<lparr>ae_host = alt_host, ae_port = alt_port, ae_expires_at = new_expiry,
                                           ae_generation = ae_generation existing\<rparr> (ac_entries c)\<rparr>)
                                else ((Learned, False), c)
                        else ((Learned, False),
                              \<lparr>ac_entries = AList.update origin
                                 \<lparr>ae_host = alt_host, ae_port = alt_port, ae_expires_at = expires_at,
                                  ae_generation = ac_sequence c\<rparr> (alt_ensure_bound (ac_entries c) origin),
                               ac_sequence = ac_sequence c + 1\<rparr>)
                    | None \<Rightarrow>
                        ((Learned, False),
                         \<lparr>ac_entries = AList.update origin
                            \<lparr>ae_host = alt_host, ae_port = alt_port, ae_expires_at = expires_at,
                             ae_generation = ac_sequence c\<rparr> (alt_ensure_bound (ac_entries c) origin),
                          ac_sequence = ac_sequence c + 1\<rparr>)))"

subsection \<open>Suppression\<close>

datatype h3_failure_class = Connectivity | Protocol | Closed | OtherFailure

definition failure_class_from_error :: "error \<Rightarrow> h3_failure_class" where
  "failure_class_from_error e =
     (case e of
        Connect _ \<Rightarrow> Connectivity
      | H3Connect _ \<Rightarrow> Connectivity
      | Timeout phase _ \<Rightarrow> if phase = PhaseConnect then Connectivity else OtherFailure
      | H3Protocol _ \<Rightarrow> Protocol
      | H3Stream _ \<Rightarrow> Protocol
      | H3ConnectionClosed _ \<Rightarrow> Closed
      | _ \<Rightarrow> OtherFailure)"

record suppression_entry =
  su_generation :: "64 word"
  su_failures :: "32 word"
  su_until :: instant
  su_reason :: h3_failure_class

type_synonym suppressor = "(alt_origin, suppression_entry) hash_map"

definition is_suppressed :: "suppressor \<Rightarrow> alt_origin \<Rightarrow> 64 word \<Rightarrow> instant \<Rightarrow> bool" where
  "is_suppressed s origin generation now =
     (case map_of s origin of
        None \<Rightarrow> False
      | Some e \<Rightarrow> if su_generation e \<noteq> generation then False else now < su_until e)"

definition sup_ensure_bound :: "suppressor \<Rightarrow> alt_origin \<Rightarrow> suppressor" where
  "sup_ensure_bound table except =
     (if length table < suppression_max_entries then table
      else case List.find (\<lambda>k. k \<noteq> except) (map fst table) of
             Some victim \<Rightarrow> AList.delete victim table
           | None \<Rightarrow> table)"

text \<open>
  The backoff after \<open>next\<close> failures.  The product is at most 5120 seconds, so it
  cannot overflow a \<open>Duration\<close>; the instants of a run are far enough from the
  end of the clock's range that adding 300 seconds to one is possible.
\<close>

definition suppression_backoff :: "32 word \<Rightarrow> duration" where
  "suppression_backoff next_failures =
     (let shift = min (unat next_failures - 1) 10
      in min (suppression_base * 2 ^ shift) suppression_max)"

definition sat_inc :: "32 word \<Rightarrow> 32 word" where
  "sat_inc w = (if w = - 1 then w else w + 1)"

definition record_failure ::
  "suppressor \<Rightarrow> alt_origin \<Rightarrow> 64 word \<Rightarrow> instant \<Rightarrow> h3_failure_class \<Rightarrow> suppressor" where
  "record_failure s origin generation now reason =
     (case map_of s origin of
        Some e \<Rightarrow>
          if su_generation e \<noteq> generation
          then AList.update origin
                 \<lparr>su_generation = generation, su_failures = 1,
                  su_until = now + int (min suppression_base suppression_max), su_reason = reason\<rparr> s
          else AList.update origin
                 (e\<lparr>su_failures := sat_inc (su_failures e), su_reason := reason,
                    su_until := now + int (suppression_backoff (sat_inc (su_failures e)))\<rparr>) s
      | None \<Rightarrow>
          AList.update origin
            \<lparr>su_generation = generation, su_failures = 1,
             su_until = now + int (min suppression_base suppression_max), su_reason = reason\<rparr>
            (sup_ensure_bound s origin))"

definition record_success :: "suppressor \<Rightarrow> alt_origin \<Rightarrow> suppressor" where
  "record_success s origin = AList.delete origin s"

definition note_new_advertisement :: "suppressor \<Rightarrow> alt_origin \<Rightarrow> 64 word \<Rightarrow> suppressor" where
  "note_new_advertisement s origin generation =
     (if is_some_and (map_of s origin) (\<lambda>e. su_generation e \<noteq> generation)
      then AList.delete origin s else s)"

end
