(* ===== verification/Alt_Svc_Props.thy ===== *)
theory Alt_Svc_Props
  imports Alt_Svc
begin

text \<open>
  What the Alt-Svc state guarantees: both tables stay within their bounds, a
  learned alternative is served until it expires, the backoff of a broken route
  follows its schedule, and the header parser inverts the header's syntax.
\<close>

subsection \<open>The two tables\<close>

lemma find_other_None:
  "List.find (\<lambda>k. k \<noteq> x) ks = None \<longleftrightarrow> set ks \<subseteq> {x}"
  by (auto simp: find_None_iff)

lemma delete_other_lookup: "v \<noteq> k \<Longrightarrow> map_of (AList.delete v t) k = map_of t k"
  by (simp add: AList.delete_conv')

lemma length_delete_less: "k \<in> fst ` set t \<Longrightarrow> length (AList.delete k t) < length t"
  by (induction t) (fastforce simp: less_Suc_eq_le length_delete_le)+

text \<open>Making room in a table of \<open>n\<close> slots, the way both tables do it.\<close>

definition room :: "nat \<Rightarrow> ('k, 'v) hash_map \<Rightarrow> 'k \<Rightarrow> ('k, 'v) hash_map" where
  "room n table except =
     (if length table < n then table
      else case List.find (\<lambda>k. k \<noteq> except) (map fst table) of
             Some victim \<Rightarrow> AList.delete victim table
           | None \<Rightarrow> table)"

lemma room_bounded: "0 < n \<Longrightarrow> bounded_table n (room n)"
proof
  fix t :: "('k, 'v) hash_map" and k :: 'k
  show "\<exists>P. room n t k = filter P t"
    by (auto simp: room_def AList.delete_eq case_prod_beta split: option.splits intro: exI [of _ "\<lambda>_. True"])
  show "map_of (room n t k) k = map_of t k"
    by (auto simp: room_def find_Some_iff delete_other_lookup split: option.splits)
  assume n: "0 < n" and d: "length t \<le> n" and k: "k \<notin> fst ` set t"
  show "length (room n t k) < n"
  proof (cases "length t < n")
    case False
    with n d k have "t \<noteq> []" "\<not> set (map fst t) \<subseteq> {k}" by (auto simp: neq_Nil_conv)
    then obtain v where v: "List.find (\<lambda>k'. k' \<noteq> k) (map fst t) = Some v"
      using find_other_None [of k "map fst t"] by (cases "List.find (\<lambda>k'. k' \<noteq> k) (map fst t)") auto
    then have "v \<in> fst ` set t" by (auto simp: find_Some_iff)
    with length_delete_less [of v t] v False d show ?thesis by (simp add: room_def)
  qed (simp add: room_def)
qed

lemma alt_ensure_bound_room: "alt_ensure_bound = room altsvc_cache_max_entries"
  by (intro ext) (simp add: alt_ensure_bound_def room_def)

lemma sup_ensure_bound_room: "sup_ensure_bound = room suppression_max_entries"
  by (intro ext) (simp add: sup_ensure_bound_def room_def)

interpretation alt_table: bounded_table altsvc_cache_max_entries alt_ensure_bound
  unfolding alt_ensure_bound_room by (rule room_bounded) (simp add: altsvc_cache_max_entries_def)

interpretation sup_table: bounded_table suppression_max_entries sup_ensure_bound
  unfolding sup_ensure_bound_room by (rule room_bounded) (simp add: suppression_max_entries_def)

subsection \<open>The invariant of the cache\<close>

definition entry_ok :: "alt_entry \<Rightarrow> bool" where
  "entry_ok e \<longleftrightarrow> 0 < ae_port e \<and> ae_port e \<le> 65535"

definition alt_inv :: "alt_cache \<Rightarrow> bool" where
  "alt_inv c \<longleftrightarrow> alt_table.table_ok (ac_entries c) \<and> (\<forall>p\<in>set (ac_entries c). entry_ok (snd p))"

lemma parse_authority_port:
  "parse_authority a = Some (h, p) \<Longrightarrow> 0 < p \<and> p \<le> 65535"
  by (auto simp: parse_authority_def parse_u16_def split: if_splits option.splits prod.splits dest: parse_unsigned_le)

lemma best_alternative_Some:
  "best_alternative o' now as = Some (h, p, x) \<Longrightarrow> 0 < p \<and> p \<le> 65535 \<and> now < x"
proof (induction as)
  case (Cons a as)
  show ?case
  proof (cases "usable_alternative o' now a")
    case None
    with Cons show ?thesis by simp
  next
    case (Some b)
    with Cons(2) have "usable_alternative o' now a = Some (h, p, x)" by simp
    then show ?thesis
      using parse_authority_port
      by (auto simp: usable_alternative_def Let_def time_defs split: if_splits option.splits prod.splits)
  qed
qed simp

lemma alt_inv_new: "alt_inv alt_cache_new"
  by (simp add: alt_inv_def alt_cache_new_def alt_table.table_ok_Nil)

lemma alt_inv_delete: "alt_inv c \<Longrightarrow> alt_inv (c\<lparr>ac_entries := AList.delete k (ac_entries c)\<rparr>)"
  by (auto simp: alt_inv_def alt_table.table_ok_delete set_alist_delete)

lemma alt_inv_insert:
  assumes "alt_inv c" "entry_ok e"
  shows "alt_inv \<lparr>ac_entries = AList.update k e (alt_ensure_bound (ac_entries c) k), ac_sequence = n\<rparr>"
proof -
  have t: "alt_table.table_ok (ac_entries c)" using assms(1) by (simp add: alt_inv_def)
  then have "distinct_keys (alt_ensure_bound (ac_entries c) k)"
    using alt_table.table_ok_room [OF t] by (simp add: alt_table.table_ok_def)
  moreover have "set (alt_ensure_bound (ac_entries c) k) \<subseteq> set (ac_entries c)"
    using alt_table.room_sublist [of "ac_entries c" k] by auto
  ultimately show ?thesis
    using assms alt_table.table_ok_insert [OF t] by (fastforce simp: alt_inv_def set_alist_update)
qed

lemma alt_inv_refresh:
  assumes "alt_inv c" "map_of (ac_entries c) k \<noteq> None" "entry_ok e"
  shows "alt_inv (c\<lparr>ac_entries := AList.update k e (ac_entries c)\<rparr>)"
  using assms alt_table.table_ok_update_present [of "ac_entries c" k e]
  by (auto simp: alt_inv_def set_alist_update alt_table.table_ok_def)

lemma alt_clear_inv: "alt_inv c \<Longrightarrow> alt_inv (snd (alt_clear c k))"
  by (simp add: alt_clear_def alt_inv_delete)

lemma learn_counted_inv: "alt_inv c \<Longrightarrow> alt_inv (snd (learn_counted c k vs now))"
  by (auto simp: learn_counted_def Let_def alt_clear_inv case_prod_beta entry_ok_def dest!: best_alternative_Some
      split: option.splits intro!: alt_inv_insert alt_inv_refresh)

lemma get_fresh_inv: "alt_inv c \<Longrightarrow> alt_inv (snd (get_fresh c k now))"
  by (simp add: get_fresh_def alt_inv_delete split: option.splits)

lemma get_fresh_counted_inv: "alt_inv c \<Longrightarrow> alt_inv (snd (get_fresh_counted c k now))"
  by (simp add: get_fresh_counted_def alt_inv_delete split: option.splits)

datatype alt_op = OpLearn alt_origin "string list" instant | OpFresh alt_origin instant
  | OpFreshCounted alt_origin instant | OpClear alt_origin

fun alt_apply :: "alt_op \<Rightarrow> alt_cache \<Rightarrow> alt_cache" where
  "alt_apply (OpLearn k vs now) c = snd (learn_counted c k vs now)"
| "alt_apply (OpFresh k now) c = snd (get_fresh c k now)"
| "alt_apply (OpFreshCounted k now) c = snd (get_fresh_counted c k now)"
| "alt_apply (OpClear k) c = snd (alt_clear c k)"

lemma alt_apply_inv: "alt_inv c \<Longrightarrow> alt_inv (alt_apply op c)"
  by (cases op) (simp_all add: learn_counted_inv get_fresh_inv get_fresh_counted_inv alt_clear_inv)

text \<open>
  Whatever the servers advertise and in whatever order the cache is used, it
  holds at most 64 origins, each once, and every alternative has a port from 1 to
  65535.
\<close>

lemma alt_cache_bounded:
  "let c = fold alt_apply ops alt_cache_new
   in length (ac_entries c) \<le> 64 \<and> distinct (map fst (ac_entries c))
      \<and> list_all (\<lambda>p. 0 < ae_port (snd p) \<and> ae_port (snd p) \<le> 65535) (ac_entries c)"
proof -
  have "alt_inv c \<Longrightarrow> alt_inv (fold alt_apply ops c)" for c
    by (induction ops arbitrary: c) (simp_all add: alt_apply_inv)
  from this [OF alt_inv_new] show ?thesis
    unfolding alt_inv_def alt_table.table_ok_def
    by (simp add: altsvc_cache_max_entries_def entry_ok_def Let_def list_all_iff)
qed

subsection \<open>The header syntax\<close>

abbreviation DQ :: char where "DQ \<equiv> CHR 0x22"
abbreviation BS :: char where "BS \<equiv> CHR 0x5C"

definition plain_authority :: "string \<Rightarrow> bool" where
  "plain_authority a \<longleftrightarrow> list_all (\<lambda>b. 32 \<le> byte b \<and> byte b < 127 \<and> b \<noteq> DQ \<and> b \<noteq> BS) a \<and> length a \<le> 512"

text \<open>The reference: one alternative as a server writes it.\<close>

definition render_alternative :: "string \<Rightarrow> string \<Rightarrow> nat \<Rightarrow> string" where
  "render_alternative proto a ma = proto @ ''='' @ [DQ] @ a @ [DQ] @ ''; ma='' @ show_nat ma"

lemma quoted_body_plain:
  "list_all (\<lambda>b. 32 \<le> byte b \<and> byte b < 127 \<and> b \<noteq> DQ \<and> b \<noteq> BS) a \<Longrightarrow> length out + length a \<le> 512 \<Longrightarrow>
     quoted_body out (a @ DQ # s) = Some (out @ a, s)"
  by (induction a arbitrary: out) (auto simp: push_byte_def)

lemma split_parts_plain:
  "CHR '','' \<notin> set xs \<Longrightarrow> DQ \<notin> set xs \<Longrightarrow> split_parts cur False False (xs @ ys) = split_parts (cur @ xs) False False ys"
  by (induction xs arbitrary: cur) auto

lemma split_parts_quoted:
  "DQ \<notin> set xs \<Longrightarrow> BS \<notin> set xs \<Longrightarrow> split_parts cur True False (xs @ ys) = split_parts (cur @ xs) True False ys"
  by (induction xs arbitrary: cur) auto

lemma trim_id:
  assumes "s \<noteq> []" "\<not> is_ascii_white (hd s)" "\<not> is_ascii_white (last s)" shows "trim s = s"
proof -
  have "trim_start s = s" using assms(1,2) by (cases s) (auto simp: trim_start_def)
  moreover have "dropWhile is_ascii_white (rev s) = rev s"
    using assms(1,3) by (cases s rule: rev_cases) auto
  ultimately show ?thesis by (simp add: trim_def)
qed

lemma digit_not_white: "is_digit c \<Longrightarrow> \<not> is_ascii_white c \<and> c \<noteq> DQ \<and> c \<noteq> CHR '','' \<and> c \<noteq> CHR '';'' \<and> c \<noteq> CHR ''=''"
  by (auto simp: is_digit_def is_ascii_white_def)

lemma show_nat_ends: "is_digit (hd (show_nat n))" "is_digit (last (show_nat n))"
  using show_nat_digits [of n] by (auto simp: list_all_iff)

lemma trim_show_nat [simp]: "trim (show_nat n) = show_nat n"
  using show_nat_digits [of n] digit_not_white show_nat_ends by (intro trim_id) auto

lemma trim_quotes_show_nat [simp]: "trim_quotes (show_nat n) = show_nat n"
proof -
  have "dropWhile (\<lambda>x. x = DQ) xs = xs" if "list_all is_digit xs" for xs
    using that digit_not_white by (cases xs) auto
  then show ?thesis
    using show_nat_digits [of n] by (simp add: trim_quotes_def trim_start_matches_def trim_end_matches_def)
qed

lemma parse_params_ma:
  assumes "n < 2 ^ 64" shows "parse_params None ['' ma='' @ show_nat n] = Some (Some n)"
proof -
  have ne: "show_nat n \<noteq> []" using show_nat_digits by blast
  have "trim (''ma='' @ show_nat n) = ''ma='' @ show_nat n"
    using ne digit_not_white [OF show_nat_ends(2)] by (intro trim_id) (auto simp: is_ascii_white_def)
  then have t: "trim ('' ma='' @ show_nat n) = ''ma='' @ show_nat n"
    by (simp add: trim_def trim_start_def is_ascii_white_def)
  have s: "split_once CHR ''='' (''ma='' @ show_nat n) = Some (''ma'', show_nat n)"
    using split_once_append [of "CHR ''=''" "''ma''" "show_nat n"] by simp
  have u: "parse_u64 (show_nat n) = Some n"
    using assms by (simp add: parse_u64_def parse_show_nat)
  have m: "trim ''ma'' = ''ma''" by (rule trim_id) (simp_all add: is_ascii_white_def)
  show ?thesis using t s u m by (simp add: Let_def)
qed

lemma token_bytes:
  assumes "is_token s" "c \<in> set s"
  shows "\<not> is_ascii_white c \<and> c \<notin> set token_separators"
  using assms by (auto simp: is_token_def list_all_iff is_ascii_white_def)

lemma token_trim: "is_token s \<Longrightarrow> trim s = s"
  using token_bytes by (intro trim_id) (auto simp: is_token_def)

lemma parse_rendered_alternative:
  assumes "is_token proto" "plain_authority a" "n < 2 ^ 64"
  shows "parse_alternatives (render_alternative proto a n) = [\<lparr>pa_protocol = proto, pa_authority = a, pa_ma = Some n\<rparr>]"
proof -
  let ?v = "render_alternative proto a n"
  have sep: "c \<notin> set proto" if "c \<in> set token_separators" for c
    using token_bytes [OF assms(1)] that by blast
  have "proto \<noteq> []" using assms(1) by (simp add: is_token_def)
  then have p: "proto \<noteq> []" "trim proto = proto" "CHR '','' \<notin> set proto" "DQ \<notin> set proto" "CHR ''='' \<notin> set proto"
    using token_trim [OF assms(1)] sep [of "CHR '',''"] sep [of DQ] sep [of "CHR ''=''"]
    by (simp_all add: token_separators_def)
  have q: "DQ \<notin> set a" "BS \<notin> set a" using assms(2) by (auto simp: plain_authority_def list_all_iff)
  have d: "CHR '','' \<notin> set (show_nat n)" "DQ \<notin> set (show_nat n)" "CHR '';'' \<notin> set (show_nat n)"
    using show_nat_digits [of n] digit_not_white by (auto simp: list_all_iff)
  have "split_parts [] False False ?v = split_parts (proto @ ''='') False False ([DQ] @ a @ [DQ] @ ''; ma='' @ show_nat n)"
    using split_parts_plain [of "proto @ ''=''" "[]" "[DQ] @ a @ [DQ] @ ''; ma='' @ show_nat n"] p(3,4)
    by (simp add: render_alternative_def del: split_parts.simps)
  also have "\<dots> = split_parts (proto @ ''='' @ [DQ]) True False (a @ [DQ] @ ''; ma='' @ show_nat n)" by simp
  also have "\<dots> = split_parts (proto @ ''='' @ [DQ] @ a) True False ([DQ] @ ''; ma='' @ show_nat n)"
    using split_parts_quoted [OF q, of "proto @ ''='' @ [DQ]" "[DQ] @ ''; ma='' @ show_nat n"]
    by (simp del: split_parts.simps)
  also have "\<dots> = split_parts (proto @ ''='' @ [DQ] @ a @ [DQ]) False False ((''; ma='' @ show_nat n) @ [])"
    by (simp only: append_Cons append_Nil append_Nil2 split_parts.simps) simp
  also have "\<dots> = split_parts ((proto @ ''='' @ [DQ] @ a @ [DQ]) @ ''; ma='' @ show_nat n) False False []"
    using d by (intro split_parts_plain) simp_all
  finally have "split_header_list ?v = [?v]" by (simp add: split_header_list_def render_alternative_def)
  moreover have "trim ?v = ?v"
  proof (rule trim_id)
    show "\<not> is_ascii_white (hd ?v)" using p(1) token_bytes [OF assms(1)] by (auto simp: render_alternative_def)
    show "\<not> is_ascii_white (last ?v)"
      using digit_not_white [OF show_nat_ends(2)] show_nat_digits [of n] by (auto simp: render_alternative_def)
  qed (simp add: render_alternative_def)
  moreover have "split_once CHR ''='' ?v = Some (proto, [DQ] @ a @ [DQ] @ ''; ma='' @ show_nat n)"
    using split_once_append [of "CHR ''=''" proto] p(5) by (simp add: render_alternative_def)
  moreover have "parse_quoted_string ([DQ] @ a @ [DQ] @ ''; ma='' @ show_nat n) = Some (a, ''; ma='' @ show_nat n)"
    using quoted_body_plain [of a "[]"] assms(2) by (simp add: parse_quoted_string_def plain_authority_def)
  moreover have "tl (split_char CHR '';'' (''; ma='' @ show_nat n)) = ['' ma='' @ show_nat n]"
    using split_char_single [of "CHR '';''" "'' ma='' @ show_nat n"] d(3) by simp
  moreover have "?v \<noteq> []" by (simp add: render_alternative_def)
  moreover have "\<not> eq_ignore_ascii_case ?v ''clear''"
    using eq_ignore_ascii_case_length [of ?v "''clear''"] by (auto simp: render_alternative_def)
  ultimately show ?thesis
    using p assms(1) parse_params_ma [OF assms(3)]
    by (simp add: parse_alternatives_def altsvc_max_alternatives_def parse_alternative_def trim_start_def
        is_ascii_white_def Let_def del: parse_params.simps split_char.simps)
qed

text \<open>
  An advertisement of one alternative with an explicit life time is parsed into
  exactly that protocol, authority and life time, commas and semicolons inside
  the quotes included.
\<close>

lemma alternative_roundtrip:
  assumes "is_token proto" "plain_authority a" "n < 2 ^ 64"
  shows "parse_alternatives (render_alternative proto a n) = [\<lparr>pa_protocol = proto, pa_authority = a, pa_ma = Some n\<rparr>]"
  by (rule parse_rendered_alternative [OF assms])

lemma h3_token: "is_token ''h3''" and port_authority: "plain_authority '':443''"
  by (simp_all add: is_token_def token_separators_def plain_authority_def)

subsection \<open>Learning and lookup\<close>

lemma learn_served:
  assumes "learn_counted c k vs now = ((Learned, b), c')"
  shows "\<exists>e. fst (get_fresh c' k now) = Some e \<and> now < ae_expires_at e
    \<and> (case map_of (ac_entries c) k of
         Some e0 \<Rightarrow> if ae_host e0 = ae_host e \<and> ae_port e0 = ae_port e
                    then ae_generation e = ae_generation e0 \<and> ae_expires_at e0 \<le> ae_expires_at e
                    else ae_generation e = ac_sequence c
       | None \<Rightarrow> ae_generation e = ac_sequence c)"
proof -
  let ?b = "best_alternative k now (parse_alternatives (join_values vs))"
  have v: "vs \<noteq> []" "\<not> length (join_values vs) > altsvc_max_header_bytes" "\<not> is_clear_value (trim (join_values vs))"
    using assms by (auto simp: learn_counted_def Let_def alt_clear_def split: if_splits)
  have "?b \<noteq> None"
  proof
    assume "?b = None"
    with assms v show False by (simp add: learn_counted_def Let_def alt_clear_def split: if_splits)
  qed
  then obtain h p x where best: "?b = Some (h, p, x)" by auto
  note x = best_alternative_Some [OF best]
  have "(case map_of (ac_entries c) k of
      Some e0 \<Rightarrow> if ae_host e0 = h \<and> ae_port e0 = p
         then map_of (ac_entries c') k = Some (e0\<lparr>ae_expires_at := max x (ae_expires_at e0)\<rparr>)
         else map_of (ac_entries c') k = Some \<lparr>ae_host = h, ae_port = p, ae_expires_at = x, ae_generation = ac_sequence c\<rparr>
    | None \<Rightarrow> map_of (ac_entries c') k = Some \<lparr>ae_host = h, ae_port = p, ae_expires_at = x, ae_generation = ac_sequence c\<rparr>)"
  proof (cases "map_of (ac_entries c) k")
    case None
    with assms v best show ?thesis by (auto simp: learn_counted_def Let_def update_conv)
  next
    case (Some e0)
    show ?thesis
    proof (cases "ae_host e0 = h \<and> ae_port e0 = p")
      case same: True
      with Some v best have "learn_counted c k vs now =
          ((Learned, False), if max x (ae_expires_at e0) \<noteq> ae_expires_at e0
             then c\<lparr>ac_entries := AList.update k \<lparr>ae_host = h, ae_port = p, ae_expires_at = max x (ae_expires_at e0),
                    ae_generation = ae_generation e0\<rparr> (ac_entries c)\<rparr> else c)"
        by (simp add: learn_counted_def Let_def)
      with assms Some same show ?thesis by (auto simp: update_conv split: if_splits)
    next
      case False
      with Some v best assms show ?thesis by (auto simp: learn_counted_def Let_def update_conv)
    qed
  qed
  note served = this
  show ?thesis
  proof (cases "map_of (ac_entries c) k")
    case None
    with served x show ?thesis by (simp add: get_fresh_def alt_is_expired_def)
  next
    case (Some e0)
    show ?thesis
    proof (cases "ae_host e0 = h \<and> ae_port e0 = p")
      case True
      with served Some x show ?thesis by (auto simp: get_fresh_def alt_is_expired_def)
    next
      case False
      with served Some x show ?thesis by (auto simp: get_fresh_def alt_is_expired_def)
    qed
  qed
qed

text \<open>One advertisement of the same host on another port, learned by an empty cache.\<close>

definition example_origin :: alt_origin where
  "example_origin = \<lparr>ao_scheme = ''https'', ao_host = ''a'', ao_port = 443\<rparr>"

definition example_advert :: string where
  "example_advert = render_alternative ''h3'' '':443'' 60"

lemma example_advert_facts:
  "\<not> is_clear_value (trim example_advert)" "length example_advert \<le> altsvc_max_header_bytes"
  "parse_authority '':443'' = Some ([], 443)"
proof -
  have sh: "show_nat 60 = ''60''" by code_simp
  show "\<not> is_clear_value (trim example_advert)"
    unfolding example_advert_def render_alternative_def sh by code_simp
  show "length example_advert \<le> altsvc_max_header_bytes"
    unfolding example_advert_def render_alternative_def sh altsvc_max_header_bytes_def by simp
  have "parse_u16 ''443'' = Some 443" by (simp add: parse_u16_def parse_unsigned_def is_digit_def)
  then show "parse_authority '':443'' = Some ([], 443)"
    by (simp add: parse_authority_def strip_prefix_def rsplit_once_def rfind_char_def)
qed

lemma example_learn:
  "learn_counted alt_cache_new example_origin [example_advert] 0 =
     ((Learned, False),
      \<lparr>ac_entries = [(example_origin, \<lparr>ae_host = ''a'', ae_port = 443, ae_expires_at = 60000000000, ae_generation = 1\<rparr>)],
       ac_sequence = 2\<rparr>)"
proof -
  have "parse_alternatives example_advert = [\<lparr>pa_protocol = ''h3'', pa_authority = '':443'', pa_ma = Some 60\<rparr>]"
    unfolding example_advert_def by (rule parse_rendered_alternative [OF h3_token port_authority]) simp
  then have "best_alternative example_origin 0 (parse_alternatives example_advert) = Some (''a'', 443, 60000000000)"
    by (simp add: usable_alternative_def example_advert_facts(3) example_origin_def time_defs checked_add_time_def)
  with example_advert_facts show ?thesis
    by (simp add: learn_counted_def join_values_def Let_def alt_cache_new_def alt_ensure_bound_def
        altsvc_cache_max_entries_def)
qed

subsection \<open>Suppression\<close>

lemma unat_sat_inc: "unat w < 2 ^ 32 - 1 \<Longrightarrow> unat (sat_inc w) = Suc (unat w)"
proof -
  assume a: "unat w < 2 ^ 32 - 1"
  then have "w \<noteq> - 1" by (auto simp: unsigned_minus_1_eq_mask mask_eq_exp_minus_1)
  moreover have "Suc (unat w) < 2 ^ 32" using a by simp
  ultimately show ?thesis by (simp add: sat_inc_def unat_word_ariths)
qed

lemma suppression_backoff_eq:
  "suppression_backoff w = min (suppression_base * 2 ^ (unat w - 1)) suppression_max"
proof (cases "unat w - 1 \<le> 10")
  case False
  have ten: "suppression_max \<le> suppression_base * 2 ^ 10" by (simp add: suppression_max_def suppression_base_def time_defs)
  have "(2::nat) ^ 10 \<le> 2 ^ (unat w - 1)" using False by (intro power_increasing) auto
  then have "suppression_base * 2 ^ 10 \<le> suppression_base * 2 ^ (unat w - 1)" by (rule mult_le_mono2)
  from min_absorb2 [OF order.trans [OF ten this]] min_absorb2 [OF ten] False show ?thesis
    by (simp add: suppression_backoff_def Let_def)
qed (simp add: suppression_backoff_def Let_def min_absorb1)

text \<open>A run of failures of one generation of a route, at the given times.\<close>

definition failures :: "alt_origin \<Rightarrow> 64 word \<Rightarrow> (instant \<times> h3_failure_class) list \<Rightarrow> suppressor \<Rightarrow> suppressor" where
  "failures k g fs s = fold (\<lambda>(now, r) t. record_failure t k g now r) fs s"

lemma failures_entry:
  assumes "fs \<noteq> []" "length fs < 2 ^ 32" "map_of s k = None"
  shows "\<exists>e. map_of (failures k g fs s) k = Some e \<and> su_generation e = g \<and> unat (su_failures e) = length fs
    \<and> su_until e = fst (last fs) + int (min (suppression_base * 2 ^ (length fs - 1)) suppression_max)"
  using assms
proof (induction fs rule: rev_induct)
  case (snoc f fs)
  obtain now r where f: "f = (now, r)" by (cases f)
  show ?case
  proof (cases "fs = []")
    case True
    with snoc(4) show ?thesis by (simp add: failures_def f record_failure_def update_conv)
  next
    case False
    with snoc(1,3,4) obtain e where e: "map_of (failures k g fs s) k = Some e" "su_generation e = g"
      "unat (su_failures e) = length fs" by fastforce
    have n: "unat (sat_inc (su_failures e)) = Suc (length fs)"
      using snoc(3) e(3) by (subst unat_sat_inc) simp_all
    have "failures k g (fs @ [f]) s = record_failure (failures k g fs s) k g now r" by (simp add: failures_def f)
    with e n False show ?thesis
      by (simp add: record_failure_def update_conv suppression_backoff_eq f)
  qed
qed simp

text \<open>
  After a run of failures of a newly advertised route the route is suppressed
  for five seconds, doubled with every further failure, and never for more than 300
  seconds; it is usable again as soon as that time is over, or at once for an
  advertisement with another generation.
\<close>

lemma suppression_schedule:
  assumes "fs \<noteq> []" "length fs < 2 ^ 32" "map_of s k = None"
  shows "is_suppressed (failures k g fs s) k g' now \<longleftrightarrow>
     g' = g \<and> now < fst (last fs) + int (min (from_secs_d 5 * 2 ^ (length fs - 1)) (from_secs_d 300))"
  using failures_entry [OF assms, of g] by (auto simp: is_suppressed_def suppression_base_def suppression_max_def)

end
