(* ===== verification/H3_Dispatch.thy ===== *)
theory H3_Dispatch
  imports Alt_Svc_Props Request_Model
begin

text \<open>
  Route selection and the HTTP/3 route (\<open>pipeline/route.rs\<close>,
  \<open>pipeline/custom_dialing.rs\<close>, \<open>pipeline/h3_dispatch.rs\<close>, the dispatch error of
  \<open>transport/http3.rs\<close>): which transport a request takes, when an alternative is
  discovered or learned, and when a failed HTTP/3 attempt falls back to the
  standard transport.  The build has all features enabled.
\<close>

subsection \<open>Routes\<close>

datatype transport_route = Uds | Custom | Direct | ProxyRoute | SniDirect | H3 | Standard

definition select_route :: "bool \<Rightarrow> bool \<Rightarrow> bool \<Rightarrow> bool \<Rightarrow> bool \<Rightarrow> bool \<Rightarrow> transport_route" where
  "select_route has_uds has_custom has_direct_no_proxy has_proxy has_sni use_h3 =
     (if has_uds then Uds
      else if has_custom then Custom
      else if has_direct_no_proxy then Direct
      else if has_proxy then ProxyRoute
      else if has_sni then SniDirect
      else if use_h3 then H3
      else Standard)"

datatype custom_dialing_conflict =
  ResolvedDestinations | LocalAddressOrSocketOptions | UnixDomainRouting | Http3Conflict | BuiltInProxyRouting

fun conflict_message :: "custom_dialing_conflict \<Rightarrow> string" where
  "conflict_message ResolvedDestinations = ''custom dialing is incompatible with caller-supplied resolved destinations''"
| "conflict_message LocalAddressOrSocketOptions = ''custom dialing is incompatible with local-address or socket-option routing''"
| "conflict_message UnixDomainRouting = ''custom dialing is incompatible with Unix-domain routing''"
| "conflict_message Http3Conflict = ''custom dialing is incompatible with HTTP/3''"
| "conflict_message BuiltInProxyRouting = ''custom dialing is incompatible with built-in proxy routing''"

record custom_dialing_state =
  cd_has_resolved_target :: bool
  cd_has_local_address_or_socket_options :: bool
  cd_has_uds :: bool
  cd_is_http3_only :: bool
  cd_has_built_in_proxy :: "bool option"

definition custom_dialing_conflict_of :: "custom_dialing_state \<Rightarrow> custom_dialing_conflict option" where
  "custom_dialing_conflict_of st =
     (if cd_has_resolved_target st then Some ResolvedDestinations
      else if cd_has_local_address_or_socket_options st then Some LocalAddressOrSocketOptions
      else if cd_has_uds st then Some UnixDomainRouting
      else if cd_is_http3_only st then Some Http3Conflict
      else if cd_has_built_in_proxy st = Some True then Some BuiltInProxyRouting
      else None)"

datatype http_version_policy = Http1Only | Http2Only | Http3Only | Auto bool

fun enable_http1 :: "http_version_policy \<Rightarrow> bool" where
  "enable_http1 Http1Only = True" | "enable_http1 (Auto b) = True" | "enable_http1 _ = False"

fun enable_http2 :: "http_version_policy \<Rightarrow> bool" where
  "enable_http2 Http2Only = True" | "enable_http2 (Auto b) = True" | "enable_http2 _ = False"

subsection \<open>Discovery and learning\<close>

record alt_metrics =
  am_expired :: nat
  am_suppressed :: nat
  am_learned :: nat
  am_cleared :: nat
  am_rejected :: nat
  am_fallback :: nat

record h3_state =
  hs_cache :: alt_cache
  hs_suppressor :: suppressor
  hs_metrics :: alt_metrics

record h3_target =
  ht_alt_host :: string
  ht_alt_port :: nat
  ht_sni_host :: string
  ht_generation :: "64 word option"

definition h3_discovered_target :: "url \<Rightarrow> instant \<Rightarrow> h3_state \<Rightarrow> h3_target option \<times> h3_state" where
  "h3_discovered_target u now st =
     (if url_scheme u \<noteq> ''https'' then (None, st)
      else case alt_origin_from_url u of
             None \<Rightarrow> (None, st)
           | Some origin \<Rightarrow>
              (case get_fresh_counted (hs_cache st) origin now of
                 ((fresh, expired), c') \<Rightarrow>
                   let m = hs_metrics st;
                       m1 = (if expired then m\<lparr>am_expired := am_expired m + 1\<rparr> else m);
                       st1 = st\<lparr>hs_cache := c', hs_metrics := m1\<rparr>
                   in case fresh of
                        None \<Rightarrow> (None, st1)
                      | Some entry \<Rightarrow>
                          if is_suppressed (hs_suppressor st1) origin (ae_generation entry) now
                          then (None, st1\<lparr>hs_metrics := m1\<lparr>am_suppressed := am_suppressed m1 + 1\<rparr>\<rparr>)
                          else (Some \<lparr>ht_alt_host = ae_host entry, ht_alt_port = ae_port entry,
                                      ht_sni_host = ao_host origin, ht_generation = Some (ae_generation entry)\<rparr>, st1)))"

text \<open>
  The TLS policy of the client: the two verification switches of a custom
  configuration, and whether building it failed.
\<close>

record tls_policy =
  tp_config :: "(bool \<times> bool) option"
  tp_error :: bool

definition alt_svc_values :: "'h http_lib \<Rightarrow> 'h \<Rightarrow> string list" where
  "alt_svc_values H h =
     List.map_filter (\<lambda>v. case hm_to_str H v of Inl _ \<Rightarrow> None | Inr s \<Rightarrow> Some s) (hm_get_all H h ''alt-svc'')"

definition count_rejected :: "h3_state \<Rightarrow> h3_state" where
  "count_rejected st = st\<lparr>hs_metrics := (hs_metrics st)\<lparr>am_rejected := am_rejected (hs_metrics st) + 1\<rparr>\<rparr>"

definition learn_altsvc_from_response ::
  "'h http_lib \<Rightarrow> tls_policy \<Rightarrow> url \<Rightarrow> 'h \<Rightarrow> bool \<Rightarrow> bool \<Rightarrow> instant \<Rightarrow> h3_state \<Rightarrow> h3_state" where
  "learn_altsvc_from_response H tls u h via_proxy route_learnable now st =
     (if url_scheme u \<noteq> ''https'' \<or> via_proxy \<or> \<not> route_learnable then st
      else
        let tls_authenticated = (case tp_config tls of Some (cert, name) \<Rightarrow> cert \<and> name | None \<Rightarrow> True);
            ctx = \<lparr>lc_is_https = True, lc_tls_authenticated = tls_authenticated, lc_via_proxy = False,
                   lc_origin_matches_hop = True\<rparr>
        in if tp_error tls then count_rejected st
           else if \<not> trustworthy ctx then count_rejected st
           else case alt_origin_from_url u of
                  None \<Rightarrow> count_rejected st
                | Some origin \<Rightarrow>
                    let vs = alt_svc_values H h
                    in if vs = [] then st
                       else (case learn_counted (hs_cache st) origin vs now of
                               ((out, had_cleared), c1) \<Rightarrow>
                                 let st1 = st\<lparr>hs_cache := c1\<rparr>; m = hs_metrics st1
                                 in case out of
                                      Learned \<Rightarrow>
                                        (let st2 = st1\<lparr>hs_metrics := m\<lparr>am_learned := am_learned m + 1\<rparr>\<rparr>
                                         in case get_fresh c1 origin now of
                                              (None, c2) \<Rightarrow> st2\<lparr>hs_cache := c2\<rparr>
                                            | (Some entry, c2) \<Rightarrow>
                                                st2\<lparr>hs_cache := c2,
                                                    hs_suppressor := note_new_advertisement (hs_suppressor st2) origin (ae_generation entry)\<rparr>)
                                    | Cleared \<Rightarrow>
                                        (if had_cleared then st1\<lparr>hs_metrics := m\<lparr>am_cleared := am_cleared m + 1\<rparr>\<rparr> else st1)
                                    | Rejected \<Rightarrow> count_rejected st1
                                    | Absent \<Rightarrow> st1))"

definition decide_h3_use ::
  "http_version_policy \<Rightarrow> url \<Rightarrow> bool \<Rightarrow> bool \<Rightarrow> bool \<Rightarrow> bool \<Rightarrow> instant \<Rightarrow> h3_state
   \<Rightarrow> (bool \<times> h3_target option) \<times> h3_state" where
  "decide_h3_use policy u has_uds has_proxy has_sni has_custom now st =
     (case policy of
        Http3Only \<Rightarrow> ((True, None), st)
      | Auto allow \<Rightarrow>
          if \<not> allow then ((False, None), st)
          else if has_uds \<or> has_proxy \<or> has_sni \<or> has_custom then ((False, None), st)
          else (case h3_discovered_target u now st of
                  (Some t, st') \<Rightarrow> ((True, Some t), st')
                | (None, st') \<Rightarrow> ((False, None), st'))
      | _ \<Rightarrow> ((False, None), st))"

subsection \<open>The attempt\<close>

record h3_dispatch_error =
  hd_error :: error
  hd_body_committed :: bool
  hd_draining :: bool
  hd_failure_class :: h3_failure_class

definition h3_dispatch_error_new :: "error \<Rightarrow> bool \<Rightarrow> bool \<Rightarrow> h3_dispatch_error" where
  "h3_dispatch_error_new e committed draining =
     \<lparr>hd_error = e, hd_body_committed = committed, hd_draining = draining, hd_failure_class = failure_class_from_error e\<rparr>"

definition for_total_timeout :: "duration \<Rightarrow> h3_dispatch_error" where
  "for_total_timeout elapsed = h3_dispatch_error_new (Timeout PhaseTotal elapsed) False False"

definition safe_for_fallback :: "h3_dispatch_error \<Rightarrow> bool" where
  "safe_for_fallback d \<longleftrightarrow> \<not> hd_body_committed d"

text \<open>
  What the attempt meets outside: the connector (if the client has one), whether
  the total timer fires before it (with the time elapsed), an error of the request
  builder, the standard transport and the instant at which a failure is recorded.
  The log lists the attempts in order with the body and the total each was given.
\<close>

datatype sub_attempt = H3Send request_body "h3_target option" "duration option" | HyperSend request_body "duration option"

record 'h h3_world_env =
  hx_connector :: "(request_body \<Rightarrow> h3_target option \<Rightarrow> h3_dispatch_error + 'h response) option"
  hx_expires :: "duration \<Rightarrow> duration option"
  hx_build_error :: "string option"
  hx_hyper :: "request_body \<Rightarrow> duration option \<Rightarrow> 'h response result"
  hx_now :: instant

definition fallback_body_of :: "bool \<Rightarrow> request_body \<Rightarrow> request_body option" where
  "fallback_body_of is_explicit body =
     (if is_explicit then None
      else case body of BodyEmpty \<Rightarrow> Some BodyEmpty | BodyBytes b \<Rightarrow> Some (BodyBytes b) | BodyStream _ _ \<Rightarrow> None)"

definition suppressible :: "bool \<Rightarrow> h3_dispatch_error \<Rightarrow> bool" where
  "suppressible is_explicit d \<longleftrightarrow> \<not> is_explicit \<and> \<not> hd_draining d \<and> hd_failure_class d \<noteq> OtherFailure"

definition note_h3_failure ::
  "url \<Rightarrow> h3_target option \<Rightarrow> h3_dispatch_error \<Rightarrow> instant \<Rightarrow> h3_state \<Rightarrow> h3_state" where
  "note_h3_failure u h3_alt d now st =
     (if suppressible (h3_alt = None) d then
        (case alt_origin_from_url u of
           None \<Rightarrow> st
         | Some origin \<Rightarrow>
             let generation = (case Option.bind h3_alt ht_generation of Some g \<Rightarrow> g | None \<Rightarrow> 0)
             in st\<lparr>hs_suppressor := record_failure (hs_suppressor st) origin generation now (hd_failure_class d)\<rparr>)
      else st)"

definition send_h3_route ::
  "'h h3_world_env \<Rightarrow> url \<Rightarrow> request_body \<Rightarrow> h3_target option \<Rightarrow> duration option
   \<Rightarrow> request_failure_context option \<Rightarrow> h3_state
   \<Rightarrow> 'h response result \<times> sub_attempt list \<times> request_failure_context option \<times> h3_state" where
  "send_h3_route X u body h3_alt remaining_total ctx st =
     (case hx_connector X of
        None \<Rightarrow> (Err (Unsupported ''HTTP/3 connector not available; ensure http3 feature is enabled''), [], ctx, st)
      | Some connector \<Rightarrow>
         (let is_explicit = (h3_alt = None);
              fallback_body = fallback_body_of is_explicit body
          in case hx_build_error X of
               Some e \<Rightarrow> (Err (RequestBuild e), [], ctx, st)
             | None \<Rightarrow>
                let attempt = H3Send body h3_alt remaining_total;
                    h3_outcome = (case Option.bind remaining_total (hx_expires X) of
                                    Some elapsed \<Rightarrow> Inl (for_total_timeout elapsed)
                                  | None \<Rightarrow> connector body h3_alt)
                in case h3_outcome of
                     Inr resp \<Rightarrow>
                       (Ok resp, [attempt], ctx,
                        (case alt_origin_from_url u of
                           None \<Rightarrow> st
                         | Some origin \<Rightarrow> st\<lparr>hs_suppressor := record_success (hs_suppressor st) origin\<rparr>))
                   | Inl d \<Rightarrow>
                       (let st1 = note_h3_failure u h3_alt d (hx_now X) st
                        in if is_explicit then (Err (hd_error d), [attempt], ctx, st1)
                           else case fallback_body of
                                  Some fb_body \<Rightarrow>
                                    if safe_for_fallback d \<and> hd_failure_class d \<noteq> OtherFailure
                                    then (hx_hyper X fb_body remaining_total, [attempt, HyperSend fb_body remaining_total],
                                          map_option rfc_clear ctx,
                                          st1\<lparr>hs_metrics := (hs_metrics st1)\<lparr>am_fallback := am_fallback (hs_metrics st1) + 1\<rparr>\<rparr>)
                                    else (Err (hd_error d), [attempt], ctx, st1)
                                | None \<Rightarrow> (Err (hd_error d), [attempt], ctx, st1))))"

subsection \<open>Properties of the routes\<close>

text \<open>
  C20: HTTP/3 is the route of a request only when none of the other routes applies:
  it never bypasses a proxy, a Unix-domain socket, a custom dialer, a pinned
  address or an overridden server name; and without a direct permission it is taken
  only with a discovered alternative.
\<close>

theorem h3_never_bypasses:
  assumes "decide_h3_use policy u has_uds has_proxy has_sni has_custom now st = ((use_h3, alt), st')"
    and "select_route has_uds has_custom has_direct has_proxy has_sni use_h3 = H3"
  shows "\<not> has_uds \<and> \<not> has_custom \<and> \<not> has_direct \<and> \<not> has_proxy \<and> \<not> has_sni
    \<and> (policy = Http3Only \<and> alt = None \<or> policy = Auto True \<and> url_scheme u = ''https'' \<and> alt \<noteq> None)"
proof -
  have "use_h3 \<and> \<not> has_uds \<and> \<not> has_custom \<and> \<not> has_direct \<and> \<not> has_proxy \<and> \<not> has_sni"
    using assms(2) by (simp add: select_route_def split: if_splits)
  with assms(1) show ?thesis
    by (auto simp: decide_h3_use_def h3_discovered_target_def split: http_version_policy.splits if_splits prod.splits option.splits)
qed

definition example_url :: url where
  "example_url = \<lparr>url_scheme = ''https'', url_username = [], url_password = None, url_host_str = Some ''a'',
     url_port = None, url_port_or_known_default = Some 443, url_path = ''/'', url_query = None,
     url_fragment = None, url_as_str = ''https://a/''\<rparr>"

definition h3_state_new :: h3_state where
  "h3_state_new = \<lparr>hs_cache = alt_cache_new, hs_suppressor = [],
     hs_metrics = \<lparr>am_expired = 0, am_suppressed = 0, am_learned = 0, am_cleared = 0, am_rejected = 0, am_fallback = 0\<rparr>\<rparr>"

lemma example_url_facts [simp]:
  "url_scheme example_url = ''https''" "alt_origin_from_url example_url = Some example_origin"
  by (simp_all add: example_url_def alt_origin_from_url_def alt_origin_new_def example_origin_def trim_def trim_start_def
      trim_end_matches_def is_ascii_white_def to_ascii_lowercase_def ascii_lower_def Let_def)

lemma h3_state_new_facts [simp]:
  "hs_cache h3_state_new = alt_cache_new" "hs_suppressor h3_state_new = []"
  by (simp_all add: h3_state_new_def)

theorem h3_never_bypasses_witness:
  "select_route False False False False False (fst (fst (decide_h3_use Http3Only example_url False False False False 0 h3_state_new))) = H3
   \<and> (Http3Only = Http3Only \<and> (None :: h3_target option) = None \<or> Http3Only = Auto True)"
  using h3_never_bypasses [of Http3Only example_url False False False False 0 h3_state_new True None h3_state_new False]
  by (simp add: decide_h3_use_def select_route_def)

subsection \<open>Properties of discovery\<close>

lemma get_fresh_counted_fst: "fst (fst (get_fresh_counted c k now)) = fst (get_fresh c k now)"
  by (simp add: get_fresh_counted_def get_fresh_def split: option.splits)

lemma get_fresh_Some:
  "fst (get_fresh c k now) = Some e \<longleftrightarrow> map_of (ac_entries c) k = Some e \<and> now < ae_expires_at e"
  by (auto simp: get_fresh_def alt_is_expired_def split: option.splits)

lemma discovered_iff:
  "(\<exists>st'. h3_discovered_target u now st = (Some t, st')) \<longleftrightarrow>
     url_scheme u = ''https'' \<and>
     (\<exists>k e. alt_origin_from_url u = Some k \<and> map_of (ac_entries (hs_cache st)) k = Some e \<and> now < ae_expires_at e
        \<and> \<not> is_suppressed (hs_suppressor st) k (ae_generation e) now
        \<and> t = \<lparr>ht_alt_host = ae_host e, ht_alt_port = ae_port e, ht_sni_host = ao_host k,
               ht_generation = Some (ae_generation e)\<rparr>)"
  by (auto simp: h3_discovered_target_def get_fresh_counted_def alt_is_expired_def Let_def
      split: if_splits option.splits prod.splits)

text \<open>
  A response teaches the client nothing about alternatives unless it came over
  \<open>https\<close>, without a proxy, on a learnable route, with certificate and host name
  verified: the cache and the suppression are then left as they are.
\<close>

lemma untrusted_response_ignored:
  assumes "url_scheme u \<noteq> ''https'' \<or> via_proxy \<or> \<not> learnable \<or> tp_error tls
     \<or> (\<exists>c n. tp_config tls = Some (c, n) \<and> \<not> (c \<and> n))"
  shows "hs_cache (learn_altsvc_from_response H tls u h via_proxy learnable now st) = hs_cache st
    \<and> hs_suppressor (learn_altsvc_from_response H tls u h via_proxy learnable now st) = hs_suppressor st"
  using assms by (auto simp: learn_altsvc_from_response_def count_rejected_def trustworthy_def)

text \<open>
  An advertisement that changes the endpoint of an origin puts the new one into
  service at once: whatever failures of other generations the suppressor holds, the
  next discovery returns it.
\<close>

lemma new_endpoint_in_service:
  assumes "url_scheme u = ''https''" "tp_error tls = False" "\<forall>c n. tp_config tls = Some (c, n) \<longrightarrow> c \<and> n"
    and "alt_origin_from_url u = Some k" "alt_svc_values H h \<noteq> []"
    and "learn_counted (hs_cache st) k (alt_svc_values H h) now = ((Learned, b), c')"
    and "\<forall>e0 e. map_of (ac_entries (hs_cache st)) k = Some e0 \<longrightarrow> map_of (ac_entries c') k = Some e
           \<longrightarrow> ae_host e0 \<noteq> ae_host e \<or> ae_port e0 \<noteq> ae_port e"
    and "\<forall>s. map_of (hs_suppressor st) k = Some s \<longrightarrow> su_generation s \<noteq> ac_sequence (hs_cache st)"
  shows "\<exists>t st'. h3_discovered_target u now (learn_altsvc_from_response H tls u h False True now st) = (Some t, st')
    \<and> ht_sni_host t = ao_host k"
proof -
  from learn_served [OF assms(6)] assms(7) obtain e where
    e: "fst (get_fresh c' k now) = Some e" "ae_generation e = ac_sequence (hs_cache st)"
    by (auto simp: get_fresh_Some split: option.splits if_splits)
  have m: "map_of (ac_entries c') k = Some e" "now < ae_expires_at e" using e(1) by (simp_all add: get_fresh_Some)
  have g: "get_fresh c' k now = (Some e, c')" using m by (simp add: get_fresh_def alt_is_expired_def)
  let ?st = "learn_altsvc_from_response H tls u h False True now st"
  have "trustworthy \<lparr>lc_is_https = True, lc_tls_authenticated = (case tp_config tls of Some (cert, name) \<Rightarrow> cert \<and> name | None \<Rightarrow> True),
      lc_via_proxy = False, lc_origin_matches_hop = True\<rparr>"
    using assms(3) by (auto simp: trustworthy_def split: option.splits)
  then have st: "hs_cache ?st = c'" "hs_suppressor ?st = note_new_advertisement (hs_suppressor st) k (ae_generation e)"
    using assms(1-6) g by (simp_all add: learn_altsvc_from_response_def Let_def)
  have "\<not> is_suppressed (hs_suppressor ?st) k (ae_generation e) now"
    using assms(8) unfolding st(2) e(2)
    by (auto simp: is_suppressed_def note_new_advertisement_def AList.delete_conv' split: option.splits)
  with m st(1) assms(1,4)
  have "\<exists>st'. h3_discovered_target u now ?st = (Some \<lparr>ht_alt_host = ae_host e, ht_alt_port = ae_port e,
      ht_sni_host = ao_host k, ht_generation = Some (ae_generation e)\<rparr>, st')"
    by (subst discovered_iff) auto
  then obtain st' where "h3_discovered_target u now ?st = (Some \<lparr>ht_alt_host = ae_host e, ht_alt_port = ae_port e,
      ht_sni_host = ao_host k, ht_generation = Some (ae_generation e)\<rparr>, st')" ..
  moreover have "ht_sni_host \<lparr>ht_alt_host = ae_host e, ht_alt_port = ae_port e,
      ht_sni_host = ao_host k, ht_generation = Some (ae_generation e)\<rparr> = ao_host k" by simp
  ultimately show ?thesis by blast
qed

lemma example_values: "alt_svc_values list_http [(''alt-svc'', example_advert)] = [example_advert]"
proof -
  have sh: "show_nat 60 = ''60''" by code_simp
  have "to_ascii_lowercase ''alt-svc'' = ''alt-svc''" by code_simp
  then show ?thesis
    unfolding example_advert_def render_alternative_def sh
    by (simp add: alt_svc_values_def list_http_def map_filter_simps)
qed

subsection \<open>Properties of the attempt\<close>

lemma fallback_body_Some:
  "fallback_body_of e b = Some b' \<longleftrightarrow> \<not> e \<and> b' = b \<and> (\<forall>s n. b \<noteq> BodyStream s n)"
  by (cases b) (auto simp: fallback_body_of_def)

lemma fallback_body_explicit [simp]: "fallback_body_of True b = None"
  by (simp add: fallback_body_of_def)

lemma send_h3_route_explicit:
  "send_h3_route X u b None tot ctx st = (r, l, ctx', st') \<Longrightarrow>
     length l \<le> 1 \<and> ctx' = ctx \<and> hs_cache st' = hs_cache st \<and> hs_metrics st' = hs_metrics st
     \<and> (hs_suppressor st' = hs_suppressor st
        \<or> (\<exists>k resp. alt_origin_from_url u = Some k \<and> r = Ok resp \<and> hs_suppressor st' = AList.delete k (hs_suppressor st)))"
  by (auto simp: send_h3_route_def note_h3_failure_def suppressible_def record_success_def Let_def
      split: option.splits sum.splits)

text \<open>
  A client told to use HTTP/3 only makes one attempt at most, never falls back
  and never suppresses the route: the state changes only in that a success removes
  the failures recorded for the origin.
\<close>

lemma http3_only_strict:
  assumes "send_h3_route X u b None tot ctx st = (r, l, ctx', st')"
  shows "length l \<le> 1 \<and> ctx' = ctx \<and> hs_cache st' = hs_cache st \<and> hs_metrics st' = hs_metrics st
     \<and> (hs_suppressor st' = hs_suppressor st
        \<or> (\<exists>k resp. alt_origin_from_url u = Some k \<and> r = Ok resp \<and> hs_suppressor st' = AList.delete k (hs_suppressor st)))"
  by (rule send_h3_route_explicit [OF assms])

definition h3_outcome_of :: "'h h3_world_env \<Rightarrow> request_body \<Rightarrow> h3_target option \<Rightarrow> duration option
    \<Rightarrow> (h3_dispatch_error + 'h response) option" where
  "h3_outcome_of X b alt tot =
     (case hx_connector X of
        None \<Rightarrow> None
      | Some c \<Rightarrow> if hx_build_error X \<noteq> None then None
                  else Some (case Option.bind tot (hx_expires X) of
                               Some t \<Rightarrow> Inl (for_total_timeout t) | None \<Rightarrow> c b alt))"

text \<open>
  C21: a request is sent a second time, over the standard transport, only after a
  discovered HTTP/3 attempt failed before the body was committed, for a reason that
  concerns the route, and with a body that can be replayed; the second attempt sends
  the same body, and there is never a third.
\<close>

theorem fallback_only_when_safe:
  assumes "send_h3_route X u b alt tot ctx st = (r, l, ctx', st')" "length l \<noteq> 0" "l \<noteq> [H3Send b alt tot]"
  shows "l = [H3Send b alt tot, HyperSend b tot] \<and> alt \<noteq> None \<and> (\<forall>s n. b \<noteq> BodyStream s n)
    \<and> r = hx_hyper X b tot \<and> ctx' = map_option rfc_clear ctx
    \<and> (\<exists>d. h3_outcome_of X b alt tot = Some (Inl d) \<and> \<not> hd_body_committed d \<and> hd_failure_class d \<noteq> OtherFailure)"
  using assms
  by (auto simp: send_h3_route_def h3_outcome_of_def fallback_body_Some safe_for_fallback_def Let_def
      split: option.splits sum.splits if_splits)

text \<open>
  A run of the attempt: an alternative on port 443 that refuses the connection, and a
  standard transport that answers.
\<close>

definition example_target :: h3_target where
  "example_target = \<lparr>ht_alt_host = ''a'', ht_alt_port = 443, ht_sni_host = ''a'', ht_generation = Some 1\<rparr>"

definition example_refused :: h3_dispatch_error where
  "example_refused = h3_dispatch_error_new (H3Connect ''refused'') False False"

definition example_answer :: "header_list response" where
  "example_answer = \<lparr>rs_status = 200, rs_url = example_url, rs_headers = [], rs_history = []\<rparr>"

definition example_world :: "header_list h3_world_env" where
  "example_world = \<lparr>hx_connector = Some (\<lambda>_ _. Inl example_refused), hx_expires = (\<lambda>_. None), hx_build_error = None,
     hx_hyper = (\<lambda>_ _. Ok example_answer), hx_now = 0\<rparr>"

definition example_known :: h3_state where
  "example_known = h3_state_new\<lparr>hs_cache := snd (learn_counted alt_cache_new example_origin [example_advert] 0)\<rparr>"

lemma example_world_facts [simp]:
  "hx_connector example_world = Some (\<lambda>_ _. Inl example_refused)" "hx_expires example_world = (\<lambda>_. None)"
  "hx_build_error example_world = None" "hx_hyper example_world = (\<lambda>_ _. Ok example_answer)" "hx_now example_world = 0"
  by (simp_all add: example_world_def)

lemma example_refused_facts [simp]:
  "hd_body_committed example_refused = False" "hd_draining example_refused = False"
  "hd_failure_class example_refused = Connectivity" "hd_error example_refused = H3Connect ''refused''"
  by (simp_all add: example_refused_def h3_dispatch_error_new_def failure_class_from_error_def)

lemma example_outcome [simp]: "h3_outcome_of example_world b alt tot = Some (Inl example_refused)"
  by (cases tot) (simp_all add: h3_outcome_of_def)

lemma example_fallback:
  "send_h3_route example_world u (BodyBytes x) (Some t) tot ctx st =
     (Ok example_answer, [H3Send (BodyBytes x) (Some t) tot, HyperSend (BodyBytes x) tot], map_option rfc_clear ctx,
      let st1 = note_h3_failure u (Some t) example_refused 0 st
      in st1\<lparr>hs_metrics := (hs_metrics st1)\<lparr>am_fallback := am_fallback (hs_metrics st1) + 1\<rparr>\<rparr>)"
  by (cases tot) (simp_all add: send_h3_route_def fallback_body_of_def safe_for_fallback_def Let_def)

theorem fallback_only_when_safe_witness:
  "fst (snd (send_h3_route example_world example_url (BodyBytes ''x'') (Some example_target) (Some 9) None h3_state_new))
     = [H3Send (BodyBytes ''x'') (Some example_target) (Some 9), HyperSend (BodyBytes ''x'') (Some 9)]"
  using fallback_only_when_safe [OF example_fallback] by (simp add: example_fallback)

lemma record_failure_entry:
  "\<exists>e. map_of (record_failure s k g now r) k = Some e \<and> su_generation e = g \<and> now + int (from_secs_d 5) \<le> su_until e"
proof -
  have base: "from_secs_d 5 \<le> suppression_backoff w" for w
    by (simp add: suppression_backoff_eq suppression_base_def suppression_max_def time_defs)
  have "from_secs_d 5 \<le> min suppression_base suppression_max"
    by (simp add: suppression_base_def suppression_max_def time_defs)
  with base show ?thesis
    by (cases "map_of s k") (auto simp: record_failure_def update_conv)
qed

lemma note_h3_failure_suppresses:
  assumes "suppressible False d" "alt_origin_from_url u = Some k" "ht_generation a = Some g"
    and "now < at + int (from_secs_d 5)"
  shows "is_suppressed (hs_suppressor (note_h3_failure u (Some a) d at st)) k g now"
proof -
  obtain e where "map_of (record_failure (hs_suppressor st) k g at (hd_failure_class d)) k = Some e"
    "su_generation e = g" "at + int (from_secs_d 5) \<le> su_until e"
    using record_failure_entry [of "hs_suppressor st" k g at "hd_failure_class d"] by blast
  with assms show ?thesis by (simp add: note_h3_failure_def is_suppressed_def)
qed

lemma send_h3_route_failed_state:
  assumes "send_h3_route X u b (Some a) tot ctx st = (r, l, ctx', st')" "h3_outcome_of X b (Some a) tot = Some (Inl d)"
  shows "hs_cache st' = hs_cache st \<and> hs_suppressor st' = hs_suppressor (note_h3_failure u (Some a) d (hx_now X) st)"
proof -
  have "hs_cache (note_h3_failure u (Some a) d (hx_now X) st) = hs_cache st"
    by (simp add: note_h3_failure_def Let_def split: option.splits)
  with assms show ?thesis
    by (auto simp: send_h3_route_def h3_outcome_of_def Let_def split: option.splits sum.splits if_splits)
qed

lemma discovered_state:
  "h3_discovered_target u now st = (Some a, st') \<Longrightarrow> hs_cache st' = hs_cache st \<and> hs_suppressor st' = hs_suppressor st"
  by (auto simp: h3_discovered_target_def get_fresh_counted_def Let_def split: if_splits option.splits prod.splits)

text \<open>
  When a discovered alternative fails for a reason that concerns the route, it is
  not discovered again in the five seconds that follow, however the request itself
  ended.
\<close>

lemma broken_route_avoided:
  assumes "h3_discovered_target u t0 st = (Some a, st0)"
    and "send_h3_route X u b (Some a) tot ctx st0 = (r, l, ctx', st')"
    and "h3_outcome_of X b (Some a) tot = Some (Inl d)" "\<not> hd_draining d" "hd_failure_class d \<noteq> OtherFailure"
    and "now < hx_now X + int (from_secs_d 5)"
  shows "fst (h3_discovered_target u now st') = None"
proof (rule ccontr)
  assume "fst (h3_discovered_target u now st') \<noteq> None"
  then obtain t st'' where "h3_discovered_target u now st' = (Some t, st'')"
    by (cases "h3_discovered_target u now st'") auto
  then have "\<exists>st''. h3_discovered_target u now st' = (Some t, st'')" by blast
  then obtain k e where k: "alt_origin_from_url u = Some k" "map_of (ac_entries (hs_cache st')) k = Some e"
    "\<not> is_suppressed (hs_suppressor st') k (ae_generation e) now"
    by (auto simp: discovered_iff)
  have "\<exists>st0. h3_discovered_target u t0 st = (Some a, st0)" using assms(1) by blast
  then obtain e0 where e0: "map_of (ac_entries (hs_cache st)) k = Some e0" "ht_generation a = Some (ae_generation e0)"
    using k(1) by (auto simp: discovered_iff)
  note st = send_h3_route_failed_state [OF assms(2,3)]
  have "e0 = e" using e0(1) k(2) st discovered_state [OF assms(1)] by simp
  moreover have "is_suppressed (hs_suppressor st') k (ae_generation e0) now"
    using st note_h3_failure_suppresses [of d u k a "ae_generation e0" now "hx_now X" st0] assms(4,5,6) k(1) e0(2)
    by (simp add: suppressible_def)
  ultimately show False using k(3) by simp
qed

lemma example_origin_host: "ao_host example_origin = ''a''"
  by (simp add: example_origin_def)

lemma example_discovered: "h3_discovered_target example_url 0 example_known = (Some example_target, example_known)"
  by (simp add: h3_discovered_target_def get_fresh_counted_def alt_is_expired_def Let_def is_suppressed_def
      example_known_def example_learn example_target_def example_origin_host)

end
