(* ===== verification/Pool.thy ===== *)
theory Pool
  imports Url_Origin Errors
begin

text \<open>
  The concurrency pool (\<open>pool.rs\<close>) and the limits a client is configured with
  (\<open>limits.rs\<close>).  Requests acquire permits of a global and of a per-origin
  semaphore; the per-origin semaphores live in a table that is swept of idle
  entries.  The operations of several requests interleave at every access to
  shared state, so \<open>acquire\<close> is cut into the steps between those accesses
  and a request is a task that remembers where it stands.
\<close>

subsection \<open>Limits\<close>

record limits =
  lm_max_connections :: "nat option"
  lm_max_connections_per_host :: "nat option"
  lm_max_in_flight_requests :: "nat option"
  lm_max_in_flight_requests_per_origin :: "nat option"
  lm_max_idle_connections :: "nat option"
  lm_max_idle_connections_per_host :: "nat option"
  lm_keepalive_expiry :: "duration option"

record pool_config =
  pf_max_idle_connections :: "nat option"
  pf_max_idle_connections_per_host :: "nat option"
  pf_max_connections :: "nat option"
  pf_max_connections_per_host :: "nat option"
  pf_max_in_flight_requests :: "nat option"
  pf_max_in_flight_requests_per_origin :: "nat option"
  pf_idle_timeout :: "duration option"

fun opt_or :: "'a option \<Rightarrow> 'a option \<Rightarrow> 'a option" where
  "opt_or (Some x) _ = Some x"
| "opt_or None y = y"

definition limits_effective_max_in_flight :: "limits \<Rightarrow> nat option" where
  "limits_effective_max_in_flight l = opt_or (lm_max_in_flight_requests l) (lm_max_connections l)"

definition limits_effective_per_origin :: "limits \<Rightarrow> nat option" where
  "limits_effective_per_origin l =
     opt_or (lm_max_in_flight_requests_per_origin l) (lm_max_connections_per_host l)"

definition limits_native :: limits where
  "limits_native = \<lparr>lm_max_connections = None, lm_max_connections_per_host = None, lm_max_in_flight_requests = None,
     lm_max_in_flight_requests_per_origin = None, lm_max_idle_connections = None,
     lm_max_idle_connections_per_host = None, lm_keepalive_expiry = None\<rparr>"

definition limits_compat :: limits where
  "limits_compat = \<lparr>lm_max_connections = Some 100, lm_max_connections_per_host = None, lm_max_in_flight_requests = None,
     lm_max_in_flight_requests_per_origin = None, lm_max_idle_connections = Some 20,
     lm_max_idle_connections_per_host = Some 20, lm_keepalive_expiry = Some (from_secs_d 5)\<rparr>"

definition pool_config_of_limits :: "limits \<Rightarrow> pool_config" where
  "pool_config_of_limits l =
     \<lparr>pf_max_idle_connections = lm_max_idle_connections l,
      pf_max_idle_connections_per_host = lm_max_idle_connections_per_host l,
      pf_max_connections = lm_max_connections l,
      pf_max_connections_per_host = lm_max_connections_per_host l,
      pf_max_in_flight_requests = lm_max_in_flight_requests l,
      pf_max_in_flight_requests_per_origin = lm_max_in_flight_requests_per_origin l,
      pf_idle_timeout = lm_keepalive_expiry l\<rparr>"

definition effective_max_in_flight :: "pool_config \<Rightarrow> nat option" where
  "effective_max_in_flight c = opt_or (pf_max_in_flight_requests c) (pf_max_connections c)"

definition effective_per_origin :: "pool_config \<Rightarrow> nat option" where
  "effective_per_origin c = opt_or (pf_max_in_flight_requests_per_origin c) (pf_max_connections_per_host c)"

definition effective_max_idle_per_host :: "pool_config \<Rightarrow> nat option" where
  "effective_max_idle_per_host c = opt_or (pf_max_idle_connections_per_host c) (pf_max_idle_connections c)"

subsection \<open>Origin keys\<close>

record origin_key =
  ok_scheme :: string
  ok_host :: string
  ok_port :: nat
  ok_proxy_host :: "string option"
  ok_proxy_port :: "nat option"
  ok_proxy_scheme :: "string option"
  ok_is_tunnel :: bool

definition key_from_components :: "string \<Rightarrow> string \<Rightarrow> nat \<Rightarrow> origin_key" where
  "key_from_components scheme host port =
     \<lparr>ok_scheme = scheme, ok_host = to_ascii_lowercase host, ok_port = port, ok_proxy_host = None,
      ok_proxy_port = None, ok_proxy_scheme = None, ok_is_tunnel = False\<rparr>"

definition key_from_origin :: "http_origin \<Rightarrow> origin_key" where
  "key_from_origin og = key_from_components (scheme_as_str (ho_scheme og)) (ho_host og) (ho_port og)"

definition key_from_url :: "url \<Rightarrow> origin_key option" where
  "key_from_url u = map_option key_from_origin (from_url u)"

definition key_from_url_with_proxy_scheme ::
  "url \<Rightarrow> string option \<Rightarrow> nat option \<Rightarrow> string option \<Rightarrow> bool \<Rightarrow> origin_key option" where
  "key_from_url_with_proxy_scheme u proxy_host proxy_port proxy_scheme is_tunnel =
     map_option (\<lambda>key. key\<lparr>ok_proxy_host := proxy_host, ok_proxy_port := proxy_port,
                           ok_proxy_scheme := proxy_scheme, ok_is_tunnel := is_tunnel\<rparr>) (key_from_url u)"

definition show_key :: "origin_key \<Rightarrow> string" where
  "show_key k =
     ok_scheme k @ ''://'' @ ok_host k @ '':'' @ show_nat (ok_port k) @
     (case (ok_proxy_host k, ok_proxy_port k) of
        (Some ph, Some pp) \<Rightarrow>
          (case ok_proxy_scheme k of
             Some scheme \<Rightarrow> '' via '' @ scheme @ ''://'' @ ph @ '':'' @ show_nat pp
           | None \<Rightarrow> '' via '' @ ph @ '':'' @ show_nat pp)
          @ (if ok_is_tunnel k then '' tunnel'' else [])
      | _ \<Rightarrow> [])"

subsection \<open>The semaphore library\<close>

text \<open>
  The semaphores are tokio's.  What the pool relies on is the locale below: a
  semaphore hands out as many permits as it was created with, and one that is not
  closed refuses only when none is left.
\<close>

record 's sem_lib =
  sm_new :: "nat \<Rightarrow> 's"
  sm_available :: "'s \<Rightarrow> nat"
  sm_closed :: "'s \<Rightarrow> bool"
  sm_try_acquire :: "'s \<Rightarrow> 's option"
  sm_release :: "'s \<Rightarrow> 's"

locale semaphore =
  fixes S :: "'s sem_lib"
  assumes available_new: "sm_available S (sm_new S n) = n"
    and closed_new: "\<not> sm_closed S (sm_new S n)"
    and acquire_some: "sm_try_acquire S s = Some s' \<Longrightarrow>
          sm_available S s = Suc (sm_available S s') \<and> sm_closed S s' = sm_closed S s"
    and acquire_none: "sm_try_acquire S s = None \<Longrightarrow> \<not> sm_closed S s \<Longrightarrow> sm_available S s = 0"
    and release_available: "sm_available S (sm_release S s) = Suc (sm_available S s)"
    and release_closed: "sm_closed S (sm_release S s) = sm_closed S s"

definition counter_sem :: "nat sem_lib" where
  "counter_sem = \<lparr>sm_new = (\<lambda>n. n), sm_available = (\<lambda>n. n), sm_closed = (\<lambda>_. False),
     sm_try_acquire = (\<lambda>n. case n of 0 \<Rightarrow> None | Suc k \<Rightarrow> Some k), sm_release = Suc\<rparr>"

interpretation counter: semaphore counter_sem
  by unfold_locales (auto simp: counter_sem_def split: nat.splits)

subsection \<open>The state of the pool\<close>

text \<open>
  A per-origin semaphore is shared: the table, the waiter guards and the permits
  all point to it.  It lives in a store, and a pointer is its index there; an
  entry that left the table stays in the store as long as anything points to it.
  The number of waiters is a number of futures that exist, far below \<open>2^64\<close>.
\<close>

record 's per_origin_semaphore =
  en_semaphore :: 's
  en_waiters :: nat

record pool_guard =
  pg_origin :: "origin_key option"
  pg_global_permit :: bool
  pg_origin_permit :: "nat option"
  pg_read_timeout :: "duration option"
  pg_total_deadline :: "instant option"

definition pool_guard_new :: "origin_key option \<Rightarrow> bool \<Rightarrow> nat option \<Rightarrow> pool_guard" where
  "pool_guard_new origin global_permit origin_permit =
     \<lparr>pg_origin = origin, pg_global_permit = global_permit, pg_origin_permit = origin_permit,
      pg_read_timeout = None, pg_total_deadline = None\<rparr>"

definition set_response_timeouts :: "duration option \<Rightarrow> instant option \<Rightarrow> pool_guard \<Rightarrow> pool_guard" where
  "set_response_timeouts read_timeout total_deadline g =
     g\<lparr>pg_read_timeout := read_timeout, pg_total_deadline := total_deadline\<rparr>"

definition has_response_state :: "pool_guard \<Rightarrow> bool" where
  "has_response_state g \<longleftrightarrow>
     pg_global_permit g \<or> pg_origin_permit g \<noteq> None \<or> pg_read_timeout g \<noteq> None \<or> pg_total_deadline g \<noteq> None"

text \<open>
  Where a request stands.  It can be cancelled while it waits for a semaphore,
  also when the semaphore has already assigned it a permit that it has not yet
  been polled for.
\<close>

datatype acquire_end = Cancelled | Failed error | Released

datatype acquire_pc =
    TryGlobal
  | WaitGlobal
  | AssignedGlobal
  | Lookup
  | LookupSlow
  | Sweep "origin_key list"
  | SweepWaiters origin_key "origin_key list"
  | Insert
  | Registered nat
  | WaitOrigin nat
  | AssignedOrigin nat
  | Granted nat
  | Holding pool_guard
  | Releasing nat
  | Finished acquire_end

record task =
  tk_origin :: "origin_key option"
  tk_pc :: acquire_pc
  tk_global :: bool
  tk_waited :: bool

record 's pool_state =
  ps_global :: "'s option"
  ps_table :: "(origin_key, nat) hash_map"
  ps_entries :: "'s per_origin_semaphore list"
  ps_writer :: "nat option"
  ps_poisoned :: bool
  ps_config :: pool_config
  ps_waits :: "64 word"
  ps_cancellations :: "64 word"
  ps_tasks :: "task list"

definition pool_new :: "'s sem_lib \<Rightarrow> pool_config \<Rightarrow> 's pool_state" where
  "pool_new S config =
     \<lparr>ps_global = map_option (sm_new S) (effective_max_in_flight config),
      ps_table = [], ps_entries = [], ps_writer = None, ps_poisoned = False, ps_config = config,
      ps_waits = 0, ps_cancellations = 0, ps_tasks = []\<rparr>"

definition needs_origin_key :: "'s pool_state \<Rightarrow> bool" where
  "needs_origin_key st \<longleftrightarrow> effective_per_origin (ps_config st) \<noteq> None"

definition set_task :: "nat \<Rightarrow> task \<Rightarrow> 's pool_state \<Rightarrow> 's pool_state" where
  "set_task i t st = st\<lparr>ps_tasks := (ps_tasks st)[i := t]\<rparr>"

definition set_entry :: "nat \<Rightarrow> 's per_origin_semaphore \<Rightarrow> 's pool_state \<Rightarrow> 's pool_state" where
  "set_entry a e st = st\<lparr>ps_entries := (ps_entries st)[a := e]\<rparr>"

definition count_cancellation :: "'s pool_state \<Rightarrow> 's pool_state" where
  "count_cancellation st = st\<lparr>ps_cancellations := ps_cancellations st + 1\<rparr>"

subsection \<open>Permits and waiters\<close>

definition drop_global_permit :: "'s sem_lib \<Rightarrow> bool \<Rightarrow> 's pool_state \<Rightarrow> 's pool_state" where
  "drop_global_permit S held st = (if held then st\<lparr>ps_global := map_option (sm_release S) (ps_global st)\<rparr> else st)"

definition drop_origin_permit :: "'s sem_lib \<Rightarrow> nat \<Rightarrow> 's pool_state \<Rightarrow> 's pool_state" where
  "drop_origin_permit S a st =
     (let e = ps_entries st ! a in set_entry a (e\<lparr>en_semaphore := sm_release S (en_semaphore e)\<rparr>) st)"

definition add_waiter :: "nat \<Rightarrow> 's pool_state \<Rightarrow> 's pool_state" where
  "add_waiter a st = (let e = ps_entries st ! a in set_entry a (e\<lparr>en_waiters := en_waiters e + 1\<rparr>) st)"

definition drop_waiter_guard :: "nat \<Rightarrow> 's pool_state \<Rightarrow> 's pool_state" where
  "drop_waiter_guard a st = (let e = ps_entries st ! a in set_entry a (e\<lparr>en_waiters := en_waiters e - 1\<rparr>) st)"

subsection \<open>The steps of \<open>acquire\<close>\<close>

definition try_global :: "'s sem_lib \<Rightarrow> nat \<Rightarrow> task \<Rightarrow> 's pool_state \<Rightarrow> 's pool_state" where
  "try_global S i t st =
     (case ps_global st of
        None \<Rightarrow> set_task i (t\<lparr>tk_pc := Lookup\<rparr>) st
      | Some s \<Rightarrow>
          (case sm_try_acquire S s of
             Some s' \<Rightarrow> set_task i (t\<lparr>tk_global := True, tk_pc := Lookup\<rparr>) (st\<lparr>ps_global := Some s'\<rparr>)
           | None \<Rightarrow> set_task i (t\<lparr>tk_pc := WaitGlobal\<rparr>) st))"

definition await_global :: "'s sem_lib \<Rightarrow> nat \<Rightarrow> task \<Rightarrow> 's pool_state \<Rightarrow> 's pool_state option" where
  "await_global S i t st =
     (case ps_global st of
        None \<Rightarrow> None
      | Some s \<Rightarrow>
          if sm_closed S s
          then Some (set_task i (t\<lparr>tk_pc := Finished (Failed (Pool ''global semaphore is closed''))\<rparr>) (count_cancellation st))
          else map_option
                 (\<lambda>s'. set_task i (t\<lparr>tk_global := True, tk_pc := AssignedGlobal\<rparr>) (st\<lparr>ps_global := Some s'\<rparr>))
                 (sm_try_acquire S s))"

definition resume_global :: "nat \<Rightarrow> task \<Rightarrow> 's pool_state \<Rightarrow> 's pool_state" where
  "resume_global i t st = set_task i (t\<lparr>tk_waited := True, tk_pc := Lookup\<rparr>) st"

text \<open>The last part: count the wait, build the guard.\<close>

definition finish :: "nat \<Rightarrow> task \<Rightarrow> nat option \<Rightarrow> 's pool_state \<Rightarrow> 's pool_state" where
  "finish i t permit st =
     set_task i (t\<lparr>tk_pc := Holding (pool_guard_new (if permit \<noteq> None then tk_origin t else None) (tk_global t) permit)\<rparr>)
       (if tk_waited t then st\<lparr>ps_waits := ps_waits st + 1\<rparr> else st)"

definition poisoned_failure :: "'s sem_lib \<Rightarrow> nat \<Rightarrow> task \<Rightarrow> 's pool_state \<Rightarrow> 's pool_state" where
  "poisoned_failure S i t st =
     set_task i (t\<lparr>tk_pc := Finished (Failed (Pool ''per-origin table lock poisoned'')), tk_global := False\<rparr>)
       (drop_global_permit S (tk_global t) (count_cancellation st))"

definition register :: "nat \<Rightarrow> task \<Rightarrow> nat \<Rightarrow> 's pool_state \<Rightarrow> 's pool_state" where
  "register i t a st = set_task i (t\<lparr>tk_pc := Registered a\<rparr>) (add_waiter a st)"

definition sweep_threshold :: "nat \<Rightarrow> nat" where
  "sweep_threshold max_per_origin = max (min (max_per_origin * 16) (2 ^ 64 - 1)) 64"

text \<open>The fast path under the read lock; without a limit or an origin there is nothing to look up.\<close>

definition lookup :: "'s sem_lib \<Rightarrow> nat \<Rightarrow> task \<Rightarrow> 's pool_state \<Rightarrow> 's pool_state option" where
  "lookup S i t st =
     (case (effective_per_origin (ps_config st), tk_origin t) of
        (Some m, Some k) \<Rightarrow>
          if ps_writer st \<noteq> None then None
          else if ps_poisoned st then Some (poisoned_failure S i t st)
          else (case map_of (ps_table st) k of
                  Some a \<Rightarrow> Some (register i t a st)
                | None \<Rightarrow> Some (set_task i (t\<lparr>tk_pc := LookupSlow\<rparr>) st))
      | _ \<Rightarrow> Some (finish i t None st))"

text \<open>The slow path takes the write lock and keeps it until the entry is inserted.\<close>

definition lookup_slow :: "'s sem_lib \<Rightarrow> nat \<Rightarrow> task \<Rightarrow> nat \<Rightarrow> origin_key \<Rightarrow> 's pool_state \<Rightarrow> 's pool_state option" where
  "lookup_slow S i t m k st =
     (if ps_writer st \<noteq> None then None
      else if ps_poisoned st then Some (poisoned_failure S i t st)
      else case map_of (ps_table st) k of
             Some a \<Rightarrow> Some (register i t a st)
           | None \<Rightarrow>
               Some (set_task i (t\<lparr>tk_pc := if length (ps_table st) > sweep_threshold m
                                           then Sweep (map fst (ps_table st)) else Insert\<rparr>)
                       (st\<lparr>ps_writer := Some i\<rparr>)))"

text \<open>The sweep reads the free permits of an entry and then, in a second access, its waiters.\<close>

definition sweep :: "'s sem_lib \<Rightarrow> nat \<Rightarrow> task \<Rightarrow> nat \<Rightarrow> origin_key list \<Rightarrow> 's pool_state \<Rightarrow> 's pool_state" where
  "sweep S i t m keys st =
     (case keys of
        [] \<Rightarrow> set_task i (t\<lparr>tk_pc := Insert\<rparr>) st
      | k # ks \<Rightarrow>
          (case map_of (ps_table st) k of
             None \<Rightarrow> set_task i (t\<lparr>tk_pc := Sweep ks\<rparr>) st
           | Some a \<Rightarrow>
               if sm_available S (en_semaphore (ps_entries st ! a)) < m
               then set_task i (t\<lparr>tk_pc := Sweep ks\<rparr>) st
               else set_task i (t\<lparr>tk_pc := SweepWaiters k ks\<rparr>) st))"

definition sweep_waiters :: "nat \<Rightarrow> task \<Rightarrow> origin_key \<Rightarrow> origin_key list \<Rightarrow> 's pool_state \<Rightarrow> 's pool_state" where
  "sweep_waiters i t k ks st =
     set_task i (t\<lparr>tk_pc := Sweep ks\<rparr>)
       (case map_of (ps_table st) k of
          None \<Rightarrow> st
        | Some a \<Rightarrow>
            if en_waiters (ps_entries st ! a) > 0 then st
            else st\<lparr>ps_table := AList.delete k (ps_table st)\<rparr>)"

definition insert_entry :: "'s sem_lib \<Rightarrow> nat \<Rightarrow> task \<Rightarrow> nat \<Rightarrow> origin_key \<Rightarrow> 's pool_state \<Rightarrow> 's pool_state" where
  "insert_entry S i t m k st =
     (let a = length (ps_entries st)
      in set_task i (t\<lparr>tk_pc := Registered a\<rparr>)
           (st\<lparr>ps_entries := ps_entries st @ [\<lparr>en_semaphore = sm_new S m, en_waiters = 1\<rparr>],
               ps_table := AList.update k a (ps_table st), ps_writer := None\<rparr>))"

definition try_origin :: "'s sem_lib \<Rightarrow> nat \<Rightarrow> task \<Rightarrow> nat \<Rightarrow> 's pool_state \<Rightarrow> 's pool_state" where
  "try_origin S i t a st =
     (let e = ps_entries st ! a
      in case sm_try_acquire S (en_semaphore e) of
           Some s' \<Rightarrow> set_task i (t\<lparr>tk_pc := Granted a\<rparr>) (set_entry a (e\<lparr>en_semaphore := s'\<rparr>) st)
         | None \<Rightarrow> set_task i (t\<lparr>tk_pc := WaitOrigin a\<rparr>) st)"

definition await_origin :: "'s sem_lib \<Rightarrow> nat \<Rightarrow> task \<Rightarrow> nat \<Rightarrow> 's pool_state \<Rightarrow> 's pool_state option" where
  "await_origin S i t a st =
     (let e = ps_entries st ! a
      in if sm_closed S (en_semaphore e)
         then Some (set_task i (t\<lparr>tk_pc := Finished (Failed (Pool ''per-origin semaphore is closed'')), tk_global := False\<rparr>)
                      (drop_global_permit S (tk_global t) (count_cancellation (drop_waiter_guard a st))))
         else map_option
                (\<lambda>s'. set_task i (t\<lparr>tk_pc := AssignedOrigin a\<rparr>) (set_entry a (e\<lparr>en_semaphore := s'\<rparr>) st))
                (sm_try_acquire S (en_semaphore e)))"

definition take_waiter :: "nat \<Rightarrow> task \<Rightarrow> nat \<Rightarrow> 's pool_state \<Rightarrow> 's pool_state" where
  "take_waiter i t a st = finish i t (Some a) (drop_waiter_guard a st)"

text \<open>Dropping the guard drops its fields in order.\<close>

definition drop_guard :: "'s sem_lib \<Rightarrow> nat \<Rightarrow> task \<Rightarrow> pool_guard \<Rightarrow> 's pool_state \<Rightarrow> 's pool_state" where
  "drop_guard S i t g st =
     set_task i (t\<lparr>tk_global := False,
                   tk_pc := case pg_origin_permit g of Some a \<Rightarrow> Releasing a | None \<Rightarrow> Finished Released\<rparr>)
       (drop_global_permit S (pg_global_permit g) st)"

definition drop_second :: "'s sem_lib \<Rightarrow> nat \<Rightarrow> task \<Rightarrow> nat \<Rightarrow> 's pool_state \<Rightarrow> 's pool_state" where
  "drop_second S i t a st = set_task i (t\<lparr>tk_pc := Finished Released\<rparr>) (drop_origin_permit S a st)"

definition with_origin ::
  "task \<Rightarrow> 's pool_state \<Rightarrow> (nat \<Rightarrow> origin_key \<Rightarrow> 's pool_state option) \<Rightarrow> 's pool_state option" where
  "with_origin t st f =
     (case (effective_per_origin (ps_config st), tk_origin t) of (Some m, Some k) \<Rightarrow> f m k | _ \<Rightarrow> None)"

fun advance_pc :: "'s sem_lib \<Rightarrow> nat \<Rightarrow> task \<Rightarrow> acquire_pc \<Rightarrow> 's pool_state \<Rightarrow> 's pool_state option" where
  "advance_pc S i t TryGlobal st = Some (try_global S i t st)"
| "advance_pc S i t WaitGlobal st = await_global S i t st"
| "advance_pc S i t AssignedGlobal st = Some (resume_global i t st)"
| "advance_pc S i t Lookup st = lookup S i t st"
| "advance_pc S i t LookupSlow st = with_origin t st (\<lambda>m k. lookup_slow S i t m k st)"
| "advance_pc S i t (Sweep ks) st = with_origin t st (\<lambda>m k. Some (sweep S i t m ks st))"
| "advance_pc S i t (SweepWaiters k ks) st = Some (sweep_waiters i t k ks st)"
| "advance_pc S i t Insert st = with_origin t st (\<lambda>m k. Some (insert_entry S i t m k st))"
| "advance_pc S i t (Registered a) st = Some (try_origin S i t a st)"
| "advance_pc S i t (WaitOrigin a) st = await_origin S i t a st"
| "advance_pc S i t (AssignedOrigin a) st = Some (take_waiter i (t\<lparr>tk_waited := True\<rparr>) a st)"
| "advance_pc S i t (Granted a) st = Some (take_waiter i t a st)"
| "advance_pc S i t (Holding g) st = None"
| "advance_pc S i t (Releasing a) st = Some (drop_second S i t a st)"
| "advance_pc S i t (Finished e) st = None"

text \<open>Cancelling drops what the future owns: the permits and the waiter guard.\<close>

fun cancel_pc :: "'s sem_lib \<Rightarrow> nat \<Rightarrow> task \<Rightarrow> acquire_pc \<Rightarrow> 's pool_state \<Rightarrow> 's pool_state option" where
  "cancel_pc S i t TryGlobal st = Some (set_task i (t\<lparr>tk_pc := Finished Cancelled\<rparr>) st)"
| "cancel_pc S i t WaitGlobal st = Some (set_task i (t\<lparr>tk_pc := Finished Cancelled\<rparr>) st)"
| "cancel_pc S i t AssignedGlobal st =
     Some (set_task i (t\<lparr>tk_pc := Finished Cancelled, tk_global := False\<rparr>) (drop_global_permit S (tk_global t) st))"
| "cancel_pc S i t (WaitOrigin a) st =
     Some (set_task i (t\<lparr>tk_pc := Finished Cancelled, tk_global := False\<rparr>)
             (drop_global_permit S (tk_global t) (drop_waiter_guard a st)))"
| "cancel_pc S i t (AssignedOrigin a) st =
     Some (set_task i (t\<lparr>tk_pc := Finished Cancelled, tk_global := False\<rparr>)
             (drop_global_permit S (tk_global t) (drop_waiter_guard a (drop_origin_permit S a st))))"
| "cancel_pc S i t _ st = None"

definition spawn :: "origin_key option \<Rightarrow> 's pool_state \<Rightarrow> 's pool_state" where
  "spawn origin st =
     st\<lparr>ps_tasks := ps_tasks st @ [\<lparr>tk_origin = origin, tk_pc = TryGlobal, tk_global = False, tk_waited = False\<rparr>]\<rparr>"

text \<open>What a scheduler may do next.\<close>

datatype event = Spawn "origin_key option" | Advance nat | Cancel nat | DropGuard nat

fun pool_event :: "'s sem_lib \<Rightarrow> event \<Rightarrow> 's pool_state \<Rightarrow> 's pool_state option" where
  "pool_event S (Spawn origin) st = Some (spawn origin st)"
| "pool_event S (Advance i) st =
     (if i < length (ps_tasks st) then let t = ps_tasks st ! i in advance_pc S i t (tk_pc t) st else None)"
| "pool_event S (Cancel i) st =
     (if i < length (ps_tasks st) then let t = ps_tasks st ! i in cancel_pc S i t (tk_pc t) st else None)"
| "pool_event S (DropGuard i) st =
     (if i < length (ps_tasks st)
      then let t = ps_tasks st ! i in (case tk_pc t of Holding g \<Rightarrow> Some (drop_guard S i t g st) | _ \<Rightarrow> None)
      else None)"

inductive pool_reachable :: "'s sem_lib \<Rightarrow> pool_config \<Rightarrow> 's pool_state \<Rightarrow> bool" for S config where
  pool_init: "pool_reachable S config (pool_new S config)"
| pool_next: "pool_reachable S config st \<Longrightarrow> pool_event S e st = Some st' \<Longrightarrow> pool_reachable S config st'"

end
