(* ===== verification/Pool_Props.thy ===== *)
theory Pool_Props
  imports Pool
begin

text \<open>
  The accounting of the pool: under every interleaving of its requests, the permits
  of a semaphore and its waiter count always match what the requests hold.
\<close>

subsection \<open>Who holds what\<close>

definition holds_global :: "task \<Rightarrow> bool" where
  "holds_global t =
     (case tk_pc t of
        TryGlobal \<Rightarrow> False | WaitGlobal \<Rightarrow> False | Releasing _ \<Rightarrow> False | Finished _ \<Rightarrow> False
      | Holding g \<Rightarrow> pg_global_permit g
      | _ \<Rightarrow> tk_global t)"

definition holds_origin :: "nat \<Rightarrow> task \<Rightarrow> bool" where
  "holds_origin a t =
     (case tk_pc t of
        AssignedOrigin b \<Rightarrow> b = a | Granted b \<Rightarrow> b = a | Releasing b \<Rightarrow> b = a
      | Holding g \<Rightarrow> pg_origin_permit g = Some a
      | _ \<Rightarrow> False)"

definition waits_on :: "nat \<Rightarrow> task \<Rightarrow> bool" where
  "waits_on a t =
     (case tk_pc t of
        Registered b \<Rightarrow> b = a | WaitOrigin b \<Rightarrow> b = a | AssignedOrigin b \<Rightarrow> b = a | Granted b \<Rightarrow> b = a
      | _ \<Rightarrow> False)"

definition engaged :: "nat \<Rightarrow> task \<Rightarrow> bool" where
  "engaged a t \<longleftrightarrow> holds_origin a t \<or> waits_on a t"

definition cnt :: "('a \<Rightarrow> bool) \<Rightarrow> 'a list \<Rightarrow> nat" where
  "cnt P xs = length (filter P xs)"

definition in_flight :: "origin_key \<Rightarrow> 's pool_state \<Rightarrow> nat" where
  "in_flight k st = cnt (\<lambda>t. tk_origin t = Some k \<and> (case tk_pc t of Holding _ \<Rightarrow> True | _ \<Rightarrow> False)) (ps_tasks st)"

lemma cnt_append [simp]: "cnt P (xs @ ys) = cnt P xs + cnt P ys"
  by (simp add: cnt_def)

lemma cnt_single [simp]: "cnt P [x] = of_bool (P x)" "cnt P [] = 0"
  by (simp_all add: cnt_def)

lemma cnt_update: "i < length xs \<Longrightarrow> cnt P (xs[i := v]) + of_bool (P (xs ! i)) = cnt P xs + of_bool (P v)"
proof (induction xs arbitrary: i)
  case (Cons x xs)
  then show ?case by (cases i) (auto simp: cnt_def)
qed simp

lemma cnt_pos_iff: "0 < cnt P xs \<longleftrightarrow> (\<exists>i<length xs. P (xs ! i))"
  by (simp add: cnt_def filter_empty_conv Bex_def) (metis in_set_conv_nth)

lemma cnt_zero: "cnt P xs = 0 \<Longrightarrow> i < length xs \<Longrightarrow> \<not> P (xs ! i)"
  using cnt_pos_iff [of P xs] by auto

lemma cnt_mono: "(\<And>x. x \<in> set xs \<Longrightarrow> P x \<Longrightarrow> Q x) \<Longrightarrow> cnt P xs \<le> cnt Q xs"
  by (induction xs) (auto simp: cnt_def)

lemma cnt_none: "(\<And>x. x \<in> set xs \<Longrightarrow> \<not> P x) \<Longrightarrow> cnt P xs = 0"
  by (simp add: cnt_def filter_empty_conv)

lemmas holds_defs = holds_global_def holds_origin_def waits_on_def engaged_def

lemmas op_defs = set_task_def set_entry_def count_cancellation_def drop_global_permit_def drop_origin_permit_def
  add_waiter_def drop_waiter_guard_def pool_guard_new_def finish_def Let_def

lemmas step_defs = try_global_def await_global_def resume_global_def poisoned_failure_def register_def
  lookup_def lookup_slow_def sweep_def sweep_waiters_def try_origin_def await_origin_def take_waiter_def
  drop_guard_def drop_second_def with_origin_def

subsection \<open>The accounting invariant\<close>

definition entry_acct :: "'s sem_lib \<Rightarrow> 's pool_state \<Rightarrow> nat \<Rightarrow> bool" where
  "entry_acct S st a \<longleftrightarrow>
     \<not> sm_closed S (en_semaphore (ps_entries st ! a))
     \<and> Some (sm_available S (en_semaphore (ps_entries st ! a)) + cnt (holds_origin a) (ps_tasks st))
         = effective_per_origin (ps_config st)
     \<and> en_waiters (ps_entries st ! a) = cnt (waits_on a) (ps_tasks st)"

definition global_acct :: "'s sem_lib \<Rightarrow> 's pool_state \<Rightarrow> bool" where
  "global_acct S st \<longleftrightarrow>
     (case ps_global st of
        None \<Rightarrow> effective_max_in_flight (ps_config st) = None
      | Some s \<Rightarrow> \<not> sm_closed S s
          \<and> effective_max_in_flight (ps_config st) = Some (sm_available S s + cnt holds_global (ps_tasks st)))"

definition pool_inv :: "'s sem_lib \<Rightarrow> pool_config \<Rightarrow> 's pool_state \<Rightarrow> bool" where
  "pool_inv S config st \<longleftrightarrow>
     ps_config st = config \<and> \<not> ps_poisoned st \<and> global_acct S st
     \<and> (\<forall>a<length (ps_entries st). entry_acct S st a)
     \<and> (\<forall>i<length (ps_tasks st). \<forall>a. engaged a (ps_tasks st ! i) \<longrightarrow> a < length (ps_entries st))
     \<and> (\<forall>k a. map_of (ps_table st) k = Some a \<longrightarrow> a < length (ps_entries st))"

text \<open>
  One step moves permits and waiters between a task and the shared state; what it
  takes from one side it gives to the other.
\<close>

definition transfer :: "'s sem_lib \<Rightarrow> 's pool_state \<Rightarrow> nat \<Rightarrow> task \<Rightarrow> 's pool_state \<Rightarrow> bool" where
  "transfer S st i t' st' \<longleftrightarrow>
     (let t = ps_tasks st ! i
      in i < length (ps_tasks st) \<and> ps_tasks st' = (ps_tasks st)[i := t'] \<and> tk_origin t' = tk_origin t
         \<and> ps_config st' = ps_config st \<and> ps_poisoned st' = ps_poisoned st
         \<and> length (ps_entries st') = length (ps_entries st)
         \<and> (\<forall>k a. map_of (ps_table st') k = Some a \<longrightarrow> map_of (ps_table st) k = Some a)
         \<and> rel_option (\<lambda>s s'. sm_closed S s' = sm_closed S s
              \<and> sm_available S s' + of_bool (holds_global t') = sm_available S s + of_bool (holds_global t))
             (ps_global st) (ps_global st')
         \<and> (\<forall>a<length (ps_entries st). let e = ps_entries st ! a; e' = ps_entries st' ! a in
              sm_closed S (en_semaphore e') = sm_closed S (en_semaphore e)
              \<and> sm_available S (en_semaphore e') + of_bool (holds_origin a t')
                  = sm_available S (en_semaphore e) + of_bool (holds_origin a t)
              \<and> en_waiters e' + of_bool (waits_on a t) = en_waiters e + of_bool (waits_on a t'))
         \<and> (\<forall>a. engaged a t' \<longrightarrow> a < length (ps_entries st)))"

lemma transfer_inv:
  assumes "pool_inv S config st" "transfer S st i t' st'"
  shows "pool_inv S config st'"
proof -
  let ?t = "ps_tasks st ! i"
  have i: "i < length (ps_tasks st)" and ts: "ps_tasks st' = (ps_tasks st)[i := t']"
    and cfg: "ps_config st' = ps_config st" "ps_poisoned st' = ps_poisoned st"
    and len: "length (ps_entries st') = length (ps_entries st)"
    using assms(2) by (simp_all add: transfer_def Let_def)
  note upd = cnt_update [OF i, of _ t', folded ts]
  have "global_acct S st'"
    using assms upd [of holds_global]
    by (cases "ps_global st"; cases "ps_global st'")
      (auto simp: pool_inv_def global_acct_def transfer_def Let_def cfg)
  moreover have "entry_acct S st' a" if "a < length (ps_entries st)" for a
  proof -
    let ?e = "ps_entries st ! a" and ?e' = "ps_entries st' ! a"
    have old: "\<not> sm_closed S (en_semaphore ?e)" "en_waiters ?e = cnt (waits_on a) (ps_tasks st)"
      "effective_per_origin (ps_config st) = Some (sm_available S (en_semaphore ?e) + cnt (holds_origin a) (ps_tasks st))"
      using assms(1) that by (simp_all add: pool_inv_def entry_acct_def)
    have new: "sm_closed S (en_semaphore ?e') = sm_closed S (en_semaphore ?e)"
      "sm_available S (en_semaphore ?e') + of_bool (holds_origin a t')
         = sm_available S (en_semaphore ?e) + of_bool (holds_origin a ?t)"
      "en_waiters ?e' + of_bool (waits_on a ?t) = en_waiters ?e + of_bool (waits_on a t')"
      using assms(2) that by (simp_all add: transfer_def Let_def)
    have "sm_available S (en_semaphore ?e') + cnt (holds_origin a) (ps_tasks st')
        = sm_available S (en_semaphore ?e) + cnt (holds_origin a) (ps_tasks st)"
      using new(2) upd [of "holds_origin a"] by linarith
    moreover have "en_waiters ?e' = cnt (waits_on a) (ps_tasks st')"
      using new(3) old(2) upd [of "waits_on a"] by linarith
    ultimately show ?thesis using old new(1) by (simp add: entry_acct_def cfg)
  qed
  moreover have "a < length (ps_entries st')" if "j < length (ps_tasks st')" "engaged a (ps_tasks st' ! j)" for j a
    using assms that i by (cases "j = i") (auto simp: pool_inv_def transfer_def Let_def)
  moreover have "a < length (ps_entries st')" if "map_of (ps_table st') k = Some a" for k a
  proof -
    have "map_of (ps_table st) k = Some a" using assms(2) that unfolding transfer_def Let_def by blast
    with assms(1) len show ?thesis by (auto simp: pool_inv_def)
  qed
  ultimately show ?thesis using assms(1) cfg len by (simp add: pool_inv_def)
qed

lemma waiter_present:
  assumes "pool_inv S config st" "i < length (ps_tasks st)" "waits_on a (ps_tasks st ! i)"
  shows "0 < en_waiters (ps_entries st ! a)"
  using assms cnt_pos_iff [of "waits_on a" "ps_tasks st"]
  by (auto simp: pool_inv_def entry_acct_def engaged_def)

lemma drop_global_fields [simp]:
  "ps_tasks (drop_global_permit S h st) = ps_tasks st" "ps_entries (drop_global_permit S h st) = ps_entries st"
  "ps_table (drop_global_permit S h st) = ps_table st" "ps_config (drop_global_permit S h st) = ps_config st"
  "ps_poisoned (drop_global_permit S h st) = ps_poisoned st" "ps_writer (drop_global_permit S h st) = ps_writer st"
  "ps_global (drop_global_permit S h st) = (if h then map_option (sm_release S) (ps_global st) else ps_global st)"
  by (simp_all add: drop_global_permit_def)

context semaphore
begin

lemma pool_new_inv: "pool_inv S config (pool_new S config)"
  by (cases "effective_max_in_flight config")
    (simp_all add: pool_inv_def pool_new_def global_acct_def available_new closed_new)

lemma spawn_inv:
  assumes "pool_inv S config st" shows "pool_inv S config (spawn origin st)"
proof -
  have [simp]: "\<not> holds_global \<lparr>tk_origin = origin, tk_pc = TryGlobal, tk_global = False, tk_waited = False\<rparr>"
    "\<not> holds_origin a \<lparr>tk_origin = origin, tk_pc = TryGlobal, tk_global = False, tk_waited = False\<rparr>"
    "\<not> waits_on a \<lparr>tk_origin = origin, tk_pc = TryGlobal, tk_global = False, tk_waited = False\<rparr>" for a
    by (simp_all add: holds_defs)
  show ?thesis
    using assms
    by (auto simp: pool_inv_def spawn_def global_acct_def entry_acct_def engaged_def nth_append less_Suc_eq
        split: option.splits if_splits)
qed

lemma quiet_transfer:
  assumes "i < length (ps_tasks st)" "ps_tasks st' = (ps_tasks st)[i := t']" "tk_origin t' = tk_origin (ps_tasks st ! i)"
    and "ps_config st' = ps_config st" "ps_poisoned st' = ps_poisoned st" "ps_entries st' = ps_entries st"
    and "ps_global st' = ps_global st"
    and "\<And>k a. map_of (ps_table st') k = Some a \<Longrightarrow> map_of (ps_table st) k = Some a"
    and "holds_global t' = holds_global (ps_tasks st ! i)"
    and "\<And>a. holds_origin a t' = holds_origin a (ps_tasks st ! i)" "\<And>a. waits_on a t' = waits_on a (ps_tasks st ! i)"
    and "\<And>a. engaged a t' \<Longrightarrow> a < length (ps_entries st)"
  shows "transfer S st i t' st'"
  using assms by (auto simp: transfer_def Let_def intro: option.rel_refl)

lemma entry_transfer:
  assumes "i < length (ps_tasks st)" "ps_tasks st' = (ps_tasks st)[i := t']" "tk_origin t' = tk_origin (ps_tasks st ! i)"
    and "ps_config st' = ps_config st" "ps_poisoned st' = ps_poisoned st" "ps_table st' = ps_table st"
    and "ps_entries st' = (ps_entries st)[b := ps_entries st' ! b]" "b < length (ps_entries st)"
    and "rel_option (\<lambda>s s'. sm_closed S s' = sm_closed S s
              \<and> sm_available S s' + of_bool (holds_global t') = sm_available S s + of_bool (holds_global (ps_tasks st ! i)))
             (ps_global st) (ps_global st')"
    and "sm_closed S (en_semaphore (ps_entries st' ! b)) = sm_closed S (en_semaphore (ps_entries st ! b))"
    and "sm_available S (en_semaphore (ps_entries st' ! b)) + of_bool (holds_origin b t')
           = sm_available S (en_semaphore (ps_entries st ! b)) + of_bool (holds_origin b (ps_tasks st ! i))"
    and "en_waiters (ps_entries st' ! b) + of_bool (waits_on b (ps_tasks st ! i)) = en_waiters (ps_entries st ! b) + of_bool (waits_on b t')"
    and "\<And>a. a \<noteq> b \<Longrightarrow> \<not> engaged a t'" "\<And>a. a \<noteq> b \<Longrightarrow> \<not> engaged a (ps_tasks st ! i)"
  shows "transfer S st i t' st'"
proof -
  have "sm_closed S (en_semaphore (ps_entries st' ! a)) = sm_closed S (en_semaphore (ps_entries st ! a))
      \<and> sm_available S (en_semaphore (ps_entries st' ! a)) + of_bool (holds_origin a t')
          = sm_available S (en_semaphore (ps_entries st ! a)) + of_bool (holds_origin a (ps_tasks st ! i))
      \<and> en_waiters (ps_entries st' ! a) + of_bool (waits_on a (ps_tasks st ! i))
          = en_waiters (ps_entries st ! a) + of_bool (waits_on a t')" if "a < length (ps_entries st)" for a
  proof (cases "a = b")
    case False
    then have "ps_entries st' ! a = ps_entries st ! a" using assms(7) by (metis nth_list_update_neq)
    with False show ?thesis using assms(13,14) by (simp add: engaged_def)
  qed (use assms(10-12) in simp)
  moreover have "a < length (ps_entries st)" if "engaged a t'" for a
    using that assms(8,13) by (cases "a = b") auto
  moreover have "length (ps_entries st') = length (ps_entries st)" using assms(7) by (metis length_list_update)
  ultimately show ?thesis using assms(1-6,9) by (simp add: transfer_def Let_def)
qed

lemma global_transfer:
  assumes "i < length (ps_tasks st)" "ps_tasks st' = (ps_tasks st)[i := t']" "tk_origin t' = tk_origin (ps_tasks st ! i)"
    and "ps_config st' = ps_config st" "ps_poisoned st' = ps_poisoned st" "ps_entries st' = ps_entries st"
    and "ps_table st' = ps_table st"
    and "rel_option (\<lambda>s s'. sm_closed S s' = sm_closed S s
              \<and> sm_available S s' + of_bool (holds_global t') = sm_available S s + of_bool (holds_global (ps_tasks st ! i)))
             (ps_global st) (ps_global st')"
    and "\<And>a. holds_origin a t' = holds_origin a (ps_tasks st ! i)" "\<And>a. waits_on a t' = waits_on a (ps_tasks st ! i)"
    and "\<And>a. engaged a t' \<Longrightarrow> a < length (ps_entries st)"
  shows "transfer S st i t' st'"
  using assms by (auto simp: transfer_def Let_def)

lemma try_global_transfer:
  assumes "i < length (ps_tasks st)" "tk_pc (ps_tasks st ! i) = TryGlobal"
  shows "transfer S st i (ps_tasks (try_global S i (ps_tasks st ! i) st) ! i) (try_global S i (ps_tasks st ! i) st)"
proof (cases "ps_global st")
  case None
  then show ?thesis using assms
    by (intro global_transfer) (auto simp: try_global_def set_task_def holds_defs)
next
  case (Some s)
  show ?thesis
  proof (cases "sm_try_acquire S s")
    case None
    then show ?thesis using assms Some
      by (intro quiet_transfer) (auto simp: try_global_def set_task_def holds_defs)
  next
    case (Some s')
    then show ?thesis using assms \<open>ps_global st = Some s\<close> acquire_some [OF Some]
      by (intro global_transfer) (auto simp: try_global_def set_task_def holds_defs)
  qed
qed

lemma await_global_transfer:
  assumes "i < length (ps_tasks st)" "tk_pc (ps_tasks st ! i) = WaitGlobal"
    and "await_global S i (ps_tasks st ! i) st = Some st'"
  shows "transfer S st i (ps_tasks st' ! i) st'"
proof -
  obtain s where g: "ps_global st = Some s" using assms(3) by (auto simp: await_global_def split: option.splits)
  show ?thesis
  proof (cases "sm_closed S s")
    case True
    with assms g show ?thesis
      by (intro quiet_transfer) (auto simp: await_global_def set_task_def count_cancellation_def holds_defs)
  next
    case False
    with assms(3) g obtain s' where s': "sm_try_acquire S s = Some s'" by (auto simp: await_global_def)
    with assms g False acquire_some [OF s'] show ?thesis
      by (intro global_transfer) (auto simp: await_global_def set_task_def holds_defs)
  qed
qed

lemma finish_transfer:
  assumes "i < length (ps_tasks st)" "tk_pc (ps_tasks st ! i) = Lookup"
  shows "transfer S st i (ps_tasks (finish i (ps_tasks st ! i) None st) ! i) (finish i (ps_tasks st ! i) None st)"
  using assms by (intro quiet_transfer) (auto simp: finish_def set_task_def pool_guard_new_def holds_defs split: if_splits)

lemma register_transfer:
  assumes "i < length (ps_tasks st)" "tk_pc (ps_tasks st ! i) \<in> {Lookup, LookupSlow}" "b < length (ps_entries st)"
  shows "transfer S st i (ps_tasks (register i (ps_tasks st ! i) b st) ! i) (register i (ps_tasks st ! i) b st)"
  using assms
  by (intro entry_transfer [where b = b])
    (auto simp: register_def add_waiter_def set_task_def set_entry_def Let_def holds_defs intro!: option.rel_refl)

lemma lookup_transfer:
  assumes "pool_inv S config st" "i < length (ps_tasks st)" "tk_pc (ps_tasks st ! i) = Lookup"
    and "lookup S i (ps_tasks st ! i) st = Some st'"
  shows "transfer S st i (ps_tasks st' ! i) st'"
proof (cases "map_option (\<lambda>m. the (tk_origin (ps_tasks st ! i))) (effective_per_origin (ps_config st)) = None
    \<or> tk_origin (ps_tasks st ! i) = None")
  case True
  then have "st' = finish i (ps_tasks st ! i) None st" using assms(4) by (auto simp: lookup_def split: option.splits)
  with finish_transfer [OF assms(2,3)] show ?thesis by simp
next
  case False
  then obtain m k where mk: "effective_per_origin (ps_config st) = Some m" "tk_origin (ps_tasks st ! i) = Some k" by auto
  have np: "\<not> ps_poisoned st" using assms(1) by (simp add: pool_inv_def)
  show ?thesis
  proof (cases "map_of (ps_table st) k")
    case None
    with assms mk np show ?thesis
      by (intro quiet_transfer) (auto simp: lookup_def set_task_def holds_defs split: if_splits)
  next
    case (Some b)
    then have "b < length (ps_entries st)" using assms(1) by (auto simp: pool_inv_def)
    with register_transfer [OF assms(2), of b] Some assms(3,4) mk np show ?thesis
      by (auto simp: lookup_def split: if_splits)
  qed
qed

lemma lookup_slow_transfer:
  assumes "pool_inv S config st" "i < length (ps_tasks st)" "tk_pc (ps_tasks st ! i) = LookupSlow"
    and "lookup_slow S i (ps_tasks st ! i) m k st = Some st'"
  shows "transfer S st i (ps_tasks st' ! i) st'"
proof -
  have np: "\<not> ps_poisoned st" using assms(1) by (simp add: pool_inv_def)
  show ?thesis
  proof (cases "map_of (ps_table st) k")
    case None
    with assms np show ?thesis
      by (intro quiet_transfer) (auto simp: lookup_slow_def set_task_def holds_defs split: if_splits)
  next
    case (Some b)
    then have "b < length (ps_entries st)" using assms(1) by (auto simp: pool_inv_def)
    with register_transfer [OF assms(2), of b] Some assms(3,4) np show ?thesis
      by (auto simp: lookup_slow_def split: if_splits)
  qed
qed

lemma sweep_transfer:
  assumes "i < length (ps_tasks st)" "tk_pc (ps_tasks st ! i) = Sweep ks"
  shows "transfer S st i (ps_tasks (sweep S i (ps_tasks st ! i) m ks st) ! i) (sweep S i (ps_tasks st ! i) m ks st)"
proof -
  have "\<exists>pc. sweep S i (ps_tasks st ! i) m ks st = set_task i ((ps_tasks st ! i)\<lparr>tk_pc := pc\<rparr>) st
      \<and> (pc = Insert \<or> (\<exists>ks'. pc = Sweep ks') \<or> (\<exists>k ks'. pc = SweepWaiters k ks'))"
    by (auto simp: sweep_def split: list.splits option.splits)
  then obtain pc where pc: "sweep S i (ps_tasks st ! i) m ks st = set_task i ((ps_tasks st ! i)\<lparr>tk_pc := pc\<rparr>) st"
    "pc = Insert \<or> (\<exists>ks'. pc = Sweep ks') \<or> (\<exists>k ks'. pc = SweepWaiters k ks')" by blast
  from pc(2) assms show ?thesis
    unfolding pc(1) by (intro quiet_transfer) (auto simp: set_task_def holds_defs)
qed

lemma sweep_waiters_transfer:
  assumes "i < length (ps_tasks st)" "tk_pc (ps_tasks st ! i) = SweepWaiters k ks"
  shows "transfer S st i (ps_tasks (sweep_waiters i (ps_tasks st ! i) k ks st) ! i) (sweep_waiters i (ps_tasks st ! i) k ks st)"
  using assms
  by (intro quiet_transfer)
    (auto simp: sweep_waiters_def set_task_def holds_defs AList.delete_conv' split: option.splits if_splits)

lemma try_origin_transfer:
  assumes "i < length (ps_tasks st)" "tk_pc (ps_tasks st ! i) = Registered a" "a < length (ps_entries st)"
  shows "transfer S st i (ps_tasks (try_origin S i (ps_tasks st ! i) a st) ! i) (try_origin S i (ps_tasks st ! i) a st)"
proof (cases "sm_try_acquire S (en_semaphore (ps_entries st ! a))")
  case None
  with assms show ?thesis
    by (intro quiet_transfer) (auto simp: try_origin_def set_task_def holds_defs)
next
  case (Some s')
  with assms acquire_some [OF Some] show ?thesis
    by (intro entry_transfer [where b = a])
      (auto simp: try_origin_def set_task_def set_entry_def Let_def holds_defs intro!: option.rel_refl)
qed

lemma await_origin_transfer:
  assumes "i < length (ps_tasks st)" "tk_pc (ps_tasks st ! i) = WaitOrigin a" "a < length (ps_entries st)"
    and "\<not> sm_closed S (en_semaphore (ps_entries st ! a))" "await_origin S i (ps_tasks st ! i) a st = Some st'"
  shows "transfer S st i (ps_tasks st' ! i) st'"
proof -
  obtain s' where s': "sm_try_acquire S (en_semaphore (ps_entries st ! a)) = Some s'"
    using assms(4,5) by (auto simp: await_origin_def Let_def)
  with assms acquire_some [OF s'] show ?thesis
    by (intro entry_transfer [where b = a])
      (auto simp: await_origin_def set_task_def set_entry_def Let_def holds_defs intro!: option.rel_refl)
qed

lemma take_waiter_transfer:
  assumes "i < length (ps_tasks st)" "tk_pc (ps_tasks st ! i) \<in> {Granted a, AssignedOrigin a}" "a < length (ps_entries st)"
    and "0 < en_waiters (ps_entries st ! a)"
    and "t = ps_tasks st ! i \<or> t = (ps_tasks st ! i)\<lparr>tk_waited := True\<rparr>"
  shows "transfer S st i (ps_tasks (take_waiter i t a st) ! i) (take_waiter i t a st)"
  using assms
  by (intro entry_transfer [where b = a])
    (auto simp: take_waiter_def finish_def drop_waiter_guard_def pool_guard_new_def set_task_def set_entry_def Let_def
      holds_defs intro!: option.rel_refl)

lemma drop_second_transfer:
  assumes "i < length (ps_tasks st)" "tk_pc (ps_tasks st ! i) = Releasing a" "a < length (ps_entries st)"
  shows "transfer S st i (ps_tasks (drop_second S i (ps_tasks st ! i) a st) ! i) (drop_second S i (ps_tasks st ! i) a st)"
  using assms
  by (intro entry_transfer [where b = a])
    (auto simp: drop_second_def drop_origin_permit_def set_task_def set_entry_def Let_def
      holds_defs release_available release_closed intro!: option.rel_refl)

lemma engaged_address:
  assumes "pool_inv S config st" "i < length (ps_tasks st)" "engaged a (ps_tasks st ! i)"
  shows "a < length (ps_entries st)"
  using assms by (auto simp: pool_inv_def)

lemma advance_transfer:
  assumes inv: "pool_inv S config st" and i: "i < length (ps_tasks st)"
    and step: "advance_pc S i (ps_tasks st ! i) (tk_pc (ps_tasks st ! i)) st = Some st'"
    and no: "tk_pc (ps_tasks st ! i) \<noteq> Insert"
  shows "transfer S st i (ps_tasks st' ! i) st'"
proof -
  have adr: "a < length (ps_entries st)" if "waits_on a (ps_tasks st ! i) \<or> holds_origin a (ps_tasks st ! i)" for a
    using engaged_address [OF inv i, of a] that by (auto simp: engaged_def)
  show ?thesis
  proof (cases "tk_pc (ps_tasks st ! i)")
    case TryGlobal
    with step try_global_transfer [OF i] show ?thesis by auto
  next
    case WaitGlobal
    with step await_global_transfer [OF i] show ?thesis by auto
  next
    case AssignedGlobal
    with step i show ?thesis
      by (intro quiet_transfer) (auto simp: resume_global_def set_task_def holds_defs)
  next
    case Lookup
    with step lookup_transfer [OF inv i] show ?thesis by auto
  next
    case LookupSlow
    with step lookup_slow_transfer [OF inv i] show ?thesis by (auto simp: with_origin_def split: option.splits)
  next
    case (Sweep ks)
    with step sweep_transfer [OF i] show ?thesis by (auto simp: with_origin_def split: option.splits)
  next
    case (SweepWaiters k ks)
    with step sweep_waiters_transfer [OF i] show ?thesis by auto
  next
    case (Registered a)
    with step try_origin_transfer [OF i] adr [of a] show ?thesis by (auto simp: holds_defs)
  next
    case (WaitOrigin a)
    with adr [of a] inv have "a < length (ps_entries st)" "\<not> sm_closed S (en_semaphore (ps_entries st ! a))"
      by (auto simp: holds_defs pool_inv_def entry_acct_def)
    with step await_origin_transfer [OF i] WaitOrigin show ?thesis by auto
  next
    case (AssignedOrigin a)
    with step take_waiter_transfer [OF i, of a "(ps_tasks st ! i)\<lparr>tk_waited := True\<rparr>"] adr [of a]
      waiter_present [OF inv i, of a] show ?thesis by (auto simp: holds_defs)
  next
    case (Granted a)
    with step take_waiter_transfer [OF i, of a "ps_tasks st ! i"] adr [of a]
      waiter_present [OF inv i, of a] show ?thesis by (auto simp: holds_defs)
  next
    case (Releasing a)
    with step drop_second_transfer [OF i] adr [of a] show ?thesis by (auto simp: holds_defs)
  qed (use no step in simp_all)
qed

lemma cancel_transfer:
  assumes inv: "pool_inv S config st" and i: "i < length (ps_tasks st)"
    and step: "cancel_pc S i (ps_tasks st ! i) (tk_pc (ps_tasks st ! i)) st = Some st'"
  shows "transfer S st i (ps_tasks st' ! i) st'"
proof (cases "tk_pc (ps_tasks st ! i)")
  case (WaitOrigin a)
  then have w: "waits_on a (ps_tasks st ! i)" by (simp add: holds_defs)
  with engaged_address [OF inv i, of a] waiter_present [OF inv i w] WaitOrigin step i show ?thesis
    by (intro entry_transfer [where b = a]; cases "ps_global st")
      (auto simp: drop_waiter_guard_def set_task_def set_entry_def Let_def
        holds_defs release_available release_closed)
next
  case (AssignedOrigin a)
  then have w: "waits_on a (ps_tasks st ! i)" by (simp add: holds_defs)
  with engaged_address [OF inv i, of a] waiter_present [OF inv i w] AssignedOrigin step i show ?thesis
    by (intro entry_transfer [where b = a]; cases "ps_global st")
      (auto simp: drop_waiter_guard_def drop_origin_permit_def set_task_def set_entry_def Let_def
        holds_defs release_available release_closed)
next
  case AssignedGlobal
  with step i show ?thesis
    by (intro global_transfer; cases "ps_global st")
      (auto simp: set_task_def holds_defs release_available release_closed)
qed (use step i in \<open>(intro quiet_transfer; auto simp: set_task_def holds_defs)+\<close>)

lemma drop_guard_transfer:
  assumes inv: "pool_inv S config st" and i: "i < length (ps_tasks st)" and pc: "tk_pc (ps_tasks st ! i) = Holding g"
    and st': "st' = drop_guard S i (ps_tasks st ! i) g st"
  shows "transfer S st i (ps_tasks st' ! i) st'"
  using assms engaged_address [OF inv i]
  by (intro global_transfer; cases "ps_global st"; cases "pg_origin_permit g")
    (auto simp: drop_guard_def set_task_def holds_defs release_available release_closed)

lemma insert_entry_inv:
  assumes inv: "pool_inv S config st" and i: "i < length (ps_tasks st)" and pc: "tk_pc (ps_tasks st ! i) = Insert"
    and m: "effective_per_origin (ps_config st) = Some m"
  shows "pool_inv S config (insert_entry S i (ps_tasks st ! i) m k st)"
proof -
  let ?n = "length (ps_entries st)" and ?t = "ps_tasks st ! i"
  let ?t' = "?t\<lparr>tk_pc := Registered ?n\<rparr>" and ?st = "insert_entry S i ?t m k st"
  have ts: "ps_tasks ?st = (ps_tasks st)[i := ?t']"
    and es: "ps_entries ?st = ps_entries st @ [\<lparr>en_semaphore = sm_new S m, en_waiters = 1\<rparr>]"
    and fr: "ps_config ?st = ps_config st" "ps_poisoned ?st = ps_poisoned st" "ps_global ?st = ps_global st"
      "ps_table ?st = AList.update k ?n (ps_table st)"
    by (simp_all add: insert_entry_def set_task_def Let_def)
  note upd = cnt_update [OF i, of _ ?t', folded ts]
  have hold: "holds_global ?t' = holds_global ?t" "\<And>a. holds_origin a ?t' = holds_origin a ?t"
    "\<And>a. waits_on a ?t \<longleftrightarrow> False" "\<And>a. waits_on a ?t' \<longleftrightarrow> a = ?n"
    using pc by (auto simp: holds_defs)
  have free: "\<not> engaged ?n x" if "x \<in> set (ps_tasks st)" for x
    using that engaged_address [OF inv, of _ ?n] by (metis in_set_conv_nth less_irrefl)
  have fresh: "cnt (holds_origin ?n) (ps_tasks st) = 0" "cnt (waits_on ?n) (ps_tasks st) = 0"
    using free by (auto intro!: cnt_none simp: engaged_def)
  have "global_acct S ?st"
    using inv upd [of holds_global] hold(1) by (auto simp: pool_inv_def global_acct_def fr split: option.splits)
  moreover have "entry_acct S ?st a" if "a < length (ps_entries ?st)" for a
  proof (cases "a = ?n")
    case True
    then show ?thesis
      using fresh upd [of "holds_origin ?n"] upd [of "waits_on ?n"] hold m
      by (simp add: entry_acct_def es fr nth_append available_new closed_new)
  next
    case False
    with that have a: "a < ?n" by (simp add: es)
    then have "entry_acct S st a" using inv by (simp add: pool_inv_def)
    then show ?thesis
      using a False upd [of "holds_origin a"] upd [of "waits_on a"] hold
      by (simp add: entry_acct_def es fr nth_append)
  qed
  moreover have "a < length (ps_entries ?st)" if "j < length (ps_tasks ?st)" "engaged a (ps_tasks ?st ! j)" for j a
  proof (cases "j = i")
    case True
    then show ?thesis using that i hold pc by (auto simp: ts es engaged_def holds_origin_def)
  next
    case False
    then show ?thesis using that engaged_address [OF inv, of j a] by (simp add: ts es)
  qed
  moreover have "a < length (ps_entries ?st)" if "map_of (ps_table ?st) k' = Some a" for k' a
    using that inv by (fastforce simp: fr es update_conv pool_inv_def split: if_splits)
  ultimately show ?thesis using inv by (simp add: pool_inv_def fr)
qed

lemma pool_event_cases:
  assumes "pool_event S e st = Some st'"
  obtains (spawned) origin where "e = Spawn origin" "st' = spawn origin st"
  | (inserted) i m k where "e = Advance i" "i < length (ps_tasks st)" "tk_pc (ps_tasks st ! i) = Insert"
      "effective_per_origin (ps_config st) = Some m" "tk_origin (ps_tasks st ! i) = Some k"
      "st' = insert_entry S i (ps_tasks st ! i) m k st"
  | (advanced) i where "e = Advance i" "i < length (ps_tasks st)" "tk_pc (ps_tasks st ! i) \<noteq> Insert"
      "advance_pc S i (ps_tasks st ! i) (tk_pc (ps_tasks st ! i)) st = Some st'"
  | (cancelled) i where "e = Cancel i" "i < length (ps_tasks st)"
      "cancel_pc S i (ps_tasks st ! i) (tk_pc (ps_tasks st ! i)) st = Some st'"
  | (dropped) i g where "e = DropGuard i" "i < length (ps_tasks st)" "tk_pc (ps_tasks st ! i) = Holding g"
      "st' = drop_guard S i (ps_tasks st ! i) g st"
proof (cases e)
  case (Advance i)
  then show ?thesis
  proof (cases "tk_pc (ps_tasks st ! i) = Insert")
    case True
    with Advance assms show ?thesis
      by (auto simp: with_origin_def Let_def split: if_splits option.splits intro: inserted)
  qed (use Advance assms advanced in \<open>auto simp: Let_def split: if_splits\<close>)
qed (use assms spawned cancelled dropped in \<open>auto simp: Let_def split: if_splits acquire_pc.splits\<close>)

lemma pool_event_inv:
  assumes "pool_inv S config st" "pool_event S e st = Some st'"
  shows "pool_inv S config st'"
  using assms(2)
proof (cases rule: pool_event_cases)
  case (spawned origin)
  with spawn_inv [OF assms(1)] show ?thesis by simp
next
  case (inserted i m k)
  with insert_entry_inv [OF assms(1)] show ?thesis by simp
next
  case (advanced i)
  with advance_transfer [OF assms(1)] transfer_inv [OF assms(1)] show ?thesis by blast
next
  case (cancelled i)
  with cancel_transfer [OF assms(1)] transfer_inv [OF assms(1)] show ?thesis by blast
next
  case (dropped i g)
  with drop_guard_transfer [OF assms(1)] transfer_inv [OF assms(1)] show ?thesis by blast
qed

lemma reachable_inv: "pool_reachable S config st \<Longrightarrow> pool_inv S config st"
  by (induction rule: pool_reachable.induct) (simp_all add: pool_new_inv pool_event_inv)

end

end
