(* ===== verification/Pool_Limits.thy ===== *)
theory Pool_Limits
  imports Pool_Props
begin

text \<open>
  What the pool guarantees: the global limit holds under every interleaving, nothing
  is lost by cancellation, and the pool never wedges.  The limit per origin holds as
  long as no request moves between the two reads with which the sweep looks at an
  entry; a run in which one does, and the limit is exceeded, is given at the end.
\<close>

subsection \<open>Which permits a request has\<close>

definition early :: "acquire_pc \<Rightarrow> bool" where
  "early pc = (case pc of TryGlobal \<Rightarrow> True | WaitGlobal \<Rightarrow> True | _ \<Rightarrow> False)"

definition late :: "acquire_pc \<Rightarrow> bool" where
  "late pc = (case pc of Releasing _ \<Rightarrow> True | Finished _ \<Rightarrow> True | _ \<Rightarrow> False)"

definition at_origin :: "acquire_pc \<Rightarrow> bool" where
  "at_origin pc = (case pc of
     LookupSlow \<Rightarrow> True | Sweep _ \<Rightarrow> True | SweepWaiters _ _ \<Rightarrow> True | Insert \<Rightarrow> True | Registered _ \<Rightarrow> True
   | WaitOrigin _ \<Rightarrow> True | AssignedOrigin _ \<Rightarrow> True | Granted _ \<Rightarrow> True | _ \<Rightarrow> False)"

definition task_ok :: "'s pool_state \<Rightarrow> task \<Rightarrow> bool" where
  "task_ok st t \<longleftrightarrow>
     (ps_global st \<noteq> None \<longrightarrow> \<not> early (tk_pc t) \<longrightarrow> \<not> late (tk_pc t) \<longrightarrow> holds_global t)
     \<and> (tk_pc t = WaitGlobal \<longrightarrow> ps_global st \<noteq> None)
     \<and> (at_origin (tk_pc t) \<longrightarrow> effective_per_origin (ps_config st) \<noteq> None \<and> tk_origin t \<noteq> None)
     \<and> (\<forall>g. tk_pc t = Holding g \<longrightarrow>
          (pg_origin_permit g \<noteq> None \<longleftrightarrow> effective_per_origin (ps_config st) \<noteq> None \<and> tk_origin t \<noteq> None))"

lemmas pc_defs = early_def late_def at_origin_def

lemma task_ok_cong:
  "ps_config st' = ps_config st \<Longrightarrow> (ps_global st' = None) = (ps_global st = None) \<Longrightarrow> task_ok st' t = task_ok st t"
  by (simp add: task_ok_def)

lemma transfer_frame:
  "transfer S st i t' st' \<Longrightarrow> ps_config st' = ps_config st \<and> (ps_global st' = None) = (ps_global st = None)"
  by (auto simp: transfer_def Let_def elim: option.rel_cases)

lemma advance_task_ok:
  assumes "i < length (ps_tasks st)" "task_ok st (ps_tasks st ! i)" "tk_pc (ps_tasks st ! i) \<noteq> Insert"
    and "advance_pc S i (ps_tasks st ! i) (tk_pc (ps_tasks st ! i)) st = Some st'"
  shows "task_ok st (ps_tasks st' ! i)"
proof (cases "tk_pc (ps_tasks st ! i)")
  case TryGlobal
  with assms show ?thesis
    by (auto simp: try_global_def set_task_def task_ok_def pc_defs holds_global_def split: option.splits)
next
  case WaitGlobal
  with assms show ?thesis
    by (auto simp: await_global_def set_task_def count_cancellation_def task_ok_def pc_defs holds_global_def
        split: option.splits if_splits)
next
  case AssignedGlobal
  with assms show ?thesis by (auto simp: resume_global_def set_task_def task_ok_def pc_defs holds_global_def)
next
  case Lookup
  with assms show ?thesis
    by (auto simp: lookup_def poisoned_failure_def register_def add_waiter_def set_entry_def finish_def pool_guard_new_def
        set_task_def count_cancellation_def task_ok_def pc_defs holds_global_def Let_def split: option.splits if_splits)
next
  case LookupSlow
  with assms show ?thesis
    by (auto simp: with_origin_def lookup_slow_def poisoned_failure_def register_def add_waiter_def set_entry_def
        set_task_def count_cancellation_def task_ok_def pc_defs holds_global_def Let_def split: option.splits if_splits)
next
  case (Sweep ks)
  with assms show ?thesis
    by (auto simp: with_origin_def sweep_def set_task_def task_ok_def pc_defs holds_global_def
        split: option.splits if_splits list.splits)
next
  case (SweepWaiters k ks)
  with assms show ?thesis
    by (auto simp: sweep_waiters_def set_task_def task_ok_def pc_defs holds_global_def split: option.splits if_splits)
next
  case (Registered a)
  with assms show ?thesis
    by (auto simp: try_origin_def set_task_def set_entry_def task_ok_def pc_defs holds_global_def Let_def split: option.splits)
next
  case (WaitOrigin a)
  with assms show ?thesis
    by (auto simp: await_origin_def set_task_def set_entry_def drop_waiter_guard_def count_cancellation_def task_ok_def
        pc_defs holds_global_def Let_def split: option.splits if_splits)
next
  case (AssignedOrigin a)
  with assms show ?thesis
    by (auto simp: take_waiter_def finish_def pool_guard_new_def set_task_def set_entry_def drop_waiter_guard_def task_ok_def
        pc_defs holds_global_def Let_def)
next
  case (Granted a)
  with assms show ?thesis
    by (auto simp: take_waiter_def finish_def pool_guard_new_def set_task_def set_entry_def drop_waiter_guard_def task_ok_def
        pc_defs holds_global_def Let_def)
next
  case (Releasing a)
  with assms show ?thesis
    by (auto simp: drop_second_def drop_origin_permit_def set_task_def set_entry_def task_ok_def pc_defs Let_def)
qed (use assms in simp_all)

lemma insert_task_ok:
  assumes "i < length (ps_tasks st)" "task_ok st (ps_tasks st ! i)" "tk_pc (ps_tasks st ! i) = Insert"
  shows "task_ok st (ps_tasks (insert_entry S i (ps_tasks st ! i) m k st) ! i)"
  using assms by (auto simp: insert_entry_def set_task_def task_ok_def pc_defs holds_global_def Let_def)

lemma late_task_ok: "late (tk_pc t) \<Longrightarrow> task_ok st t"
  by (auto simp: task_ok_def late_def at_origin_def split: acquire_pc.splits)

lemma cancel_late:
  "i < length (ps_tasks st) \<Longrightarrow> cancel_pc S i (ps_tasks st ! i) pc st = Some st' \<Longrightarrow> late (tk_pc (ps_tasks st' ! i))"
  by (cases pc) (auto simp: set_task_def set_entry_def drop_waiter_guard_def drop_origin_permit_def late_def Let_def)

lemma drop_guard_late:
  "i < length (ps_tasks st) \<Longrightarrow> late (tk_pc (ps_tasks (drop_guard S i (ps_tasks st ! i) g st) ! i))"
  by (auto simp: drop_guard_def set_task_def late_def split: option.splits)

definition tasks_ok :: "'s pool_state \<Rightarrow> bool" where
  "tasks_ok st \<longleftrightarrow> (\<forall>i<length (ps_tasks st). task_ok st (ps_tasks st ! i))"

lemma tasks_ok_update:
  assumes "tasks_ok st" "ps_tasks st' = (ps_tasks st)[i := t']" "task_ok st t'"
    and "ps_config st' = ps_config st" "(ps_global st' = None) = (ps_global st = None)"
  shows "tasks_ok st'"
proof -
  have "task_ok st ((ps_tasks st)[i := t'] ! j)" if "j < length (ps_tasks st)" for j
    using that assms(1,3) by (cases "j = i") (simp_all add: tasks_ok_def)
  then show ?thesis using assms(2) by (simp add: tasks_ok_def task_ok_cong [OF assms(4,5)])
qed

context semaphore
begin

lemma transfer_tasks_ok:
  assumes "tasks_ok st" "transfer S st i (ps_tasks st' ! i) st'" "task_ok st (ps_tasks st' ! i)"
  shows "tasks_ok st'"
  using assms(1,3) transfer_frame [OF assms(2)] assms(2)
  by (intro tasks_ok_update [of st st' i "ps_tasks st' ! i"]) (simp_all add: transfer_def Let_def)

lemma pool_event_tasks_ok:
  assumes inv: "pool_inv S config st" and ok: "tasks_ok st" and step: "pool_event S e st = Some st'"
  shows "tasks_ok st'"
  using step
proof (cases rule: pool_event_cases)
  case (spawned origin)
  then show ?thesis using ok
    by (auto simp: tasks_ok_def spawn_def nth_append less_Suc_eq task_ok_def pc_defs split: if_splits)
next
  case (inserted i m k)
  then have "ps_tasks st' = (ps_tasks st)[i := ps_tasks st' ! i]" "ps_config st' = ps_config st" "ps_global st' = ps_global st"
    by (simp_all add: insert_entry_def set_task_def Let_def)
  with inserted ok insert_task_ok [of i st S m k] tasks_ok_update [OF ok, of st' i "ps_tasks st' ! i"]
  show ?thesis by (simp add: tasks_ok_def)
next
  case (advanced i)
  with ok have "task_ok st (ps_tasks st' ! i)" by (intro advance_task_ok [of i st S st']) (simp_all add: tasks_ok_def)
  with advanced advance_transfer [OF inv] transfer_tasks_ok [OF ok] show ?thesis by blast
next
  case (cancelled i)
  from transfer_tasks_ok [OF ok cancel_transfer [OF inv cancelled(2,3)] late_task_ok [OF cancel_late [OF cancelled(2,3)]]]
  show ?thesis .
next
  case (dropped i g)
  from drop_guard_late [OF dropped(2), of S g] have "late (tk_pc (ps_tasks st' ! i))" by (simp add: dropped(4))
  from transfer_tasks_ok [OF ok drop_guard_transfer [OF inv dropped(2-4)] late_task_ok [OF this]] show ?thesis .
qed

lemma reachable_tasks_ok: "pool_reachable S config st \<Longrightarrow> tasks_ok st"
proof (induction rule: pool_reachable.induct)
  case pool_init
  show ?case by (simp add: tasks_ok_def pool_new_def)
next
  case (pool_next st e st')
  with pool_event_tasks_ok [OF reachable_inv] show ?case by blast
qed

end

subsection \<open>The global limit\<close>

lemma reachable_global:
  assumes "semaphore S" "pool_reachable S config st" "effective_max_in_flight config = Some n"
  shows "\<exists>s. ps_global st = Some s \<and> sm_available S s + cnt holds_global (ps_tasks st) = n"
  using semaphore.reachable_inv [OF assms(1,2)] assms(3)
  by (auto simp: pool_inv_def global_acct_def split: option.splits)

text \<open>
  C11: whatever the requests do and whenever they are cancelled, the number of
  requests that hold a guard never exceeds the configured global limit, and the
  free permits are exactly those that no request holds.
\<close>

theorem global_limit_holds:
  assumes "semaphore S" "pool_reachable S config st" "effective_max_in_flight config = Some n"
  shows "cnt (\<lambda>t. \<exists>g. tk_pc t = Holding g) (ps_tasks st) \<le> n
    \<and> (\<exists>s. ps_global st = Some s \<and> sm_available S s = n - cnt holds_global (ps_tasks st))"
proof -
  obtain s where s: "ps_global st = Some s" "sm_available S s + cnt holds_global (ps_tasks st) = n"
    using reachable_global [OF assms] by blast
  have "cnt (\<lambda>t. \<exists>g. tk_pc t = Holding g) (ps_tasks st) \<le> cnt holds_global (ps_tasks st)"
  proof (rule cnt_mono)
    fix t assume t: "t \<in> set (ps_tasks st)" "\<exists>g. tk_pc t = Holding g"
    have "task_ok st t"
      using semaphore.reachable_tasks_ok [OF assms(1,2)] t(1) by (metis tasks_ok_def in_set_conv_nth)
    with t(2) s(1) show "holds_global t" by (auto simp: task_ok_def pc_defs)
  qed
  with s show ?thesis by auto
qed

subsection \<open>Nothing is lost\<close>

text \<open>
  C13: when every request is over, released, failed or cancelled at any point, all
  permits are back: the global semaphore and every per-origin semaphore have as
  many as they were created with, and no waiter is left.
\<close>

theorem nothing_is_lost:
  assumes "semaphore S" "pool_reachable S config st" "list_all (\<lambda>t. \<exists>e. tk_pc t = Finished e) (ps_tasks st)"
  shows "map_option (sm_available S) (ps_global st) = effective_max_in_flight config
    \<and> list_all (\<lambda>e. Some (sm_available S (en_semaphore e)) = effective_per_origin config \<and> en_waiters e = 0) (ps_entries st)"
proof -
  have z: "cnt holds_global (ps_tasks st) = 0" "\<And>a. cnt (holds_origin a) (ps_tasks st) = 0"
    "\<And>a. cnt (waits_on a) (ps_tasks st) = 0"
    using assms(3) by (auto intro!: cnt_none simp: list_all_iff holds_defs)
  note inv = semaphore.reachable_inv [OF assms(1,2)]
  have "map_option (sm_available S) (ps_global st) = effective_max_in_flight config"
    using inv z(1) by (auto simp: pool_inv_def global_acct_def split: option.splits)
  moreover have "list_all (\<lambda>e. Some (sm_available S (en_semaphore e)) = effective_per_origin config \<and> en_waiters e = 0) (ps_entries st)"
    using inv z(2,3) by (auto simp: list_all_length pool_inv_def entry_acct_def)
  ultimately show ?thesis ..
qed

text \<open>A run given as a sequence of events.\<close>

fun run_events :: "'s sem_lib \<Rightarrow> event list \<Rightarrow> 's pool_state \<Rightarrow> 's pool_state option" where
  "run_events S [] st = Some st"
| "run_events S (e # es) st = Option.bind (pool_event S e st) (run_events S es)"

lemma run_events_reachable:
  "pool_reachable S config st \<Longrightarrow> run_events S es st = Some st' \<Longrightarrow> pool_reachable S config st'"
  by (induction es arbitrary: st) (auto simp: bind_eq_Some_conv intro: pool_next)

lemma run_events_append:
  "run_events S (es @ fs) st = Option.bind (run_events S es st) (run_events S fs)"
proof (induction es arbitrary: st)
  case (Cons e es)
  then show ?case by (cases "pool_event S e st") simp_all
qed simp

lemma run_from_start:
  "run_events S es (pool_new S config) = Some st \<Longrightarrow> pool_reachable S config st"
  by (rule run_events_reachable [OF pool_init])

definition one_at_a_time :: pool_config where
  "one_at_a_time = \<lparr>pf_max_idle_connections = None, pf_max_idle_connections_per_host = None, pf_max_connections = Some 1,
     pf_max_connections_per_host = None, pf_max_in_flight_requests = None, pf_max_in_flight_requests_per_origin = Some 1,
     pf_idle_timeout = None\<rparr>"

definition key_of_port :: "nat \<Rightarrow> origin_key" where
  "key_of_port p = key_from_components ''http'' ''a'' p"

text \<open>One request holds its guard, a second waits.\<close>

definition contended :: "event list" where
  "contended = [Spawn (Some (key_of_port 80)), Spawn None, Advance 0, Advance 0, Advance 0, Advance 0, Advance 0, Advance 0, Advance 1]"

definition contended_state :: "nat pool_state" where
  "contended_state = the (run_events counter_sem contended (pool_new counter_sem one_at_a_time))"

lemmas run_defs = counter_sem_def pool_new_def one_at_a_time_def effective_max_in_flight_def effective_per_origin_def
  spawn_def step_defs op_defs insert_entry_def

lemma contended_run:
  "run_events counter_sem contended (pool_new counter_sem one_at_a_time) = Some contended_state"
  "map tk_pc (ps_tasks contended_state) =
     [Holding (pool_guard_new (Some (key_of_port 80)) True (Some 0)), WaitGlobal]"
proof -
  have "\<exists>st. run_events counter_sem contended (pool_new counter_sem one_at_a_time) = Some st
     \<and> map tk_pc (ps_tasks st) = [Holding (pool_guard_new (Some (key_of_port 80)) True (Some 0)), WaitGlobal]"
    by (simp add: contended_def run_defs)
  then show "run_events counter_sem contended (pool_new counter_sem one_at_a_time) = Some contended_state"
    "map tk_pc (ps_tasks contended_state) =
     [Holding (pool_guard_new (Some (key_of_port 80)) True (Some 0)), WaitGlobal]"
    by (auto simp: contended_state_def)
qed

lemma one_at_a_time_limit: "effective_max_in_flight one_at_a_time = Some 1"
  by (simp add: effective_max_in_flight_def one_at_a_time_def)

theorem global_limit_holds_witness:
  "cnt (\<lambda>t. \<exists>g. tk_pc t = Holding g) (ps_tasks contended_state) \<le> 1"
  using global_limit_holds [OF counter.semaphore_axioms run_from_start [OF contended_run(1)] one_at_a_time_limit] by simp

definition settled_state :: "nat pool_state" where
  "settled_state = the (run_events counter_sem [Cancel 1, DropGuard 0, Advance 0] contended_state)"

lemma settled_run:
  "run_events counter_sem [Cancel 1, DropGuard 0, Advance 0] contended_state = Some settled_state"
  "map tk_pc (ps_tasks settled_state) = [Finished Released, Finished Cancelled]"
proof -
  have "\<exists>st. run_events counter_sem (contended @ [Cancel 1, DropGuard 0, Advance 0]) (pool_new counter_sem one_at_a_time) = Some st
     \<and> map tk_pc (ps_tasks st) = [Finished Released, Finished Cancelled]"
    by (simp add: contended_def run_defs)
  then show "run_events counter_sem [Cancel 1, DropGuard 0, Advance 0] contended_state = Some settled_state"
    "map tk_pc (ps_tasks settled_state) = [Finished Released, Finished Cancelled]"
    unfolding run_events_append contended_run(1) Option.bind.simps settled_state_def
    by (auto simp del: run_events.simps pool_event.simps)
qed

theorem nothing_is_lost_witness:
  "map_option (sm_available counter_sem) (ps_global settled_state) = Some 1"
proof -
  have "list_all (\<lambda>t. \<exists>e. tk_pc t = Finished e) (ps_tasks settled_state)"
    using settled_run(2) by (auto simp: map_eq_Cons_conv)
  from nothing_is_lost [OF counter.semaphore_axioms
      run_events_reachable [OF run_from_start [OF contended_run(1)] settled_run(1)] this]
  show ?thesis by (simp add: one_at_a_time_limit)
qed

subsection \<open>The lock and the table\<close>

definition sweeping :: "acquire_pc \<Rightarrow> bool" where
  "sweeping pc = (case pc of Sweep _ \<Rightarrow> True | SweepWaiters _ _ \<Rightarrow> True | Insert \<Rightarrow> True | _ \<Rightarrow> False)"

definition lock_inv :: "'s pool_state \<Rightarrow> bool" where
  "lock_inv st \<longleftrightarrow>
     (\<forall>i<length (ps_tasks st). sweeping (tk_pc (ps_tasks st ! i)) \<longrightarrow> ps_writer st = Some i
        \<and> (\<exists>k. tk_origin (ps_tasks st ! i) = Some k \<and> map_of (ps_table st) k = None))
     \<and> (\<forall>i. ps_writer st = Some i \<longrightarrow> i < length (ps_tasks st) \<and> sweeping (tk_pc (ps_tasks st ! i)))"

lemma lock_invD:
  assumes "lock_inv st" "j < length (ps_tasks st)" "sweeping (tk_pc (ps_tasks st ! j))"
  shows "ps_writer st = Some j" "\<exists>k. tk_origin (ps_tasks st ! j) = Some k \<and> map_of (ps_table st) k = None"
  using assms unfolding lock_inv_def by blast+

lemma lock_inv_writer:
  assumes "lock_inv st" "ps_writer st = Some j"
  shows "j < length (ps_tasks st)" "sweeping (tk_pc (ps_tasks st ! j))"
  using assms unfolding lock_inv_def by blast+

text \<open>A step of a task that neither sweeps nor inserts leaves the lock and the table as they are.\<close>

lemma unlocked_step:
  assumes "i < length (ps_tasks st)" "\<not> sweeping (tk_pc (ps_tasks st ! i))"
    and "advance_pc S i (ps_tasks st ! i) (tk_pc (ps_tasks st ! i)) st = Some st'"
  shows "ps_table st' = ps_table st
    \<and> (if sweeping (tk_pc (ps_tasks st' ! i))
       then ps_writer st = None \<and> ps_writer st' = Some i
          \<and> (\<exists>k. tk_origin (ps_tasks st ! i) = Some k \<and> map_of (ps_table st) k = None)
       else ps_writer st' = ps_writer st)"
proof (cases "tk_pc (ps_tasks st ! i)")
  case Lookup
  with assms show ?thesis
    by (auto simp: lookup_def poisoned_failure_def register_def add_waiter_def set_entry_def finish_def
        set_task_def count_cancellation_def sweeping_def Let_def split: option.splits if_splits)
next
  case LookupSlow
  with assms show ?thesis
    by (auto simp: with_origin_def lookup_slow_def poisoned_failure_def register_def add_waiter_def set_entry_def
        set_task_def count_cancellation_def sweeping_def Let_def split: option.splits if_splits)
qed (use assms in \<open>auto simp: try_global_def await_global_def resume_global_def try_origin_def await_origin_def
      take_waiter_def finish_def drop_second_def drop_origin_permit_def drop_waiter_guard_def count_cancellation_def
      set_task_def set_entry_def sweeping_def Let_def split: option.splits if_splits\<close>)

lemma lock_step:
  assumes "lock_inv st" "i < length (ps_tasks st)" "ps_tasks st' = (ps_tasks st)[i := t']"
    and "tk_origin t' = tk_origin (ps_tasks st ! i)"
    and "ps_writer st' = (if sweeping (tk_pc t') then Some i
           else if sweeping (tk_pc (ps_tasks st ! i)) then None else ps_writer st)"
    and "sweeping (tk_pc t') \<Longrightarrow> ps_writer st = None \<or> sweeping (tk_pc (ps_tasks st ! i))"
    and "sweeping (tk_pc t') \<Longrightarrow> \<exists>k. tk_origin t' = Some k \<and> map_of (ps_table st') k = None"
    and "\<not> sweeping (tk_pc t') \<Longrightarrow> \<not> sweeping (tk_pc (ps_tasks st ! i)) \<Longrightarrow> ps_table st' = ps_table st"
  shows "lock_inv st'"
proof -
  have other: "sweeping (tk_pc (ps_tasks st ! j)) \<longleftrightarrow> ps_writer st = Some j" if "j < length (ps_tasks st)" for j
    using lock_invD(1) [OF assms(1) that] lock_inv_writer [OF assms(1)] by blast
  have "ps_writer st' = Some j \<and> (\<exists>k. tk_origin (ps_tasks st' ! j) = Some k \<and> map_of (ps_table st') k = None)"
    if j: "j < length (ps_tasks st)" "sweeping (tk_pc (ps_tasks st' ! j))" for j
  proof (cases "j = i")
    case True
    with j assms(2,3,5,7) show ?thesis by simp
  next
    case False
    with j assms(3) have js: "sweeping (tk_pc (ps_tasks st ! j))" by simp
    with other [OF j(1)] other [OF assms(2)] False have ns: "\<not> sweeping (tk_pc (ps_tasks st ! i))" by auto
    with assms(6) js other [OF j(1)] have nt: "\<not> sweeping (tk_pc t')" by auto
    from ns nt assms(8) have "ps_table st' = ps_table st" by blast
    with ns nt assms(3,5) False lock_invD [OF assms(1) j(1) js] show ?thesis by simp
  qed
  moreover have "j < length (ps_tasks st) \<and> sweeping (tk_pc (ps_tasks st' ! j))" if "ps_writer st' = Some j" for j
  proof (cases "j = i")
    case True
    with that assms(2,3,5) other [OF assms(2)] show ?thesis by (auto split: if_splits)
  next
    case False
    with that assms(5) have "ps_writer st = Some j" by (auto split: if_splits)
    with lock_inv_writer [OF assms(1)] assms(3) False show ?thesis by simp
  qed
  moreover have "length (ps_tasks st') = length (ps_tasks st)" by (simp add: assms(3))
  ultimately show ?thesis unfolding lock_inv_def by metis
qed

lemma advance_origin:
  "i < length (ps_tasks st) \<Longrightarrow> transfer S st i t' st' \<Longrightarrow>
     ps_tasks st' = (ps_tasks st)[i := t'] \<and> tk_origin t' = tk_origin (ps_tasks st ! i)"
  by (simp add: transfer_def Let_def)

lemma sweeping_step:
  assumes "i < length (ps_tasks st)" "sweeping (tk_pc (ps_tasks st ! i))" "tk_pc (ps_tasks st ! i) \<noteq> Insert"
    and "advance_pc S i (ps_tasks st ! i) (tk_pc (ps_tasks st ! i)) st = Some st'"
  shows "sweeping (tk_pc (ps_tasks st' ! i)) \<and> ps_writer st' = ps_writer st \<and> ps_entries st' = ps_entries st
    \<and> ps_global st' = ps_global st
    \<and> (ps_table st' = ps_table st
       \<or> (\<exists>k ks a. tk_pc (ps_tasks st ! i) = SweepWaiters k ks \<and> map_of (ps_table st) k = Some a
            \<and> en_waiters (ps_entries st ! a) = 0 \<and> ps_table st' = AList.delete k (ps_table st)))"
proof (cases "tk_pc (ps_tasks st ! i)")
  case (Sweep ks)
  with assms show ?thesis
    by (auto simp: with_origin_def sweep_def set_task_def sweeping_def split: option.splits list.splits if_splits)
next
  case (SweepWaiters k ks)
  with assms show ?thesis
    by (auto simp: sweep_waiters_def set_task_def sweeping_def split: option.splits if_splits)
qed (use assms in \<open>simp_all add: sweeping_def\<close>)

lemma cancel_frame:
  "i < length (ps_tasks st) \<Longrightarrow> cancel_pc S i (ps_tasks st ! i) pc st = Some st' \<Longrightarrow>
     ps_table st' = ps_table st \<and> ps_writer st' = ps_writer st \<and> \<not> sweeping pc \<and> \<not> sweeping (tk_pc (ps_tasks st' ! i))"
  by (cases pc) (auto simp: set_task_def set_entry_def drop_waiter_guard_def drop_origin_permit_def sweeping_def Let_def)

lemma drop_guard_frame:
  "i < length (ps_tasks st) \<Longrightarrow>
     ps_table (drop_guard S i (ps_tasks st ! i) g st) = ps_table st
     \<and> ps_writer (drop_guard S i (ps_tasks st ! i) g st) = ps_writer st
     \<and> \<not> sweeping (tk_pc (ps_tasks (drop_guard S i (ps_tasks st ! i) g st) ! i))"
  by (auto simp: drop_guard_def set_task_def sweeping_def split: option.splits)

context semaphore
begin

lemma pool_event_lock:
  assumes inv: "pool_inv S config st" and lk: "lock_inv st" and step: "pool_event S e st = Some st'"
  shows "lock_inv st'"
  using step
proof (cases rule: pool_event_cases)
  case (spawned origin)
  then have fr: "ps_writer st' = ps_writer st" "ps_table st' = ps_table st" "length (ps_tasks st') = Suc (length (ps_tasks st))"
    "\<And>j. j < length (ps_tasks st) \<Longrightarrow> ps_tasks st' ! j = ps_tasks st ! j"
    "\<not> sweeping (tk_pc (ps_tasks st' ! length (ps_tasks st)))"
    by (simp_all add: spawn_def nth_append sweeping_def)
  have "ps_writer st = Some j \<and> (\<exists>k. tk_origin (ps_tasks st' ! j) = Some k \<and> map_of (ps_table st) k = None)"
    if "j < Suc (length (ps_tasks st))" "sweeping (tk_pc (ps_tasks st' ! j))" for j
  proof (cases "j = length (ps_tasks st)")
    case False
    with that(1) have "j < length (ps_tasks st)" by simp
    with that(2) lock_invD [OF lk] fr(4) show ?thesis by simp
  qed (use that(2) fr(5) in simp)
  moreover have "j < Suc (length (ps_tasks st)) \<and> sweeping (tk_pc (ps_tasks st' ! j))" if "ps_writer st = Some j" for j
    using lock_inv_writer [OF lk that] fr(4) by simp
  ultimately show ?thesis unfolding lock_inv_def fr(1-3) by blast
next
  case (inserted i m k)
  have s: "sweeping Insert" "\<And>a. \<not> sweeping (Registered a)" by (simp_all add: sweeping_def)
  from inserted show ?thesis
    by (intro lock_step [OF lk, of i st' "ps_tasks st' ! i"]) (auto simp: insert_entry_def set_task_def Let_def s)
next
  case (advanced i)
  note tr = advance_origin [OF advanced(2) advance_transfer [OF inv advanced(2,4,3)]]
  show ?thesis
  proof (cases "sweeping (tk_pc (ps_tasks st ! i))")
    case True
    note sw = sweeping_step [OF advanced(2) True advanced(3,4)]
    obtain k where k: "ps_writer st = Some i" "tk_origin (ps_tasks st ! i) = Some k" "map_of (ps_table st) k = None"
      using lock_invD [OF lk advanced(2) True] by blast
    then have "map_of (ps_table st') k = None" using sw by (auto simp: AList.delete_conv')
    with True sw tr k advanced(2) show ?thesis
      by (intro lock_step [OF lk, of i st' "ps_tasks st' ! i"]) auto
  next
    case False
    with unlocked_step [OF advanced(2) False advanced(4)] tr advanced(2) show ?thesis
      by (intro lock_step [OF lk, of i st' "ps_tasks st' ! i"]) (auto split: if_splits)
  qed
next
  case (cancelled i)
  note tr = advance_origin [OF cancelled(2) cancel_transfer [OF inv cancelled(2,3)]]
  with cancel_frame [OF cancelled(2,3)] cancelled(2) show ?thesis
    by (intro lock_step [OF lk, of i st' "ps_tasks st' ! i"]) auto
next
  case (dropped i g)
  note tr = advance_origin [OF dropped(2) drop_guard_transfer [OF inv dropped(2-4)]]
  have "\<not> sweeping (tk_pc (ps_tasks st ! i))" by (simp add: dropped(3) sweeping_def)
  with tr drop_guard_frame [OF dropped(2), of S g, folded dropped(4)] dropped(2) show ?thesis
    by (intro lock_step [OF lk, of i st' "ps_tasks st' ! i"]) auto
qed

lemma reachable_lock: "pool_reachable S config st \<Longrightarrow> lock_inv st"
proof (induction rule: pool_reachable.induct)
  case pool_init
  show ?case by (simp add: lock_inv_def pool_new_def)
next
  case (pool_next st e st')
  with pool_event_lock [OF reachable_inv] show ?case by blast
qed

end

subsection \<open>The limit per origin\<close>

text \<open>
  A run is calm when nothing happens between the two reads of the sweep: while a
  request has seen an entry idle and not yet read its waiters, only that request
  moves.  A run without a sweep is calm.
\<close>

definition between_reads :: "acquire_pc \<Rightarrow> bool" where
  "between_reads pc = (case pc of SweepWaiters _ _ \<Rightarrow> True | _ \<Rightarrow> False)"

definition calm :: "event \<Rightarrow> 's pool_state \<Rightarrow> bool" where
  "calm e st \<longleftrightarrow> (\<forall>j<length (ps_tasks st). between_reads (tk_pc (ps_tasks st ! j)) \<longrightarrow> e = Advance j)"

inductive calm_reachable :: "'s sem_lib \<Rightarrow> pool_config \<Rightarrow> 's pool_state \<Rightarrow> bool" for S config where
  calm_init: "calm_reachable S config (pool_new S config)"
| calm_next: "calm_reachable S config st \<Longrightarrow> calm e st \<Longrightarrow> pool_event S e st = Some st' \<Longrightarrow> calm_reachable S config st'"

lemma calm_reachable_reachable: "calm_reachable S config st \<Longrightarrow> pool_reachable S config st"
  by (induction rule: calm_reachable.induct) (auto intro: pool_reachable.intros)

text \<open>Whoever is engaged with an entry finds it in the table under the request's own origin.\<close>

definition own_inv :: "'s pool_state \<Rightarrow> bool" where
  "own_inv st \<longleftrightarrow>
     (\<forall>i<length (ps_tasks st). \<forall>a. engaged a (ps_tasks st ! i) \<longrightarrow>
        (\<exists>k. tk_origin (ps_tasks st ! i) = Some k \<and> map_of (ps_table st) k = Some a))"

definition seen_idle :: "'s pool_state \<Rightarrow> bool" where
  "seen_idle st \<longleftrightarrow>
     (\<forall>i<length (ps_tasks st). \<forall>k ks a. tk_pc (ps_tasks st ! i) = SweepWaiters k ks \<longrightarrow> map_of (ps_table st) k = Some a
        \<longrightarrow> cnt (holds_origin a) (ps_tasks st) = 0)"

lemma advance_engaged:
  assumes "i < length (ps_tasks st)" "tk_pc (ps_tasks st ! i) \<noteq> Insert"
    and "advance_pc S i (ps_tasks st ! i) (tk_pc (ps_tasks st ! i)) st = Some st'" "engaged a (ps_tasks st' ! i)"
  shows "engaged a (ps_tasks st ! i) \<or> (\<exists>k. tk_origin (ps_tasks st ! i) = Some k \<and> map_of (ps_table st) k = Some a)"
proof (cases "tk_pc (ps_tasks st ! i)")
  case Lookup
  with assms show ?thesis
    by (auto simp: lookup_def poisoned_failure_def register_def add_waiter_def set_entry_def finish_def pool_guard_new_def
        set_task_def count_cancellation_def holds_defs Let_def split: option.splits if_splits)
next
  case LookupSlow
  with assms show ?thesis
    by (auto simp: with_origin_def lookup_slow_def poisoned_failure_def register_def add_waiter_def set_entry_def
        set_task_def count_cancellation_def holds_defs Let_def split: option.splits if_splits)
next
  case (Sweep ks)
  with assms show ?thesis
    by (auto simp: with_origin_def sweep_def set_task_def holds_defs split: option.splits list.splits if_splits)
next
  case (SweepWaiters k ks)
  with assms show ?thesis
    by (auto simp: sweep_waiters_def set_task_def holds_defs split: option.splits if_splits)
qed (use assms in \<open>auto simp: try_global_def await_global_def resume_global_def try_origin_def await_origin_def
      take_waiter_def finish_def pool_guard_new_def drop_second_def drop_origin_permit_def drop_waiter_guard_def
      count_cancellation_def set_task_def set_entry_def holds_defs Let_def split: option.splits if_splits\<close>)

lemma cancel_not_engaged:
  "i < length (ps_tasks st) \<Longrightarrow> cancel_pc S i (ps_tasks st ! i) pc st = Some st' \<Longrightarrow> \<not> engaged a (ps_tasks st' ! i)"
  by (cases pc) (auto simp: set_task_def set_entry_def drop_waiter_guard_def drop_origin_permit_def holds_defs Let_def)

lemma drop_guard_engaged:
  "i < length (ps_tasks st) \<Longrightarrow> tk_pc (ps_tasks st ! i) = Holding g \<Longrightarrow>
     engaged a (ps_tasks (drop_guard S i (ps_tasks st ! i) g st) ! i) \<Longrightarrow> engaged a (ps_tasks st ! i)"
  by (auto simp: drop_guard_def set_task_def holds_defs split: option.splits)

lemma own_update:
  assumes "own_inv st" "ps_tasks st' = (ps_tasks st)[i := t']" "i < length (ps_tasks st)"
    and "tk_origin t' = tk_origin (ps_tasks st ! i)"
    and "\<And>a. engaged a t' \<Longrightarrow> \<exists>k. tk_origin t' = Some k \<and> map_of (ps_table st') k = Some a"
    and "\<And>j a k. j < length (ps_tasks st) \<Longrightarrow> j \<noteq> i \<Longrightarrow> engaged a (ps_tasks st ! j) \<Longrightarrow>
           tk_origin (ps_tasks st ! j) = Some k \<Longrightarrow> map_of (ps_table st) k = Some a \<Longrightarrow> map_of (ps_table st') k = Some a"
  shows "own_inv st'"
proof -
  have "\<exists>k. tk_origin (ps_tasks st' ! j) = Some k \<and> map_of (ps_table st') k = Some a"
    if "j < length (ps_tasks st)" "engaged a (ps_tasks st' ! j)" for j a
  proof (cases "j = i")
    case False
    with that assms(2) have "engaged a (ps_tasks st ! j)" by simp
    moreover from this that(1) assms(1) obtain k where
      "tk_origin (ps_tasks st ! j) = Some k" "map_of (ps_table st) k = Some a" unfolding own_inv_def by blast
    ultimately show ?thesis using assms(2,6) that(1) False by auto
  qed (use that assms(2,3,5) in simp)
  then show ?thesis using assms(2) by (simp add: own_inv_def)
qed

lemma not_between_seen_idle:
  "(\<And>j. j < length (ps_tasks st) \<Longrightarrow> \<not> between_reads (tk_pc (ps_tasks st ! j))) \<Longrightarrow> seen_idle st"
  unfolding seen_idle_def between_reads_def by fastforce

lemma calm_others:
  assumes "calm e st" "ps_tasks st' = (ps_tasks st)[i := t']" "\<not> between_reads (tk_pc t')"
    and "\<And>j. e = Advance j \<Longrightarrow> j = i"
  shows "seen_idle st'"
proof (rule not_between_seen_idle)
  fix j assume j: "j < length (ps_tasks st')"
  show "\<not> between_reads (tk_pc (ps_tasks st' ! j))"
  proof (cases "j = i")
    case False
    with j assms(1,2,4) show ?thesis unfolding calm_def by (metis length_list_update nth_list_update_neq)
  qed (use j assms(2,3) in simp)
qed

context semaphore
begin

lemma sweep_seen_idle:
  assumes inv: "pool_inv S config st" and i: "i < length (ps_tasks st)" and pc: "tk_pc (ps_tasks st ! i) = Sweep ks"
    and calm: "calm (Advance i) st" and step: "advance_pc S i (ps_tasks st ! i) (Sweep ks) st = Some st'"
  shows "seen_idle st'"
proof -
  obtain m where m: "effective_per_origin (ps_config st) = Some m" and st': "st' = sweep S i (ps_tasks st ! i) m ks st"
    using step by (auto simp: with_origin_def split: option.splits)
  have ts: "ps_tasks st' = (ps_tasks st)[i := ps_tasks st' ! i]" "ps_table st' = ps_table st"
    using i by (auto simp: st' sweep_def set_task_def split: list.splits option.splits)
  have hold: "holds_origin a (ps_tasks st' ! i) = holds_origin a (ps_tasks st ! i)" for a
    using i pc by (auto simp: st' sweep_def set_task_def holds_defs split: list.splits option.splits)
  have keep: "cnt (holds_origin a) (ps_tasks st') = cnt (holds_origin a) (ps_tasks st)" for a
    using cnt_update [OF i, of "holds_origin a" "ps_tasks st' ! i", folded ts(1)] hold by simp
  have idle: "cnt (holds_origin a) (ps_tasks st) = 0"
    if "tk_pc (ps_tasks st' ! i) = SweepWaiters k ks'" "map_of (ps_table st) k = Some a" for k ks' a
  proof -
    have "a < length (ps_entries st)" using inv that(2) by (auto simp: pool_inv_def)
    with inv m have "sm_available S (en_semaphore (ps_entries st ! a)) + cnt (holds_origin a) (ps_tasks st) = m"
      by (auto simp: pool_inv_def entry_acct_def)
    moreover have "\<not> sm_available S (en_semaphore (ps_entries st ! a)) < m"
      using that i pc by (auto simp: st' sweep_def set_task_def split: list.splits option.splits if_splits)
    ultimately show ?thesis by simp
  qed
  have "j = i" if "j < length (ps_tasks st)" "tk_pc (ps_tasks st' ! j) = SweepWaiters k ks'" for j k ks'
  proof (rule ccontr)
    assume "j \<noteq> i"
    with that ts(1) have "tk_pc (ps_tasks st ! j) = SweepWaiters k ks'" by (metis nth_list_update_neq)
    with that(1) calm \<open>j \<noteq> i\<close> show False by (auto simp: calm_def between_reads_def)
  qed
  with idle keep ts show ?thesis unfolding seen_idle_def by (metis length_list_update)
qed

lemma advance_calm:
  assumes inv: "pool_inv S config st" and own: "own_inv st" and seen: "seen_idle st" and calm: "calm (Advance i) st"
    and i: "i < length (ps_tasks st)" and no: "tk_pc (ps_tasks st ! i) \<noteq> Insert"
    and step: "advance_pc S i (ps_tasks st ! i) (tk_pc (ps_tasks st ! i)) st = Some st'"
  shows "own_inv st' \<and> seen_idle st'"
proof -
  note tr = advance_origin [OF i advance_transfer [OF inv i step no]]
  have eng: "\<exists>k. tk_origin (ps_tasks st' ! i) = Some k \<and> map_of (ps_table st) k = Some a"
    if "engaged a (ps_tasks st' ! i)" for a
    using advance_engaged [OF i no step that] own i tr unfolding own_inv_def by metis
  show ?thesis
  proof (cases "sweeping (tk_pc (ps_tasks st ! i))")
    case False
    note un = unlocked_step [OF i False step]
    have "own_inv st'" using tr un eng i by (intro own_update [OF own, of st' i "ps_tasks st' ! i"]) auto
    moreover have "\<not> between_reads (tk_pc (ps_tasks st' ! i))"
    proof (cases "tk_pc (ps_tasks st ! i)")
      case LookupSlow
      with step i show ?thesis
        by (auto simp: with_origin_def lookup_slow_def poisoned_failure_def register_def add_waiter_def set_entry_def
            set_task_def count_cancellation_def between_reads_def Let_def split: option.splits if_splits)
    next
      case Lookup
      with step i show ?thesis
        by (auto simp: lookup_def poisoned_failure_def register_def add_waiter_def set_entry_def finish_def
            set_task_def count_cancellation_def between_reads_def Let_def split: option.splits if_splits)
    qed (use False step i in \<open>auto simp: try_global_def await_global_def resume_global_def try_origin_def await_origin_def
      take_waiter_def finish_def drop_second_def drop_origin_permit_def drop_waiter_guard_def count_cancellation_def
      set_task_def set_entry_def sweeping_def between_reads_def Let_def split: option.splits if_splits\<close>)
    ultimately show ?thesis using calm_others [OF calm, of st' i "ps_tasks st' ! i"] tr by blast
  next
    case True
    note sw = sweeping_step [OF i True no step]
    show ?thesis
    proof (cases "between_reads (tk_pc (ps_tasks st ! i))")
      case False
      with True no obtain ks where pc: "tk_pc (ps_tasks st ! i) = Sweep ks"
        by (auto simp: sweeping_def between_reads_def split: acquire_pc.splits)
      with sw have "ps_table st' = ps_table st" by auto
      with tr eng i have "own_inv st'" by (intro own_update [OF own, of st' i "ps_tasks st' ! i"]) auto
      with sweep_seen_idle [OF inv i pc calm] step pc show ?thesis by simp
    next
      case True
      then obtain k ks where pc: "tk_pc (ps_tasks st ! i) = SweepWaiters k ks"
        by (auto simp: between_reads_def split: acquire_pc.splits)
      have t': "tk_pc (ps_tasks st' ! i) = Sweep ks"
        using step pc i by (auto simp: sweep_waiters_def set_task_def split: option.splits if_splits)
      have none: "\<not> engaged a (ps_tasks st ! j)"
        if "map_of (ps_table st) k = Some a" "en_waiters (ps_entries st ! a) = 0" "j < length (ps_tasks st)" for a j
      proof -
        have "cnt (holds_origin a) (ps_tasks st) = 0" using seen i pc that(1) unfolding seen_idle_def by blast
        moreover have "cnt (waits_on a) (ps_tasks st) = 0"
          using inv that(1,2) by (auto simp: pool_inv_def entry_acct_def)
        ultimately show ?thesis using that(3) by (simp add: engaged_def cnt_zero)
      qed
      have "own_inv st'"
      proof (rule own_update [OF own, of st' i "ps_tasks st' ! i"])
        fix j a k' assume j: "j < length (ps_tasks st)" "engaged a (ps_tasks st ! j)" "map_of (ps_table st) k' = Some a"
        then have "k' \<noteq> k" if "map_of (ps_table st) k = Some a0" "en_waiters (ps_entries st ! a0) = 0" for a0
          using none [OF that j(1)] that(1) by auto
        with sw pc j(3) show "map_of (ps_table st') k' = Some a" by (auto simp: AList.delete_conv')
      qed (use tr i t' in \<open>auto simp: holds_defs\<close>)
      moreover have "\<not> between_reads (tk_pc (ps_tasks st' ! i))" by (simp add: t' between_reads_def)
      ultimately show ?thesis using calm_others [OF calm, of st' i "ps_tasks st' ! i"] tr by blast
    qed
  qed
qed

lemma calm_event:
  assumes inv: "pool_inv S config st" and lk: "lock_inv st" and own: "own_inv st" and seen: "seen_idle st"
    and calm: "calm e st" and step: "pool_event S e st = Some st'"
  shows "own_inv st' \<and> seen_idle st'"
  using step
proof (cases rule: pool_event_cases)
  case (spawned origin)
  have "\<not> between_reads (tk_pc (ps_tasks st ! j))" if "j < length (ps_tasks st)" for j
    using calm that spawned(1) by (auto simp: calm_def)
  then have "seen_idle st'"
    by (intro not_between_seen_idle) (auto simp: spawned(2) spawn_def nth_append less_Suc_eq between_reads_def)
  moreover have "own_inv st'"
    using own by (auto simp: own_inv_def spawned(2) spawn_def nth_append less_Suc_eq holds_defs)
  ultimately show ?thesis by simp
next
  case (inserted i m k)
  let ?n = "length (ps_entries st)"
  have ts: "ps_tasks st' = (ps_tasks st)[i := ps_tasks st' ! i]" "tk_pc (ps_tasks st' ! i) = Registered ?n"
    "tk_origin (ps_tasks st' ! i) = Some k" "ps_table st' = AList.update k ?n (ps_table st)"
    using inserted by (simp_all add: insert_entry_def set_task_def Let_def)
  have "sweeping (tk_pc (ps_tasks st ! i))" using inserted(3) by (simp add: sweeping_def)
  with lock_invD(2) [OF lk inserted(2)] inserted(5) have k: "map_of (ps_table st) k = None" by auto
  have "\<exists>k. tk_origin (ps_tasks st' ! i) = Some k \<and> map_of (ps_table st') k = Some a" if "engaged a (ps_tasks st' ! i)" for a
    using that ts(2-4) by (simp add: holds_defs update_conv)
  note new = this
  have "own_inv st'"
  proof (rule own_update [OF own ts(1) inserted(2) _ new])
    show "tk_origin (ps_tasks st' ! i) = tk_origin (ps_tasks st ! i)" by (simp add: ts(3) inserted(5))
    fix j a k' assume "map_of (ps_table st) k' = Some a"
    with k show "map_of (ps_table st') k' = Some a" by (cases "k' = k") (simp_all add: ts(4) update_conv)
  qed
  moreover have "seen_idle st'"
    by (rule calm_others [OF calm ts(1)]) (use inserted(1) ts(2) in \<open>simp_all add: between_reads_def\<close>)
  ultimately show ?thesis by simp
next
  case (advanced i)
  with advance_calm [OF inv own seen _ advanced(2,3,4)] calm show ?thesis by simp
next
  case (cancelled i)
  note tr = advance_origin [OF cancelled(2) cancel_transfer [OF inv cancelled(2,3)]]
  have "own_inv st'"
    using tr cancelled(2) cancel_not_engaged [OF cancelled(2,3)] cancel_frame [OF cancelled(2,3)]
    by (intro own_update [OF own, of st' i "ps_tasks st' ! i"]) auto
  moreover have "\<not> between_reads (tk_pc (ps_tasks st' ! i))"
    using cancel_late [OF cancelled(2,3)] by (auto simp: late_def between_reads_def split: acquire_pc.splits)
  ultimately show ?thesis using calm_others [OF calm, of st' i "ps_tasks st' ! i"] tr cancelled(1) by blast
next
  case (dropped i g)
  note tr = advance_origin [OF dropped(2) drop_guard_transfer [OF inv dropped(2-4)]]
  have eng: "\<exists>k. tk_origin (ps_tasks st' ! i) = Some k \<and> map_of (ps_table st) k = Some a"
    if "engaged a (ps_tasks st' ! i)" for a
    using drop_guard_engaged [OF dropped(2,3), of a S] that dropped(4) own dropped(2) tr unfolding own_inv_def by metis
  have "own_inv st'"
    using tr dropped(2) eng drop_guard_frame [OF dropped(2), of S g, folded dropped(4)]
    by (intro own_update [OF own, of st' i "ps_tasks st' ! i"]) auto
  moreover have "\<not> between_reads (tk_pc (ps_tasks st' ! i))"
    using drop_guard_late [OF dropped(2), of S g, folded dropped(4)] by (auto simp: late_def between_reads_def split: acquire_pc.splits)
  ultimately show ?thesis using calm_others [OF calm, of st' i "ps_tasks st' ! i"] tr dropped(1) by blast
qed

lemma calm_own: "calm_reachable S config st \<Longrightarrow> own_inv st \<and> seen_idle st"
proof (induction rule: calm_reachable.induct)
  case calm_init
  show ?case by (simp add: own_inv_def seen_idle_def pool_new_def)
next
  case (calm_next st e st')
  note r = calm_reachable_reachable [OF calm_next(1)]
  with calm_event [OF reachable_inv [OF r] reachable_lock [OF r]] calm_next show ?case by blast
qed

end

lemma reachable_entry:
  assumes "semaphore S" "pool_reachable S config st" "effective_per_origin config = Some m" "a < length (ps_entries st)"
  shows "sm_available S (en_semaphore (ps_entries st ! a)) + cnt (holds_origin a) (ps_tasks st) = m"
  using semaphore.reachable_inv [OF assms(1,2)] assms(3,4) by (auto simp: pool_inv_def entry_acct_def)

lemma reachable_task:
  assumes "semaphore S" "pool_reachable S config st" "t \<in> set (ps_tasks st)"
  shows "task_ok st t"
  using semaphore.reachable_tasks_ok [OF assms(1,2)] assms(3) by (metis tasks_ok_def in_set_conv_nth)

text \<open>
  C12: in a calm run the number of requests to one origin that hold a guard never
  exceeds the configured limit per origin, although the semaphores of idle origins
  are thrown away and created again.
\<close>

theorem per_origin_limit:
  assumes "semaphore S" "calm_reachable S config st" "effective_per_origin config = Some m"
  shows "in_flight k st \<le> m"
proof (cases "in_flight k st = 0")
  case False
  note r = calm_reachable_reachable [OF assms(2)]
  note inv = semaphore.reachable_inv [OF assms(1) r]
  let ?P = "\<lambda>t. tk_origin t = Some k \<and> (case tk_pc t of Holding _ \<Rightarrow> True | _ \<Rightarrow> False)"
  have held: "\<exists>a. holds_origin a t \<and> map_of (ps_table st) k = Some a" if t: "t \<in> set (ps_tasks st)" "?P t" for t
  proof -
    obtain g where g: "tk_pc t = Holding g" using t(2) by (auto split: acquire_pc.splits)
    have "ps_config st = config" using inv by (simp add: pool_inv_def)
    with reachable_task [OF assms(1) r t(1)] g t(2) assms(3) obtain a where a: "pg_origin_permit g = Some a"
      by (auto simp: task_ok_def)
    with g have "holds_origin a t" by (simp add: holds_origin_def)
    moreover from this t semaphore.calm_own [OF assms(1,2)] have "map_of (ps_table st) k = Some a"
      by (fastforce simp: own_inv_def engaged_def in_set_conv_nth)
    ultimately show ?thesis by blast
  qed
  from False have "0 < cnt ?P (ps_tasks st)" by (simp add: in_flight_def)
  then obtain t where "t \<in> set (ps_tasks st)" "?P t" by (auto simp: cnt_def filter_empty_conv)
  from held [OF this] obtain a where a: "map_of (ps_table st) k = Some a" by blast
  have "in_flight k st \<le> cnt (holds_origin a) (ps_tasks st)"
    unfolding in_flight_def by (rule cnt_mono) (use held a in force)
  moreover have "a < length (ps_entries st)" using inv a by (auto simp: pool_inv_def)
  ultimately show ?thesis using reachable_entry [OF assms(1) r assms(3)] by (metis le_add2 le_trans)
qed simp

fun quiet_run :: "'s sem_lib \<Rightarrow> event list \<Rightarrow> 's pool_state \<Rightarrow> 's pool_state option" where
  "quiet_run S [] st = Some st"
| "quiet_run S (e # es) st =
     (if list_all (\<lambda>t. \<not> between_reads (tk_pc t)) (ps_tasks st)
      then Option.bind (pool_event S e st) (quiet_run S es) else None)"

lemma quiet_run_calm:
  "calm_reachable S config st \<Longrightarrow> quiet_run S es st = Some st' \<Longrightarrow> calm_reachable S config st'"
proof (induction es arbitrary: st)
  case (Cons e es)
  then obtain st1 where "list_all (\<lambda>t. \<not> between_reads (tk_pc t)) (ps_tasks st)" "pool_event S e st = Some st1"
    "quiet_run S es st1 = Some st'" by (auto simp: bind_eq_Some_conv split: if_splits)
  moreover from this(1) have "calm e st" by (simp add: calm_def list_all_length)
  ultimately show ?case using Cons by (blast intro: calm_next)
qed simp

lemma contended_quiet:
  "quiet_run counter_sem contended (pool_new counter_sem one_at_a_time) = Some contended_state"
proof -
  have "\<exists>st. quiet_run counter_sem contended (pool_new counter_sem one_at_a_time) = Some st
    \<and> run_events counter_sem contended (pool_new counter_sem one_at_a_time) = Some st"
    by (simp add: contended_def run_defs between_reads_def)
  then show ?thesis by (simp add: contended_run(1))
qed

theorem per_origin_limit_witness:
  "in_flight (key_of_port 80) contended_state \<le> 1"
proof -
  have "effective_per_origin one_at_a_time = Some 1" by (simp add: effective_per_origin_def one_at_a_time_def)
  from per_origin_limit [OF counter.semaphore_axioms quiet_run_calm [OF calm_init contended_quiet] this]
  show ?thesis .
qed

end
