(* ===== verification/Pool_Progress.thy ===== *)
theory Pool_Progress
  imports Pool_Limits
begin

text \<open>
  The pool never wedges, and the run in which the two reads of the sweep let one
  origin exceed its limit.
\<close>

subsection \<open>Progress\<close>

lemma advance_enabled:
  assumes "task_ok st (ps_tasks st ! i)" "i < length (ps_tasks st)"
    and "\<not> (\<exists>g. tk_pc (ps_tasks st ! i) = Holding g)" "\<not> (\<exists>e. tk_pc (ps_tasks st ! i) = Finished e)"
    and "tk_pc (ps_tasks st ! i) \<noteq> WaitGlobal" "\<not> (\<exists>a. tk_pc (ps_tasks st ! i) = WaitOrigin a)"
    and "ps_writer st = None \<or> sweeping (tk_pc (ps_tasks st ! i))
          \<or> tk_pc (ps_tasks st ! i) \<noteq> Lookup \<and> tk_pc (ps_tasks st ! i) \<noteq> LookupSlow"
  shows "pool_event S (Advance i) st \<noteq> None"
  using assms
  by (cases "tk_pc (ps_tasks st ! i)")
    (auto simp: Let_def lookup_def lookup_slow_def with_origin_def task_ok_def at_origin_def sweeping_def split: option.splits)

lemma can_move:
  assumes "semaphore S" "pool_reachable S config st" "i < length (ps_tasks st)"
    and "\<not> (\<exists>e. tk_pc (ps_tasks st ! i) = Finished e)"
    and "tk_pc (ps_tasks st ! i) \<noteq> WaitGlobal" "\<not> (\<exists>a. tk_pc (ps_tasks st ! i) = WaitOrigin a)"
  shows "\<exists>j<length (ps_tasks st). (\<exists>g. tk_pc (ps_tasks st ! j) = Holding g) \<or> pool_event S (Advance j) st \<noteq> None"
proof (cases "ps_writer st")
  case None
  with assms show ?thesis
    using advance_enabled [OF reachable_task [OF assms(1,2) nth_mem [OF assms(3)]] assms(3)] by blast
next
  case (Some w)
  note w = lock_inv_writer [OF semaphore.reachable_lock [OF assms(1,2)] Some]
  have "pool_event S (Advance w) st \<noteq> None"
    using w by (intro advance_enabled [OF reachable_task [OF assms(1,2) nth_mem [OF w(1)]] w(1)])
      (auto simp: sweeping_def split: acquire_pc.splits)
  with w(1) show ?thesis by blast
qed

lemma origin_holder:
  assumes "semaphore S" "pool_reachable S config st" "effective_per_origin config = Some m" "0 < m"
    and "i < length (ps_tasks st)" "tk_pc (ps_tasks st ! i) = WaitOrigin a" "pool_event S (Advance i) st = None"
  shows "\<exists>j<length (ps_tasks st). holds_origin a (ps_tasks st ! j)"
proof -
  note inv = semaphore.reachable_inv [OF assms(1,2)]
  have a: "a < length (ps_entries st)"
    using semaphore.engaged_address [OF assms(1) inv assms(5), of a] assms(6) by (simp add: holds_defs)
  then have "\<not> sm_closed S (en_semaphore (ps_entries st ! a))" using inv by (auto simp: pool_inv_def entry_acct_def)
  moreover from this assms(5,6,7) have "sm_try_acquire S (en_semaphore (ps_entries st ! a)) = None"
    by (auto simp: await_origin_def Let_def)
  ultimately have "sm_available S (en_semaphore (ps_entries st ! a)) = 0"
    by (intro semaphore.acquire_none [OF assms(1)])
  with reachable_entry [OF assms(1,2,3) a] assms(4) have "0 < cnt (holds_origin a) (ps_tasks st)" by simp
  then show ?thesis by (simp add: cnt_pos_iff)
qed

lemma global_holder:
  assumes "semaphore S" "pool_reachable S config st" "\<And>n. effective_max_in_flight config = Some n \<Longrightarrow> 0 < n"
    and "i < length (ps_tasks st)" "tk_pc (ps_tasks st ! i) = WaitGlobal" "pool_event S (Advance i) st = None"
  shows "\<exists>j<length (ps_tasks st). holds_global (ps_tasks st ! j)"
proof -
  note inv = semaphore.reachable_inv [OF assms(1,2)]
  obtain s where s: "ps_global st = Some s"
    using reachable_task [OF assms(1,2) nth_mem [OF assms(4)]] assms(5) by (auto simp: task_ok_def)
  with inv have g: "\<not> sm_closed S s"
    "effective_max_in_flight config = Some (sm_available S s + cnt holds_global (ps_tasks st))"
    by (auto simp: pool_inv_def global_acct_def)
  from s g(1) assms(4,5,6) have "sm_try_acquire S s = None" by (auto simp: await_global_def Let_def)
  with g(1) have "sm_available S s = 0" by (intro semaphore.acquire_none [OF assms(1)])
  with assms(3) [OF g(2)] have "0 < cnt holds_global (ps_tasks st)" by simp
  then show ?thesis by (simp add: cnt_pos_iff)
qed

text \<open>
  C14: with positive limits the pool never wedges: while a request is not over, some
  request holds a guard, which its owner will drop, or some request can take its
  next step.
\<close>

theorem pool_never_wedges:
  assumes "semaphore S" "pool_reachable S config st" "i < length (ps_tasks st)"
    and "\<nexists>e. tk_pc (ps_tasks st ! i) = Finished e"
    and "\<forall>n. effective_max_in_flight config = Some n \<longrightarrow> 0 < n" "\<forall>m. effective_per_origin config = Some m \<longrightarrow> 0 < m"
  shows "\<exists>j<length (ps_tasks st). (\<exists>g. tk_pc (ps_tasks st ! j) = Holding g) \<or> pool_event S (Advance j) st \<noteq> None"
proof (rule ccontr)
  assume stuck: "\<not> ?thesis"
  have no_origin: "tk_pc (ps_tasks st ! j) \<noteq> WaitOrigin a" if j: "j < length (ps_tasks st)" for j a
  proof
    assume pc: "tk_pc (ps_tasks st ! j) = WaitOrigin a"
    have "effective_per_origin config \<noteq> None"
      using reachable_task [OF assms(1,2) nth_mem [OF j]] pc semaphore.reachable_inv [OF assms(1,2)]
      by (auto simp: task_ok_def at_origin_def pool_inv_def)
    then obtain m where m: "effective_per_origin config = Some m" "0 < m" using assms(6) by auto
    have "pool_event S (Advance j) st = None" using stuck j by blast
    from origin_holder [OF assms(1,2) m j pc this] obtain h where
      h: "h < length (ps_tasks st)" "holds_origin a (ps_tasks st ! h)" by blast
    then have "\<nexists>e. tk_pc (ps_tasks st ! h) = Finished e" "tk_pc (ps_tasks st ! h) \<noteq> WaitGlobal"
      "\<nexists>a. tk_pc (ps_tasks st ! h) = WaitOrigin a" by (auto simp: holds_origin_def)
    with can_move [OF assms(1,2) h(1)] stuck show False by blast
  qed
  have no_global: "tk_pc (ps_tasks st ! j) \<noteq> WaitGlobal" if j: "j < length (ps_tasks st)" for j
  proof
    assume pc: "tk_pc (ps_tasks st ! j) = WaitGlobal"
    have "pool_event S (Advance j) st = None" using stuck j by blast
    from global_holder [OF assms(1,2) _ j pc this] assms(5) obtain h where
      h: "h < length (ps_tasks st)" "holds_global (ps_tasks st ! h)" by blast
    then have "\<nexists>e. tk_pc (ps_tasks st ! h) = Finished e" "tk_pc (ps_tasks st ! h) \<noteq> WaitGlobal"
      by (auto simp: holds_global_def)
    with can_move [OF assms(1,2) h(1)] no_origin [OF h(1)] stuck show False by blast
  qed
  from can_move [OF assms(1-4) no_global [OF assms(3)]] no_origin [OF assms(3)] stuck show False by blast
qed

theorem pool_never_wedges_witness:
  "\<exists>j<length (ps_tasks contended_state). (\<exists>g. tk_pc (ps_tasks contended_state ! j) = Holding g)
     \<or> pool_event counter_sem (Advance j) contended_state \<noteq> None"
proof (rule pool_never_wedges [OF counter.semaphore_axioms run_from_start [OF contended_run(1)], of 1])
  have l: "length (ps_tasks contended_state) = 2"
    using arg_cong [OF contended_run(2), of length] by simp
  then show "1 < length (ps_tasks contended_state)" by simp
  have "map tk_pc (ps_tasks contended_state) ! 1 = WaitGlobal" unfolding contended_run(2) by simp
  with l show "\<nexists>e. tk_pc (ps_tasks contended_state ! 1) = Finished e" by simp
qed (simp_all add: effective_max_in_flight_def effective_per_origin_def one_at_a_time_def)

end
