(* ===== verification/Pool_Race.thy ===== *)
theory Pool_Race
  imports Pool_Progress
begin

text \<open>
  A run in which one origin exceeds its limit.  Sixty-five origins are used once,
  so that the next new origin sweeps the table.  A request to the first of them
  has registered as a waiter when the sweep sees its semaphore full; the request
  takes its permit and leaves the waiters before the sweep reads them.  The entry is
  thrown away with a permit out, and the next request to that origin gets a fresh
  semaphore.
\<close>

definition one_per_origin :: pool_config where
  "one_per_origin = \<lparr>pf_max_idle_connections = None, pf_max_idle_connections_per_host = None, pf_max_connections = None,
     pf_max_connections_per_host = None, pf_max_in_flight_requests = None, pf_max_in_flight_requests_per_origin = Some 1,
     pf_idle_timeout = None\<rparr>"

lemma one_per_origin_limits [simp]:
  "effective_max_in_flight one_per_origin = None" "effective_per_origin one_per_origin = Some 1"
  by (simp_all add: one_per_origin_def effective_max_in_flight_def effective_per_origin_def)

definition pool_at ::
  "(origin_key, nat) hash_map \<Rightarrow> nat per_origin_semaphore list \<Rightarrow> nat option \<Rightarrow> task list \<Rightarrow> nat pool_state" where
  "pool_at table es writer ts =
     \<lparr>ps_global = None, ps_table = table, ps_entries = es, ps_writer = writer, ps_poisoned = False,
      ps_config = one_per_origin, ps_waits = 0, ps_cancellations = 0, ps_tasks = ts\<rparr>"

lemma pool_at_sel [simp]:
  "ps_global (pool_at t es w ts) = None" "ps_table (pool_at t es w ts) = t" "ps_entries (pool_at t es w ts) = es"
  "ps_writer (pool_at t es w ts) = w" "ps_poisoned (pool_at t es w ts) = False"
  "ps_config (pool_at t es w ts) = one_per_origin" "ps_tasks (pool_at t es w ts) = ts"
  by (simp_all add: pool_at_def)

lemma pool_at_upd [simp]:
  "(pool_at t es w ts)\<lparr>ps_table := t'\<rparr> = pool_at t' es w ts" "(pool_at t es w ts)\<lparr>ps_entries := es'\<rparr> = pool_at t es' w ts"
  "(pool_at t es w ts)\<lparr>ps_writer := w'\<rparr> = pool_at t es w' ts" "(pool_at t es w ts)\<lparr>ps_tasks := ts'\<rparr> = pool_at t es w ts'"
  by (simp_all add: pool_at_def)

definition task_at :: "nat \<Rightarrow> acquire_pc \<Rightarrow> task" where
  "task_at p pc = \<lparr>tk_origin = Some (key_of_port p), tk_pc = pc, tk_global = False, tk_waited = False\<rparr>"

lemma task_at_sel [simp]:
  "tk_origin (task_at p pc) = Some (key_of_port p)" "tk_pc (task_at p pc) = pc" "tk_global (task_at p pc) = False"
  "tk_waited (task_at p pc) = False" "(task_at p pc)\<lparr>tk_pc := pc'\<rparr> = task_at p pc'"
  "(task_at p pc)\<lparr>tk_global := False\<rparr> = task_at p pc"
  by (simp_all add: task_at_def)

abbreviation sem :: "nat \<Rightarrow> nat \<Rightarrow> nat per_origin_semaphore" where
  "sem free waiting \<equiv> \<lparr>en_semaphore = free, en_waiters = waiting\<rparr>"

abbreviation guard_of :: "nat \<Rightarrow> nat \<Rightarrow> pool_guard" where
  "guard_of p a \<equiv> pool_guard_new (Some (key_of_port p)) False (Some a)"

lemma key_of_port_inj [simp]: "key_of_port p = key_of_port q \<longleftrightarrow> p = q"
  by (simp add: key_of_port_def key_from_components_def)

lemma counter_sel [simp]:
  "sm_new counter_sem n = n" "sm_available counter_sem n = n" "sm_closed counter_sem n = False"
  "sm_try_acquire counter_sem (Suc n) = Some n" "sm_try_acquire counter_sem 0 = None" "sm_release counter_sem n = Suc n"
  by (simp_all add: counter_sem_def)

definition ports :: "nat \<Rightarrow> nat \<Rightarrow> (origin_key, nat) hash_map" where
  "ports i j = map (\<lambda>p. (key_of_port p, p)) [i..<j]"

lemma ports_length [simp]: "length (ports i j) = j - i"
  by (simp add: ports_def)

lemma ports_lookup [simp]: "map_of (ports i j) (key_of_port q) = (if i \<le> q \<and> q < j then Some q else None)"
proof -
  have "map_of (map (\<lambda>p. (key_of_port p, p)) xs) (key_of_port q) = (if q \<in> set xs then Some q else None)" for xs
    by (induction xs) auto
  then show ?thesis by (simp add: ports_def)
qed

lemma ports_keys: "i < j \<Longrightarrow> map fst (ports i j) = key_of_port i # map fst (ports (Suc i) j)"
  by (simp add: ports_def upt_conv_Cons)

lemma ports_fresh: "key_of_port q \<notin> fst ` set (ports i j) \<longleftrightarrow> \<not> (i \<le> q \<and> q < j)"
  by (auto simp: ports_def image_image)

lemma update_fresh: "k \<notin> fst ` set xs \<Longrightarrow> AList.update k v xs = xs @ [(k, v)]"
  by (induction xs) auto

lemma ports_update: "i \<le> j \<Longrightarrow> AList.update (key_of_port j) j (ports i j) = ports i (Suc j)"
  using update_fresh [of "key_of_port j" "ports i j" j] by (simp add: ports_fresh) (simp add: ports_def)

lemma ports_delete:
  assumes "i < j" shows "AList.delete (key_of_port i) (ports i j) = ports (Suc i) j"
proof -
  have "ports i j = (key_of_port i, i) # ports (Suc i) j" using assms by (simp add: ports_def upt_conv_Cons)
  moreover have "AList.delete (key_of_port i) (ports (Suc i) j) = ports (Suc i) j"
    by (auto simp: AList.delete_eq filter_id_conv ports_def)
  ultimately show ?thesis by simp
qed

lemma threshold_one [simp]: "sweep_threshold 1 = 64" "sweep_threshold (Suc 0) = 64"
  by (simp_all add: sweep_threshold_def)

lemmas race_defs = try_global_def resume_global_def register_def lookup_def lookup_slow_def sweep_def sweep_waiters_def
  try_origin_def await_origin_def take_waiter_def drop_guard_def drop_second_def with_origin_def insert_entry_def
  set_task_def set_entry_def drop_global_permit_def drop_origin_permit_def add_waiter_def drop_waiter_guard_def
  finish_def spawn_def task_at_def [symmetric] nth_append list_update_append

subsection \<open>Sixty-five idle origins\<close>

definition idle_pool :: "nat \<Rightarrow> nat pool_state" where
  "idle_pool n = pool_at (ports 0 n) (replicate n (sem 1 0)) None (map (\<lambda>p. task_at p (Finished Released)) [0..<n])"

lemma fill_step:
  assumes "n \<le> 64"
  shows "run_events counter_sem
    ([Spawn (Some (key_of_port n)), Advance n, Advance n, Advance n, Advance n, Advance n, Advance n, DropGuard n, Advance n])
    (idle_pool n) = Some (idle_pool (Suc n))"
  using assms
  by (simp add: idle_pool_def race_defs ports_update pool_guard_new_def replicate_append_same)

lemma idle_pool_reachable: "n \<le> 65 \<Longrightarrow> pool_reachable counter_sem one_per_origin (idle_pool n)"
proof (induction n)
  case 0
  have "idle_pool 0 = pool_new counter_sem one_per_origin"
    by (simp add: idle_pool_def pool_at_def pool_new_def ports_def)
  then show ?case by (simp add: pool_init)
next
  case (Suc n)
  then show ?case using fill_step [of n] run_events_reachable by fastforce
qed

subsection \<open>The race\<close>

text \<open>Tasks \<open>n\<close>, \<open>Suc n\<close> and \<open>Suc (Suc n)\<close> join the pool of \<open>n\<close> idle origins.\<close>

definition crowd :: "nat \<Rightarrow> acquire_pc list \<Rightarrow> task list" where
  "crowd n pcs = map (\<lambda>p. task_at p (Finished Released)) [0..<n] @ map2 task_at [0, n, 0] pcs"

lemma crowd_length [simp]: "length (crowd n [a, b]) = n + 2" "length (crowd n [a, b, c]) = n + 3"
  by (simp_all add: crowd_def)

definition sweep_at :: "nat \<Rightarrow> nat \<Rightarrow> nat pool_state" where
  "sweep_at n j = pool_at (ports j n) (sem 0 0 # replicate (n - 1) (sem 1 0)) (Some (Suc n))
     (crowd n [Holding (guard_of 0 0), Sweep (map fst (ports j n))])"

lemma race_window:
  assumes "64 < n"
  shows "run_events counter_sem
     ([Spawn (Some (key_of_port 0)), Advance n, Advance n,
       Spawn (Some (key_of_port n)), Advance (Suc n), Advance (Suc n), Advance (Suc n), Advance (Suc n),
       Advance n, Advance n, Advance (Suc n)])
     (idle_pool n) = Some (sweep_at n 1)"
proof -
  obtain k where n: "n = Suc k" using assms by (cases n) auto
  show ?thesis
    using assms ports_keys [of 0 n] ports_delete [of 0 n]
    by (simp add: n idle_pool_def sweep_at_def crowd_def race_defs pool_guard_new_def del: upt_Suc)
qed

lemma sweep_entry:
  assumes "1 \<le> j" "j < n"
  shows "run_events counter_sem [Advance (Suc n), Advance (Suc n)] (sweep_at n j) = Some (sweep_at n (Suc j))"
proof -
  obtain i where j: "j = Suc i" using assms by (cases j) auto
  show ?thesis
    using assms ports_keys [of j n] ports_delete [of j n]
    by (simp add: j sweep_at_def crowd_def race_defs)
qed

lemma sweep_rest: "1 \<le> j \<Longrightarrow> j \<le> n \<Longrightarrow> pool_reachable counter_sem one_per_origin (sweep_at n 1) \<Longrightarrow>
    pool_reachable counter_sem one_per_origin (sweep_at n j)"
proof (induction j)
  case (Suc j)
  then show ?case
    using sweep_entry [of j n] run_events_reachable by (cases "j = 0") fastforce+
qed simp

definition overrun :: "nat \<Rightarrow> nat pool_state" where
  "overrun n = pool_at [(key_of_port n, n), (key_of_port 0, Suc n)]
     (sem 0 0 # replicate (n - 1) (sem 1 0) @ [sem 1 1, sem 0 0]) None
     (crowd n [Holding (guard_of 0 0), Registered n, Holding (guard_of 0 (Suc n))])"

lemma second_permit:
  assumes "0 < n"
  shows "run_events counter_sem
     ([Advance (Suc n), Advance (Suc n), Spawn (Some (key_of_port 0)), Advance (Suc (Suc n)), Advance (Suc (Suc n)),
       Advance (Suc (Suc n)), Advance (Suc (Suc n)), Advance (Suc (Suc n)), Advance (Suc (Suc n))])
     (sweep_at n n) = Some (overrun n)"
proof -
  obtain k where n: "n = Suc k" using assms by (cases n) auto
  have "ports (Suc k) (Suc k) = []" by (simp add: ports_def)
  then show ?thesis
    by (simp add: n sweep_at_def overrun_def crowd_def race_defs pool_guard_new_def del: upt_Suc)
qed

lemma overrun_reachable: "pool_reachable counter_sem one_per_origin (overrun 65)"
proof -
  have "pool_reachable counter_sem one_per_origin (sweep_at 65 1)"
    using run_events_reachable [OF idle_pool_reachable race_window] by simp
  from sweep_rest [OF _ _ this, of 65] run_events_reachable [OF _ second_permit [of 65]] show ?thesis by simp
qed

text \<open>
  C15: the limit per origin can be exceeded.  With a limit of one request per origin,
  a run of the pool ends with two requests to the same origin that both hold a
  guard: the sweep has thrown away the semaphore of an origin whose permit is out.
\<close>

theorem sweep_race:
  "\<exists>st. pool_reachable counter_sem one_per_origin st \<and> effective_per_origin one_per_origin = Some 1
     \<and> in_flight (key_of_port 0) st = 2"
proof -
  have "cnt P (map (\<lambda>p. task_at p (Finished Released)) [0..<n]) = 0"
    if "\<And>p. \<not> P (task_at p (Finished Released))" for P n
    using that by (auto intro!: cnt_none)
  then have "in_flight (key_of_port 0) (overrun 65) = 2"
    by (simp add: in_flight_def overrun_def crowd_def cnt_def)
  with overrun_reachable show ?thesis by fastforce
qed

end
