(* ===== verification/Socks.thy ===== *)
theory Socks
  imports Proxy_Config
begin

text \<open>
  The SOCKS5 client (\<open>transport/socks.rs\<close>): method negotiation, username and
  password, the CONNECT command and its reply, and the order in which several
  destination addresses are tried.  A TCP stream is what the peer will send, how
  it ends, what was written so far, and the fate of each I/O operation under a
  deadline; connecting and name resolution are arguments.
\<close>

subsection \<open>Streams\<close>

datatype peer_end = PeerEof | PeerError string

record tcp_stream =
  ts_input :: string
  ts_end :: peer_end
  ts_written :: "string list"
  ts_ops :: nat
  ts_expires :: "nat \<Rightarrow> duration option"
  ts_write_error :: "nat \<Rightarrow> string option"

definition tick :: "tcp_stream \<Rightarrow> tcp_stream" where
  "tick s = s\<lparr>ts_ops := Suc (ts_ops s)\<rparr>"

definition op_expires :: "instant option \<Rightarrow> tcp_stream \<Rightarrow> duration option" where
  "op_expires deadline s = (case deadline of None \<Rightarrow> None | Some _ \<Rightarrow> ts_expires s (ts_ops s))"

definition write_all_timeout :: "instant option \<Rightarrow> string \<Rightarrow> string \<Rightarrow> tcp_stream \<Rightarrow> unit result \<times> tcp_stream" where
  "write_all_timeout deadline data phase s =
     (case op_expires deadline s of
        Some dur \<Rightarrow> (Err (Timeout PhaseProxyConnect dur), tick s)
      | None \<Rightarrow>
          (case ts_write_error s (ts_ops s) of
             Some e \<Rightarrow> (Err (ProxyConnect (phase @ '' write failed: '' @ e)), tick s)
           | None \<Rightarrow> (Ok (), tick (s\<lparr>ts_written := ts_written s @ [data]\<rparr>))))"

definition read_exact_timeout :: "instant option \<Rightarrow> nat \<Rightarrow> string \<Rightarrow> tcp_stream \<Rightarrow> string result \<times> tcp_stream" where
  "read_exact_timeout deadline n phase s =
     (case op_expires deadline s of
        Some dur \<Rightarrow> (Err (Timeout PhaseProxyConnect dur), tick s)
      | None \<Rightarrow>
          if n \<le> length (ts_input s)
          then (Ok (take n (ts_input s)), tick (s\<lparr>ts_input := drop n (ts_input s)\<rparr>))
          else (case ts_end s of
                  PeerEof \<Rightarrow> (Err (MalformedProxyResponse (phase @ '': connection closed prematurely'')), tick s)
                | PeerError e \<Rightarrow> (Err (ProxyConnect (phase @ '' read failed: '' @ e)), tick s)))"

text \<open>Sequencing with early return, and a change of the error.\<close>

definition sbind ::
  "(tcp_stream \<Rightarrow> ('e + 'a) \<times> tcp_stream) \<Rightarrow> ('a \<Rightarrow> tcp_stream \<Rightarrow> ('e + 'b) \<times> tcp_stream)
   \<Rightarrow> tcp_stream \<Rightarrow> ('e + 'b) \<times> tcp_stream" where
  "sbind m f s = (case m s of (Inl e, s') \<Rightarrow> (Inl e, s') | (Inr x, s') \<Rightarrow> f x s')"

definition sreturn :: "('e + 'a) \<Rightarrow> tcp_stream \<Rightarrow> ('e + 'a) \<times> tcp_stream" where
  "sreturn r s = (r, s)"

definition smap_err ::
  "('e \<Rightarrow> 'f) \<Rightarrow> (tcp_stream \<Rightarrow> ('e + 'a) \<times> tcp_stream) \<Rightarrow> tcp_stream \<Rightarrow> ('f + 'a) \<times> tcp_stream" where
  "smap_err g m s = (case m s of (Inl e, s') \<Rightarrow> (Inl (g e), s') | (Inr x, s') \<Rightarrow> (Inr x, s'))"

subsection \<open>The wire format\<close>

abbreviation octet :: "nat \<Rightarrow> char" where "octet n \<equiv> char_of n"

fun be_bytes :: "nat \<Rightarrow> nat \<Rightarrow> string" where
  "be_bytes 0 n = []"
| "be_bytes (Suc k) n = be_bytes k (n div 256) @ [octet (n mod 256)]"

fun ip_octets :: "ip_addr \<Rightarrow> string" where
  "ip_octets (V4 w) = be_bytes 4 (unat w)"
| "ip_octets (V6 w) = be_bytes 16 (unat w)"

fun atyp_of :: "ip_addr \<Rightarrow> char" where
  "atyp_of (V4 w) = octet 1"
| "atyp_of (V6 w) = octet 4"

definition max_socks5_len :: nat where "max_socks5_len = 255"

definition expected_method :: "proxy_auth option \<Rightarrow> nat" where
  "expected_method auth = (if auth \<noteq> None then 2 else 0)"

definition greeting_of :: "proxy_auth option \<Rightarrow> string" where
  "greeting_of auth = [octet 5, octet 1, octet (expected_method auth)]"

definition negotiate_method ::
  "proxy_auth option \<Rightarrow> instant option \<Rightarrow> tcp_stream \<Rightarrow> nat result \<times> tcp_stream" where
  "negotiate_method auth deadline =
     sbind (write_all_timeout deadline (greeting_of auth) ''SOCKS5 greeting'') (\<lambda>_.
     sbind (read_exact_timeout deadline 2 ''SOCKS5 method response'') (\<lambda>response.
       sreturn
         (if byte (response ! 0) \<noteq> 5
          then Err (ProxyConnect (''SOCKS5 proxy returned invalid version: '' @ show_nat (byte (response ! 0))))
          else if byte (response ! 1) = 255
          then Err (ProxyConnect ''SOCKS5 proxy rejected all authentication methods'')
          else if byte (response ! 1) = expected_method auth then Ok (byte (response ! 1))
          else Err (ProxyConnect (''SOCKS5 proxy selected method '' @ show_nat (byte (response ! 1)) @
                 '', but the client offered '' @ show_nat (expected_method auth))))))"

fun auth_request_of :: "proxy_auth \<Rightarrow> string" where
  "auth_request_of (ProxyBasic username password) =
     octet 1 # octet (length username) # username @ octet (length password) # password"

fun authenticate :: "proxy_auth \<Rightarrow> instant option \<Rightarrow> tcp_stream \<Rightarrow> unit result \<times> tcp_stream" where
  "authenticate (ProxyBasic username password) deadline s =
     (if length username > max_socks5_len
      then (Err (ProxyConnect ''SOCKS5 username exceeds maximum length of 255''), s)
      else if length password > max_socks5_len
      then (Err (ProxyConnect ''SOCKS5 password exceeds maximum length of 255''), s)
      else
        sbind (write_all_timeout deadline (auth_request_of (ProxyBasic username password)) ''SOCKS5 auth request'') (\<lambda>_.
        sbind (read_exact_timeout deadline 2 ''SOCKS5 auth response'') (\<lambda>response.
          sreturn
            (if byte (response ! 0) \<noteq> 1
             then Err (ProxyConnect (''SOCKS5 auth returned invalid subnegotiation version: '' @ show_nat (byte (response ! 0))))
             else if byte (response ! 1) \<noteq> 0
             then Err (ProxyConnect ''SOCKS5 proxy rejected authentication credentials'')
             else Ok ()))) s)"

subsection \<open>The CONNECT command\<close>

datatype target_attempt_error = Retryable error | Terminal error

fun into_error :: "target_attempt_error \<Rightarrow> error" where
  "into_error (Retryable e) = e"
| "into_error (Terminal e) = e"

text \<open>The table of reply codes: whether another address may be tried, and the text.\<close>

definition reply_failure :: "nat \<Rightarrow> target_attempt_error" where
  "reply_failure code =
     (case List.find (\<lambda>r. fst r = code)
        [(1, False, ''general SOCKS server failure''), (2, False, ''connection not allowed by ruleset''),
         (3, True, ''network unreachable''), (4, True, ''host unreachable''), (5, True, ''connection refused''),
         (6, False, ''TTL expired''), (7, False, ''command not supported''), (8, False, ''address type not supported'')] of
        None \<Rightarrow> Terminal (ProxyConnect (''SOCKS5 CONNECT failed with unknown reply code: '' @ show_nat code))
      | Some (_, retryable, msg) \<Rightarrow>
          (if retryable then Retryable else Terminal) (ProxyConnect (''SOCKS5 CONNECT failed: '' @ msg)))"

definition read_bound_address :: "instant option \<Rightarrow> nat \<Rightarrow> tcp_stream \<Rightarrow> unit result \<times> tcp_stream" where
  "read_bound_address deadline atyp =
     (if atyp = 1 then sbind (read_exact_timeout deadline 6 ''SOCKS5 bound IPv4 address'') (\<lambda>_. sreturn (Ok ()))
      else if atyp = 4 then sbind (read_exact_timeout deadline 18 ''SOCKS5 bound IPv6 address'') (\<lambda>_. sreturn (Ok ()))
      else if atyp = 3 then
        sbind (read_exact_timeout deadline 1 ''SOCKS5 bound domain length'') (\<lambda>len.
        sbind (read_exact_timeout deadline (byte (len ! 0) + 2) ''SOCKS5 bound domain address'') (\<lambda>_. sreturn (Ok ())))
      else sreturn (Err (MalformedProxyResponse (''SOCKS5 reply has unknown address type: '' @ show_nat atyp))))"

definition parse_connect_reply_for_target ::
  "instant option \<Rightarrow> tcp_stream \<Rightarrow> (target_attempt_error + unit) \<times> tcp_stream" where
  "parse_connect_reply_for_target deadline =
     sbind (smap_err Terminal (read_exact_timeout deadline 4 ''SOCKS5 CONNECT reply'')) (\<lambda>header.
       if byte (header ! 0) \<noteq> 5
       then sreturn (Inl (Terminal (ProxyConnect (''SOCKS5 reply has invalid version: '' @ show_nat (byte (header ! 0))))))
       else if byte (header ! 1) \<noteq> 0 then sreturn (Inl (reply_failure (byte (header ! 1))))
       else smap_err Terminal (read_bound_address deadline (byte (header ! 3))))"

definition parse_connect_reply :: "instant option \<Rightarrow> tcp_stream \<Rightarrow> unit result \<times> tcp_stream" where
  "parse_connect_reply deadline = smap_err into_error (parse_connect_reply_for_target deadline)"

definition connect_request_ip :: "ip_addr \<Rightarrow> nat \<Rightarrow> string" where
  "connect_request_ip ip port = [octet 5, octet 1, octet 0, atyp_of ip] @ ip_octets ip @ be_bytes 2 port"

definition connect_request_domain :: "string \<Rightarrow> nat \<Rightarrow> string" where
  "connect_request_domain host port =
     [octet 5, octet 1, octet 0, octet 3, octet (length host)] @ host @ be_bytes 2 port"

definition send_connect_ip ::
  "ip_addr \<Rightarrow> nat \<Rightarrow> instant option \<Rightarrow> tcp_stream \<Rightarrow> (target_attempt_error + unit) \<times> tcp_stream" where
  "send_connect_ip ip port deadline =
     sbind (smap_err Terminal (write_all_timeout deadline (connect_request_ip ip port) ''SOCKS5 CONNECT'')) (\<lambda>_.
       parse_connect_reply_for_target deadline)"

subsection \<open>Names and connections\<close>

text \<open>
  Outside: the resolver (the \<open>n\<close>-th query may answer differently from the first),
  the TCP connections, and whether the timer around them fires first.
\<close>

record socks_env =
  se_proxy_lookup :: "nat \<Rightarrow> string \<Rightarrow> string + socket_addr list"
  se_dest_lookup :: "nat \<Rightarrow> string \<Rightarrow> string + socket_addr list"
  se_dest_expires :: "nat \<Rightarrow> duration option"
  se_tcp :: "nat \<Rightarrow> socket_addr \<Rightarrow> string + tcp_stream"
  se_nodelay_error :: "nat \<Rightarrow> string option"
  se_connect_expires :: "nat \<Rightarrow> duration option"

record socks_world =
  sw_tries :: nat
  sw_closed :: "tcp_stream list"

definition close_stream :: "tcp_stream \<Rightarrow> socks_world \<Rightarrow> socks_world" where
  "close_stream s w = w\<lparr>sw_closed := sw_closed w @ [s]\<rparr>"

definition resolve_failure :: "string \<Rightarrow> error" where
  "resolve_failure host = Connect (''DNS resolution failed for SOCKS destination '' @ host)"

definition resolve_dest_ips :: "socks_env \<Rightarrow> nat \<Rightarrow> string \<Rightarrow> instant option \<Rightarrow> ip_addr list result" where
  "resolve_dest_ips X n host deadline =
     (case parse_ipv4 host of
        Some w \<Rightarrow> Ok [V4 w]
      | None \<Rightarrow>
         (case parse_ipv6 host of
            Some w \<Rightarrow> Ok [V6 w]
          | None \<Rightarrow>
             (case (if deadline = None then None else se_dest_expires X n) of
                Some dur \<Rightarrow> Err (Timeout PhaseProxyConnect dur)
              | None \<Rightarrow>
                 (case se_dest_lookup X n (host @ '':0'') of
                    Inl e \<Rightarrow> Err (Connect (''DNS resolution failed for SOCKS destination '' @ host @ '': '' @ e))
                  | Inr addrs \<Rightarrow> if addrs = [] then Err (resolve_failure host) else Ok (map fst addrs)))))"

definition resolve_dest_ip :: "socks_env \<Rightarrow> nat \<Rightarrow> string \<Rightarrow> instant option \<Rightarrow> ip_addr result" where
  "resolve_dest_ip X n host deadline =
     bind_result (resolve_dest_ips X n host deadline) (\<lambda>addrs.
       case addrs of [] \<Rightarrow> Err (resolve_failure host) | ip # _ \<Rightarrow> Ok ip)"

definition connect_request_for ::
  "socks_env \<Rightarrow> string \<Rightarrow> nat \<Rightarrow> bool \<Rightarrow> instant option \<Rightarrow> string result" where
  "connect_request_for X dest_host dest_port remote_dns deadline =
     (case parse_ip_addr dest_host of
        Some ip \<Rightarrow> Ok (connect_request_ip ip dest_port)
      | None \<Rightarrow>
          if remote_dns then
            (if length dest_host > max_socks5_len
             then Err (ProxyConnect ''SOCKS5 destination domain exceeds maximum length of 255'')
             else Ok (connect_request_domain dest_host dest_port))
          else bind_result (resolve_dest_ip X 1 dest_host deadline) (\<lambda>ip. Ok (connect_request_ip ip dest_port)))"

definition send_connect ::
  "socks_env \<Rightarrow> string \<Rightarrow> nat \<Rightarrow> bool \<Rightarrow> instant option \<Rightarrow> tcp_stream \<Rightarrow> unit result \<times> tcp_stream" where
  "send_connect X dest_host dest_port remote_dns deadline =
     sbind (sreturn (connect_request_for X dest_host dest_port remote_dns deadline)) (\<lambda>request.
     sbind (write_all_timeout deadline request ''SOCKS5 CONNECT'') (\<lambda>_.
       parse_connect_reply deadline))"

fun connect_first :: "(socket_addr \<Rightarrow> string + tcp_stream) \<Rightarrow> string option \<Rightarrow> socket_addr list \<Rightarrow> string option + tcp_stream" where
  "connect_first tcp last_error [] = Inl last_error"
| "connect_first tcp last_error (a # as) =
     (case tcp a of Inr s \<Rightarrow> Inr s | Inl e \<Rightarrow> connect_first tcp (Some e) as)"

definition proxy_leg :: "proxy_auth option \<Rightarrow> instant option \<Rightarrow> tcp_stream \<Rightarrow> unit result \<times> tcp_stream" where
  "proxy_leg auth deadline =
     sbind (negotiate_method auth deadline) (\<lambda>selected_method.
       if selected_method = 2 then
         (case auth of
            None \<Rightarrow> sreturn (Err (ProxyConnect ''SOCKS5 proxy selected username/password but no credentials were configured''))
          | Some a \<Rightarrow> authenticate a deadline)
       else sreturn (Ok ()))"

definition proxy_tcp ::
  "socks_env \<Rightarrow> 'h proxy_config \<Rightarrow> nat \<Rightarrow> string \<Rightarrow> nat \<Rightarrow> instant option \<Rightarrow> tcp_stream result" where
  "proxy_tcp X cfg n host port deadline =
     (case (if deadline = None then None else se_connect_expires X n) of
        Some dur \<Rightarrow> Err (Timeout PhaseProxyConnect dur)
      | None \<Rightarrow>
          (let endpoint = host @ '':'' @ show_nat port
           in bind_result
                (case pc_resolved_addresses cfg of
                   Some addrs \<Rightarrow> Ok addrs
                 | None \<Rightarrow>
                    (case se_proxy_lookup X n endpoint of
                       Inl e \<Rightarrow> Err (ProxyConnect (''DNS resolution failed for SOCKS5 proxy '' @ endpoint @ '': '' @ e))
                     | Inr addrs \<Rightarrow> Ok addrs)) (\<lambda>addresses.
              case connect_first (se_tcp X n) None addresses of
                Inl last_error \<Rightarrow>
                  Err (ProxyConnect (''TCP connect to SOCKS5 proxy '' @ endpoint @ '' failed: '' @
                    (case last_error of None \<Rightarrow> ''no addresses resolved'' | Some e \<Rightarrow> e)))
              | Inr s \<Rightarrow>
                 (case se_nodelay_error X n of
                    Some e \<Rightarrow> Err (ProxyConnect (''failed to set nodelay: '' @ e))
                  | None \<Rightarrow> Ok s))))"

definition establish_socks_proxy_connection ::
  "socks_env \<Rightarrow> 'h proxy_config \<Rightarrow> instant option \<Rightarrow> socks_world \<Rightarrow> tcp_stream result \<times> socks_world" where
  "establish_socks_proxy_connection X cfg deadline w =
     (case url_host_str (pc_uri cfg) of
        None \<Rightarrow> (Err (ProxyConnect ''SOCKS proxy URI has no host''), w)
      | Some host \<Rightarrow>
         (case proxy_port cfg of
            Inl e \<Rightarrow> (Inl e, w)
          | Inr port \<Rightarrow>
             (let w1 = w\<lparr>sw_tries := Suc (sw_tries w)\<rparr>
              in case proxy_tcp X cfg (sw_tries w) host port deadline of
                   Inl e \<Rightarrow> (Inl e, w1)
                 | Inr s \<Rightarrow>
                    (case proxy_leg (pc_auth cfg) deadline s of
                       (Inl e, s') \<Rightarrow> (Inl e, close_stream s' w1)
                     | (Inr _, s') \<Rightarrow> (Inr s', w1)))))"

definition handshake_with_ip ::
  "socks_env \<Rightarrow> 'h proxy_config \<Rightarrow> ip_addr \<Rightarrow> nat \<Rightarrow> instant option \<Rightarrow> socks_world
   \<Rightarrow> (target_attempt_error + tcp_stream) \<times> socks_world" where
  "handshake_with_ip X cfg ip port deadline w =
     (case establish_socks_proxy_connection X cfg deadline w of
        (Inl e, w') \<Rightarrow> (Inl (Terminal e), w')
      | (Inr s, w') \<Rightarrow>
         (case send_connect_ip ip port deadline s of
            (Inl e, s') \<Rightarrow> (Inl e, close_stream s' w')
          | (Inr _, s') \<Rightarrow> (Inr s', w')))"

text \<open>
  Both loops over addresses, the pinned targets and the resolved ones, do this:
  an establishment error ends the loop, as a terminal error of the target does.
\<close>

fun try_addresses ::
  "socks_env \<Rightarrow> 'h proxy_config \<Rightarrow> instant option \<Rightarrow> socket_addr list \<Rightarrow> error \<Rightarrow> socks_world
   \<Rightarrow> tcp_stream result \<times> socks_world" where
  "try_addresses X cfg deadline [] last_err w = (Err last_err, w)"
| "try_addresses X cfg deadline ((ip, port) # rest) last_err w =
     (case handshake_with_ip X cfg ip port deadline w of
        (Inr s, w') \<Rightarrow> (Ok s, w')
      | (Inl (Retryable e), w') \<Rightarrow>
          if rest \<noteq> [] then try_addresses X cfg deadline rest e w' else (Err e, w')
      | (Inl (Terminal e), w') \<Rightarrow> (Err e, w'))"

definition socks5_handshake ::
  "socks_env \<Rightarrow> 'h proxy_config \<Rightarrow> string \<Rightarrow> nat \<Rightarrow> bool \<Rightarrow> instant option \<Rightarrow> socket_addr list option \<Rightarrow> socks_world
   \<Rightarrow> tcp_stream result \<times> socks_world" where
  "socks5_handshake X cfg dest_host dest_port remote_dns deadline pinned_targets w =
     (case pinned_targets of
        Some targets \<Rightarrow>
          if targets = [] then (Err (Connect ''empty SOCKS target set''), w)
          else try_addresses X cfg deadline targets (Connect ''empty SOCKS target set'') w
      | None \<Rightarrow>
          (let single =
             (case establish_socks_proxy_connection X cfg deadline w of
                (Inl e, w') \<Rightarrow> (Inl e, w')
              | (Inr s, w') \<Rightarrow>
                 (case send_connect X dest_host dest_port remote_dns deadline s of
                    (Inl e, s') \<Rightarrow> (Inl e, close_stream s' w')
                  | (Inr _, s') \<Rightarrow> (Inr s', w')))
           in if \<not> remote_dns \<and> parse_ip_addr dest_host = None then
                (case resolve_dest_ips X 0 dest_host deadline of
                   Inl _ \<Rightarrow> single
                 | Inr addrs \<Rightarrow>
                     if length addrs > 1
                     then try_addresses X cfg deadline (map (\<lambda>ip. (ip, dest_port)) addrs) (resolve_failure dest_host) w
                     else single)
              else single))"

subsection \<open>The connector\<close>

definition socks_remote_dns :: "'h proxy_config \<Rightarrow> bool" where
  "socks_remote_dns cfg \<longleftrightarrow> url_scheme (pc_uri cfg) = ''socks5h''"

definition socks_destination :: "uri \<Rightarrow> (string \<times> nat) result" where
  "socks_destination dst =
     bind_result (ok_or (uri_host dst) (InvalidUrl ''SOCKS destination has no host'')) (\<lambda>host.
       Ok (host, case uri_port_u16 dst of
                   Some p \<Rightarrow> p
                 | None \<Rightarrow> if uri_scheme_str dst = Some ''https'' then 443 else 80))"

definition socks_connector_call ::
  "socks_env \<Rightarrow> 'h proxy_config \<Rightarrow> socket_addr list option \<Rightarrow> uri \<Rightarrow> instant option \<Rightarrow> socks_world
   \<Rightarrow> tcp_stream result \<times> socks_world" where
  "socks_connector_call X cfg target dst deadline w =
     (case socks_destination dst of
        Inl e \<Rightarrow> (Inl e, w)
      | Inr (host, port) \<Rightarrow> socks5_handshake X cfg host port (socks_remote_dns cfg) deadline target w)"

record socks_route_key =
  sr_scheme :: string
  sr_host :: string
  sr_port :: nat
  sr_auth :: "(string \<times> string) option"
  sr_proxy_addresses :: "socket_addr list option"
  sr_target_addresses :: "socket_addr list option"

definition socks_route_key_from_proxy ::
  "'h proxy_config \<Rightarrow> socket_addr list option \<Rightarrow> socks_route_key result" where
  "socks_route_key_from_proxy cfg target =
     bind_result (ok_or (url_host_str (pc_uri cfg)) (Connect ''SOCKS proxy URI has no host'')) (\<lambda>host.
     bind_result (proxy_port cfg) (\<lambda>port.
       Ok \<lparr>sr_scheme = url_scheme (pc_uri cfg), sr_host = host, sr_port = port,
           sr_auth = map_option (\<lambda>a. case a of ProxyBasic u p \<Rightarrow> (u, p)) (pc_auth cfg),
           sr_proxy_addresses = pc_resolved_addresses cfg, sr_target_addresses = target\<rparr>))"

end
