(* ===== verification/Socks_Props.thy ===== *)
theory Socks_Props
  imports Socks
begin

text \<open>
  What the SOCKS5 client puts on the wire and takes from it: the command names the
  requested destination, credentials are sent only to a proxy that asked for them,
  the reply is consumed to its last byte and no further, and another address is
  tried only after a reply that blames the address.
\<close>

subsection \<open>Big-endian numbers\<close>

definition from_be :: "string \<Rightarrow> nat" where
  "from_be s = foldl (\<lambda>a c. a * 256 + byte c) 0 s"

lemma length_be_bytes [simp]: "length (be_bytes k n) = k"
  by (induction k arbitrary: n) simp_all

lemma from_be_be_bytes: "from_be (be_bytes k n) = n mod 256 ^ k"
proof (induction k arbitrary: n)
  case (Suc k)
  have "from_be (be_bytes (Suc k) n) = from_be (be_bytes k (n div 256)) * 256 + n mod 256"
    by (simp add: from_be_def)
  also have "\<dots> = n mod 256 ^ Suc k"
    by (simp add: Suc mod_mult2_eq mult.commute)
  finally show ?case .
qed (simp add: from_be_def)

lemma from_be_word4 [simp]: "from_be (be_bytes 4 (unat (w :: 32 word))) = unat w"
  using unsigned_less [of w, where ?'a = nat] by (simp add: from_be_be_bytes del: be_bytes.simps)

lemma from_be_word16 [simp]: "from_be (be_bytes 16 (unat (w :: 128 word))) = unat w"
  using unsigned_less [of w, where ?'a = nat] by (simp add: from_be_be_bytes del: be_bytes.simps)

lemma from_be_port: "port < 65536 \<Longrightarrow> from_be (be_bytes 2 port) = port"
  by (simp add: from_be_be_bytes del: be_bytes.simps)

subsection \<open>The command as a server reads it\<close>

fun decode_request :: "string \<Rightarrow> ((ip_addr + string) \<times> nat) option" where
  "decode_request (v # c # r # t # rest) =
     (if byte v \<noteq> 5 \<or> byte c \<noteq> 1 \<or> byte r \<noteq> 0 then None
      else if byte t = 1 \<and> length rest = 6
      then Some (Inl (V4 (of_nat (from_be (take 4 rest)))), from_be (drop 4 rest))
      else if byte t = 4 \<and> length rest = 18
      then Some (Inl (V6 (of_nat (from_be (take 16 rest)))), from_be (drop 16 rest))
      else if byte t = 3 \<and> rest \<noteq> [] \<and> length rest = byte (hd rest) + 3
      then Some (Inr (take (byte (hd rest)) (tl rest)), from_be (drop (byte (hd rest)) (tl rest)))
      else None)"
| "decode_request _ = None"

lemma decode_ip: "port < 65536 \<Longrightarrow> decode_request (connect_request_ip ip port) = Some (Inl ip, port)"
  by (cases ip) (simp_all add: connect_request_ip_def from_be_port del: be_bytes.simps)

lemma decode_domain:
  "port < 65536 \<Longrightarrow> length host \<le> 255 \<Longrightarrow> decode_request (connect_request_domain host port) = Some (Inr host, port)"
  by (simp add: connect_request_domain_def from_be_port del: be_bytes.simps)

subsection \<open>I/O\<close>

lemma sbind_Inr: "sbind m f s = (Inr y, s2) \<longleftrightarrow> (\<exists>x s1. m s = (Inr x, s1) \<and> f x s1 = (Inr y, s2))"
  by (auto simp: sbind_def split: prod.splits sum.splits)

lemma smap_err_Inr: "smap_err g m s = (Inr y, s2) \<longleftrightarrow> m s = (Inr y, s2)"
  by (auto simp: smap_err_def split: prod.splits sum.splits)

lemma write_Ok:
  "write_all_timeout dl d ph s = (Inr u, s') \<Longrightarrow> ts_written s' = ts_written s @ [d] \<and> ts_input s' = ts_input s"
  by (auto simp: write_all_timeout_def tick_def split: option.splits)

lemma write_written:
  "write_all_timeout dl d ph s = (r, s') \<Longrightarrow>
     ts_input s' = ts_input s \<and> (ts_written s' = ts_written s \<and> r \<noteq> Inr () \<or> ts_written s' = ts_written s @ [d] \<and> r = Inr ())"
  by (auto simp: write_all_timeout_def tick_def split: option.splits)

lemma read_Ok:
  "read_exact_timeout dl n ph s = (Inr bs, s') \<Longrightarrow>
     ts_written s' = ts_written s \<and> ts_input s = bs @ ts_input s' \<and> length bs = n"
  by (auto simp: read_exact_timeout_def tick_def split: option.splits if_splits peer_end.splits)

lemma read_written: "read_exact_timeout dl n ph s = (r, s') \<Longrightarrow> ts_written s' = ts_written s"
  by (auto simp: read_exact_timeout_def tick_def split: option.splits if_splits peer_end.splits)

lemma two_bytes: "length bs = 2 \<Longrightarrow> \<exists>a b. bs = [a, b]"
  by (cases bs; cases "tl bs") auto

lemma byte_octet: "byte c = n \<Longrightarrow> c = octet n"
  by auto

subsection \<open>The proxy leg\<close>

lemma negotiate_Ok:
  assumes "negotiate_method auth dl s = (Inr m, s')"
  shows "ts_written s' = ts_written s @ [greeting_of auth] \<and> m = expected_method auth
    \<and> ts_input s = [octet 5, octet m] @ ts_input s'"
proof -
  from assms obtain u s1 bs s2 where s1: "write_all_timeout dl (greeting_of auth) ''SOCKS5 greeting'' s = (Inr u, s1)"
    and r2: "read_exact_timeout dl 2 ''SOCKS5 method response'' s1 = (Inr bs, s2)"
    and answer: "(if byte (bs ! 0) \<noteq> 5
          then Err (ProxyConnect (''SOCKS5 proxy returned invalid version: '' @ show_nat (byte (bs ! 0))))
          else if byte (bs ! 1) = 255
          then Err (ProxyConnect ''SOCKS5 proxy rejected all authentication methods'')
          else if byte (bs ! 1) = expected_method auth then Ok (byte (bs ! 1))
          else Err (ProxyConnect (''SOCKS5 proxy selected method '' @ show_nat (byte (bs ! 1)) @
                 '', but the client offered '' @ show_nat (expected_method auth)))) = Inr m" and "s2 = s'"
    unfolding negotiate_method_def sbind_Inr sreturn_def prod.inject by blast
  then have r: "read_exact_timeout dl 2 ''SOCKS5 method response'' s1 = (Inr bs, s')" by simp
  have m: "byte (bs ! 0) = 5" "byte (bs ! 1) = expected_method auth" "byte (bs ! 1) = m"
    using answer by (simp_all split: if_splits)
  obtain a b where bs: "bs = [a, b]" using two_bytes read_Ok [OF r] by blast
  have "a = octet 5" by (rule byte_octet) (use m(1) bs in simp)
  moreover have "b = octet m" by (rule byte_octet) (use m(3) bs in simp)
  ultimately have "bs = [octet 5, octet m]" using bs by simp
  with write_Ok [OF s1] read_Ok [OF r] m show ?thesis by simp
qed

lemma negotiate_failed:
  assumes "negotiate_method auth dl s = (Inl e, s')"
  shows "ts_written s' = ts_written s \<or> ts_written s' = ts_written s @ [greeting_of auth]"
proof (cases "write_all_timeout dl (greeting_of auth) ''SOCKS5 greeting'' s")
  case (Pair r s1)
  note w = write_written [OF Pair]
  show ?thesis
  proof (cases r)
    case (Inl e')
    with Pair assms w show ?thesis by (auto simp: negotiate_method_def sbind_def)
  next
    case (Inr u)
    obtain r2 s2 where r2: "read_exact_timeout dl 2 ''SOCKS5 method response'' s1 = (r2, s2)" by fastforce
    with Pair Inr assms have "s' = s2" by (cases r2) (auto simp: negotiate_method_def sbind_def sreturn_def)
    with w Inr read_written [OF r2] show ?thesis by auto
  qed
qed

lemma authenticate_written:
  assumes "authenticate a dl s = (r, s')"
  shows "ts_written s' = ts_written s \<and> r \<noteq> Inr () \<or> ts_written s' = ts_written s @ [auth_request_of a]"
proof (cases a)
  case (ProxyBasic u p)
  show ?thesis
  proof (cases "length u > max_socks5_len \<or> length p > max_socks5_len")
    case True
    with assms ProxyBasic show ?thesis by (auto split: if_splits)
  next
    case False
    obtain r1 s1 where r1: "write_all_timeout dl (auth_request_of a) ''SOCKS5 auth request'' s = (r1, s1)" by fastforce
    note w = write_written [OF r1]
    show ?thesis
    proof (cases r1)
      case (Inl e)
      with assms False ProxyBasic r1 w show ?thesis by (auto simp: sbind_def)
    next
      case (Inr x)
      obtain r2 s2 where r2: "read_exact_timeout dl 2 ''SOCKS5 auth response'' s1 = (r2, s2)" by fastforce
      with Inr assms False ProxyBasic r1 have "s' = s2" by (cases r2) (auto simp: sbind_def sreturn_def)
      with w Inr read_written [OF r2] show ?thesis by auto
    qed
  qed
qed

lemma authenticate_Ok:
  assumes "authenticate a dl s = (Inr u, s')"
  shows "ts_written s' = ts_written s @ [auth_request_of a] \<and> ts_input s = [octet 1, octet 0] @ ts_input s'"
proof (cases a)
  case (ProxyBasic us p)
  with assms obtain s1 bs where s1: "write_all_timeout dl (auth_request_of a) ''SOCKS5 auth request'' s = (Inr (), s1)"
    and r: "read_exact_timeout dl 2 ''SOCKS5 auth response'' s1 = (Inr bs, s')"
    and m: "byte (bs ! 0) = 1" "byte (bs ! 1) = 0"
    by (auto simp: sbind_Inr sreturn_def split: if_splits)
  obtain x y where bs: "bs = [x, y]" using two_bytes read_Ok [OF r] by blast
  have "x = octet 1" "y = octet 0" using m bs by (auto intro: byte_octet)
  with bs write_Ok [OF s1] read_Ok [OF r] show ?thesis by simp
qed

text \<open>The messages of the proxy leg and the answers it accepts.\<close>

definition leg_messages :: "proxy_auth option \<Rightarrow> string list" where
  "leg_messages auth = greeting_of auth # (case auth of None \<Rightarrow> [] | Some a \<Rightarrow> [auth_request_of a])"

definition leg_answer :: "proxy_auth option \<Rightarrow> string" where
  "leg_answer auth = (case auth of None \<Rightarrow> [octet 5, octet 0] | Some a \<Rightarrow> [octet 5, octet 2, octet 1, octet 0])"

lemma proxy_leg_Ok:
  assumes "proxy_leg auth dl s = (Inr u, s')"
  shows "ts_written s' = ts_written s @ leg_messages auth \<and> ts_input s = leg_answer auth @ ts_input s'"
proof -
  obtain m s1 where n: "negotiate_method auth dl s = (Inr m, s1)"
    and a: "(if m = 2 then (case auth of None \<Rightarrow> sreturn (Err (ProxyConnect ''SOCKS5 proxy selected username/password but no credentials were configured''))
          | Some a \<Rightarrow> authenticate a dl) else sreturn (Ok ())) s1 = (Inr u, s')"
    using assms by (auto simp: proxy_leg_def sbind_Inr)
  note n = negotiate_Ok [OF n]
  show ?thesis
  proof (cases auth)
    case None
    with n a show ?thesis by (simp add: expected_method_def sreturn_def leg_messages_def leg_answer_def)
  next
    case (Some x)
    with n a have "authenticate x dl s1 = (Inr u, s')" by (simp add: expected_method_def)
    from authenticate_Ok [OF this] n Some show ?thesis
      by (simp add: expected_method_def leg_messages_def leg_answer_def)
  qed
qed

text \<open>
  A username and password are sent only when they are configured, the client
  offered that method, and the proxy answered with version 5 and that method; in
  every other case the only message a proxy gets before the command is the
  greeting.
\<close>

lemma credentials_only_on_request:
  assumes "proxy_leg auth dl s = (r, s')" "ts_written s = []"
  shows "ts_written s' = [] \<or> ts_written s' = [greeting_of auth]
    \<or> (\<exists>a rest. auth = Some a \<and> ts_written s' = [greeting_of auth, auth_request_of a]
         \<and> ts_input s = [octet 5, octet 2] @ rest)"
proof (cases "negotiate_method auth dl s")
  case (Pair r1 s1)
  show ?thesis
  proof (cases r1)
    case (Inl e)
    with Pair assms have "s' = s1" by (simp add: proxy_leg_def sbind_def)
    with negotiate_failed [of auth dl s e s1] Pair Inl assms(2) show ?thesis by auto
  next
    case (Inr m)
    note n = negotiate_Ok [OF Pair [unfolded Inr]]
    show ?thesis
    proof (cases auth)
      case None
      with n assms Pair Inr show ?thesis by (simp add: proxy_leg_def sbind_def sreturn_def expected_method_def)
    next
      case (Some a)
      with n have m: "m = 2" by (simp add: expected_method_def)
      with Some assms(1) Pair Inr have "authenticate a dl s1 = (r, s')" by (simp add: proxy_leg_def sbind_def)
      from authenticate_written [OF this] n m Some assms(2) show ?thesis by auto
    qed
  qed
qed

subsection \<open>The reply\<close>

text \<open>The number of bytes of a reply, as its address type gives it.\<close>

fun reply_size :: "string \<Rightarrow> nat option" where
  "reply_size (v # r # x # t # rest) =
     (if byte t = 1 then Some 10 else if byte t = 4 then Some 22
      else if byte t = 3 then (case rest of [] \<Rightarrow> None | l # _ \<Rightarrow> Some (7 + byte l))
      else None)"
| "reply_size _ = None"

lemma four_bytes: "length bs = 4 \<Longrightarrow> \<exists>a b c d. bs = [a, b, c, d]"
  by (cases bs; cases "tl bs"; cases "tl (tl bs)"; cases "tl (tl (tl bs))") auto

lemma one_byte: "length bs = 1 \<Longrightarrow> \<exists>a. bs = [a]"
  by (cases bs) auto

lemma bound_address_Ok:
  assumes "read_bound_address dl t s = (Inr u, s')"
  shows "\<exists>b. ts_input s = b @ ts_input s' \<and> ts_written s' = ts_written s
    \<and> (t = 1 \<and> length b = 6 \<or> t = 4 \<and> length b = 18 \<or> t = 3 \<and> (\<exists>l ls. b = l # ls \<and> length ls = byte l + 2))"
proof -
  consider "t = 1" | "t = 4" | "t = 3" using assms
    by (auto simp: read_bound_address_def sreturn_def split: if_splits)
  then show ?thesis
  proof cases
    case 1
    with assms obtain b where "read_exact_timeout dl 6 ''SOCKS5 bound IPv4 address'' s = (Inr b, s')"
      by (auto simp: read_bound_address_def sbind_Inr sreturn_def)
    from read_Ok [OF this] 1 show ?thesis by blast
  next
    case 2
    with assms obtain b where "read_exact_timeout dl 18 ''SOCKS5 bound IPv6 address'' s = (Inr b, s')"
      by (auto simp: read_bound_address_def sbind_Inr sreturn_def)
    from read_Ok [OF this] 2 show ?thesis by blast
  next
    case 3
    with assms obtain l s1 b where l: "read_exact_timeout dl 1 ''SOCKS5 bound domain length'' s = (Inr l, s1)"
      and b: "read_exact_timeout dl (byte (l ! 0) + 2) ''SOCKS5 bound domain address'' s1 = (Inr b, s')"
      by (auto simp: read_bound_address_def sbind_Inr sreturn_def)
    obtain c where c: "l = [c]" using one_byte read_Ok [OF l] by blast
    with read_Ok [OF l] read_Ok [OF b] have "ts_input s = (c # b) @ ts_input s'" "ts_written s' = ts_written s"
      "length b = byte c + 2" by simp_all
    with 3 show ?thesis by blast
  qed
qed

lemma reply_Ok:
  assumes "parse_connect_reply_for_target dl s = (Inr u, s')"
  shows "\<exists>reply. ts_input s = reply @ ts_input s' \<and> reply_size (reply @ ts_input s') = Some (length reply)
    \<and> byte (reply ! 0) = 5 \<and> byte (reply ! 1) = 0 \<and> ts_written s' = ts_written s"
proof -
  from assms obtain h s1 where h: "read_exact_timeout dl 4 ''SOCKS5 CONNECT reply'' s = (Inr h, s1)"
    and ok: "byte (h ! 0) = 5" "byte (h ! 1) = 0" and b: "read_bound_address dl (byte (h ! 3)) s1 = (Inr u, s')"
    unfolding parse_connect_reply_for_target_def sbind_Inr smap_err_Inr
    by (auto simp: sreturn_def smap_err_Inr split: if_splits)
  obtain v r x t where hs: "h = [v, r, x, t]" using four_bytes read_Ok [OF h] by blast
  obtain bs where bs: "ts_input s1 = bs @ ts_input s'" "ts_written s' = ts_written s1"
    "byte t = 1 \<and> length bs = 6 \<or> byte t = 4 \<and> length bs = 18
     \<or> byte t = 3 \<and> (\<exists>l ls. bs = l # ls \<and> length ls = byte l + 2)"
    using bound_address_Ok [OF b] hs by auto
  have "ts_input s = (h @ bs) @ ts_input s'" using read_Ok [OF h] bs(1) by simp
  moreover have "reply_size ((h @ bs) @ ts_input s') = Some (length (h @ bs))" using bs(3) hs by auto
  moreover have "ts_written s' = ts_written s" using bs(2) read_Ok [OF h] by simp
  ultimately show ?thesis using ok hs by (intro exI [of _ "h @ bs"]) simp
qed

lemma reply_Retryable:
  assumes "parse_connect_reply_for_target dl s = (Inl (Retryable e), s')"
  shows "\<exists>v c rest. ts_input s = v # c # rest \<and> byte v = 5 \<and> byte c \<in> {3, 4, 5}"
proof -
  from assms obtain h s1 where h: "read_exact_timeout dl 4 ''SOCKS5 CONNECT reply'' s = (Inr h, s1)"
    and ok: "byte (h ! 0) = 5" "reply_failure (byte (h ! 1)) = Retryable e"
    by (auto simp: parse_connect_reply_for_target_def sbind_def smap_err_def sreturn_def split: prod.splits sum.splits if_splits)
  obtain v r x t where hs: "h = [v, r, x, t]" using four_bytes read_Ok [OF h] by blast
  have "byte r \<in> {3, 4, 5}" using ok(2) hs by (auto simp: reply_failure_def split: if_splits)
  with ok(1) hs read_Ok [OF h] show ?thesis by auto
qed

subsection \<open>Establishing the tunnel\<close>

lemma connect_first_Inr: "connect_first tcp l as = Inr s \<Longrightarrow> \<exists>a\<in>set as. tcp a = Inr s"
  by (induction as arbitrary: l) (auto split: sum.splits)

lemma proxy_tcp_Ok: "proxy_tcp X cfg n host port dl = Inr s \<Longrightarrow> \<exists>a. se_tcp X n a = Inr s"
  by (auto simp: proxy_tcp_def bind_result_def Let_def split: option.splits sum.splits if_splits dest!: connect_first_Inr)

definition raw_stream :: "socks_env \<Rightarrow> nat \<Rightarrow> tcp_stream \<Rightarrow> bool" where
  "raw_stream X n s \<longleftrightarrow> (\<exists>a. se_tcp X n a = Inr s)"

lemma establish_Ok:
  assumes "establish_socks_proxy_connection X cfg dl w = (Inr s, w')"
  shows "sw_tries w' = Suc (sw_tries w) \<and> sw_closed w' = sw_closed w
    \<and> (\<exists>raw. raw_stream X (sw_tries w) raw \<and> ts_written s = ts_written raw @ leg_messages (pc_auth cfg)
         \<and> ts_input raw = leg_answer (pc_auth cfg) @ ts_input s)"
proof -
  from assms obtain host port raw u where raw: "proxy_tcp X cfg (sw_tries w) host port dl = Inr raw"
    and leg: "proxy_leg (pc_auth cfg) dl raw = (Inr u, s)" and w': "w' = w\<lparr>sw_tries := Suc (sw_tries w)\<rparr>"
    by (auto simp: establish_socks_proxy_connection_def Let_def split: option.splits sum.splits prod.splits)
  with proxy_leg_Ok [OF leg] proxy_tcp_Ok [OF raw] show ?thesis by (auto simp: raw_stream_def)
qed

lemma establish_failed:
  assumes "establish_socks_proxy_connection X cfg dl w = (Inl e, w')"
  shows "sw_tries w' \<le> Suc (sw_tries w)"
  using assms
  by (auto simp: establish_socks_proxy_connection_def close_stream_def Let_def split: option.splits sum.splits prod.splits)

text \<open>
  What a finished handshake looks like on the connection it used: the messages, the
  command last, and the answers, the reply last and consumed to its end.
\<close>

definition tunnel :: "socks_env \<Rightarrow> 'h proxy_config \<Rightarrow> string \<Rightarrow> tcp_stream \<Rightarrow> bool" where
  "tunnel X cfg req s \<longleftrightarrow>
     (\<exists>n raw reply. raw_stream X n raw
        \<and> ts_written s = ts_written raw @ leg_messages (pc_auth cfg) @ [req]
        \<and> ts_input raw = leg_answer (pc_auth cfg) @ reply @ ts_input s
        \<and> reply_size (reply @ ts_input s) = Some (length reply)
        \<and> byte (reply ! 0) = 5 \<and> byte (reply ! 1) = 0)"

lemma tunnel_intro:
  assumes "establish_socks_proxy_connection X cfg dl w = (Inr s0, w')"
    and "write_all_timeout dl req ph s0 = (Inr u, s1)" "parse_connect_reply_for_target dl s1 = (Inr u', s)"
  shows "tunnel X cfg req s"
proof -
  from establish_Ok [OF assms(1)] obtain raw where raw: "raw_stream X (sw_tries w) raw"
    "ts_written s0 = ts_written raw @ leg_messages (pc_auth cfg)" "ts_input raw = leg_answer (pc_auth cfg) @ ts_input s0"
    by blast
  from reply_Ok [OF assms(3)] obtain reply where r: "ts_input s1 = reply @ ts_input s"
    "reply_size (reply @ ts_input s) = Some (length reply)" "byte (reply ! 0) = 5" "byte (reply ! 1) = 0"
    "ts_written s = ts_written s1" by blast
  show ?thesis
    unfolding tunnel_def using raw r write_Ok [OF assms(2)]
    by (intro exI [of _ "sw_tries w"] exI [of _ raw] exI [of _ reply]) simp
qed

lemma handshake_with_ip_tunnel:
  assumes "handshake_with_ip X cfg ip port dl w = (Inr s, w')"
  shows "tunnel X cfg (connect_request_ip ip port) s \<and> sw_tries w' = Suc (sw_tries w) \<and> sw_closed w' = sw_closed w"
proof -
  from assms obtain s0 u where e: "establish_socks_proxy_connection X cfg dl w = (Inr s0, w')"
    and c: "send_connect_ip ip port dl s0 = (Inr u, s)"
    by (auto simp: handshake_with_ip_def split: prod.splits sum.splits)
  from c obtain u1 s1 where "write_all_timeout dl (connect_request_ip ip port) ''SOCKS5 CONNECT'' s0 = (Inr u1, s1)"
    "parse_connect_reply_for_target dl s1 = (Inr u, s)"
    unfolding send_connect_ip_def sbind_Inr smap_err_Inr by blast
  from tunnel_intro [OF e this] establish_Ok [OF e] show ?thesis by simp
qed

lemma try_addresses_tunnel:
  assumes "try_addresses X cfg dl addrs le w = (Inr s, w')"
  shows "\<exists>(ip, port)\<in>set addrs. tunnel X cfg (connect_request_ip ip port) s"
  using assms
proof (induction X cfg dl addrs le w rule: try_addresses.induct)
  case (2 X cfg dl ip port rest le w)
  obtain r w1 where h: "handshake_with_ip X cfg ip port dl w = (r, w1)" by fastforce
  show ?case
  proof (cases r)
    case (Inr s1)
    with h 2(2) have "s1 = s" by simp
    with handshake_with_ip_tunnel [of X cfg ip port dl w s1 w1] h Inr show ?thesis by auto
  next
    case (Inl te)
    then show ?thesis
    proof (cases te)
      case (Retryable e)
      with h Inl 2(2) have "rest \<noteq> []" "try_addresses X cfg dl rest e w1 = (Inr s, w')" by (auto split: if_splits)
      from 2(1) [OF h [symmetric] Inl Retryable this] show ?thesis by auto
    next
      case (Terminal e)
      with h Inl 2(2) show ?thesis by simp
    qed
  qed
qed simp

definition requested ::
  "socks_env \<Rightarrow> string \<Rightarrow> nat \<Rightarrow> bool \<Rightarrow> instant option \<Rightarrow> socket_addr list option \<Rightarrow> (ip_addr + string) \<times> nat \<Rightarrow> bool" where
  "requested X host port remote_dns dl pinned dest \<longleftrightarrow>
     (case pinned of
        Some targets \<Rightarrow> \<exists>(ip, p)\<in>set targets. dest = (Inl ip, p)
      | None \<Rightarrow>
         (case parse_ip_addr host of
            Some ip \<Rightarrow> dest = (Inl ip, port)
          | None \<Rightarrow>
              if remote_dns then dest = (Inr host, port)
              else \<exists>n ips ip. resolve_dest_ips X n host dl = Inr ips \<and> ip \<in> set ips \<and> dest = (Inl ip, port)))"

lemma connect_request_requested:
  assumes "connect_request_for X host port remote_dns dl = Inr req" "port < 65536"
  shows "\<exists>dest. decode_request req = Some dest \<and> requested X host port remote_dns dl None dest"
proof (cases "parse_ip_addr host")
  case (Some ip)
  with assms show ?thesis by (auto simp: connect_request_for_def requested_def decode_ip)
next
  case None
  show ?thesis
  proof (cases remote_dns)
    case True
    with None assms show ?thesis
      by (auto simp: connect_request_for_def requested_def decode_domain max_socks5_len_def split: if_splits)
  next
    case False
    with None assms obtain ip where ip: "resolve_dest_ip X 1 host dl = Inr ip" "req = connect_request_ip ip port"
      by (auto simp: connect_request_for_def bind_result_def split: sum.splits)
    then obtain ips where "resolve_dest_ips X 1 host dl = Inr ips" "ip \<in> set ips"
      by (auto simp: resolve_dest_ip_def bind_result_def split: sum.splits list.splits)
    with None False ip(2) assms(2) show ?thesis by (auto simp: requested_def decode_ip)
  qed
qed

lemma single_tunnel:
  assumes "establish_socks_proxy_connection X cfg dl w = (Inr s0, w1)"
    and "send_connect X host port remote_dns dl s0 = (Inr u, s)" "port < 65536"
  shows "\<exists>req dest. tunnel X cfg req s \<and> decode_request req = Some dest \<and> requested X host port remote_dns dl None dest"
proof -
  from assms(2) obtain req u1 s1 where req: "connect_request_for X host port remote_dns dl = Inr req"
    and wr: "write_all_timeout dl req ''SOCKS5 CONNECT'' s0 = (Inr u1, s1)"
    and rp: "parse_connect_reply_for_target dl s1 = (Inr u, s)"
    unfolding send_connect_def sbind_Inr sreturn_def parse_connect_reply_def smap_err_Inr by auto
  from connect_request_requested [OF req assms(3)] tunnel_intro [OF assms(1) wr rp] show ?thesis by blast
qed

lemma addresses_requested:
  assumes "try_addresses X cfg dl addrs le w = (Inr s, w')" "\<forall>(ip, p)\<in>set addrs. p < 65536"
  shows "\<exists>req dest. tunnel X cfg req s \<and> decode_request req = Some dest \<and> (\<exists>(ip, p)\<in>set addrs. dest = (Inl ip, p))"
proof -
  from try_addresses_tunnel [OF assms(1)] obtain ip p where
    "(ip, p) \<in> set addrs" "tunnel X cfg (connect_request_ip ip p) s" by auto
  with assms(2) decode_ip [of p ip] show ?thesis by blast
qed

text \<open>
  C40: when the handshake succeeds, the connection it returns carries exactly the
  greeting, the credentials if there are any, and one CONNECT command, which a
  server decodes to the requested destination: one of the pinned targets, the
  address or the name of the URL, or an address the name was resolved to.  The answers
  of the proxy have been consumed to the last byte of the reply, so the next byte is
  the first of the tunnel.
\<close>

theorem socks_tunnel_sound:
  assumes "socks5_handshake X cfg host port remote_dns dl pinned w = (Inr s, w')" "port < 65536"
    and "\<forall>ts. pinned = Some ts \<longrightarrow> (\<forall>(ip, p)\<in>set ts. p < 65536)"
  shows "\<exists>req dest. tunnel X cfg req s \<and> decode_request req = Some dest \<and> requested X host port remote_dns dl pinned dest"
proof (cases pinned)
  case (Some ts)
  with assms(1) have "try_addresses X cfg dl ts (Connect ''empty SOCKS target set'') w = (Inr s, w')"
    by (auto simp: socks5_handshake_def split: if_splits)
  from addresses_requested [OF this] assms(3) Some show ?thesis by (simp add: requested_def)
next
  case None
  let ?single = "case establish_socks_proxy_connection X cfg dl w of
                (Inl e, w') \<Rightarrow> (Inl e, w')
              | (Inr s, w') \<Rightarrow>
                 (case send_connect X host port remote_dns dl s of
                    (Inl e, s') \<Rightarrow> (Inl e, close_stream s' w')
                  | (Inr _, s') \<Rightarrow> (Inr s', w'))"
  have single: ?thesis if "?single = (Inr s, w')"
  proof -
    from that obtain s0 u where e: "establish_socks_proxy_connection X cfg dl w = (Inr s0, w')"
      and c: "send_connect X host port remote_dns dl s0 = (Inr u, s)"
      by (auto split: prod.splits sum.splits)
    from single_tunnel [OF e c assms(2)] None show ?thesis by simp
  qed
  show ?thesis
  proof (cases "\<not> remote_dns \<and> parse_ip_addr host = None \<and> (\<exists>ips. resolve_dest_ips X 0 host dl = Inr ips \<and> length ips > 1)")
    case True
    then obtain ips where ips: "resolve_dest_ips X 0 host dl = Inr ips" "length ips > 1" by blast
    with True None assms(1)
    have "try_addresses X cfg dl (map (\<lambda>ip. (ip, port)) ips) (resolve_failure host) w = (Inr s, w')"
      by (simp add: socks5_handshake_def Let_def)
    from addresses_requested [OF this] assms(2) obtain req ip where
      req: "tunnel X cfg req s" "decode_request req = Some (Inl ip, port)" "ip \<in> set ips" by auto
    have "requested X host port remote_dns dl pinned (Inl ip, port)"
      using True None ips(1) req(3) by (auto simp: requested_def)
    with req(1,2) show ?thesis by blast
  next
    case False
    with assms(1) None have "?single = (Inr s, w')"
      by (auto simp: socks5_handshake_def Let_def split: if_splits sum.splits)
    then show ?thesis by (rule single)
  qed
qed

subsection \<open>Several addresses\<close>

text \<open>A connection whose proxy reported the target itself as unreachable or refused.\<close>

definition target_refused :: "socks_env \<Rightarrow> 'h proxy_config \<Rightarrow> nat \<Rightarrow> bool" where
  "target_refused X cfg n \<longleftrightarrow>
     (\<exists>raw v c rest. raw_stream X n raw \<and> ts_input raw = leg_answer (pc_auth cfg) @ v # c # rest
        \<and> byte v = 5 \<and> byte c \<in> {3, 4, 5})"

lemma handshake_with_ip_Retryable:
  assumes "handshake_with_ip X cfg ip port dl w = (Inl (Retryable e), w')"
  shows "target_refused X cfg (sw_tries w) \<and> sw_tries w' = Suc (sw_tries w)"
proof -
  from assms obtain s0 s1 w1 where e: "establish_socks_proxy_connection X cfg dl w = (Inr s0, w1)"
    and c: "send_connect_ip ip port dl s0 = (Inl (Retryable e), s1)" and w': "w' = close_stream s1 w1"
    by (auto simp: handshake_with_ip_def split: prod.splits sum.splits)
  from c obtain u s2 where wr: "write_all_timeout dl (connect_request_ip ip port) ''SOCKS5 CONNECT'' s0 = (Inr u, s2)"
    and rp: "parse_connect_reply_for_target dl s2 = (Inl (Retryable e), s1)"
    by (auto simp: send_connect_ip_def sbind_def smap_err_def split: prod.splits sum.splits)
  from establish_Ok [OF e] obtain raw where raw: "raw_stream X (sw_tries w) raw"
    "ts_input raw = leg_answer (pc_auth cfg) @ ts_input s0" "sw_tries w1 = Suc (sw_tries w)" by blast
  from reply_Retryable [OF rp] write_Ok [OF wr] raw(2) obtain v b rest where
    "ts_input raw = leg_answer (pc_auth cfg) @ v # b # rest" "byte v = 5" "byte b \<in> {3, 4, 5}" by auto
  with raw(1,3) w' show ?thesis unfolding target_refused_def by (auto simp: close_stream_def)
qed

lemma handshake_with_ip_tries:
  "handshake_with_ip X cfg ip port dl w = (r, w') \<Longrightarrow> sw_tries w' \<le> Suc (sw_tries w)"
  by (auto simp: handshake_with_ip_def close_stream_def split: prod.splits sum.splits
      dest!: establish_Ok establish_failed)

lemma try_addresses_tries:
  "try_addresses X cfg dl addrs le w = (r, w') \<Longrightarrow>
     sw_tries w' \<le> sw_tries w + length addrs
     \<and> (\<forall>n. sw_tries w \<le> n \<longrightarrow> Suc n < sw_tries w' \<longrightarrow> target_refused X cfg n)"
proof (induction X cfg dl addrs le w rule: try_addresses.induct)
  case (2 X cfg dl ip port rest le w)
  obtain r1 w1 where h: "handshake_with_ip X cfg ip port dl w = (r1, w1)" by fastforce
  show ?case
  proof (cases "\<exists>e. r1 = Inl (Retryable e) \<and> rest \<noteq> []")
    case True
    then obtain e where e: "r1 = Inl (Retryable e)" "rest \<noteq> []" by blast
    with h 2(2) have "try_addresses X cfg dl rest e w1 = (r, w')" by simp
    note ih = 2(1) [OF h [symmetric] e(1) refl e(2) this]
    have first: "target_refused X cfg (sw_tries w)" "sw_tries w1 = Suc (sw_tries w)"
      using handshake_with_ip_Retryable [of X cfg ip port dl w e w1] h e(1) by simp_all
    have "target_refused X cfg n" if "sw_tries w \<le> n" "Suc n < sw_tries w'" for n
    proof (cases "n = sw_tries w")
      case False
      with that(1) first(2) have "sw_tries w1 \<le> n" by simp
      with ih that(2) show ?thesis by blast
    qed (simp add: first(1))
    with ih first(2) show ?thesis by simp
  next
    case False
    with h 2(2) have "w' = w1" by (auto split: sum.splits target_attempt_error.splits if_splits)
    with handshake_with_ip_tries [OF h] show ?thesis by auto
  qed
qed simp

text \<open>
  When several addresses are tried, there is one proxy connection for each at
  most, and a further address is tried only after the proxy reported for the address
  before it that the network or the host is unreachable or the connection was
  refused.
\<close>

lemma next_address_only_after_refusal:
  assumes "try_addresses X cfg dl addrs le w = (r, w')"
  shows "sw_tries w' \<le> sw_tries w + length addrs
     \<and> (\<forall>n. sw_tries w \<le> n \<longrightarrow> Suc n < sw_tries w' \<longrightarrow> target_refused X cfg n)"
  by (rule try_addresses_tries [OF assms])

subsection \<open>An example\<close>

definition socks_raw :: "string \<Rightarrow> tcp_stream" where
  "socks_raw inp = \<lparr>ts_input = inp, ts_end = PeerEof, ts_written = [], ts_ops = 0, ts_expires = (\<lambda>_. None),
     ts_write_error = (\<lambda>_. None)\<rparr>"

definition socks_config :: "header_list proxy_config" where
  "socks_config = \<lparr>pc_uri = demo_proxy_url\<lparr>url_scheme := ''socks5h'', url_port_or_known_default := None\<rparr>,
     pc_auth = Some (ProxyBasic ''u'' ''p''), pc_proxy_headers = [], pc_proxy_tls_config = None,
     pc_resolved_addresses = Some [(V4 1, 1080)]\<rparr>"

text \<open>The first connection is refused at the target, the second accepted; one byte of the tunnel follows.\<close>

definition socks_demo :: socks_env where
  "socks_demo = \<lparr>se_proxy_lookup = (\<lambda>_ _. Inr []), se_dest_lookup = (\<lambda>_ _. Inr []), se_dest_expires = (\<lambda>_. None),
     se_tcp = (\<lambda>n _. Inr (socks_raw (leg_answer (Some (ProxyBasic ''u'' ''p'')) @
        (if n = 0 then [octet 5, octet 5, octet 0, octet 1] else [octet 5, octet 0, octet 0, octet 1, octet 0, octet 0, octet 0, octet 0, octet 0, octet 0, octet 84])))),
     se_nodelay_error = (\<lambda>_. None), se_connect_expires = (\<lambda>_. None)\<rparr>"

definition socks_start :: socks_world where
  "socks_start = \<lparr>sw_tries = 0, sw_closed = []\<rparr>"

definition socks_targets :: "socket_addr list" where
  "socks_targets = [(V4 1, 80), (V4 2, 80)]"

lemmas io_defs = write_all_timeout_def read_exact_timeout_def op_expires_def tick_def sbind_def smap_err_def sreturn_def

lemma socks_config_facts [simp]:
  "url_host_str (pc_uri socks_config) = Some ''proxy''" "proxy_port socks_config = Inr 1080"
  "pc_auth socks_config = Some (ProxyBasic ''u'' ''p'')" "pc_resolved_addresses socks_config = Some [(V4 1, 1080)]"
  by (simp_all add: socks_config_def demo_proxy_url_def proxy_port_def is_socks_scheme_def)

lemma socks_demo_leg:
  "fst (proxy_leg (Some (ProxyBasic ''u'' ''p'')) None (socks_raw (leg_answer (Some (ProxyBasic ''u'' ''p'')) @ rest))) = Ok ()"
  "ts_input (snd (proxy_leg (Some (ProxyBasic ''u'' ''p'')) None (socks_raw (leg_answer (Some (ProxyBasic ''u'' ''p'')) @ rest)))) = rest"
  "ts_expires (snd (proxy_leg (Some (ProxyBasic ''u'' ''p'')) None (socks_raw (leg_answer (Some (ProxyBasic ''u'' ''p'')) @ rest)))) = (\<lambda>_. None)"
  "ts_write_error (snd (proxy_leg (Some (ProxyBasic ''u'' ''p'')) None (socks_raw (leg_answer (Some (ProxyBasic ''u'' ''p'')) @ rest)))) = (\<lambda>_. None)"
  by (simp_all add: proxy_leg_def negotiate_method_def io_defs socks_raw_def leg_answer_def expected_method_def max_socks5_len_def)

lemma socks_demo_tcp:
  "proxy_tcp socks_demo socks_config n host port None =
     Inr (socks_raw (leg_answer (Some (ProxyBasic ''u'' ''p'')) @
        (if n = 0 then [octet 5, octet 5, octet 0, octet 1]
         else [octet 5, octet 0, octet 0, octet 1, octet 0, octet 0, octet 0, octet 0, octet 0, octet 0, octet 84])))"
  by (simp add: proxy_tcp_def socks_demo_def Let_def)

lemma socks_demo_established:
  "\<exists>s. establish_socks_proxy_connection socks_demo socks_config None w = (Inr s, w\<lparr>sw_tries := Suc (sw_tries w)\<rparr>)
     \<and> ts_write_error s = (\<lambda>_. None)
     \<and> ts_input s = (if sw_tries w = 0 then [octet 5, octet 5, octet 0, octet 1]
                     else [octet 5, octet 0, octet 0, octet 1, octet 0, octet 0, octet 0, octet 0, octet 0, octet 0, octet 84])"
proof -
  let ?rest = "if sw_tries w = 0 then [octet 5, octet 5, octet 0, octet 1]
                     else [octet 5, octet 0, octet 0, octet 1, octet 0, octet 0, octet 0, octet 0, octet 0, octet 0, octet 84]"
  obtain s where "proxy_leg (Some (ProxyBasic ''u'' ''p'')) None
      (socks_raw (leg_answer (Some (ProxyBasic ''u'' ''p'')) @ ?rest)) = (Ok (), s)"
    "ts_input s = ?rest" "ts_write_error s = (\<lambda>_. None)"
    using socks_demo_leg [of ?rest]
    by (cases "proxy_leg (Some (ProxyBasic ''u'' ''p'')) None (socks_raw (leg_answer (Some (ProxyBasic ''u'' ''p'')) @ ?rest))") simp
  then show ?thesis
    by (simp add: establish_socks_proxy_connection_def socks_demo_tcp Let_def del: append_Cons)
qed

lemma socks_demo_target:
  assumes "ts_write_error s = (\<lambda>_. None)"
  shows "ts_input s = [octet 5, octet 5, octet 0, octet 1] \<Longrightarrow> \<exists>e. fst (send_connect_ip ip port None s) = Inl (Retryable e)"
    and "ts_input s = [octet 5, octet 0, octet 0, octet 1, octet 0, octet 0, octet 0, octet 0, octet 0, octet 0, octet 84] \<Longrightarrow>
           fst (send_connect_ip ip port None s) = Inr ()"
  using assms
  by (simp_all add: send_connect_ip_def parse_connect_reply_for_target_def read_bound_address_def io_defs reply_failure_def)

lemma socks_demo_run:
  "\<not> isl (fst (try_addresses socks_demo socks_config None socks_targets le socks_start))"
  "sw_tries (snd (try_addresses socks_demo socks_config None socks_targets le socks_start)) = 2"
proof -
  obtain s1 where s1: "establish_socks_proxy_connection socks_demo socks_config None socks_start
       = (Inr s1, socks_start\<lparr>sw_tries := 1\<rparr>)" "ts_write_error s1 = (\<lambda>_. None)"
    "ts_input s1 = [octet 5, octet 5, octet 0, octet 1]"
    using socks_demo_established [of socks_start] by (auto simp: socks_start_def)
  obtain e s1' where e: "send_connect_ip (V4 1) 80 None s1 = (Inl (Retryable e), s1')"
    using socks_demo_target(1) [OF s1(2,3), of "V4 1" 80] by (cases "send_connect_ip (V4 1) 80 None s1") auto
  let ?w = "close_stream s1' (socks_start\<lparr>sw_tries := 1\<rparr>)"
  obtain s2 where s2: "establish_socks_proxy_connection socks_demo socks_config None ?w = (Inr s2, ?w\<lparr>sw_tries := 2\<rparr>)"
    "ts_write_error s2 = (\<lambda>_. None)" "ts_input s2 = [octet 5, octet 0, octet 0, octet 1, octet 0, octet 0, octet 0, octet 0, octet 0, octet 0, octet 84]"
    using socks_demo_established [of ?w] by (auto simp: close_stream_def numeral_2_eq_2)
  obtain s2' where "send_connect_ip (V4 2) 80 None s2 = (Inr (), s2')"
    using socks_demo_target(2) [OF s2(2,3), of "V4 2" 80] by (cases "send_connect_ip (V4 2) 80 None s2") auto
  with s1(1) e s2(1) show "\<not> isl (fst (try_addresses socks_demo socks_config None socks_targets le socks_start))"
    "sw_tries (snd (try_addresses socks_demo socks_config None socks_targets le socks_start)) = 2"
    by (simp_all add: socks_targets_def handshake_with_ip_def)
qed

theorem socks_tunnel_sound_witness:
  "\<exists>s req dest. fst (socks5_handshake socks_demo socks_config ''h'' 80 True None (Some socks_targets) socks_start) = Inr s
     \<and> tunnel socks_demo socks_config req s \<and> decode_request req = Some dest
     \<and> requested socks_demo ''h'' 80 True None (Some socks_targets) dest"
proof -
  obtain s w where s: "socks5_handshake socks_demo socks_config ''h'' 80 True None (Some socks_targets) socks_start = (Inr s, w)"
  proof -
    let ?h = "socks5_handshake socks_demo socks_config ''h'' 80 True None (Some socks_targets) socks_start"
    have "\<not> isl (fst ?h)"
      using socks_demo_run(1) [of "Connect ''empty SOCKS target set''"]
      by (simp add: socks5_handshake_def socks_targets_def del: try_addresses.simps)
    then show thesis using that by (cases ?h; cases "fst ?h") auto
  qed
  from socks_tunnel_sound [OF s] s show ?thesis by (simp add: socks_targets_def)
qed

text \<open>
  The host of an IPv6 destination comes with its brackets, which the parser of
  addresses does not take: it is sent to the proxy as a domain name.
\<close>

lemma bracketed_host_sent_as_domain:
  "connect_request_for X ''[::1]'' port True dl = Ok (connect_request_domain ''[::1]'' port)"
proof -
  have "\<not> ip_char CHR ''[''" by (simp add: ip_char_def hex_digit_def)
  then have "parse_ip_addr ''[::1]'' = None" using is_ip_address_chars [of "''[::1]''"] by (simp add: is_ip_address_def) (metis option.exhaust)
  then show ?thesis by (simp add: connect_request_for_def max_socks5_len_def)
qed

end
