(* ===== verification/Body_Stream.thy ===== *)
theory Body_Stream
  imports Request_Model
begin

text \<open>
  Body streams and the adapters that wrap them (\<open>body.rs\<close>, \<open>stream/body_timeout.rs\<close>,
  \<open>stream/write_timeout.rs\<close>, \<open>timeout.rs\<close>).  A boxed stream is the list of what its polls
  give until it ends; an adapter is a state with its \<open>poll_next\<close>, and \<open>script\<close> is
  again the list of what its polls give.  A poll that looks at the clock takes the
  readings it makes, one for each place of the code where one is made.
\<close>

datatype 'a stream_event = Chunk 'a | Fail error | NotReady

type_synonym byte_stream = "string stream_event list"

datatype 'a poll = Pending | ReadyOk 'a | ReadyErr error | ReadyNone

fun poll_source :: "'a stream_event list \<Rightarrow> 'a poll \<times> 'a stream_event list" where
  "poll_source [] = (ReadyNone, [])"
| "poll_source (Chunk c # evs) = (ReadyOk c, evs)"
| "poll_source (Fail e # evs) = (ReadyErr e, evs)"
| "poll_source (NotReady # evs) = (Pending, evs)"

text \<open>A stream again, from an adapter whose every poll takes one event of what it wraps.\<close>

fun script :: "('s \<Rightarrow> 'a poll \<times> 's) \<Rightarrow> nat \<Rightarrow> 's \<Rightarrow> 'a stream_event list" where
  "script p 0 s = []"
| "script p (Suc n) s =
     (case p s of
        (ReadyNone, _) \<Rightarrow> []
      | (ReadyOk c, s') \<Rightarrow> Chunk c # script p n s'
      | (ReadyErr e, s') \<Rightarrow> Fail e # script p n s'
      | (Pending, s') \<Rightarrow> NotReady # script p n s')"

text \<open>The results of a sequence of polls.\<close>

fun polls :: "('c \<Rightarrow> 's \<Rightarrow> 'a poll \<times> 's) \<Rightarrow> 'c list \<Rightarrow> 's \<Rightarrow> 'a poll list" where
  "polls p [] s = []"
| "polls p (c # cs) s = (case p c s of (r, s') \<Rightarrow> r # polls p cs s')"

definition usize_saturating_add :: "nat \<Rightarrow> nat \<Rightarrow> nat" where
  "usize_saturating_add a b = min (a + b) usize_max"

subsection \<open>The size limit of a response stream\<close>

record limited_response_stream =
  lr_inner :: byte_stream
  lr_max :: nat
  lr_decoded_bytes :: nat
  lr_limit_exceeded :: bool

definition limited_poll :: "limited_response_stream \<Rightarrow> string poll \<times> limited_response_stream" where
  "limited_poll s =
     (if lr_limit_exceeded s then (ReadyNone, s)
      else (case poll_source (lr_inner s) of
          (ReadyOk chunk, evs) \<Rightarrow>
            let s' = s\<lparr>lr_inner := evs, lr_decoded_bytes := usize_saturating_add (lr_decoded_bytes s) (length chunk)\<rparr>
            in if lr_decoded_bytes s' > lr_max s'
               then (ReadyErr DecodedBodyTooLarge, s'\<lparr>lr_limit_exceeded := True\<rparr>)
               else (ReadyOk chunk, s')
        | (other, evs) \<Rightarrow> (other, s\<lparr>lr_inner := evs\<rparr>)))"

definition limited_stream :: "nat \<Rightarrow> byte_stream \<Rightarrow> byte_stream" where
  "limited_stream limit evs =
     script limited_poll (Suc (length evs))
       \<lparr>lr_inner = evs, lr_max = limit, lr_decoded_bytes = 0, lr_limit_exceeded = False\<rparr>"

subsection \<open>Timers\<close>

type_synonym readings = "nat \<Rightarrow> instant"

text \<open>\<open>tokio::time::sleep\<close> and the reset of a running timer; thirty years stand for ever.\<close>

definition sleep_until_after :: "instant \<Rightarrow> duration \<Rightarrow> instant" where
  "sleep_until_after now d =
     (case checked_add_time now d of Some t \<Rightarrow> t | None \<Rightarrow> now + int (from_secs_d (86400 * 365 * 30)))"

record response_deadline =
  rd_deadline :: instant
  rd_total :: duration

definition rd_is_expired :: "response_deadline \<Rightarrow> instant \<Rightarrow> bool" where
  "rd_is_expired t now \<longleftrightarrow> rd_deadline t \<le> now"

definition instant_checked_sub :: "instant \<Rightarrow> duration \<Rightarrow> instant option" where
  "instant_checked_sub t d = (if - time_limit \<le> t - int d then Some (t - int d) else None)"

definition rd_elapsed :: "response_deadline \<Rightarrow> instant \<Rightarrow> duration" where
  "rd_elapsed t now =
     (let started = (case instant_checked_sub (rd_deadline t) (rd_total t) of Some s \<Rightarrow> s | None \<Rightarrow> rd_deadline t)
      in duration_since now started)"

definition total_timeout_error :: "response_deadline \<Rightarrow> instant \<Rightarrow> error" where
  "total_timeout_error t now = Timeout PhaseTotal (rd_elapsed t now)"

subsection \<open>The read and total timeouts of a response stream\<close>

record 'a body_timeout_stream =
  bt_inner :: "'a stream_event list"
  bt_read :: "duration option"
  bt_read_deadline :: "instant option"
  bt_total :: "response_deadline option"
  bt_total_sleep :: "instant option"
  bt_started :: bool
  bt_timed_out :: bool

definition body_timeout_new ::
  "'a stream_event list \<Rightarrow> duration option \<Rightarrow> response_deadline option \<Rightarrow> 'a body_timeout_stream" where
  "body_timeout_new evs read cap =
     \<lparr>bt_inner = evs, bt_read = read, bt_read_deadline = None, bt_total = cap, bt_total_sleep = None,
      bt_started = False, bt_timed_out = False\<rparr>"

definition total_expired :: "instant \<Rightarrow> 'a body_timeout_stream \<Rightarrow> bool" where
  "total_expired now s = (case bt_total s of Some t \<Rightarrow> rd_is_expired t now | None \<Rightarrow> False)"

text \<open>The stream is over with an error: both timers go, and no poll gives anything after it.\<close>

definition timed_out :: "'a body_timeout_stream \<Rightarrow> 'a body_timeout_stream" where
  "timed_out s = s\<lparr>bt_read_deadline := None, bt_total_sleep := None, bt_timed_out := True\<rparr>"

definition bt_total_error :: "instant \<Rightarrow> 'a body_timeout_stream \<Rightarrow> 'a poll \<times> 'a body_timeout_stream" where
  "bt_total_error now s =
     (case bt_total s of Some t \<Rightarrow> (ReadyErr (total_timeout_error t now), timed_out s) | None \<Rightarrow> (Pending, s))"

text \<open>The timers are made at the first poll.\<close>

definition bt_start :: "instant \<Rightarrow> 'a body_timeout_stream \<Rightarrow> 'a body_timeout_stream" where
  "bt_start now s =
     s\<lparr>bt_started := True, bt_total_sleep := map_option rd_deadline (bt_total s),
       bt_read_deadline := map_option (sleep_until_after now) (bt_read s)\<rparr>"

definition bt_reset_read :: "instant \<Rightarrow> 'a body_timeout_stream \<Rightarrow> 'a body_timeout_stream" where
  "bt_reset_read now s =
     (case (bt_read_deadline s, bt_read s) of
        (Some _, Some d) \<Rightarrow> s\<lparr>bt_read_deadline := Some (saturating_add_instant now d)\<rparr>
      | _ \<Rightarrow> s)"

definition bt_clear :: "'a body_timeout_stream \<Rightarrow> 'a body_timeout_stream" where
  "bt_clear s = s\<lparr>bt_read_deadline := None, bt_total_sleep := None\<rparr>"

definition timer_fired :: "instant option \<Rightarrow> instant \<Rightarrow> bool" where
  "timer_fired t now = (case t of Some d \<Rightarrow> d \<le> now | None \<Rightarrow> False)"

text \<open>Nothing came: the total timer is looked at first.\<close>

definition bt_pending :: "readings \<Rightarrow> 'a body_timeout_stream \<Rightarrow> 'a poll \<times> 'a body_timeout_stream" where
  "bt_pending now s =
     (if timer_fired (bt_total_sleep s) (now 6) \<and> bt_total s \<noteq> None then bt_total_error (now 7) s
      else if timer_fired (bt_read_deadline s) (now 8)
      then (ReadyErr (Timeout PhaseRead (case bt_read s of Some d \<Rightarrow> d | None \<Rightarrow> 0)), timed_out s)
      else (Pending, s))"

definition bt_poll_started :: "readings \<Rightarrow> 'a body_timeout_stream \<Rightarrow> 'a poll \<times> 'a body_timeout_stream" where
  "bt_poll_started now s =
     (if total_expired (now 2) s then bt_total_error (now 3) s
      else (case poll_source (bt_inner s) of
          (ReadyOk c, evs) \<Rightarrow>
            let s' = s\<lparr>bt_inner := evs\<rparr>
            in if total_expired (now 4) s' then bt_total_error (now 5) s'
               else (ReadyOk c, bt_reset_read (now 5) s')
        | (ReadyErr e, evs) \<Rightarrow> (ReadyErr e, bt_clear (s\<lparr>bt_inner := evs\<rparr>))
        | (ReadyNone, evs) \<Rightarrow> (ReadyNone, bt_clear (s\<lparr>bt_inner := evs\<rparr>))
        | (Pending, evs) \<Rightarrow> bt_pending now (s\<lparr>bt_inner := evs\<rparr>)))"

definition body_timeout_poll :: "readings \<Rightarrow> 'a body_timeout_stream \<Rightarrow> 'a poll \<times> 'a body_timeout_stream" where
  "body_timeout_poll now s =
     (if bt_timed_out s then (ReadyNone, s)
      else if bt_started s then bt_poll_started now s
      else if total_expired (now 0) s then bt_total_error (now 1) (s\<lparr>bt_started := True\<rparr>)
      else bt_poll_started now (bt_start (now 1) s))"

subsection \<open>The write timeout of a request stream\<close>

record 'a write_timeout_stream =
  wt_inner :: "'a stream_event list"
  wt_deadline :: "instant option"
  wt_duration :: duration
  wt_started :: bool
  wt_timed_out :: bool

definition write_timeout_new :: "'a stream_event list \<Rightarrow> duration \<Rightarrow> 'a write_timeout_stream" where
  "write_timeout_new evs d =
     \<lparr>wt_inner = evs, wt_deadline = None, wt_duration = d, wt_started = False, wt_timed_out = False\<rparr>"

definition write_timeout_poll :: "readings \<Rightarrow> 'a write_timeout_stream \<Rightarrow> 'a poll \<times> 'a write_timeout_stream" where
  "write_timeout_poll now s0 =
     (if wt_timed_out s0 then (ReadyNone, s0)
      else
        let s = (if wt_started s0 then s0
                 else s0\<lparr>wt_started := True, wt_deadline := Some (sleep_until_after (now 0) (wt_duration s0))\<rparr>)
        in (case poll_source (wt_inner s) of
              (ReadyOk c, evs) \<Rightarrow>
                (ReadyOk c, s\<lparr>wt_inner := evs,
                  wt_deadline := map_option (\<lambda>_. saturating_add_instant (now 1) (wt_duration s)) (wt_deadline s)\<rparr>)
            | (ReadyErr e, evs) \<Rightarrow> (ReadyErr e, s\<lparr>wt_inner := evs, wt_deadline := None\<rparr>)
            | (ReadyNone, evs) \<Rightarrow> (ReadyNone, s\<lparr>wt_inner := evs, wt_deadline := None\<rparr>)
            | (Pending, evs) \<Rightarrow>
                if timer_fired (wt_deadline s) (now 1)
                then (ReadyErr (Timeout PhaseWrite (wt_duration s)),
                      s\<lparr>wt_inner := evs, wt_deadline := None, wt_timed_out := True\<rparr>)
                else (Pending, s\<lparr>wt_inner := evs\<rparr>)))"

subsection \<open>The native request body\<close>

text \<open>Its timer exists from the start, with the largest duration, and is reset at the first poll.\<close>

record 'a native_request_body =
  nr_inner :: "'a stream_event list"
  nr_write_timeout :: "duration option"
  nr_timer :: instant
  nr_started :: bool
  nr_done :: bool

definition native_request_new :: "instant \<Rightarrow> 'a stream_event list \<Rightarrow> duration option \<Rightarrow> 'a native_request_body" where
  "native_request_new now evs t =
     \<lparr>nr_inner = evs, nr_write_timeout = t, nr_timer = sleep_until_after now duration_max, nr_started = False,
      nr_done = False\<rparr>"

definition nr_reset :: "instant \<Rightarrow> 'a native_request_body \<Rightarrow> 'a native_request_body" where
  "nr_reset now s =
     (case nr_write_timeout s of Some d \<Rightarrow> s\<lparr>nr_timer := saturating_add_instant now d\<rparr> | None \<Rightarrow> s)"

definition native_request_poll :: "readings \<Rightarrow> 'a native_request_body \<Rightarrow> 'a poll \<times> 'a native_request_body" where
  "native_request_poll now s0 =
     (if nr_done s0 then (ReadyNone, s0)
      else
        let s = (if nr_write_timeout s0 \<noteq> None \<and> \<not> nr_started s0
                 then nr_reset (now 0) (s0\<lparr>nr_started := True\<rparr>) else s0)
        in (case poll_source (nr_inner s) of
              (ReadyOk f, evs) \<Rightarrow> (ReadyOk f, nr_reset (now 1) (s\<lparr>nr_inner := evs\<rparr>))
            | (ReadyErr e, evs) \<Rightarrow> (ReadyErr e, s\<lparr>nr_inner := evs, nr_done := True\<rparr>)
            | (ReadyNone, evs) \<Rightarrow> (ReadyNone, s\<lparr>nr_inner := evs, nr_done := True\<rparr>)
            | (Pending, evs) \<Rightarrow>
                (case nr_write_timeout s of
                   Some d \<Rightarrow>
                     if nr_timer s \<le> now 1
                     then (ReadyErr (Timeout PhaseWrite d), s\<lparr>nr_inner := evs, nr_done := True\<rparr>)
                     else (Pending, s\<lparr>nr_inner := evs\<rparr>)
                 | None \<Rightarrow> (Pending, s\<lparr>nr_inner := evs\<rparr>))))"

subsection \<open>The native response body\<close>

text \<open>
  The same timers as a response stream; every result that ends the body marks it done
  and lets go of the lease.
\<close>

record ('a, 'l) native_response_body =
  nb_timers :: "'a body_timeout_stream"
  nb_lease :: "'l option"

fun ends_stream :: "'a poll \<Rightarrow> bool" where
  "ends_stream (ReadyErr _) = True"
| "ends_stream ReadyNone = True"
| "ends_stream _ = False"

definition native_response_new ::
  "'a stream_event list \<Rightarrow> 'l option \<Rightarrow> duration option \<Rightarrow> response_deadline option \<Rightarrow> ('a, 'l) native_response_body" where
  "native_response_new evs lease read cap = \<lparr>nb_timers = body_timeout_new evs read cap, nb_lease = lease\<rparr>"

definition native_response_poll ::
  "readings \<Rightarrow> ('a, 'l) native_response_body \<Rightarrow> 'a poll \<times> ('a, 'l) native_response_body" where
  "native_response_poll now s =
     (if bt_timed_out (nb_timers s) then (ReadyNone, s)
      else (case body_timeout_poll now (nb_timers s) of
          (r, t) \<Rightarrow>
            if ends_stream r then (r, s\<lparr>nb_timers := t\<lparr>bt_timed_out := True\<rparr>, nb_lease := None\<rparr>)
            else (r, s\<lparr>nb_timers := t\<rparr>)))"

subsection \<open>The lease of a response stream\<close>

datatype 'a timed_stream = Untimed "'a stream_event list" | Timed "'a body_timeout_stream"

definition body_timeout_stream_of ::
  "'a stream_event list \<Rightarrow> duration option \<Rightarrow> response_deadline option \<Rightarrow> 'a timed_stream" where
  "body_timeout_stream_of evs read cap =
     (if read = None \<and> cap = None then Untimed evs else Timed (body_timeout_new evs read cap))"

fun timed_poll :: "readings \<Rightarrow> 'a timed_stream \<Rightarrow> 'a poll \<times> 'a timed_stream" where
  "timed_poll now (Untimed evs) = map_prod id Untimed (poll_source evs)"
| "timed_poll now (Timed s) = map_prod id Timed (body_timeout_poll now s)"

record ('a, 'l) leased_response_stream =
  le_inner :: "'a timed_stream"
  le_lease :: "'l option"

definition leased_poll ::
  "readings \<Rightarrow> ('a, 'l) leased_response_stream \<Rightarrow> 'a poll \<times> ('a, 'l) leased_response_stream" where
  "leased_poll now s =
     (case timed_poll now (le_inner s) of
        (item, t) \<Rightarrow> (item, s\<lparr>le_inner := t, le_lease := (if ends_stream item then None else le_lease s)\<rparr>))"

subsection \<open>Trailers\<close>

text \<open>The shared store: the first trailers stay.\<close>

definition trailers_store :: "'h \<Rightarrow> 'h option \<Rightarrow> 'h option" where
  "trailers_store t s = (case s of None \<Rightarrow> Some t | Some u \<Rightarrow> Some u)"

end
