(* ===== verification/Multipart.thy ===== *)
theory Multipart
  imports Http_Connect Body_Stream
begin

text \<open>
  Multipart bodies (\<open>multipart.rs\<close>): boundaries, parts, the buffered encoding and the
  streaming encoder, a state machine that is polled.  A body stream is the list of
  what its polls will give.
\<close>

unbundle bit_operations_syntax

subsection \<open>Boundaries\<close>

definition boundary_chars :: string where
  "boundary_chars = ''ABCDEFGHIJKLMNOPQRSTUVWXYZabcdefghijklmnopqrstuvwxyz0123456789_-''"

text \<open>
  One call of the random generator: fifty bytes, or a failure with the clock and the
  counter the fallback is seeded with.
\<close>

datatype rng_outcome = RandomBytes string | Degraded "64 word" "64 word"

definition lcg_next :: "64 word \<Rightarrow> 64 word" where
  "lcg_next s = s * 6364136223846793005 + 1442695040888963407"

fun degraded_bytes :: "nat \<Rightarrow> 64 word \<Rightarrow> string" where
  "degraded_bytes 0 s = []"
| "degraded_bytes (Suc n) s =
     (let s' = lcg_next s in char_of (unat (drop_bit 33 s' AND 255)) # degraded_bytes n s')"

fun rng_bytes :: "rng_outcome \<Rightarrow> string" where
  "rng_bytes (RandomBytes bs) = bs"
| "rng_bytes (Degraded nanos counter) = degraded_bytes 50 (nanos XOR (counter * 0x9E3779B97F4A7C15))"

definition boundary_random :: "rng_outcome \<Rightarrow> string" where
  "boundary_random r = map (\<lambda>b. boundary_chars ! (byte b mod 64)) (rng_bytes r)"

definition boundary_char_ok :: "char \<Rightarrow> bool" where
  "boundary_char_ok c \<longleftrightarrow>
     48 \<le> byte c \<and> byte c \<le> 57 \<or> 65 \<le> byte c \<and> byte c \<le> 90 \<or> 97 \<le> byte c \<and> byte c \<le> 122
     \<or> c = CHR ''_'' \<or> c = CHR ''-''"

text \<open>The bytes of the first character of a text.\<close>

definition first_char_bytes :: "string \<Rightarrow> string" where
  "first_char_bytes s =
     (case s of
        [] \<Rightarrow> []
      | c # _ \<Rightarrow> take (if byte c < 128 then 1 else if byte c < 224 then 2 else if byte c < 240 then 3 else 4) s)"

definition boundary_try_new :: "string \<Rightarrow> string result" where
  "boundary_try_new s =
     (if s = [] then Err (RequestBuild ''boundary must not be empty'')
      else if length s > 69 then Err (RequestBuild ''boundary must not exceed 69 characters'')
      else (case dropWhile boundary_char_ok s of
              [] \<Rightarrow> Ok s
            | rest \<Rightarrow> Err (RequestBuild (''boundary contains invalid character: '' @ first_char_bytes rest))))"

subsection \<open>Parts\<close>

datatype part_body = PartBytes string | PartStream byte_stream "nat option"

record 'h part =
  pt_name :: string
  pt_filename :: "string option"
  pt_content_type :: "string option"
  pt_headers :: 'h
  pt_body :: part_body

text \<open>The number of values of a \<open>u64\<close>.\<close>

definition u64_count :: nat where "u64_count = 2 ^ 64"

fun part_body_len :: "part_body \<Rightarrow> nat option" where
  "part_body_len (PartBytes b) = (if length b < u64_count then Some (length b) else None)"
| "part_body_len (PartStream _ n) = n"

fun is_stream :: "part_body \<Rightarrow> bool" where
  "is_stream (PartBytes _) = False"
| "is_stream (PartStream _ _) = True"

definition part_new :: "'h http_lib \<Rightarrow> string \<Rightarrow> part_body \<Rightarrow> 'h part" where
  "part_new H name body =
     \<lparr>pt_name = name, pt_filename = None, pt_content_type = None, pt_headers = hm_empty H, pt_body = body\<rparr>"

definition part_filename :: "string \<Rightarrow> 'h part \<Rightarrow> 'h part" where
  "part_filename filename p = p\<lparr>pt_filename := Some filename\<rparr>"

definition part_content_type :: "string \<Rightarrow> 'h part \<Rightarrow> 'h part" where
  "part_content_type ct p = p\<lparr>pt_content_type := Some ct\<rparr>"

definition part_try_header :: "'h http_lib \<Rightarrow> string \<Rightarrow> string \<Rightarrow> 'h part \<Rightarrow> 'h part result" where
  "part_try_header H name value p =
     (case hm_header_name H name of
        Inl _ \<Rightarrow> Err (InvalidHeaderName ''invalid multipart part header name'')
      | Inr n \<Rightarrow>
         (case hm_header_value H value of
            Inl _ \<Rightarrow> Err (InvalidHeaderValue ''invalid multipart part header value'')
          | Inr v \<Rightarrow> Ok (p\<lparr>pt_headers := headers_insert_raw H (pt_headers p) n v\<rparr>)))"

definition part_header :: "'h http_lib \<Rightarrow> string \<Rightarrow> string \<Rightarrow> 'h part \<Rightarrow> 'h part" where
  "part_header H name value p = (case part_try_header H name value p of Inl _ \<Rightarrow> p | Inr p' \<Rightarrow> p')"

subsection \<open>Validation\<close>

text \<open>The first quote or control character of a text, with what follows.\<close>

fun from_bad_char :: "string \<Rightarrow> string" where
  "from_bad_char [] = []"
| "from_bad_char (c # cs) =
     (if byte c = 34 \<or> byte c < 32 \<or> byte c = 127
         \<or> byte c = 194 \<and> cs \<noteq> [] \<and> 128 \<le> byte (hd cs) \<and> byte (hd cs) < 160
      then c # cs else from_bad_char cs)"

definition bad_code_point :: "string \<Rightarrow> nat" where
  "bad_code_point s = (if byte (hd s) = 194 then byte (s ! 1) else byte (hd s))"

text \<open>The \<open>Debug\<close> rendering of such a character.\<close>

definition debug_char :: "nat \<Rightarrow> string" where
  "debug_char n =
     CHR 0x27 # (if n = 34 then [CHR 0x22] else if n = 0 then [CHR 0x5C, CHR ''0''] else if n = 9 then [CHR 0x5C, CHR ''t'']
                 else if n = 10 then [CHR 0x5C, CHR ''n''] else if n = 13 then [CHR 0x5C, CHR ''r'']
                 else CHR 0x5C # ''u{'' @ show_hex n @ ''}'') @ [CHR 0x27]"

definition validate_quoted :: "string \<Rightarrow> string \<Rightarrow> unit result" where
  "validate_quoted what s =
     (if s = [] then Err (RequestBuild (''multipart '' @ what @ '' must not be empty''))
      else (case from_bad_char s of
              [] \<Rightarrow> Ok ()
            | bad \<Rightarrow> Err (RequestBuild (''multipart '' @ what @ '' contains invalid character: '' @ debug_char (bad_code_point bad)))))"

definition validate_field_name :: "string \<Rightarrow> unit result" where
  "validate_field_name name = validate_quoted ''field name'' name"

definition validate_filename :: "string \<Rightarrow> unit result" where
  "validate_filename filename = validate_quoted ''filename'' filename"

subsection \<open>Building\<close>

record 'h multipart =
  mp_boundary :: string
  mp_parts :: "'h part list"

definition multipart_with_boundary :: "string \<Rightarrow> 'h multipart" where
  "multipart_with_boundary b = \<lparr>mp_boundary = b, mp_parts = []\<rparr>"

definition push_part :: "'h part \<Rightarrow> 'h multipart \<Rightarrow> 'h multipart" where
  "push_part p m = m\<lparr>mp_parts := mp_parts m @ [p]\<rparr>"

definition multipart_text :: "'h http_lib \<Rightarrow> string \<Rightarrow> string \<Rightarrow> 'h multipart \<Rightarrow> 'h multipart result" where
  "multipart_text H name v m =
     bind_result (validate_field_name name) (\<lambda>_. Ok (push_part (part_new H name (PartBytes v)) m))"

definition file_part ::
  "'h http_lib \<Rightarrow> string \<Rightarrow> string \<Rightarrow> string \<Rightarrow> part_body \<Rightarrow> 'h multipart \<Rightarrow> 'h multipart result" where
  "file_part H name filename content_type body m =
     bind_result (validate_field_name name) (\<lambda>_.
     bind_result (validate_filename filename) (\<lambda>_.
       case hm_header_value H content_type of
         Inl e \<Rightarrow> Err (RequestBuild (''invalid content type: '' @ e))
       | Inr ct \<Rightarrow>
           Ok (push_part \<lparr>pt_name = name, pt_filename = Some filename, pt_content_type = Some ct,
                          pt_headers = hm_empty H, pt_body = body\<rparr> m)))"

definition multipart_bytes ::
  "'h http_lib \<Rightarrow> string \<Rightarrow> string \<Rightarrow> string \<Rightarrow> string \<Rightarrow> 'h multipart \<Rightarrow> 'h multipart result" where
  "multipart_bytes H name filename ct data m = file_part H name filename ct (PartBytes data) m"

definition multipart_stream ::
  "'h http_lib \<Rightarrow> string \<Rightarrow> string \<Rightarrow> string \<Rightarrow> byte_stream \<Rightarrow> nat option \<Rightarrow> 'h multipart \<Rightarrow> 'h multipart result" where
  "multipart_stream H name filename ct stream n m = file_part H name filename ct (PartStream stream n) m"

definition multipart_part :: "'h part \<Rightarrow> 'h multipart \<Rightarrow> 'h multipart result" where
  "multipart_part p m = bind_result (validate_field_name (pt_name p)) (\<lambda>_. Ok (push_part p m))"

subsection \<open>The encoding\<close>

definition CRLF :: string where "CRLF = [CHR 0x0D, CHR 0x0A]"

fun quote_string_escape :: "string \<Rightarrow> string" where
  "quote_string_escape [] = []"
| "quote_string_escape (c # cs) =
     (if c = CHR 0x5C \<or> c = CHR 0x22 then [CHR 0x5C, c] else [c]) @ quote_string_escape cs"

definition header_lines :: "'h http_lib \<Rightarrow> 'h part \<Rightarrow> string" where
  "header_lines H p =
     ''Content-Disposition: form-data; name='' @ [CHR 0x22] @ quote_string_escape (pt_name p) @ [CHR 0x22] @
     (case pt_filename p of
        None \<Rightarrow> [] | Some f \<Rightarrow> ''; filename='' @ [CHR 0x22] @ quote_string_escape f @ [CHR 0x22]) @ CRLF @
     (case pt_content_type p of None \<Rightarrow> [] | Some ct \<Rightarrow> ''Content-Type: '' @ ct @ CRLF) @
     concat (map (\<lambda>(n, v). n @ '': '' @ v @ CRLF) (hm_iter H (pt_headers p)))"

definition format_part_header :: "'h http_lib \<Rightarrow> string \<Rightarrow> 'h part \<Rightarrow> string" where
  "format_part_header H boundary p = ''--'' @ boundary @ CRLF @ header_lines H p @ CRLF"

definition final_boundary :: "string \<Rightarrow> string" where
  "final_boundary boundary = ''--'' @ boundary @ ''--'' @ CRLF"

definition is_replayable :: "'h multipart \<Rightarrow> bool" where
  "is_replayable m = list_all (\<lambda>p. \<not> is_stream (pt_body p)) (mp_parts m)"

definition checked_add_u64 :: "nat \<Rightarrow> nat \<Rightarrow> nat option" where
  "checked_add_u64 a b = (if a + b < u64_count then Some (a + b) else None)"

fun parts_length :: "'h http_lib \<Rightarrow> string \<Rightarrow> nat \<Rightarrow> 'h part list \<Rightarrow> nat option" where
  "parts_length H b acc [] = Some acc"
| "parts_length H b acc (p # ps) =
     Option.bind (checked_add_u64 acc (length (format_part_header H b p))) (\<lambda>t1.
     Option.bind (part_body_len (pt_body p)) (\<lambda>n.
     Option.bind (checked_add_u64 t1 n) (\<lambda>t2.
     Option.bind (checked_add_u64 t2 2) (\<lambda>t3. parts_length H b t3 ps))))"

definition content_length :: "'h http_lib \<Rightarrow> 'h multipart \<Rightarrow> nat option" where
  "content_length H m =
     Option.bind (parts_length H (mp_boundary m) 0 (mp_parts m)) (\<lambda>t.
       checked_add_u64 t (length (mp_boundary m) + 6))"

definition has_window :: "string \<Rightarrow> string \<Rightarrow> bool" where
  "has_window b data \<longleftrightarrow>
     length b \<le> length data \<and> list_ex (\<lambda>i. take (length b) (drop i data) = b) [0..<length data - length b + 1]"

definition collides :: "string \<Rightarrow> 'h part list \<Rightarrow> bool" where
  "collides b ps = list_ex (\<lambda>p. case pt_body p of PartBytes data \<Rightarrow> has_window b data | PartStream _ _ \<Rightarrow> False) ps"

fun ensure_no_boundary_collision ::
  "(nat \<Rightarrow> rng_outcome) \<Rightarrow> nat \<Rightarrow> nat \<Rightarrow> 'h multipart \<Rightarrow> bool \<times> 'h multipart" where
  "ensure_no_boundary_collision rng k 0 m = (False, m)"
| "ensure_no_boundary_collision rng k (Suc attempts) m =
     (if \<not> collides (mp_boundary m) (mp_parts m) then (True, m)
      else ensure_no_boundary_collision rng (Suc k) attempts (m\<lparr>mp_boundary := boundary_random (rng k)\<rparr>))"

definition max_attempts :: nat where "max_attempts = 10"

definition encode_part :: "'h http_lib \<Rightarrow> string \<Rightarrow> 'h part \<Rightarrow> string" where
  "encode_part H b p =
     format_part_header H b p @ (case pt_body p of PartBytes data \<Rightarrow> data | PartStream _ _ \<Rightarrow> []) @ CRLF"

definition encode_buffered :: "'h http_lib \<Rightarrow> 'h multipart \<Rightarrow> string" where
  "encode_buffered H m =
     concat (map (encode_part H (mp_boundary m)) (mp_parts m)) @ final_boundary (mp_boundary m)"

subsection \<open>The streaming encoder\<close>

datatype encoder_state = PartHeader | PartBody | TrailingCrlf | FinalBoundary | Done

record 'h encoder =
  me_boundary :: string
  me_parts :: "'h part list"
  me_header :: string
  me_header_pos :: nat
  me_body :: "part_body option"
  me_state :: encoder_state
  me_part_idx :: nat
  me_error :: "error option"

definition encoder_new :: "'h http_lib \<Rightarrow> 'h multipart \<Rightarrow> 'h encoder" where
  "encoder_new H m =
     \<lparr>me_boundary = mp_boundary m, me_parts = mp_parts m,
      me_header = (case mp_parts m of [] \<Rightarrow> [] | p # _ \<Rightarrow> format_part_header H (mp_boundary m) p),
      me_header_pos = 0, me_body = None,
      me_state = (if mp_parts m = [] then FinalBoundary else PartHeader), me_part_idx = 0, me_error = None\<rparr>"

definition encoder_error :: "error \<Rightarrow> 'h encoder" where
  "encoder_error e =
     \<lparr>me_boundary = [], me_parts = [], me_header = [], me_header_pos = 0, me_body = None, me_state = Done,
      me_part_idx = 0, me_error = Some e\<rparr>"

text \<open>One round of the loop of \<open>poll_next\<close>: a result, or \<open>None\<close> to go on.\<close>

fun poll_stream :: "byte_stream \<Rightarrow> nat option \<Rightarrow> 'h encoder \<Rightarrow> string poll option \<times> 'h encoder" where
  "poll_stream [] n e = (None, e\<lparr>me_body := None, me_state := TrailingCrlf\<rparr>)"
| "poll_stream (Chunk c # evs) n e = (Some (ReadyOk c), e\<lparr>me_body := Some (PartStream evs n)\<rparr>)"
| "poll_stream (Fail x # evs) n e = (Some (ReadyErr x), e\<lparr>me_body := None, me_state := Done\<rparr>)"
| "poll_stream (NotReady # evs) n e = (Some Pending, e\<lparr>me_body := Some (PartStream evs n)\<rparr>)"

definition poll_step :: "'h http_lib \<Rightarrow> 'h encoder \<Rightarrow> string poll option \<times> 'h encoder" where
  "poll_step H e =
     (case me_state e of
        PartHeader \<Rightarrow>
          if me_header_pos e < length (me_header e)
          then (Some (ReadyOk (drop (me_header_pos e) (me_header e))), e\<lparr>me_header_pos := length (me_header e)\<rparr>)
          else
            let i = me_part_idx e; p = me_parts e ! i
            in (None, e\<lparr>me_body := Some (pt_body p), me_parts := (me_parts e)[i := p\<lparr>pt_body := PartBytes []\<rparr>],
                        me_state := PartBody\<rparr>)
      | PartBody \<Rightarrow>
          (case me_body e of
             Some (PartBytes b) \<Rightarrow>
               ((if b \<noteq> [] then Some (ReadyOk b) else None), e\<lparr>me_body := None, me_state := TrailingCrlf\<rparr>)
           | Some (PartStream evs n) \<Rightarrow> poll_stream evs n e
           | None \<Rightarrow> (None, e\<lparr>me_state := TrailingCrlf\<rparr>))
      | TrailingCrlf \<Rightarrow>
          let e1 = e\<lparr>me_body := None\<rparr>
          in (Some (ReadyOk CRLF),
              if me_part_idx e1 + 1 < length (me_parts e1)
              then let i = me_part_idx e1 + 1
                   in e1\<lparr>me_part_idx := i, me_header := format_part_header H (me_boundary e1) (me_parts e1 ! i),
                         me_header_pos := 0, me_state := PartHeader\<rparr>
              else e1\<lparr>me_state := FinalBoundary\<rparr>)
      | FinalBoundary \<Rightarrow> (Some (ReadyOk (final_boundary (me_boundary e))), e\<lparr>me_state := Done\<rparr>)
      | Done \<Rightarrow> (Some ReadyNone, e))"

fun state_rank :: "encoder_state \<Rightarrow> nat" where
  "state_rank PartHeader = 2" | "state_rank PartBody = 1" | "state_rank _ = 0"

lemma poll_stream_continues: "poll_stream evs n e = (None, e') \<Longrightarrow> me_state e' = TrailingCrlf"
  by (cases "(evs, n, e)" rule: poll_stream.cases) auto

lemma poll_step_continues:
  "poll_step H e = (None, e') \<Longrightarrow> state_rank (me_state e') < state_rank (me_state e)"
  by (auto simp: poll_step_def Let_def split: encoder_state.splits option.splits part_body.splits if_splits
      dest!: poll_stream_continues)

function poll_loop :: "'h http_lib \<Rightarrow> 'h encoder \<Rightarrow> string poll \<times> 'h encoder" where
  "poll_loop H e = (case poll_step H e of (Some r, e') \<Rightarrow> (r, e') | (None, e') \<Rightarrow> poll_loop H e')"
  by pat_completeness auto
termination
  by (relation "measure (\<lambda>(H, e). state_rank (me_state e))") (auto dest: poll_step_continues [OF sym])

declare poll_loop.simps [simp del]

definition poll_next :: "'h http_lib \<Rightarrow> 'h encoder \<Rightarrow> string poll \<times> 'h encoder" where
  "poll_next H e =
     (case me_error e of
        Some x \<Rightarrow> (ReadyErr x, e\<lparr>me_error := None\<rparr>)
      | None \<Rightarrow> poll_loop H e)"

subsection \<open>The request body\<close>

datatype 'h encoded_body = EncodedBytes string | EncodedStream "'h encoder" "nat option"

definition collision_error :: error where
  "collision_error = RequestBuild ''failed to generate a collision-free multipart boundary''"

definition multipart_encoder :: "'h http_lib \<Rightarrow> (nat \<Rightarrow> rng_outcome) \<Rightarrow> 'h multipart \<Rightarrow> 'h encoder" where
  "multipart_encoder H rng m =
     (case ensure_no_boundary_collision rng 0 max_attempts m of
        (False, _) \<Rightarrow> encoder_error collision_error
      | (True, m') \<Rightarrow> encoder_new H m')"

definition into_body :: "'h http_lib \<Rightarrow> (nat \<Rightarrow> rng_outcome) \<Rightarrow> 'h multipart \<Rightarrow> 'h encoded_body" where
  "into_body H rng m =
     (case ensure_no_boundary_collision rng 0 max_attempts m of
        (False, _) \<Rightarrow> EncodedStream (encoder_error collision_error) None
      | (True, m') \<Rightarrow>
          if is_replayable m' then EncodedBytes (encode_buffered H m')
          else EncodedStream (encoder_new H m') (content_length H m'))"

end
