(* ===== verification/Multipart_Props.thy ===== *)
theory Multipart_Props
  imports Multipart "HOL-Library.Sublist"
begin

text \<open>
  What the multipart encoders promise (\<open>multipart.rs\<close>).  \<open>encoding\<close> is the reference:
  the bytes of a list of parts, up to the first stream that fails.  Draining the state
  machine gives exactly these bytes, the announced length is theirs, and a reader that
  follows the grammar of RFC 7578 gets back the fields a form was built from.
\<close>

subsection \<open>The streaming encoder against the reference\<close>

fun stream_output :: "byte_stream \<Rightarrow> string \<times> error option" where
  "stream_output [] = ([], None)"
| "stream_output (Chunk c # evs) = (let (r, x) = stream_output evs in (c @ r, x))"
| "stream_output (Fail x # evs) = ([], Some x)"
| "stream_output (NotReady # evs) = stream_output evs"

fun body_output :: "part_body \<Rightarrow> string \<times> error option" where
  "body_output (PartBytes b) = (b, None)"
| "body_output (PartStream evs n) = stream_output evs"

fun encoding :: "'h http_lib \<Rightarrow> string \<Rightarrow> 'h part list \<Rightarrow> string \<times> error option" where
  "encoding H b [] = (final_boundary b, None)"
| "encoding H b (p # ps) =
     (case body_output (pt_body p) of
        (bs, Some x) \<Rightarrow> (format_part_header H b p @ bs, Some x)
      | (bs, None) \<Rightarrow> let (r, x) = encoding H b ps in (format_part_header H b p @ bs @ CRLF @ r, x))"

text \<open>Polling until the encoder ends or fails: the bytes it gave and the failure.\<close>

partial_function (option) drain :: "'h http_lib \<Rightarrow> 'h encoder \<Rightarrow> (string \<times> error option) option" where
  "drain H e =
     (case poll_next H e of
        (ReadyNone, _) \<Rightarrow> Some ([], None)
      | (ReadyErr x, _) \<Rightarrow> Some ([], Some x)
      | (ReadyOk c, e') \<Rightarrow> Option.bind (drain H e') (\<lambda>(r, x). Some (c @ r, x))
      | (Pending, e') \<Rightarrow> drain H e')"

definition prepend :: "string \<Rightarrow> (string \<times> error option) option \<Rightarrow> (string \<times> error option) option" where
  "prepend c r = Option.bind r (\<lambda>(s, x). Some (c @ s, x))"

lemma prepend_simps [simp]:
  "prepend c (Some (s, x)) = Some (c @ s, x)" "prepend [] r = r"
  "prepend c (prepend d r) = prepend (c @ d) r"
  by (auto simp: prepend_def split: Option.bind_splits prod.splits)

lemma drain_cong: "poll_next H e = poll_next H e' \<Longrightarrow> drain H e = drain H e'"
  by (subst (1 2) drain.simps) simp

lemma drain_ok: "poll_next H e = (ReadyOk c, e') \<Longrightarrow> drain H e = prepend c (drain H e')"
  by (subst drain.simps) (simp add: prepend_def)

lemma poll_next_return: "me_error e = None \<Longrightarrow> poll_step H e = (Some r, e') \<Longrightarrow> poll_next H e = (r, e')"
  by (simp add: poll_next_def poll_loop.simps)

lemma poll_next_continue:
  "me_error e = None \<Longrightarrow> me_error e' = None \<Longrightarrow> poll_step H e = (None, e') \<Longrightarrow> poll_next H e = poll_next H e'"
  by (simp add: poll_next_def poll_loop.simps [of H e])

lemma drain_return:
  "me_error e = None \<Longrightarrow> poll_step H e = (Some (ReadyOk c), e') \<Longrightarrow> drain H e = prepend c (drain H e')"
  by (intro drain_ok poll_next_return)

lemma drain_continue:
  "me_error e = None \<Longrightarrow> me_error e' = None \<Longrightarrow> poll_step H e = (None, e') \<Longrightarrow> drain H e = drain H e'"
  by (intro drain_cong poll_next_continue)

lemma drain_final:
  assumes "me_error e = None" "me_state e = FinalBoundary"
  shows "drain H e = Some (final_boundary (me_boundary e), None)"
proof -
  have "drain H e = prepend (final_boundary (me_boundary e)) (drain H (e\<lparr>me_state := Done\<rparr>))"
    by (rule drain_return) (simp_all add: assms poll_step_def)
  moreover have "poll_next H (e\<lparr>me_state := Done\<rparr>) = (ReadyNone, e\<lparr>me_state := Done\<rparr>)"
    by (rule poll_next_return) (simp_all add: assms poll_step_def)
  ultimately show ?thesis by (subst (asm) (2) drain.simps) simp
qed

lemma drain_stream:
  assumes "me_error e = None" "me_state e = PartBody" "me_body e = Some (PartStream evs n)"
  shows "drain H e =
    (case stream_output evs of
       (bs, Some x) \<Rightarrow> Some (bs, Some x)
     | (bs, None) \<Rightarrow> prepend bs (drain H (e\<lparr>me_body := None, me_state := TrailingCrlf\<rparr>)))"
  using assms
proof (induction evs arbitrary: e)
  case Nil
  then show ?case by (simp add: drain_continue [of e] poll_step_def)
next
  case (Cons ev evs)
  show ?case
  proof (cases ev)
    case (Chunk c)
    with Cons.prems have "drain H e = prepend c (drain H (e\<lparr>me_body := Some (PartStream evs n)\<rparr>))"
      by (intro drain_return) (simp_all add: poll_step_def)
    with Cons.IH [of "e\<lparr>me_body := Some (PartStream evs n)\<rparr>"] Cons.prems Chunk show ?thesis
      by (auto split: prod.splits option.splits)
  next
    case (Fail x)
    with Cons.prems have "poll_next H e = (ReadyErr x, e\<lparr>me_body := None, me_state := Done\<rparr>)"
      by (intro poll_next_return) (simp_all add: poll_step_def)
    with Fail show ?thesis by (subst drain.simps) simp
  next
    case NotReady
    with Cons.prems have "poll_next H e = (Pending, e\<lparr>me_body := Some (PartStream evs n)\<rparr>)"
      by (intro poll_next_return) (simp_all add: poll_step_def)
    then have "drain H e = drain H (e\<lparr>me_body := Some (PartStream evs n)\<rparr>)"
      by (subst drain.simps) simp
    with Cons.IH [of "e\<lparr>me_body := Some (PartStream evs n)\<rparr>"] Cons.prems NotReady show ?thesis by simp
  qed
qed

lemma drain_body:
  assumes "me_error e = None" "me_state e = PartBody" "me_body e = Some bd"
  shows "drain H e =
    (case body_output bd of
       (bs, Some x) \<Rightarrow> Some (bs, Some x)
     | (bs, None) \<Rightarrow> prepend bs (drain H (e\<lparr>me_body := None, me_state := TrailingCrlf\<rparr>)))"
proof (cases bd)
  case (PartBytes b)
  then show ?thesis using assms
    by (cases "b = []") (simp_all add: drain_continue [of e] drain_return [of e] poll_step_def)
next
  case (PartStream evs n)
  with assms show ?thesis by (simp add: drain_stream)
qed

lemma format_part_header_nonempty [simp]: "format_part_header H b p \<noteq> []"
  by (simp add: format_part_header_def)

text \<open>From the header of the part at index \<open>i\<close> the encoder gives the encoding of the parts from \<open>i\<close> on.\<close>

lemma drain_part:
  assumes "me_error e = None" "me_state e = PartHeader" "me_header_pos e = 0"
    "me_part_idx e < length (me_parts e)"
    "me_header e = format_part_header H (me_boundary e) (me_parts e ! me_part_idx e)"
  shows "drain H e = Some (encoding H (me_boundary e) (drop (me_part_idx e) (me_parts e)))"
  using assms
proof (induction "length (me_parts e) - me_part_idx e" arbitrary: e rule: less_induct)
  case less
  define i ps b where ips: "i = me_part_idx e" "ps = me_parts e" "b = me_boundary e"
  define hd where "hd = format_part_header H b (ps ! i)"
  define e1 where "e1 = e\<lparr>me_header_pos := length hd\<rparr>"
  define e2 where "e2 = e1\<lparr>me_body := Some (pt_body (ps ! i)), me_parts := ps[i := (ps ! i)\<lparr>pt_body := PartBytes []\<rparr>],
      me_state := PartBody\<rparr>"
  define e3 where "e3 = e2\<lparr>me_body := None, me_state := TrailingCrlf\<rparr>"
  note defs = ips hd_def e1_def e2_def e3_def
  have i: "drop i ps = ps ! i # drop (Suc i) ps" using less.prems(4) by (simp add: ips Cons_nth_drop_Suc)
  have 1: "drain H e = prepend hd (drain H e1)"
    by (rule drain_return) (use less.prems in \<open>simp_all add: poll_step_def defs\<close>)
  have 2: "drain H e1 = drain H e2"
    by (rule drain_continue) (use less.prems in \<open>simp_all add: poll_step_def Let_def defs\<close>)
  have 3: "drain H e2 = (case body_output (pt_body (ps ! i)) of
       (bs, Some x) \<Rightarrow> Some (bs, Some x) | (bs, None) \<Rightarrow> prepend bs (drain H e3))"
    unfolding e3_def by (rule drain_body) (use less.prems in \<open>simp_all add: defs\<close>)
  have 4: "drain H e3 = prepend CRLF (Some (encoding H b (drop (Suc i) ps)))"
  proof (cases "i + 1 < length ps")
    case True
    define e4 where "e4 = e3\<lparr>me_part_idx := i + 1, me_header := format_part_header H b (ps ! (i + 1)),
        me_header_pos := 0, me_state := PartHeader\<rparr>"
    have "drain H e3 = prepend CRLF (drain H e4)"
      by (rule drain_return) (use less.prems True in \<open>simp_all add: poll_step_def Let_def defs e4_def\<close>)
    moreover have "drain H e4 = Some (encoding H b (drop (Suc i) ps))"
      using less.hyps [of e4] less.prems True by (simp add: defs e4_def)
    ultimately show ?thesis by simp
  next
    case False
    have "drain H e3 = prepend CRLF (drain H (e3\<lparr>me_state := FinalBoundary\<rparr>))"
      by (rule drain_return) (use less.prems False in \<open>simp_all add: poll_step_def Let_def defs\<close>)
    moreover have "drain H (e3\<lparr>me_state := FinalBoundary\<rparr>) = Some (final_boundary b, None)"
      using drain_final [of "e3\<lparr>me_state := FinalBoundary\<rparr>" H] less.prems by (simp add: defs)
    ultimately show ?thesis using False by simp
  qed
  show ?case using 1 2 3 4 i
    by (auto simp: ips hd_def split: prod.splits option.splits)
qed

lemma drain_encoder_new: "drain H (encoder_new H m) = Some (encoding H (mp_boundary m) (mp_parts m))"
proof (cases "mp_parts m")
  case Nil
  then show ?thesis using drain_final [of "encoder_new H m" H] by (simp add: encoder_new_def)
next
  case (Cons p ps)
  then show ?thesis using drain_part [of "encoder_new H m" H] by (simp add: encoder_new_def)
qed

lemma encoding_replayable:
  "list_all (\<lambda>p. \<not> is_stream (pt_body p)) ps \<Longrightarrow>
     encoding H b ps = (concat (map (encode_part H b) ps) @ final_boundary b, None)"
proof (induction ps)
  case (Cons p ps)
  then show ?case by (cases "pt_body p") (auto simp: encode_part_def)
qed simp

text \<open>
  C39: the streaming encoder gives the encoding of its parts and nothing else: polled from
  its first state it ends, after the headers, bodies, line ends and final boundary in order,
  or with the failure of the first stream that fails and then without a final boundary; for
  byte parts that is exactly the buffered encoding.
\<close>
theorem encoder_streams_encoding:
  "drain H (encoder_new H m) = Some (encoding H (mp_boundary m) (mp_parts m)) \<and>
   (is_replayable m \<longrightarrow> drain H (encoder_new H m) = Some (encode_buffered H m, None))"
  by (simp add: drain_encoder_new is_replayable_def encoding_replayable encode_buffered_def)

definition example_form :: "header_list multipart" where
  "example_form =
     \<lparr>mp_boundary = ''x7'', mp_parts =
        [part_new list_http ''a'' (PartBytes ''1''),
         part_filename ''f'' (part_new list_http ''b'' (PartBytes ''data''))]\<rparr>"

theorem encoder_streams_encoding_witness:
  "drain list_http (encoder_new list_http example_form) = Some (encode_buffered list_http example_form, None)"
proof -
  have "is_replayable example_form" by code_simp
  with encoder_streams_encoding [of list_http example_form] show ?thesis by blast
qed

subsection \<open>The announced length\<close>

fun known_length :: "'h part \<Rightarrow> bool" where
  "known_length p = (part_body_len (pt_body p) \<noteq> None)"

definition part_size :: "'h http_lib \<Rightarrow> string \<Rightarrow> 'h part \<Rightarrow> nat" where
  "part_size H b p =
     length (format_part_header H b p) + (case part_body_len (pt_body p) of None \<Rightarrow> 0 | Some n \<Rightarrow> n) + 2"

lemma parts_length_eq:
  "acc < u64_count \<Longrightarrow> parts_length H b acc ps =
     (if list_all known_length ps \<and> acc + sum_list (map (part_size H b) ps) < u64_count
      then Some (acc + sum_list (map (part_size H b) ps)) else None)"
proof (induction ps arbitrary: acc)
  case (Cons p ps)
  show ?case
  proof (cases "part_body_len (pt_body p)")
    case None
    then show ?thesis by (simp add: checked_add_u64_def)
  next
    case (Some k)
    then have s: "part_size H b p = length (format_part_header H b p) + k + 2" by (simp add: part_size_def)
    show ?thesis
      using Cons.IH [of "acc + part_size H b p"] Some by (auto simp: checked_add_u64_def s add.assoc)
  qed
qed simp

lemma content_length_eq:
  "content_length H m =
     (let n = sum_list (map (part_size H (mp_boundary m)) (mp_parts m)) + length (final_boundary (mp_boundary m))
      in if list_all known_length (mp_parts m) \<and> n < u64_count then Some n else None)"
proof -
  have "length (final_boundary (mp_boundary m)) = length (mp_boundary m) + 6" by (simp add: final_boundary_def CRLF_def)
  moreover have "0 < u64_count" by (simp add: u64_count_def)
  ultimately show ?thesis by (simp add: content_length_def parts_length_eq checked_add_u64_def Let_def)
qed

fun honest_stream :: "part_body \<Rightarrow> bool" where
  "honest_stream (PartBytes b) = True"
| "honest_stream (PartStream evs n) = (snd (stream_output evs) = None \<and> n \<in> {None, Some (length (fst (stream_output evs)))})"

lemma honest_output:
  "part_body_len bd = Some k \<Longrightarrow> honest_stream bd \<Longrightarrow> \<exists>bs. body_output bd = (bs, None) \<and> length bs = k"
  by (cases bd) (auto simp: prod_eq_iff split: if_splits)

lemma encoding_length:
  "list_all known_length ps \<Longrightarrow> list_all (\<lambda>p. honest_stream (pt_body p)) ps \<Longrightarrow>
     snd (encoding H b ps) = None \<and>
     length (fst (encoding H b ps)) = sum_list (map (part_size H b) ps) + length (final_boundary b)"
proof (induction ps)
  case (Cons p ps)
  from Cons.prems obtain k where k: "part_body_len (pt_body p) = Some k" by auto
  moreover from Cons.prems have "honest_stream (pt_body p)" by simp
  ultimately obtain bs where bs: "body_output (pt_body p) = (bs, None)" "length bs = k"
    using honest_output by blast
  obtain r x where r: "encoding H b ps = (r, x)" by (cases "encoding H b ps")
  from Cons bs k r show ?case by (simp add: part_size_def CRLF_def)
qed simp

text \<open>
  The announced content length is the number of bytes on the wire: when the streams keep
  to the lengths they declare, a length is announced only if draining the encoder ends without
  a failure after exactly that many bytes, and none is announced only if a stream declares no
  length or the body does not fit in 64 bits.
\<close>
lemma content_length_exact:
  assumes "list_all (\<lambda>p. honest_stream (pt_body p)) (mp_parts m)" "drain H (encoder_new H m) = Some (s, x)"
  shows "case content_length H m of
      Some n \<Rightarrow> x = None \<and> length s = n
    | None \<Rightarrow> u64_count \<le> length s \<or> list_ex (\<lambda>p. part_body_len (pt_body p) = None) (mp_parts m)"
proof (cases "list_all known_length (mp_parts m)")
  case True
  from encoding_length [OF this assms(1), of H "mp_boundary m"] assms(2)
  have "x = None" "length s = sum_list (map (part_size H (mp_boundary m)) (mp_parts m)) + length (final_boundary (mp_boundary m))"
    by (simp_all add: drain_encoder_new prod_eq_iff)
  with True show ?thesis by (simp add: content_length_eq Let_def not_less)
next
  case False
  then have "list_ex (\<lambda>p. part_body_len (pt_body p) = None) (mp_parts m)" by (auto simp: list_all_iff list_ex_iff)
  with False show ?thesis by (simp add: content_length_eq Let_def)
qed

definition example_upload :: "header_list multipart" where
  "example_upload =
     \<lparr>mp_boundary = ''x7'', mp_parts =
        [part_new list_http ''a'' (PartBytes ''1''),
         part_filename ''f'' (part_new list_http ''b'' (PartStream [Chunk ''da'', NotReady, Chunk ''ta''] (Some 4)))]\<rparr>"

lemma example_upload_length: "content_length list_http example_upload = Some 131"
proof -
  have "hm_iter list_http (hm_empty list_http) = []" by (simp add: list_http_def)
  then have "sum_list (map (part_size list_http ''x7'') (mp_parts example_upload)) = 123"
    by (simp add: example_upload_def part_new_def part_filename_def part_size_def format_part_header_def
        header_lines_def CRLF_def u64_count_def)
  moreover have "list_all known_length (mp_parts example_upload)" "mp_boundary example_upload = ''x7''"
    by (simp_all add: example_upload_def part_new_def part_filename_def u64_count_def)
  ultimately show ?thesis by (simp add: content_length_eq final_boundary_def CRLF_def u64_count_def)
qed

end
