(* ===== verification/Multipart_Form.thy ===== *)
theory Multipart_Form
  imports Multipart_Props
begin

text \<open>
  Forms end to end (\<open>multipart.rs\<close>): a reader of \<open>multipart/form-data\<close> bodies
  after RFC 7578, written here as the specification, gets back exactly the fields a form was
  built from, whatever their bytes.
\<close>

subsection \<open>The reader\<close>

text \<open>What stands before the first occurrence of a separator, and what follows it.\<close>

fun find_sub :: "string \<Rightarrow> string \<Rightarrow> (string \<times> string) option" where
  "find_sub d [] = (if d = [] then Some ([], []) else None)"
| "find_sub d (c # cs) =
     (if starts_with (c # cs) d then Some ([], drop (length d) (c # cs))
      else map_option (\<lambda>(l, r). (c # l, r)) (find_sub d cs))"

lemma find_sub_length: "find_sub d s = Some (l, r) \<Longrightarrow> length r + length d \<le> length s"
proof (induction s arbitrary: l)
  case (Cons c cs)
  then show ?case by (auto simp: starts_with_iff_prefix split: if_splits dest!: prefix_length_le)
qed (auto split: if_splits)

lemma find_sub_shorter: "find_sub d s = Some (l, r) \<Longrightarrow> d \<noteq> [] \<Longrightarrow> length r < length s"
  using find_sub_length [of d s l r] by (cases d) auto

function read_lines :: "string \<Rightarrow> (string list \<times> string) option" where
  "read_lines s =
     (case find_sub CRLF s of
        None \<Rightarrow> None
      | Some (l, r) \<Rightarrow>
          if l = [] then Some ([], r) else map_option (\<lambda>(ls, r'). (l # ls, r')) (read_lines r))"
  by pat_completeness auto
termination
  by (relation "measure length") (auto dest: find_sub_shorter simp: CRLF_def)

declare read_lines.simps [simp del]

lemma read_lines_shorter: "read_lines s = Some (ls, r) \<Longrightarrow> length r < length s"
proof (induction s arbitrary: ls rule: read_lines.induct)
  case (1 s)
  from 1(2) obtain l r1 where f: "find_sub CRLF s = Some (l, r1)"
    by (cases "find_sub CRLF s") (auto simp: read_lines.simps [of s])
  have "length r1 < length s" by (rule find_sub_shorter [OF f]) (simp add: CRLF_def)
  moreover have "l = [] \<Longrightarrow> r = r1" using 1(2) f by (simp add: read_lines.simps [of s])
  moreover have "length r < length r1" if "l \<noteq> []"
  proof -
    from 1(2) f that obtain ls' where "read_lines r1 = Some (ls', r)"
      by (auto simp: read_lines.simps [of s])
    then show ?thesis using 1(1) [OF f refl that] by blast
  qed
  ultimately show ?case by fastforce
qed

text \<open>The parts that follow a delimiter: their header lines and bytes.\<close>

function read_parts :: "string \<Rightarrow> string \<Rightarrow> (string list \<times> string) list option" where
  "read_parts b s =
     (if starts_with s ''--'' then Some []
      else if \<not> starts_with s CRLF then None
      else case read_lines (drop 2 s) of
          None \<Rightarrow> None
        | Some (ls, r) \<Rightarrow>
            (case find_sub (CRLF @ ''--'' @ b) r of
               None \<Rightarrow> None
             | Some (data, r') \<Rightarrow> map_option (Cons (ls, data)) (read_parts b r')))"
  by pat_completeness auto
termination
  by (relation "measure (\<lambda>(b, s). length s)")
     (auto simp: CRLF_def dest!: find_sub_shorter read_lines_shorter)

declare read_parts.simps [simp del]

fun read_quoted :: "string \<Rightarrow> (string \<times> string) option" where
  "read_quoted [] = None"
| "read_quoted (c # cs) =
     (if c = CHR 0x22 then Some ([], cs)
      else if c = CHR 0x5C
      then (case cs of [] \<Rightarrow> None | d # ds \<Rightarrow> map_option (\<lambda>(v, r). (d # v, r)) (read_quoted ds))
      else map_option (\<lambda>(v, r). (c # v, r)) (read_quoted cs))"

definition read_disposition :: "string \<Rightarrow> (string \<times> string option) option" where
  "read_disposition l =
     Option.bind (strip_prefix l (''Content-Disposition: form-data; name='' @ [CHR 0x22])) (\<lambda>r.
     Option.bind (read_quoted r) (\<lambda>(name, r1).
       if r1 = [] then Some (name, None)
       else Option.bind (strip_prefix r1 (''; filename='' @ [CHR 0x22])) (\<lambda>r2.
            Option.bind (read_quoted r2) (\<lambda>(f, r3). if r3 = [] then Some (name, Some f) else None))))"

datatype form_field = TextField string string | FileField string string string string

fun read_field :: "string list \<times> string \<Rightarrow> form_field option" where
  "read_field (l # ls, data) =
     (case (read_disposition l, ls) of
        (Some (name, None), []) \<Rightarrow> Some (TextField name data)
      | (Some (name, Some f), [t]) \<Rightarrow>
          map_option (\<lambda>ct. FileField name f ct data) (strip_prefix t ''Content-Type: '')
      | _ \<Rightarrow> None)"
| "read_field ([], data) = None"

definition read_form :: "string \<Rightarrow> string \<Rightarrow> form_field list option" where
  "read_form b s =
     Option.bind (strip_prefix s (''--'' @ b)) (\<lambda>r.
     Option.bind (read_parts b r) (\<lambda>ps. those (map read_field ps)))"

text \<open>The form the builder makes of a list of fields.\<close>

fun add_field :: "'h http_lib \<Rightarrow> form_field \<Rightarrow> 'h multipart \<Rightarrow> 'h multipart result" where
  "add_field H (TextField name v) m = multipart_text H name v m"
| "add_field H (FileField name f ct data) m = multipart_bytes H name f ct data m"

fun build_form :: "'h http_lib \<Rightarrow> form_field list \<Rightarrow> 'h multipart \<Rightarrow> 'h multipart result" where
  "build_form H [] m = Ok m"
| "build_form H (f # fs) m = bind_result (add_field H f m) (build_form H fs)"

subsection \<open>Separators are found where they were put\<close>

lemma has_window_sublist: "has_window b data \<longleftrightarrow> sublist b data"
proof
  assume "has_window b data"
  then obtain i where "take (length b) (drop i data) = b" unfolding has_window_def list_ex_iff by blast
  then show "sublist b data" by (metis sublist_take sublist_drop sublist_order.order.trans)
next
  assume "sublist b data"
  then obtain ps ss where d: "data = ps @ b @ ss" by (auto simp: sublist_def)
  show "has_window b data" unfolding has_window_def list_ex_iff
    by (intro conjI bexI [of _ "length ps"]) (simp_all add: d)
qed

lemma find_sub_put:
  assumes "c \<notin> set d" "\<not> sublist (c # d) data"
  shows "find_sub (c # d) (data @ (c # d) @ r) = Some (data, r)"
  using assms(2)
proof (induction data)
  case (Cons x xs)
  have "\<not> prefix (c # d) ((x # xs) @ (c # d) @ r)"
  proof
    assume "prefix (c # d) ((x # xs) @ (c # d) @ r)"
    then consider "prefix (c # d) (x # xs)" | us where "c # d = (x # xs) @ us" "us \<noteq> []" "prefix us ((c # d) @ r)"
      unfolding prefix_append by (metis append_Nil2 prefix_order.order_refl)
    then show False
    proof cases
      case 1
      with Cons.prems show False by (meson prefix_imp_sublist)
    next
      case 2
      then have "hd us = c" by (cases us) auto
      moreover have "hd us \<in> set d" using 2 by (cases us) auto
      ultimately show False using assms(1) by simp
    qed
  qed
  moreover from Cons.prems have "\<not> sublist (c # d) xs" by (meson sublist_Cons_right)
  ultimately show ?case using Cons.IH by (simp add: starts_with_iff_prefix)
qed (simp add: starts_with_def)

definition no_cr :: "string \<Rightarrow> bool" where
  "no_cr s \<longleftrightarrow> CHR 0x0D \<notin> set s"

lemma no_cr_simps [simp]: "no_cr (s @ t) \<longleftrightarrow> no_cr s \<and> no_cr t" "no_cr []"
  "no_cr (c # s) \<longleftrightarrow> c \<noteq> CR \<and> no_cr s"
  by (auto simp: no_cr_def)

lemma find_line: "no_cr l \<Longrightarrow> find_sub CRLF (l @ CRLF @ r) = Some (l, r)"
  using find_sub_put [of CR "[LF]" l r] by (simp add: CRLF_def no_cr_def) (metis in_set_conv_decomp sublist_def append_Cons)

lemma read_lines_put:
  "list_all (\<lambda>l. no_cr l \<and> l \<noteq> []) ls \<Longrightarrow>
     read_lines (concat (map (\<lambda>l. l @ CRLF) ls) @ CRLF @ r) = Some (ls, r)"
proof (induction ls)
  case Nil
  show ?case using find_line [of "[]" r] by (simp add: read_lines.simps)
next
  case (Cons l ls)
  then show ?case using find_line [of l "concat (map (\<lambda>l. l @ CRLF) ls) @ CRLF @ r"]
    by (subst read_lines.simps) simp
qed

lemma find_delimiter:
  assumes "no_cr b" "\<not> has_window b data"
  shows "find_sub (CRLF @ ''--'' @ b) (data @ CRLF @ ''--'' @ b @ r) = Some (data, r)"
proof -
  have "\<not> sublist (CHR 0x0D # CHR 0x0A # ''--'' @ b) data"
    using assms(2) unfolding has_window_sublist
    by (metis append_Cons append_Nil sublist_append_leftI sublist_order.order.trans)
  with assms(1) find_sub_put [of "CHR 0x0D" "CHR 0x0A # ''--'' @ b" data r] show ?thesis
    by (simp add: CRLF_def no_cr_def)
qed

lemma read_quoted_put: "read_quoted (quote_string_escape s @ CHR 0x22 # r) = Some (s, r)"
  by (induction s) auto

subsection \<open>A form that was built is read back\<close>

text \<open>
  What the \<open>http\<close> crate promises here: an empty header map has no entries, and a header
  value is the text it was made from, without line breaks.
\<close>

locale form_headers =
  fixes H :: "'h http_lib"
  assumes iter_empty: "hm_iter H (hm_empty H) = []"
    and value_clean: "hm_header_value H s = Inr v \<Longrightarrow> v = s \<and> no_cr s"

definition strict_http :: "header_list http_lib" where
  "strict_http = list_http\<lparr>hm_header_value :=
     (\<lambda>s. if list_ex (\<lambda>c. byte c < 32 \<and> byte c \<noteq> 9 \<or> byte c = 127) s then Inl ''invalid'' else Inr s)\<rparr>"

fun field_part :: "'h http_lib \<Rightarrow> form_field \<Rightarrow> 'h part" where
  "field_part H (TextField name v) = part_new H name (PartBytes v)"
| "field_part H (FileField name f ct data) =
     \<lparr>pt_name = name, pt_filename = Some f, pt_content_type = Some ct, pt_headers = hm_empty H, pt_body = PartBytes data\<rparr>"

fun field_data :: "form_field \<Rightarrow> string" where
  "field_data (TextField name v) = v" | "field_data (FileField name f ct data) = data"

fun field_lines :: "form_field \<Rightarrow> string list" where
  "field_lines (TextField name v) =
     [''Content-Disposition: form-data; name='' @ [CHR 0x22] @ quote_string_escape name @ [CHR 0x22]]"
| "field_lines (FileField name f ct data) =
     [''Content-Disposition: form-data; name='' @ [CHR 0x22] @ quote_string_escape name @ [CHR 0x22]
        @ ''; filename='' @ [CHR 0x22] @ quote_string_escape f @ [CHR 0x22],
      ''Content-Type: '' @ ct]"

fun field_ok :: "form_field \<Rightarrow> bool" where
  "field_ok (TextField name v) = no_cr name"
| "field_ok (FileField name f ct data) = (no_cr name \<and> no_cr f \<and> no_cr ct)"

lemma field_part_body [simp]: "pt_body (field_part H f) = PartBytes (field_data f)"
  by (cases f) (simp_all add: part_new_def)

lemma no_cr_escape [simp]: "no_cr (quote_string_escape s) \<longleftrightarrow> no_cr s"
  by (induction s) (auto simp: no_cr_def)

lemma no_bad_char: "from_bad_char s = [] \<Longrightarrow> no_cr s"
  by (induction s) (auto simp: no_cr_def split: if_splits)

lemma validate_quoted_clean: "validate_quoted what s = Ok u \<Longrightarrow> no_cr s"
  by (auto simp: validate_quoted_def no_bad_char split: if_splits list.splits)

lemma field_lines_clean: "field_ok f \<Longrightarrow> list_all (\<lambda>l. no_cr l \<and> l \<noteq> []) (field_lines f)"
  by (cases f) auto

lemma strip_prefix_append [simp]: "strip_prefix (p @ s) p = Some s"
  by (simp add: strip_prefix_def)

lemma read_disposition_put:
  "read_disposition (''Content-Disposition: form-data; name='' @ [CHR 0x22] @ quote_string_escape name @ CHR 0x22 #
     (case f of None \<Rightarrow> [] | Some x \<Rightarrow> ''; filename='' @ [CHR 0x22] @ quote_string_escape x @ [CHR 0x22])) = Some (name, f)"
proof -
  have "strip_prefix (''Content-Disposition: form-data; name='' @ [CHR 0x22] @ r)
      (''Content-Disposition: form-data; name='' @ [CHR 0x22]) = Some r" for r
    using strip_prefix_append [of "''Content-Disposition: form-data; name='' @ [CHR 0x22]" r]
    by (simp only: append_assoc)
  moreover have "strip_prefix (''; filename='' @ [CHR 0x22] @ r) (''; filename='' @ [CHR 0x22]) = Some r" for r
    using strip_prefix_append [of "''; filename='' @ [CHR 0x22]" r] by (simp only: append_assoc)
  ultimately show ?thesis
    by (cases f) (simp_all only: read_disposition_def read_quoted_put Option.bind.simps prod.case option.case simp_thms if_True append_Nil2
        append_Cons append_Nil list.simps if_False)
qed

lemma read_field_put: "read_field (field_lines f, field_data f) = Some f"
proof (cases f)
  case (TextField name v)
  then show ?thesis using read_disposition_put [of name None] by (simp only: field_lines.simps field_data.simps read_field.simps
        option.case append_Nil list.case append_Cons) simp
next
  case (FileField name x ct data)
  have "strip_prefix (''Content-Type: '' @ ct) ''Content-Type: '' = Some ct" by (rule strip_prefix_append)
  with FileField read_disposition_put [of name "Some x"] show ?thesis by simp
qed

context form_headers
begin

lemma header_lines_field: "header_lines H (field_part H f) = concat (map (\<lambda>l. l @ CRLF) (field_lines f))"
  by (cases f) (simp_all add: header_lines_def part_new_def iter_empty)

lemma add_field_Ok:
  assumes "add_field H f m = Ok m'"
  shows "m' = push_part (field_part H f) m \<and> field_ok f"
proof (cases f)
  case (TextField name v)
  with assms show ?thesis
    by (auto simp: multipart_text_def bind_result_Inr validate_field_name_def dest: validate_quoted_clean)
next
  case (FileField name x ct data)
  with assms show ?thesis
    by (auto simp: multipart_bytes_def file_part_def bind_result_Inr validate_field_name_def validate_filename_def
        dest: validate_quoted_clean value_clean split: sum.splits)
qed

lemma build_form_Ok:
  "build_form H fs m = Ok m' \<Longrightarrow>
     mp_boundary m' = mp_boundary m \<and> mp_parts m' = mp_parts m @ map (field_part H) fs \<and> list_all field_ok fs"
proof (induction fs arbitrary: m)
  case (Cons f fs)
  then obtain m1 where "add_field H f m = Ok m1" "build_form H fs m1 = Ok m'" by (auto simp: bind_result_Inr)
  with Cons.IH [of m1] add_field_Ok [of f m m1] show ?case by (simp add: push_part_def)
qed simp

text \<open>What follows the boundary text of the first delimiter.\<close>

lemma read_parts_put:
  assumes "no_cr b"
  shows "list_all field_ok fs \<Longrightarrow> list_all (\<lambda>f. \<not> has_window b (field_data f)) fs \<Longrightarrow>
     \<exists>r. concat (map (encode_part H b) (map (field_part H) fs)) @ final_boundary b = ''--'' @ b @ r \<and>
         read_parts b r = Some (map (\<lambda>f. (field_lines f, field_data f)) fs)"
proof (induction fs)
  case Nil
  show ?case by (intro exI [of _ "''--'' @ CRLF"]) (simp add: final_boundary_def read_parts.simps)
next
  case (Cons f fs)
  then obtain r where r: "concat (map (encode_part H b) (map (field_part H) fs)) @ final_boundary b = ''--'' @ b @ r"
    "read_parts b r = Some (map (\<lambda>f. (field_lines f, field_data f)) fs)" by auto
  define r0 where "r0 = field_data f @ CRLF @ ''--'' @ b @ r"
  define r1 where "r1 = concat (map (\<lambda>l. l @ CRLF) (field_lines f)) @ CRLF @ r0"
  have "read_lines r1 = Some (field_lines f, r0)"
    unfolding r1_def using Cons.prems by (intro read_lines_put field_lines_clean) simp
  moreover have "find_sub (CRLF @ ''--'' @ b) r0 = Some (field_data f, r)"
    unfolding r0_def using Cons.prems assms by (intro find_delimiter) simp_all
  ultimately have "read_parts b (CRLF @ r1) = Some (map (\<lambda>f. (field_lines f, field_data f)) (f # fs))"
    using r(2) by (subst read_parts.simps) (simp add: CRLF_def)
  moreover have "concat (map (encode_part H b) (map (field_part H) (f # fs))) @ final_boundary b = ''--'' @ b @ CRLF @ r1"
    using r(1) by (simp add: encode_part_def format_part_header_def header_lines_field r1_def r0_def)
  ultimately show ?case by blast
qed

end

interpretation strict_headers: form_headers strict_http
proof
  show "hm_iter strict_http (hm_empty strict_http) = []" by (simp add: strict_http_def list_http_def)
  show "v = s \<and> no_cr s" if "hm_header_value strict_http s = Inr v" for s v
    using that by (auto simp: strict_http_def no_cr_def list_ex_iff split: if_splits)
qed

subsection \<open>The boundary\<close>

lemma boundary_chars_facts: "length boundary_chars = 64" "CR \<notin> set boundary_chars"
  by (simp_all add: boundary_chars_def)

lemma boundary_random_clean: "no_cr (boundary_random r)"
  unfolding no_cr_def
proof
  assume "CR \<in> set (boundary_random r)"
  then obtain b where b: "CR = boundary_chars ! (byte b mod 64)"
    unfolding boundary_random_def set_map by (rule imageE)
  have "boundary_chars ! (byte b mod 64) \<in> set boundary_chars"
    by (rule nth_mem) (simp add: boundary_chars_facts)
  then have "CR \<in> set boundary_chars" by (simp only: b)
  with boundary_chars_facts(2) show False by (rule notE)
qed

lemma boundary_try_new_clean: "boundary_try_new s = Ok b \<Longrightarrow> no_cr b"
  by (auto simp: boundary_try_new_def no_cr_def boundary_char_ok_def dropWhile_eq_Nil_conv split: if_splits list.splits)

lemma ensure_no_boundary_collision_sound:
  "ensure_no_boundary_collision rng k n m = (True, m') \<Longrightarrow> no_cr (mp_boundary m) \<Longrightarrow>
     no_cr (mp_boundary m') \<and> mp_parts m' = mp_parts m \<and> \<not> collides (mp_boundary m') (mp_parts m')"
  by (induction rng k n m rule: ensure_no_boundary_collision.induct)
     (auto simp: boundary_random_clean split: if_splits)

text \<open>
  C38: a form survives the wire: when a form is built field by field under a boundary the
  constructor accepted, and its body is encoded to bytes, there is a boundary under which a
  reader of the multipart grammar gets exactly those fields back, in order, with their names,
  filenames, content types and bytes, whatever line ends, dashes or quotes the values contain.
\<close>
theorem form_roundtrip:
  assumes "form_headers H" "boundary_try_new t = Ok b"
    and "build_form H fs (multipart_with_boundary b) = Ok m"
    and "into_body H rng m = EncodedBytes s"
  shows "\<exists>b'. read_form b' s = Some fs"
proof -
  note built = form_headers.build_form_Ok [OF assms(1,3)]
  from assms(4) obtain m' where e: "ensure_no_boundary_collision rng 0 max_attempts m = (True, m')"
    and s: "s = encode_buffered H m'"
    by (auto simp: into_body_def split: prod.splits bool.splits if_splits)
  define b' where "b' = mp_boundary m'"
  from built have m: "mp_boundary m = b" "mp_parts m = map (field_part H) fs" "list_all field_ok fs"
    by (simp_all add: multipart_with_boundary_def)
  from ensure_no_boundary_collision_sound [OF e] boundary_try_new_clean [OF assms(2)] m(1)
  have m': "no_cr b'" "mp_parts m' = mp_parts m" "\<not> collides b' (mp_parts m)"
    unfolding b'_def by metis+
  then have "list_all (\<lambda>f. \<not> has_window b' (field_data f)) fs"
    by (auto simp: collides_def list_all_iff list_ex_iff m)
  with form_headers.read_parts_put [OF assms(1) m'(1), of fs] m m'(2) s
  obtain r where r: "s = ''--'' @ b' @ r" "read_parts b' r = Some (map (\<lambda>f. (field_lines f, field_data f)) fs)"
    by (auto simp: encode_buffered_def b'_def)
  have "those (map (read_field \<circ> (\<lambda>f. (field_lines f, field_data f))) fs) = Some fs"
    by (induction fs) (simp_all add: read_field_put)
  with r strip_prefix_append [of "''--'' @ b'" r] show ?thesis
    by (intro exI [of _ b']) (simp add: read_form_def)
qed

definition example_fields :: "form_field list" where
  "example_fields = [TextField ''user'' (''a'' @ CRLF @ ''--x7''), FileField ''doc'' ''f.txt'' ''text/plain'' ''hello'']"

theorem form_roundtrip_witness:
  "\<exists>m s b'. build_form strict_http example_fields (multipart_with_boundary ''zz9'') = Ok m \<and>
     into_body strict_http (\<lambda>_. RandomBytes ''q'') m = EncodedBytes s \<and> read_form b' s = Some example_fields"
proof -
  let ?m = "multipart_with_boundary ''zz9''" and ?r = "\<lambda>_::nat. RandomBytes ''q''"
  have b: "boundary_try_new ''zz9'' = Ok ''zz9''" by code_simp
  obtain m where m: "build_form strict_http example_fields ?m = Ok m"
    by (cases "build_form strict_http example_fields ?m")
      (simp_all add: example_fields_def multipart_text_def multipart_bytes_def file_part_def validate_field_name_def
        validate_filename_def validate_quoted_def bind_result_def strict_http_def)
  have "mp_boundary m = ''zz9''" "mp_parts m = map (field_part strict_http) example_fields"
    using strict_headers.build_form_Ok [OF m] by (simp_all add: multipart_with_boundary_def)
  moreover have "\<not> list_ex (\<lambda>f. has_window ''zz9'' (field_data f)) example_fields" by code_simp
  ultimately have "into_body strict_http ?r m = EncodedBytes (encode_buffered strict_http m)"
    by (simp add: into_body_def max_attempts_def collides_def list_ex_iff is_replayable_def list_all_iff numeral_eq_Suc)
  with form_roundtrip [OF strict_headers.form_headers_axioms b m] m show ?thesis by blast
qed

subsection \<open>A filename the builder does not check\<close>

text \<open>
  \<open>Multipart::part\<close> validates the name of a part only; a line break in a filename set with
  \<open>Part::filename\<close> ends the header line, and what follows it is read as a header of its own.
\<close>

lemma filename_adds_header_line:
  "\<exists>m s. multipart_part (part_filename (''f'' @ CRLF @ ''X-Evil: 1'') (part_new list_http ''n'' (PartBytes ''v'')))
           (multipart_with_boundary ''zz9'') = Ok m \<and>
     into_body list_http (\<lambda>_. RandomBytes ''q'') m = EncodedBytes s \<and>
     map_option (map (tl \<circ> fst)) (read_parts ''zz9'' (drop 5 s)) = Some [[''X-Evil: 1'' @ [CHR 0x22]]]"
proof -
  define p where "p = part_filename (''f'' @ CRLF @ ''X-Evil: 1'') (part_new list_http ''n'' (PartBytes ''v''))"
  show ?thesis
    apply (rule exI [of _ "\<lparr>mp_boundary = ''zz9'', mp_parts = [p]\<rparr>"])
    apply (rule exI [of _ "encode_buffered list_http \<lparr>mp_boundary = ''zz9'', mp_parts = [p]\<rparr>"])
    unfolding p_def by code_simp
qed

end
