(* ===== verification/Compression.thy ===== *)
theory Compression
  imports Body_Stream
begin

text \<open>
  Response decompression (\<open>compression.rs\<close>): content codings, the limits, the decoder
  chain over a stream with its byte counters, and the buffered decoder.  The codecs
  themselves are a library: over a stream, codec \<open>c\<close> gives each result together with
  the number of polls of its input it has made by then; over bytes, what its reads give.
\<close>

subsection \<open>Limits\<close>

record 'r decompression_limit =
  dl_max_decoded_body_size :: "nat option"
  dl_max_decompression_ratio :: "'r option"

text \<open>
  Floating point: is a ratio finite and positive, is \<open>decoded / compressed > ratio\<close>,
  and the least integer not below \<open>compressed * ratio\<close>, at most \<open>usize::MAX\<close>.
\<close>

record 'r ratio_lib =
  rt_valid :: "'r \<Rightarrow> bool"
  rt_exceeds :: "nat \<Rightarrow> nat \<Rightarrow> 'r \<Rightarrow> bool"
  rt_budget :: "nat \<Rightarrow> 'r \<Rightarrow> nat"

definition dl_is_unlimited :: "'r decompression_limit \<Rightarrow> bool" where
  "dl_is_unlimited l \<longleftrightarrow> dl_max_decoded_body_size l = None \<and> dl_max_decompression_ratio l = None"

definition invalid_ratio :: error where
  "invalid_ratio = Decompression ''invalid max_decompression_ratio: must be finite and positive''"

definition dl_validate :: "'r ratio_lib \<Rightarrow> 'r decompression_limit \<Rightarrow> unit result" where
  "dl_validate R l =
     (case dl_max_decompression_ratio l of
        Some r \<Rightarrow> if \<not> rt_valid R r then Err invalid_ratio else Ok ()
      | None \<Rightarrow> Ok ())"

definition dl_try_new :: "'r ratio_lib \<Rightarrow> nat option \<Rightarrow> 'r option \<Rightarrow> 'r decompression_limit result" where
  "dl_try_new R limit ratio =
     (case ratio of
        Some r \<Rightarrow>
          if \<not> rt_valid R r then Err (RequestBuild ''max_decompression_ratio must be finite and positive'')
          else Ok \<lparr>dl_max_decoded_body_size = limit, dl_max_decompression_ratio = ratio\<rparr>
      | None \<Rightarrow> Ok \<lparr>dl_max_decoded_body_size = limit, dl_max_decompression_ratio = ratio\<rparr>)"

subsection \<open>Content codings\<close>

datatype content_coding = Gzip | Deflate | Brotli | Zstd

fun coding_str :: "content_coding \<Rightarrow> string" where
  "coding_str Gzip = ''gzip''" | "coding_str Deflate = ''deflate''"
| "coding_str Brotli = ''br''" | "coding_str Zstd = ''zstd''"

definition from_wire :: "string \<Rightarrow> content_coding option" where
  "from_wire s =
     (let t = to_ascii_lowercase (trim s)
      in if t = ''gzip'' \<or> t = ''x-gzip'' then Some Gzip
         else if t = ''deflate'' then Some Deflate
         else if t = ''br'' then Some Brotli
         else if t = ''zstd'' then Some Zstd
         else None)"

definition is_identity :: "string \<Rightarrow> bool" where
  "is_identity token \<longleftrightarrow> eq_ignore_ascii_case (trim token) ''identity''"

text \<open>What one coding needs of the codec library, and the build it is compiled into.\<close>

datatype codec = GzipCodec | ZlibCodec | RawDeflateCodec | BrotliCodec | ZstdCodec

datatype read_event = ReadBytes string | ReadFail string

datatype codec_event = Decoded string | Broken string | Waiting

record codec_lib =
  cl_enabled :: "content_coding \<Rightarrow> bool"
  cl_reads :: "codec \<Rightarrow> string \<Rightarrow> read_event list"
  cl_stream :: "codec \<Rightarrow> byte_stream \<Rightarrow> (nat \<times> codec_event) list"
  cl_show :: "error \<Rightarrow> string"

fun join_comma :: "string list \<Rightarrow> string" where
  "join_comma [] = []"
| "join_comma [s] = s"
| "join_comma (s # t # ss) = s @ '', '' @ join_comma (t # ss)"

definition advertised :: "codec_lib \<Rightarrow> content_coding list" where
  "advertised L = filter (cl_enabled L) [Gzip, Deflate, Brotli, Zstd]"

definition accept_encoding_value :: "codec_lib \<Rightarrow> string option" where
  "accept_encoding_value L =
     (let parts = map coding_str (advertised L) in if parts = [] then None else Some (join_comma parts))"

definition coding_tokens :: "string \<Rightarrow> string list" where
  "coding_tokens header = map trim (split_char CHR '','' header)"

definition parse_content_encodings :: "string \<Rightarrow> content_coding list option" where
  "parse_content_encodings header =
     (let codings = List.map_filter from_wire (filter (\<lambda>s. s \<noteq> [] \<and> \<not> is_identity s) (coding_tokens header))
      in if codings = [] then None else Some codings)"

fun validate_tokens :: "string list \<Rightarrow> unit result" where
  "validate_tokens [] = Ok ()"
| "validate_tokens (t # ts) =
     (if t = [] \<or> is_identity t then validate_tokens ts
      else if from_wire t = None then Err (UnsupportedContentEncoding t)
      else validate_tokens ts)"

definition validate_content_encodings :: "string \<Rightarrow> unit result" where
  "validate_content_encodings header = validate_tokens (coding_tokens header)"

definition max_nesting_depth :: nat where "max_nesting_depth = 4"

definition nesting_error :: "nat \<Rightarrow> error" where
  "nesting_error n = Decompression (''content encoding nesting depth '' @ show_nat n @ '' exceeds maximum ''
     @ show_nat max_nesting_depth)"

subsection \<open>Decoders over streams\<close>

fun from_codec :: "codec_event \<Rightarrow> string stream_event" where
  "from_codec (Decoded c) = Chunk c"
| "from_codec (Broken t) = Fail (Decompression t)"
| "from_codec Waiting = NotReady"

definition run_codec :: "codec_lib \<Rightarrow> codec \<Rightarrow> byte_stream \<Rightarrow> (nat \<times> string stream_event) list" where
  "run_codec L c evs = map (map_prod id from_codec) (cl_stream L c evs)"

fun is_zlib_header :: "string \<Rightarrow> bool" where
  "is_zlib_header (cmf # flg # _) \<longleftrightarrow> byte cmf mod 16 = 8 \<and> (byte cmf * 256 + byte flg) mod 31 = 0"
| "is_zlib_header _ \<longleftrightarrow> False"

text \<open>
  The framing of a deflate stream is decided by what the buffered reader holds after
  its first fill: the first chunk that is not empty, up to the size of its buffer.
  \<open>k\<close> counts the polls made while looking for it.
\<close>

fun sniff_deflate ::
  "codec_lib \<Rightarrow> nat \<Rightarrow> byte_stream \<Rightarrow> (nat \<times> string stream_event) list" where
  "sniff_deflate L k [] = []"
| "sniff_deflate L k (Fail e # evs) = [(Suc k, Fail (Decompression (cl_show L e)))]"
| "sniff_deflate L k (NotReady # evs) = (Suc k, NotReady) # sniff_deflate L (Suc k) evs"
| "sniff_deflate L k (Chunk c # evs) =
     (if c = [] then sniff_deflate L (Suc k) evs
      else map (\<lambda>(n, ev). (k + max 1 n, ev))
             (run_codec L (if is_zlib_header c then ZlibCodec else RawDeflateCodec) (Chunk c # evs)))"

definition make_deflate_decoder :: "codec_lib \<Rightarrow> byte_stream \<Rightarrow> (nat \<times> string stream_event) list" where
  "make_deflate_decoder L evs = sniff_deflate L 0 evs"

fun stream_codec :: "content_coding \<Rightarrow> codec" where
  "stream_codec Gzip = GzipCodec" | "stream_codec Deflate = RawDeflateCodec"
| "stream_codec Brotli = BrotliCodec" | "stream_codec Zstd = ZstdCodec"

definition make_decoder ::
  "codec_lib \<Rightarrow> content_coding \<Rightarrow> byte_stream \<Rightarrow> (nat \<times> string stream_event) list result" where
  "make_decoder L c evs =
     (if \<not> cl_enabled L c then Err (UnsupportedContentEncoding (coding_str c))
      else if c = Deflate then Ok (make_deflate_decoder L evs)
      else Ok (run_codec L (stream_codec c) evs))"

subsection \<open>Counting and limiting\<close>

text \<open>The count of a counting stream after each of its polls.\<close>

fun counted :: "nat \<Rightarrow> byte_stream \<Rightarrow> nat list" where
  "counted n [] = []"
| "counted n (Chunk c # evs) = (let n' = usize_saturating_add n (length c) in n' # counted n' evs)"
| "counted n (_ # evs) = n # counted n evs"

text \<open>A counter that was updated by the first \<open>k\<close> polls.\<close>

definition counter_at :: "nat list \<Rightarrow> nat \<Rightarrow> nat" where
  "counter_at counts k = (case take k counts of [] \<Rightarrow> 0 | t \<Rightarrow> last t)"

datatype limit_exceeded_kind = LimitSize | LimitRatio

definition check_limit ::
  "'r ratio_lib \<Rightarrow> 'r decompression_limit \<Rightarrow> nat \<Rightarrow> nat \<Rightarrow> limit_exceeded_kind option" where
  "check_limit R l decoded compressed =
     (if (case dl_max_decoded_body_size l of Some m \<Rightarrow> decoded > m | None \<Rightarrow> False) then Some LimitSize
      else (case dl_max_decompression_ratio l of
          Some r \<Rightarrow>
            if \<not> rt_valid R r then Some LimitRatio
            else if compressed = 0 then (if decoded > 0 then Some LimitRatio else None)
            else if rt_exceeds R decoded compressed r then Some LimitRatio
            else None
        | None \<Rightarrow> None))"

definition kind_to_error :: "'r ratio_lib \<Rightarrow> 'r decompression_limit \<Rightarrow> limit_exceeded_kind \<Rightarrow> error" where
  "kind_to_error R l k =
     (case k of
        LimitSize \<Rightarrow> DecodedBodyTooLarge
      | LimitRatio \<Rightarrow>
          (case dl_max_decompression_ratio l of
             Some r \<Rightarrow> if \<not> rt_valid R r then invalid_ratio else DecompressionRatioExceeded
           | None \<Rightarrow> DecompressionRatioExceeded))"

text \<open>
  A limiting stream over results that carry the compressed bytes counted when they were
  given (and the bytes taken off the wire by then): after the first excess it is over.
\<close>

fun limiting_stream ::
  "'r ratio_lib \<Rightarrow> 'r decompression_limit \<Rightarrow> nat \<Rightarrow> (nat \<times> nat \<times> string stream_event) list
     \<Rightarrow> (nat \<times> string stream_event) list" where
  "limiting_stream R l decoded [] = []"
| "limiting_stream R l decoded ((count, w, Chunk c) # evs) =
     (let d = usize_saturating_add decoded (length c)
      in case check_limit R l d count of
           Some k \<Rightarrow> [(w, Fail (kind_to_error R l k))]
         | None \<Rightarrow> (w, Chunk c) # limiting_stream R l d evs)"
| "limiting_stream R l decoded ((count, w, Fail e) # evs) = (w, Fail e) # limiting_stream R l decoded evs"
| "limiting_stream R l decoded ((count, w, NotReady) # evs) = (w, NotReady) # limiting_stream R l decoded evs"

text \<open>One coding: count the input, decode it, and hold the output against the ratio.\<close>

definition decode_layer ::
  "codec_lib \<Rightarrow> 'r ratio_lib \<Rightarrow> 'r option \<Rightarrow> content_coding \<Rightarrow> (nat \<times> string stream_event) list
     \<Rightarrow> (nat \<times> string stream_event) list result" where
  "decode_layer L R ratio c input =
     (let counts = counted 0 (map snd input); wires = map fst input
      in case make_decoder L c (map snd input) of
           Inl e \<Rightarrow> Err e
         | Inr out \<Rightarrow>
             let seen = map (\<lambda>(k, ev). (counter_at counts k, counter_at wires k, ev)) out
             in Ok (case ratio of
                      Some r \<Rightarrow> limiting_stream R \<lparr>dl_max_decoded_body_size = None, dl_max_decompression_ratio = Some r\<rparr> 0 seen
                    | None \<Rightarrow> map snd seen))"

fun decode_layers ::
  "codec_lib \<Rightarrow> 'r ratio_lib \<Rightarrow> 'r option \<Rightarrow> content_coding list \<Rightarrow> (nat \<times> string stream_event) list
     \<Rightarrow> (nat \<times> string stream_event) list result" where
  "decode_layers L R ratio [] input = Ok input"
| "decode_layers L R ratio (c # cs) input =
     bind_result (decode_layer L R ratio c input) (decode_layers L R ratio cs)"

text \<open>The polls of the wire stream, each with the bytes counted by then.\<close>

definition on_wire :: "byte_stream \<Rightarrow> (nat \<times> string stream_event) list" where
  "on_wire evs = zip (counted 0 evs) evs"

definition decompress_stream ::
  "codec_lib \<Rightarrow> 'r ratio_lib \<Rightarrow> byte_stream \<Rightarrow> string option \<Rightarrow> bool \<Rightarrow> 'r decompression_limit
     \<Rightarrow> (nat \<times> string stream_event) list result" where
  "decompress_stream L R stream content_encoding enabled l =
     (if \<not> enabled then Ok (on_wire stream)
      else (case content_encoding of
          None \<Rightarrow> Ok (on_wire stream)
        | Some header \<Rightarrow>
            if trim header = [] then Ok (on_wire stream)
            else
              bind_result (dl_validate R l) (\<lambda>_.
              bind_result (validate_content_encodings header) (\<lambda>_.
                case parse_content_encodings header of
                  None \<Rightarrow> Ok (on_wire stream)
                | Some encodings \<Rightarrow>
                    if length encodings > max_nesting_depth then Err (nesting_error (length encodings))
                    else
                      bind_result (decode_layers L R (dl_max_decompression_ratio l) (rev encodings) (on_wire stream))
                        (\<lambda>current.
                          if dl_is_unlimited l then Ok current
                          else Ok (limiting_stream R l 0 (map (\<lambda>(w, ev). (w, w, ev)) current)))))))"

subsection \<open>The buffered decoder\<close>

fun sync_read_limited :: "read_event list \<Rightarrow> nat option \<Rightarrow> bool \<Rightarrow> string \<Rightarrow> string result" where
  "sync_read_limited [] output_limit ratio_is_tighter out = Ok out"
| "sync_read_limited (ReadFail t # rs) output_limit ratio_is_tighter out = Err (Decompression t)"
| "sync_read_limited (ReadBytes b # rs) output_limit ratio_is_tighter out =
     (if b = [] then Ok out
      else if (case output_limit of Some m \<Rightarrow> length (out @ b) > m | None \<Rightarrow> False)
      then Err (if ratio_is_tighter then DecompressionRatioExceeded else DecodedBodyTooLarge)
      else sync_read_limited rs output_limit ratio_is_tighter (out @ b))"

definition sync_decode_flate2 ::
  "codec_lib \<Rightarrow> string \<Rightarrow> content_coding \<Rightarrow> nat option \<Rightarrow> bool \<Rightarrow> string result" where
  "sync_decode_flate2 L data c output_limit tighter =
     (case c of
        Gzip \<Rightarrow> sync_read_limited (cl_reads L GzipCodec data) output_limit tighter []
      | Deflate \<Rightarrow>
          (case sync_read_limited (cl_reads L ZlibCodec data) output_limit tighter [] of
             Inr out \<Rightarrow> Ok out
           | Inl _ \<Rightarrow> sync_read_limited (cl_reads L RawDeflateCodec data) output_limit tighter [])
      | _ \<Rightarrow> Err (UnsupportedContentEncoding (coding_str c)))"

definition sync_decode_brotli :: "codec_lib \<Rightarrow> string \<Rightarrow> nat option \<Rightarrow> bool \<Rightarrow> string result" where
  "sync_decode_brotli L data output_limit tighter =
     sync_read_limited (cl_reads L BrotliCodec data) output_limit tighter []"

definition sync_decode_zstd :: "codec_lib \<Rightarrow> string \<Rightarrow> nat option \<Rightarrow> bool \<Rightarrow> string result" where
  "sync_decode_zstd L data output_limit tighter =
     sync_read_limited (cl_reads L ZstdCodec data) output_limit tighter []"

definition sync_decode ::
  "codec_lib \<Rightarrow> string \<Rightarrow> content_coding \<Rightarrow> nat option \<Rightarrow> bool \<Rightarrow> string result" where
  "sync_decode L data c output_limit tighter =
     (if c = Gzip \<or> c = Deflate
      then if cl_enabled L Gzip \<or> cl_enabled L Deflate then sync_decode_flate2 L data c output_limit tighter
           else Err (UnsupportedContentEncoding (coding_str c))
      else if \<not> cl_enabled L c then Err (UnsupportedContentEncoding (coding_str c))
      else if c = Brotli then sync_decode_brotli L data output_limit tighter
      else sync_decode_zstd L data output_limit tighter)"

definition layer_ratio_ok :: "'r ratio_lib \<Rightarrow> 'r option \<Rightarrow> nat \<Rightarrow> nat \<Rightarrow> bool" where
  "layer_ratio_ok R ratio decoded compressed \<longleftrightarrow>
     (case ratio of Some r \<Rightarrow> \<not> (compressed > 0 \<and> rt_exceeds R decoded compressed r) | None \<Rightarrow> True)"

fun decode_buffered ::
  "codec_lib \<Rightarrow> 'r ratio_lib \<Rightarrow> 'r option \<Rightarrow> nat option \<Rightarrow> bool \<Rightarrow> content_coding list \<Rightarrow> string \<Rightarrow> string result" where
  "decode_buffered L R ratio output_limit tighter [] current = Ok current"
| "decode_buffered L R ratio output_limit tighter (c # cs) current =
     bind_result (sync_decode L current c output_limit tighter) (\<lambda>next.
       if \<not> layer_ratio_ok R ratio (length next) (length current) then Err DecompressionRatioExceeded
       else decode_buffered L R ratio output_limit tighter cs next)"

definition ratio_limit_of :: "'r ratio_lib \<Rightarrow> 'r decompression_limit \<Rightarrow> nat \<Rightarrow> nat option" where
  "ratio_limit_of R l compressed =
     (case dl_max_decompression_ratio l of
        Some r \<Rightarrow> if rt_valid R r then Some (rt_budget R compressed r) else None
      | None \<Rightarrow> None)"

fun tighter_of :: "nat option \<Rightarrow> nat option \<Rightarrow> nat option" where
  "tighter_of (Some s) (Some r) = Some (min s r)"
| "tighter_of (Some s) None = Some s"
| "tighter_of None r = r"

definition decompress_buffered ::
  "codec_lib \<Rightarrow> 'r ratio_lib \<Rightarrow> string \<Rightarrow> string \<Rightarrow> 'r decompression_limit \<Rightarrow> string result" where
  "decompress_buffered L R data content_encoding l =
     bind_result (dl_validate R l) (\<lambda>_.
     bind_result (validate_content_encodings content_encoding) (\<lambda>_.
       case parse_content_encodings content_encoding of
         None \<Rightarrow> Ok data
       | Some encodings \<Rightarrow>
           if length encodings > max_nesting_depth then Err (nesting_error (length encodings))
           else if data = [] then Ok []
           else
             let ratio_limit = ratio_limit_of R l (length data);
                 output_limit = tighter_of (dl_max_decoded_body_size l) ratio_limit;
                 tighter = (ratio_limit \<noteq> None \<and> ratio_limit = output_limit)
             in bind_result
                  (decode_buffered L R (dl_max_decompression_ratio l) output_limit tighter (rev encodings) data)
                  (\<lambda>current.
                    let size_violated =
                          (case dl_max_decoded_body_size l of Some m \<Rightarrow> length current > m | None \<Rightarrow> False);
                        ratio_violated =
                          \<not> layer_ratio_ok R (dl_max_decompression_ratio l) (length current) (length data)
                    in if size_violated \<and> ratio_violated
                       then Err (if tighter then DecompressionRatioExceeded else DecodedBodyTooLarge)
                       else if size_violated then Err DecodedBodyTooLarge
                       else if ratio_violated then Err DecompressionRatioExceeded
                       else Ok current)))"

end
