(* ===== verification/Response_Body.thy ===== *)
theory Response_Body
  imports Compression
begin

text \<open>
  Response bodies and what is done with them (\<open>body.rs\<close>, \<open>response.rs\<close>,
  \<open>response_decode.rs\<close>, \<open>pipeline/finalize.rs\<close>, the drain of \<open>pipeline/mod.rs\<close>, the
  lifecycle policy of \<open>pool.rs\<close>): the body handle with its single consumption, the
  limits and the lease put on it, the streams a caller gets, text and lines.
\<close>

subsection \<open>The body handle\<close>

record lease =
  lc_read_timeout :: "duration option"
  lc_total_deadline :: "response_deadline option"
  lc_permits :: nat

definition lease_has_response_state :: "lease \<Rightarrow> bool" where
  "lease_has_response_state g \<longleftrightarrow> lc_permits g > 0 \<or> lc_read_timeout g \<noteq> None \<or> lc_total_deadline g \<noteq> None"

datatype 'r response_body =
    Buffered string
  | Streaming byte_stream "lease option"
  | EncodedStreaming byte_stream "lease option" string "'r decompression_limit"
  | BodyConsumed

fun attach_lease :: "lease \<Rightarrow> 'r response_body \<Rightarrow> 'r response_body" where
  "attach_lease g (Streaming stream _) = Streaming stream (Some g)"
| "attach_lease g (EncodedStreaming stream _ ce l) = EncodedStreaming stream (Some g) ce l"
| "attach_lease g other = other"

fun rb_is_empty :: "'r response_body \<Rightarrow> bool" where
  "rb_is_empty (Buffered b) = (b = [])"
| "rb_is_empty (Streaming _ _) = False"
| "rb_is_empty (EncodedStreaming _ _ _ _) = False"
| "rb_is_empty BodyConsumed = True"

fun rb_len :: "'r response_body \<Rightarrow> nat option" where
  "rb_len (Buffered b) = Some (length b)"
| "rb_len (Streaming _ _) = None"
| "rb_len (EncodedStreaming _ _ _ _) = None"
| "rb_len BodyConsumed = Some 0"

fun limit_decoded_size :: "nat \<Rightarrow> 'r response_body \<Rightarrow> 'r response_body result" where
  "limit_decoded_size m (Buffered b) = (if length b > m then Err DecodedBodyTooLarge else Ok (Buffered b))"
| "limit_decoded_size m (Streaming stream g) = Ok (Streaming (limited_stream m stream) g)"
| "limit_decoded_size m (EncodedStreaming stream g ce l) =
     Ok (EncodedStreaming stream g ce
          (l\<lparr>dl_max_decoded_body_size :=
              Some (case dl_max_decoded_body_size l of None \<Rightarrow> m | Some c \<Rightarrow> min c m)\<rparr>))"
| "limit_decoded_size m BodyConsumed = Ok BodyConsumed"

subsection \<open>Taking the stream\<close>

datatype reader = OnceReader byte_stream | LeasedReader "(string, lease) leased_response_stream"

fun reader_poll :: "readings \<Rightarrow> reader \<Rightarrow> string poll \<times> reader" where
  "reader_poll now (OnceReader evs) = map_prod id OnceReader (poll_source evs)"
| "reader_poll now (LeasedReader s) = map_prod id LeasedReader (leased_poll now s)"

fun lease_timeouts :: "lease option \<Rightarrow> duration option \<times> response_deadline option" where
  "lease_timeouts None = (None, None)"
| "lease_timeouts (Some g) = (lc_read_timeout g, lc_total_deadline g)"

definition leased_reader :: "byte_stream \<Rightarrow> lease option \<Rightarrow> reader" where
  "leased_reader stream g =
     (case lease_timeouts g of
        (read, cap) \<Rightarrow> LeasedReader \<lparr>le_inner = body_timeout_stream_of stream read cap, le_lease = g\<rparr>)"

definition consumed_error :: error where
  "consumed_error = Body ''streaming body already consumed''"

fun take_stream ::
  "codec_lib \<Rightarrow> 'r ratio_lib \<Rightarrow> bool \<Rightarrow> 'r response_body \<Rightarrow> reader result \<times> 'r response_body" where
  "take_stream L R raw (Buffered b) = (Ok (OnceReader [Chunk b]), BodyConsumed)"
| "take_stream L R raw (Streaming stream g) = (Ok (leased_reader stream g), BodyConsumed)"
| "take_stream L R raw (EncodedStreaming stream g ce l) =
     ((if raw then Ok (leased_reader stream g)
       else bind_result (decompress_stream L R stream (Some ce) True l) (\<lambda>out. Ok (leased_reader (map snd out) g))),
      BodyConsumed)"
| "take_stream L R raw BodyConsumed = (Err consumed_error, BodyConsumed)"

text \<open>
  The collecting loop, polled at the given readings: a result, or \<open>None\<close> when these
  polls have not brought the stream to its end.
\<close>

fun collect :: "readings list \<Rightarrow> reader \<Rightarrow> string \<Rightarrow> string result option" where
  "collect [] s buf = None"
| "collect (now # rest) s buf =
     (case reader_poll now s of
        (ReadyOk chunk, s') \<Rightarrow> collect rest s' (buf @ chunk)
      | (ReadyErr e, s') \<Rightarrow> Some (Err e)
      | (ReadyNone, s') \<Rightarrow> Some (Ok buf)
      | (Pending, s') \<Rightarrow> collect rest s' buf)"

definition body_bytes ::
  "codec_lib \<Rightarrow> 'r ratio_lib \<Rightarrow> readings list \<Rightarrow> 'r response_body \<Rightarrow> string result option \<times> 'r response_body" where
  "body_bytes L R sched b =
     (case b of
        Buffered bytes \<Rightarrow> (Some (Ok bytes), BodyConsumed)
      | _ \<Rightarrow> (case take_stream L R False b of
               (Inl e, b') \<Rightarrow> (Some (Err e), b')
             | (Inr s, b') \<Rightarrow> (collect sched s [], b')))"

subsection \<open>UTF-8\<close>

definition utf8_cont :: "char \<Rightarrow> bool" where
  "utf8_cont c \<longleftrightarrow> 128 \<le> byte c \<and> byte c < 192"

definition utf8_second_ok :: "char \<Rightarrow> char \<Rightarrow> bool" where
  "utf8_second_ok a b \<longleftrightarrow> utf8_cont b \<and>
     (byte a = 224 \<longrightarrow> 160 \<le> byte b) \<and> (byte a = 237 \<longrightarrow> byte b < 160) \<and>
     (byte a = 240 \<longrightarrow> 144 \<le> byte b) \<and> (byte a = 244 \<longrightarrow> byte b < 144)"

definition utf8_width :: "char \<Rightarrow> nat" where
  "utf8_width a =
     (if byte a < 128 then 1 else if byte a < 194 then 0 else if byte a < 224 then 2
      else if byte a < 240 then 3 else if byte a < 245 then 4 else 0)"

text \<open>
  The first error of a text: where it stands, and the length of the bad sequence unless
  the text ends inside it.
\<close>

fun utf8_error :: "nat \<Rightarrow> string \<Rightarrow> (nat \<times> nat option) option" where
  "utf8_error i [] = None"
| "utf8_error i (a # s) =
     (if utf8_width a = 1 then utf8_error (i + 1) s
      else if utf8_width a = 0 then Some (i, Some 1)
      else (case s of
          [] \<Rightarrow> Some (i, None)
        | b # s1 \<Rightarrow>
            if \<not> utf8_second_ok a b then Some (i, Some 1)
            else if utf8_width a = 2 then utf8_error (i + 2) s1
            else (case s1 of
                [] \<Rightarrow> Some (i, None)
              | c # s2 \<Rightarrow>
                  if \<not> utf8_cont c then Some (i, Some 2)
                  else if utf8_width a = 3 then utf8_error (i + 3) s2
                  else (case s2 of
                      [] \<Rightarrow> Some (i, None)
                    | d # s3 \<Rightarrow> if \<not> utf8_cont d then Some (i, Some 3) else utf8_error (i + 4) s3))))"

fun utf8_error_text :: "nat \<times> nat option \<Rightarrow> string" where
  "utf8_error_text (i, Some n) =
     ''invalid utf-8 sequence of '' @ show_nat n @ '' bytes from index '' @ show_nat i"
| "utf8_error_text (i, None) = ''incomplete utf-8 byte sequence from index '' @ show_nat i"

definition from_utf8 :: "string \<Rightarrow> string result" where
  "from_utf8 s = (case utf8_error 0 s of None \<Rightarrow> Ok s | Some e \<Rightarrow> Err (Body (utf8_error_text e)))"

definition body_text ::
  "codec_lib \<Rightarrow> 'r ratio_lib \<Rightarrow> readings list \<Rightarrow> 'r response_body \<Rightarrow> string result option \<times> 'r response_body" where
  "body_text L R sched b =
     (case body_bytes L R sched b of (r, b') \<Rightarrow> (map_option (\<lambda>r. bind_result r from_utf8) r, b'))"

subsection \<open>Lines\<close>

definition max_line_length :: nat where "max_line_length = 1024 * 1024"

definition line_too_long :: error where
  "line_too_long = Body (''response line exceeded maximum length of '' @ show_nat max_line_length @ '' bytes'')"

record line_stream =
  ln_stream :: byte_stream
  ln_buffer :: string

definition strip_cr :: "string \<Rightarrow> string" where
  "strip_cr l = (if ends_with l [CHR 0x0D] then take (length l - 1) l else l)"

definition line_result :: "string \<Rightarrow> string poll" where
  "line_result l = (case from_utf8 (strip_cr l) of Inr t \<Rightarrow> ReadyOk t | Inl e \<Rightarrow> ReadyErr e)"

text \<open>Is a chunk refused because the line it continues cannot end within the limit?\<close>

definition chunk_overflows :: "string \<Rightarrow> string \<Rightarrow> bool" where
  "chunk_overflows buffer chunk \<longleftrightarrow>
     min (length buffer + length chunk) usize_max > max_line_length \<and>
     CHR 0x0A \<notin> set (take (max_line_length - length buffer) chunk) \<and>
     (case find_char CHR 0x0A chunk of
        Some pos \<Rightarrow> length buffer + pos > max_line_length
      | None \<Rightarrow> True)"

fun line_poll_loop :: "byte_stream \<Rightarrow> string \<Rightarrow> string poll \<times> line_stream" where
  "line_poll_loop evs buffer =
     (case find_char CHR 0x0A buffer of
        Some pos \<Rightarrow>
          if pos > max_line_length then (ReadyErr line_too_long, \<lparr>ln_stream = evs, ln_buffer = buffer\<rparr>)
          else (line_result (take pos buffer), \<lparr>ln_stream = evs, ln_buffer = drop (pos + 1) buffer\<rparr>)
      | None \<Rightarrow>
          if length buffer > max_line_length then (ReadyErr line_too_long, \<lparr>ln_stream = evs, ln_buffer = buffer\<rparr>)
          else (case evs of
              Chunk chunk # rest \<Rightarrow>
                if chunk = [] then line_poll_loop rest buffer
                else if chunk_overflows buffer chunk
                then (ReadyErr line_too_long, \<lparr>ln_stream = rest, ln_buffer = buffer\<rparr>)
                else line_poll_loop rest (buffer @ chunk)
            | Fail e # rest \<Rightarrow> (ReadyErr e, \<lparr>ln_stream = rest, ln_buffer = buffer\<rparr>)
            | NotReady # rest \<Rightarrow> (Pending, \<lparr>ln_stream = rest, ln_buffer = buffer\<rparr>)
            | [] \<Rightarrow>
                if buffer = [] then (ReadyNone, \<lparr>ln_stream = [], ln_buffer = []\<rparr>)
                else (line_result buffer, \<lparr>ln_stream = [], ln_buffer = []\<rparr>)))"

declare line_poll_loop.simps [simp del]

definition line_poll :: "line_stream \<Rightarrow> string poll \<times> line_stream" where
  "line_poll s = line_poll_loop (ln_stream s) (ln_buffer s)"

subsection \<open>Responses\<close>

record ('h, 'r) body_response = "'h response" +
  br_wire_content_encoding :: "string option"
  br_wire_content_length :: "string option"
  br_body :: "'r response_body"

text \<open>\<open>HeaderValue::to_str\<close>.\<close>

definition value_to_str :: "string \<Rightarrow> string option" where
  "value_to_str v = (if list_all (\<lambda>c. byte c = 9 \<or> 32 \<le> byte c \<and> byte c < 127) v then Some v else None)"

definition header_text :: "'h http_lib \<Rightarrow> 'h \<Rightarrow> string \<Rightarrow> string option" where
  "header_text H h n = Option.bind (headers_get H h n) value_to_str"

definition response_new :: "'h http_lib \<Rightarrow> nat \<Rightarrow> 'h \<Rightarrow> url \<Rightarrow> 'r response_body \<Rightarrow> ('h, 'r) body_response" where
  "response_new H status h u b =
     \<lparr>rs_status = status, rs_url = u, rs_headers = h, rs_history = [],
      br_wire_content_encoding = header_text H h ''content-encoding'',
      br_wire_content_length = header_text H h ''content-length'', br_body = b\<rparr>"

definition response_content_length :: "('h, 'r) body_response \<Rightarrow> nat option" where
  "response_content_length r = Option.bind (br_wire_content_length r) parse_u64"

definition has_codings :: "string \<Rightarrow> bool" where
  "has_codings ce \<longleftrightarrow> parse_content_encodings ce \<noteq> None"

fun decoded_body ::
  "codec_lib \<Rightarrow> 'r ratio_lib \<Rightarrow> string option \<Rightarrow> 'r decompression_limit \<Rightarrow> 'r response_body
     \<Rightarrow> ('r response_body \<times> bool) result" where
  "decoded_body L R ce l (Streaming stream g) =
     (case ce of
        Some v \<Rightarrow> if trim v \<noteq> [] then Ok (EncodedStreaming stream g v l, has_codings v) else Ok (Streaming stream g, False)
      | None \<Rightarrow> Ok (Streaming stream g, False))"
| "decoded_body L R ce l (Buffered b) =
     (case ce of
        Some v \<Rightarrow> bind_result (decompress_buffered L R b v l) (\<lambda>d. Ok (Buffered d, has_codings v))
      | None \<Rightarrow> Ok (Buffered b, False))"
| "decoded_body L R ce l other = Ok (other, False)"

definition apply_decompression ::
  "'h http_lib \<Rightarrow> codec_lib \<Rightarrow> 'r ratio_lib \<Rightarrow> ('h, 'r) body_response \<Rightarrow> string option \<Rightarrow> 'r decompression_limit
     \<Rightarrow> ('h, 'r) body_response result" where
  "apply_decompression H L R resp ce l =
     bind_result (if ce \<noteq> None then dl_validate R l else Ok ()) (\<lambda>_.
     bind_result (case ce of Some v \<Rightarrow> validate_content_encodings v | None \<Rightarrow> Ok ()) (\<lambda>_.
     bind_result (decoded_body L R ce l (br_body resp)) (\<lambda>(b, applied).
       let r = resp\<lparr>br_body := b\<rparr>
       in Ok (if applied
              then r\<lparr>rs_headers := headers_remove H (headers_remove H (rs_headers r) ''content-encoding'') ''content-length''\<rparr>
              else r))))"

definition apply_timeouts_and_lease ::
  "lease \<Rightarrow> duration option \<Rightarrow> response_deadline option \<Rightarrow> ('h, 'r) body_response \<Rightarrow> ('h, 'r) body_response" where
  "apply_timeouts_and_lease guard read cap resp =
     (let g = guard\<lparr>lc_read_timeout := read, lc_total_deadline := cap\<rparr>
      in if lease_has_response_state g then resp\<lparr>br_body := attach_lease g (br_body resp)\<rparr> else resp)"

text \<open>The part of \<open>finalize_response\<close> that concerns the body.\<close>

definition finalize_body ::
  "'h http_lib \<Rightarrow> codec_lib \<Rightarrow> 'r ratio_lib \<Rightarrow> bool \<Rightarrow> nat option \<Rightarrow> 'r option \<Rightarrow> lease \<Rightarrow> duration option
     \<Rightarrow> response_deadline option \<Rightarrow> ('h, 'r) body_response \<Rightarrow> ('h, 'r) body_response result" where
  "finalize_body H L R enabled limit ratio guard read cap resp =
     bind_result
       (if enabled
        then apply_decompression H L R resp (header_text H (rs_headers resp) ''content-encoding'')
               \<lparr>dl_max_decoded_body_size = limit, dl_max_decompression_ratio = ratio\<rparr>
        else Ok resp) (\<lambda>r1.
     bind_result
       (case limit of
          Some m \<Rightarrow> bind_result (limit_decoded_size m (br_body r1)) (\<lambda>b. Ok (r1\<lparr>br_body := b\<rparr>))
        | None \<Rightarrow> Ok r1) (\<lambda>r2.
       Ok (apply_timeouts_and_lease guard read cap r2)))"

subsection \<open>Draining a response that is discarded\<close>

definition drain_max_bytes :: nat where "drain_max_bytes = 256 * 1024"

definition drain_max_time :: duration where "drain_max_time = from_secs_d 30"

text \<open>
  The drain ends when the stream does, when enough was read, or when a poll finds
  nothing and the time is up; \<open>None\<close> when the polls given did not bring it to an end.
\<close>

fun drain_loop :: "readings list \<Rightarrow> instant \<Rightarrow> nat \<Rightarrow> reader \<Rightarrow> reader option" where
  "drain_loop [] deadline remaining s = None"
| "drain_loop (now # rest) deadline remaining s =
     (case reader_poll now s of
        (ReadyOk c, s') \<Rightarrow>
          if length c \<ge> remaining then Some s' else drain_loop rest deadline (remaining - length c) s'
      | (ReadyErr _, s') \<Rightarrow> Some s'
      | (ReadyNone, s') \<Rightarrow> Some s'
      | (Pending, s') \<Rightarrow> if deadline \<le> now 9 then Some s' else drain_loop rest deadline remaining s')"

definition drain_cap :: "duration option \<Rightarrow> duration" where
  "drain_cap read = (case read of None \<Rightarrow> drain_max_time | Some d \<Rightarrow> min d drain_max_time)"

definition drain_response_body ::
  "codec_lib \<Rightarrow> 'r ratio_lib \<Rightarrow> instant \<Rightarrow> readings list \<Rightarrow> duration option \<Rightarrow> ('h, 'r) body_response
     \<Rightarrow> reader option \<times> ('h, 'r) body_response" where
  "drain_response_body L R start sched read resp =
     (case take_stream L R True (br_body resp) of
        (Inl _, b) \<Rightarrow> (None, resp\<lparr>br_body := b\<rparr>)
      | (Inr s, b) \<Rightarrow>
          (drain_loop sched (sleep_until_after start (drain_cap read)) drain_max_bytes s, resp\<lparr>br_body := b\<rparr>))"

end
