(* ===== verification/Body_Props.thy ===== *)
theory Body_Props
  imports Body_Stream "HOL-Library.Sublist"
begin

text \<open>
  What the stream adapters promise (\<open>body.rs\<close>, \<open>stream/body_timeout.rs\<close>,
  \<open>stream/write_timeout.rs\<close>).  Every adapter hands on the chunks of the stream it wraps,
  unchanged and in order, and may stop early; this is the locale \<open>adapter\<close>, which every one
  of them is shown to satisfy.
\<close>

subsection \<open>What is delivered\<close>

fun poll_chunks :: "'a poll list \<Rightarrow> 'a list" where
  "poll_chunks [] = []"
| "poll_chunks (ReadyOk c # rs) = c # poll_chunks rs"
| "poll_chunks (_ # rs) = poll_chunks rs"

fun chunks :: "'a stream_event list \<Rightarrow> 'a list" where
  "chunks [] = []"
| "chunks (Chunk c # evs) = c # chunks evs"
| "chunks (_ # evs) = chunks evs"

definition stream_bytes :: "byte_stream \<Rightarrow> nat" where
  "stream_bytes evs = sum_list (map length (chunks evs))"

definition delivered :: "string poll list \<Rightarrow> nat" where
  "delivered rs = sum_list (map length (poll_chunks rs))"

fun is_chunk :: "'a stream_event \<Rightarrow> bool" where
  "is_chunk (Chunk c) = True" | "is_chunk _ = False"

lemma sum_list_prefix_le: "prefix xs ys \<Longrightarrow> sum_list (map f xs) \<le> (sum_list (map f ys) :: nat)"
  by (auto simp: prefix_def)

lemma poll_source_cases [consumes 1, case_names End Next Err Wait]:
  assumes "poll_source evs = (r, evs')"
  obtains "r = ReadyNone" "evs = []" "evs' = []"
    | c where "r = ReadyOk c" "evs = Chunk c # evs'"
    | e where "r = ReadyErr e" "evs = Fail e # evs'"
    | "r = Pending" "evs = NotReady # evs'"
  using assms by (cases evs rule: poll_source.cases) auto

text \<open>
  The contract: a poll takes what it gives from the head of the wrapped stream; what is
  not a chunk may be passed over; a chunk is lost only when the adapter is dead, and then
  nothing is given any more.
\<close>

locale adapter =
  fixes p :: "'c \<Rightarrow> 's \<Rightarrow> 'a poll \<times> 's"
    and inner :: "'s \<Rightarrow> 'a stream_event list"
    and dead :: "'s \<Rightarrow> bool"
  assumes gives: "p c s = (ReadyOk x, s') \<Longrightarrow> \<not> dead s \<and> inner s = Chunk x # inner s'"
    and passes: "p c s = (r, s') \<Longrightarrow> (\<forall>x. r \<noteq> ReadyOk x) \<Longrightarrow>
          inner s' = inner s \<or> (\<exists>ev. inner s = ev # inner s' \<and> \<not> is_chunk ev) \<or> dead s'"
    and stays_dead: "p c s = (r, s') \<Longrightarrow> dead s \<Longrightarrow> dead s'"
begin

lemma dead_delivers_nothing: "dead s \<Longrightarrow> poll_chunks (polls p cs s) = []"
proof (induction cs arbitrary: s)
  case (Cons c cs)
  obtain r s' where r: "p c s = (r, s')" by (cases "p c s")
  with gives [of c s] Cons.prems have "\<forall>x. r \<noteq> ReadyOk x" by auto
  with Cons.IH stays_dead [OF r Cons.prems] r show ?case by (cases r) auto
qed simp

lemma delivered_prefix: "prefix (poll_chunks (polls p cs s)) (chunks (inner s))"
proof (induction cs arbitrary: s)
  case (Cons c cs)
  obtain r s' where r: "p c s = (r, s')" by (cases "p c s")
  show ?case
  proof (cases "\<exists>x. r = ReadyOk x")
    case True
    with gives r Cons.IH [of s'] show ?thesis by fastforce
  next
    case False
    then have "poll_chunks (polls p (c # cs) s) = poll_chunks (polls p cs s')" using r by (cases r) auto
    moreover have "poll_chunks (polls p cs s') = []" if "dead s'" by (rule dead_delivers_nothing [OF that])
    moreover have "chunks (ev # evs) = chunks evs" if "\<not> is_chunk ev" for ev :: "'a stream_event" and evs
      using that by (cases ev) auto
    ultimately show ?thesis using passes [OF r] False Cons.IH [of s'] by (metis Nil_prefix)
  qed
qed simp

end

lemma delivered_le:
  "adapter p inner dead \<Longrightarrow> delivered (polls p cs s) \<le> stream_bytes (inner s)"
  unfolding delivered_def stream_bytes_def by (intro sum_list_prefix_le adapter.delivered_prefix)

subsection \<open>The timeout of a response stream\<close>

lemmas bt_defs = bt_total_error_def timed_out_def bt_clear_def bt_reset_read_def bt_pending_def bt_start_def

lemma bt_total_error_result:
  "total_expired now s \<Longrightarrow> bt_total_error now' s = (r, s') \<Longrightarrow>
     (\<exists>t. bt_total s = Some t \<and> r = ReadyErr (total_timeout_error t now')) \<and> bt_timed_out s' \<and> bt_inner s' = bt_inner s"
  by (auto simp: bt_total_error_def total_expired_def timed_out_def split: option.splits)

lemma bt_pending_result:
  "bt_pending now s = (r, s') \<Longrightarrow>
     (r = Pending \<and> s' = s \<or> (\<exists>e. r = ReadyErr e) \<and> bt_timed_out s') \<and> bt_inner s' = bt_inner s"
  by (auto simp: bt_pending_def bt_total_error_def timed_out_def split: if_splits option.splits)

lemma bt_reset_read_simps [simp]:
  "bt_inner (bt_reset_read now s) = bt_inner s" "bt_timed_out (bt_reset_read now s) = bt_timed_out s"
  "bt_total (bt_reset_read now s) = bt_total s" "bt_total_sleep (bt_reset_read now s) = bt_total_sleep s"
  "bt_started (bt_reset_read now s) = bt_started s" "bt_read (bt_reset_read now s) = bt_read s"
  by (simp_all add: bt_reset_read_def split: option.splits)

lemma bt_poll_started_step:
  assumes "bt_poll_started now s = (r, s')" "\<not> bt_timed_out s"
  shows "case r of
      ReadyOk c \<Rightarrow> bt_inner s = Chunk c # bt_inner s' \<and> \<not> total_expired (now 4) s \<and> \<not> bt_timed_out s'
    | _ \<Rightarrow> bt_inner s' = bt_inner s \<or> (\<exists>ev. bt_inner s = ev # bt_inner s' \<and> \<not> is_chunk ev) \<or> bt_timed_out s'"
proof (cases "total_expired (now 2) s")
  case True
  with assms bt_total_error_result [OF True] show ?thesis by (force simp: bt_poll_started_def)
next
  case False
  obtain x evs where x: "poll_source (bt_inner s) = (x, evs)" by (cases "poll_source (bt_inner s)")
  from x show ?thesis
  proof (cases rule: poll_source_cases)
    case (Next c)
    let ?s = "s\<lparr>bt_inner := evs\<rparr>"
    show ?thesis
    proof (cases "total_expired (now 4) ?s")
      case True
      from assms(1) False Next x True have "bt_total_error (now 5) ?s = (r, s')"
        by (simp add: bt_poll_started_def)
      from bt_total_error_result [OF True this] show ?thesis by auto
    next
      case exp: False
      with assms False Next x show ?thesis by (auto simp: bt_poll_started_def total_expired_def)
    qed
  next
    case Wait
    with assms(1) False x have "bt_pending now (s\<lparr>bt_inner := evs\<rparr>) = (r, s')" by (simp add: bt_poll_started_def)
    from bt_pending_result [OF this] Wait show ?thesis by (auto split: poll.splits)
  qed (use assms False x in \<open>auto simp: bt_poll_started_def bt_clear_def\<close>)
qed

lemma body_timeout_step:
  assumes "body_timeout_poll now s = (r, s')"
  shows "case r of
      ReadyOk c \<Rightarrow> \<not> bt_timed_out s \<and> bt_inner s = Chunk c # bt_inner s' \<and> \<not> total_expired (now 4) s
    | _ \<Rightarrow> bt_inner s' = bt_inner s \<or> (\<exists>ev. bt_inner s = ev # bt_inner s' \<and> \<not> is_chunk ev) \<or> bt_timed_out s'"
proof (cases "bt_timed_out s")
  case True
  with assms show ?thesis by (auto simp: body_timeout_poll_def)
next
  case alive: False
  consider "bt_started s" | "\<not> bt_started s" "total_expired (now 0) s" | "\<not> bt_started s" "\<not> total_expired (now 0) s"
    by blast
  then show ?thesis
  proof cases
    case 1
    with assms alive bt_poll_started_step [of now s r s'] show ?thesis
      by (auto simp: body_timeout_poll_def split: poll.splits)
  next
    case 2
    then have "total_expired (now 0) (s\<lparr>bt_started := True\<rparr>)" by (simp add: total_expired_def)
    with 2 assms alive bt_total_error_result [OF this] show ?thesis by (force simp: body_timeout_poll_def)
  next
    case 3
    have f: "bt_inner (bt_start t s) = bt_inner s" "bt_timed_out (bt_start t s) = bt_timed_out s"
      "total_expired u (bt_start t s) = total_expired u s" for t u
      by (simp_all add: bt_start_def total_expired_def)
    from 3 assms alive have "bt_poll_started now (bt_start (now 1) s) = (r, s')" by (simp add: body_timeout_poll_def)
    from bt_poll_started_step [OF this] alive show ?thesis by (auto simp: f split: poll.splits)
  qed
qed

lemma body_timeout_dead: "body_timeout_poll now s = (r, s') \<Longrightarrow> bt_timed_out s \<Longrightarrow> r = ReadyNone \<and> s' = s"
  by (simp add: body_timeout_poll_def)

interpretation body_timeout: adapter body_timeout_poll bt_inner bt_timed_out
proof
  fix c and s s' :: "'a body_timeout_stream" and x r
  show "body_timeout_poll c s = (ReadyOk x, s') \<Longrightarrow> \<not> bt_timed_out s \<and> bt_inner s = Chunk x # bt_inner s'"
    using body_timeout_step [of c s "ReadyOk x" s'] by simp
  show "body_timeout_poll c s = (r, s') \<Longrightarrow> \<forall>x. r \<noteq> ReadyOk x \<Longrightarrow>
      bt_inner s' = bt_inner s \<or> (\<exists>ev. bt_inner s = ev # bt_inner s' \<and> \<not> is_chunk ev) \<or> bt_timed_out s'"
    using body_timeout_step [of c s r s'] by (cases r) auto
  show "body_timeout_poll c s = (r, s') \<Longrightarrow> bt_timed_out s \<Longrightarrow> bt_timed_out s'"
    using body_timeout_dead [of c s r s'] by simp
qed

text \<open>The deadlines are looked at on both sides of the inner poll.\<close>

lemma bt_poll_started_total:
  "bt_poll_started now s = (r, s') \<Longrightarrow> bt_total s' = bt_total s"
  by (auto simp: bt_poll_started_def bt_defs Let_def split: if_splits option.splits prod.splits poll.splits)

lemma body_timeout_total: "body_timeout_poll now s = (r, s') \<Longrightarrow> bt_total s' = bt_total s"
  by (auto simp: body_timeout_poll_def bt_total_error_def timed_out_def bt_start_def dest!: bt_poll_started_total
      split: if_splits option.splits)

lemma bt_poll_started_expired:
  assumes "bt_poll_started now s = (r, s')" "bt_total s = Some t" "rd_deadline t \<le> now 2"
  shows "\<exists>d. r = ReadyErr (Timeout PhaseTotal d)"
  using assms by (auto simp: bt_poll_started_def total_expired_def rd_is_expired_def bt_total_error_def total_timeout_error_def)

lemma body_timeout_expired:
  assumes "body_timeout_poll now s = (r, s')" "bt_total s = Some t" "rd_deadline t \<le> now 2"
  shows "r = ReadyNone \<or> (\<exists>d. r = ReadyErr (Timeout PhaseTotal d))"
  using assms bt_poll_started_expired [of now s r s' t] bt_poll_started_expired [of now "bt_start (now 1) s" r s' t]
  by (auto simp: body_timeout_poll_def bt_total_error_def total_timeout_error_def bt_start_def split: if_splits option.splits)

lemma body_timeout_within:
  assumes "body_timeout_poll now s = (r, s')" "bt_total s = Some t"
  shows "case r of ReadyOk c \<Rightarrow> now 4 < rd_deadline t | Pending \<Rightarrow> now 2 < rd_deadline t | _ \<Rightarrow> True"
proof (cases r)
  case (ReadyOk c)
  with body_timeout_step [OF assms(1)] assms(2) show ?thesis by (simp add: total_expired_def rd_is_expired_def)
next
  case Pending
  with body_timeout_expired [OF assms] show ?thesis by force
qed auto

text \<open>The read timer stands while nothing comes, and is set again by every chunk.\<close>

lemma bt_poll_started_read:
  assumes "bt_poll_started now s = (r, s')" "bt_read_deadline s = Some x" "bt_read s = Some d"
  shows "r = Pending \<Longrightarrow> now 8 < x \<and> bt_read_deadline s' = Some x \<and> bt_read s' = Some d"
    and "r = ReadyOk c \<Longrightarrow> bt_read_deadline s' = Some (saturating_add_instant (now 5) d) \<and> bt_read s' = Some d"
  using assms
  by (auto simp: bt_poll_started_def bt_defs Let_def timer_fired_def total_expired_def split: if_splits option.splits prod.splits poll.splits)

subsection \<open>The other adapters\<close>

lemma limited_step:
  assumes "limited_poll s = (r, s')"
  shows "case r of
      ReadyOk c \<Rightarrow> \<not> lr_limit_exceeded s \<and> lr_inner s = Chunk c # lr_inner s'
    | _ \<Rightarrow> lr_inner s' = lr_inner s \<or> (\<exists>ev. lr_inner s = ev # lr_inner s' \<and> \<not> is_chunk ev) \<or> lr_limit_exceeded s'"
proof -
  obtain x evs where x: "poll_source (lr_inner s) = (x, evs)" by (cases "poll_source (lr_inner s)")
  from x show ?thesis using assms x
    by (cases rule: poll_source_cases) (auto simp: limited_poll_def Let_def split: if_splits)
qed

interpretation limited: adapter "\<lambda>_. limited_poll" lr_inner lr_limit_exceeded
proof
  fix c :: 'c and s s' x r
  show "limited_poll s = (ReadyOk x, s') \<Longrightarrow> \<not> lr_limit_exceeded s \<and> lr_inner s = Chunk x # lr_inner s'"
    using limited_step [of s "ReadyOk x" s'] by simp
  show "limited_poll s = (r, s') \<Longrightarrow> \<forall>x. r \<noteq> ReadyOk x \<Longrightarrow>
      lr_inner s' = lr_inner s \<or> (\<exists>ev. lr_inner s = ev # lr_inner s' \<and> \<not> is_chunk ev) \<or> lr_limit_exceeded s'"
    using limited_step [of s r s'] by (cases r) auto
  show "limited_poll s = (r, s') \<Longrightarrow> lr_limit_exceeded s \<Longrightarrow> lr_limit_exceeded s'"
    by (simp add: limited_poll_def)
qed

lemma write_timeout_step:
  assumes "write_timeout_poll now s = (r, s')"
  shows "case r of
      ReadyOk c \<Rightarrow> \<not> wt_timed_out s \<and> wt_inner s = Chunk c # wt_inner s'
    | _ \<Rightarrow> wt_inner s' = wt_inner s \<or> (\<exists>ev. wt_inner s = ev # wt_inner s' \<and> \<not> is_chunk ev) \<or> wt_timed_out s'"
proof -
  obtain x evs where x: "poll_source (wt_inner s) = (x, evs)" by (cases "poll_source (wt_inner s)")
  from x show ?thesis using assms x
    by (cases rule: poll_source_cases) (auto simp: write_timeout_poll_def Let_def split: if_splits)
qed

interpretation write_timeout: adapter write_timeout_poll wt_inner wt_timed_out
proof
  fix c and s s' :: "'a write_timeout_stream" and x r
  show "write_timeout_poll c s = (ReadyOk x, s') \<Longrightarrow> \<not> wt_timed_out s \<and> wt_inner s = Chunk x # wt_inner s'"
    using write_timeout_step [of c s "ReadyOk x" s'] by simp
  show "write_timeout_poll c s = (r, s') \<Longrightarrow> \<forall>x. r \<noteq> ReadyOk x \<Longrightarrow>
      wt_inner s' = wt_inner s \<or> (\<exists>ev. wt_inner s = ev # wt_inner s' \<and> \<not> is_chunk ev) \<or> wt_timed_out s'"
    using write_timeout_step [of c s r s'] by (cases r) auto
  show "write_timeout_poll c s = (r, s') \<Longrightarrow> wt_timed_out s \<Longrightarrow> wt_timed_out s'"
    by (simp add: write_timeout_poll_def)
qed

lemma nr_reset_simps [simp]:
  "nr_inner (nr_reset now s) = nr_inner s" "nr_done (nr_reset now s) = nr_done s"
  "nr_write_timeout (nr_reset now s) = nr_write_timeout s"
  by (simp_all add: nr_reset_def split: option.splits)

lemma native_request_step:
  assumes "native_request_poll now s = (r, s')"
  shows "case r of
      ReadyOk c \<Rightarrow> \<not> nr_done s \<and> nr_inner s = Chunk c # nr_inner s'
    | _ \<Rightarrow> nr_inner s' = nr_inner s \<or> (\<exists>ev. nr_inner s = ev # nr_inner s' \<and> \<not> is_chunk ev) \<or> nr_done s'"
proof -
  obtain x evs where x: "poll_source (nr_inner s) = (x, evs)" by (cases "poll_source (nr_inner s)")
  from x show ?thesis using assms x
    by (cases rule: poll_source_cases) (auto simp: native_request_poll_def Let_def split: if_splits option.splits)
qed

interpretation native_request: adapter native_request_poll nr_inner nr_done
proof
  fix c and s s' :: "'a native_request_body" and x r
  show "native_request_poll c s = (ReadyOk x, s') \<Longrightarrow> \<not> nr_done s \<and> nr_inner s = Chunk x # nr_inner s'"
    using native_request_step [of c s "ReadyOk x" s'] by simp
  show "native_request_poll c s = (r, s') \<Longrightarrow> \<forall>x. r \<noteq> ReadyOk x \<Longrightarrow>
      nr_inner s' = nr_inner s \<or> (\<exists>ev. nr_inner s = ev # nr_inner s' \<and> \<not> is_chunk ev) \<or> nr_done s'"
    using native_request_step [of c s r s'] by (cases r) auto
  show "native_request_poll c s = (r, s') \<Longrightarrow> nr_done s \<Longrightarrow> nr_done s'"
    by (simp add: native_request_poll_def)
qed

definition nb_done :: "('a, 'l) native_response_body \<Rightarrow> bool" where
  "nb_done s = bt_timed_out (nb_timers s)"

interpretation native_response: adapter native_response_poll "\<lambda>s. bt_inner (nb_timers s)" nb_done
proof
  fix c and s s' :: "('a, 'l) native_response_body" and x r
  obtain r' t where t: "body_timeout_poll c (nb_timers s) = (r', t)" by (cases "body_timeout_poll c (nb_timers s)")
  note step = body_timeout_step [OF t]
  show "native_response_poll c s = (ReadyOk x, s') \<Longrightarrow>
      \<not> nb_done s \<and> bt_inner (nb_timers s) = Chunk x # bt_inner (nb_timers s')"
    using t step by (cases r') (auto simp: native_response_poll_def nb_done_def split: if_splits)
  show "native_response_poll c s = (r, s') \<Longrightarrow> \<forall>x. r \<noteq> ReadyOk x \<Longrightarrow>
      bt_inner (nb_timers s') = bt_inner (nb_timers s) \<or>
      (\<exists>ev. bt_inner (nb_timers s) = ev # bt_inner (nb_timers s') \<and> \<not> is_chunk ev) \<or> nb_done s'"
    using t step by (cases r') (auto simp: native_response_poll_def nb_done_def split: if_splits)
  show "native_response_poll c s = (r, s') \<Longrightarrow> nb_done s \<Longrightarrow> nb_done s'"
    by (simp add: native_response_poll_def nb_done_def)
qed

fun timed_inner :: "'a timed_stream \<Rightarrow> 'a stream_event list" where
  "timed_inner (Untimed evs) = evs" | "timed_inner (Timed s) = bt_inner s"

fun timed_dead :: "'a timed_stream \<Rightarrow> bool" where
  "timed_dead (Untimed evs) = False" | "timed_dead (Timed s) = bt_timed_out s"

lemma timed_step:
  assumes "timed_poll now s = (r, s')"
  shows "case r of
      ReadyOk c \<Rightarrow> \<not> timed_dead s \<and> timed_inner s = Chunk c # timed_inner s'
    | _ \<Rightarrow> timed_inner s' = timed_inner s \<or> (\<exists>ev. timed_inner s = ev # timed_inner s' \<and> \<not> is_chunk ev) \<or> timed_dead s'"
proof (cases s)
  case (Untimed evs)
  obtain x evs' where x: "poll_source evs = (x, evs')" by (cases "poll_source evs")
  from x show ?thesis using assms x Untimed by (cases rule: poll_source_cases) auto
next
  case (Timed b)
  obtain x b' where x: "body_timeout_poll now b = (x, b')" by (cases "body_timeout_poll now b")
  with body_timeout_step [OF x] assms Timed show ?thesis by (cases x) auto
qed

lemma timed_dead_step: "timed_poll now s = (r, s') \<Longrightarrow> timed_dead s \<Longrightarrow> timed_dead s'"
  by (cases s) (auto simp: body_timeout_poll_def)

interpretation leased: adapter leased_poll "\<lambda>s. timed_inner (le_inner s)" "\<lambda>s. timed_dead (le_inner s)"
proof
  fix c and s s' :: "('a, 'l) leased_response_stream" and x r
  obtain r' t where t: "timed_poll c (le_inner s) = (r', t)" by (cases "timed_poll c (le_inner s)")
  note step = timed_step [OF t]
  show "leased_poll c s = (ReadyOk x, s') \<Longrightarrow>
      \<not> timed_dead (le_inner s) \<and> timed_inner (le_inner s) = Chunk x # timed_inner (le_inner s')"
    using t step by (auto simp: leased_poll_def)
  show "leased_poll c s = (r, s') \<Longrightarrow> \<forall>x. r \<noteq> ReadyOk x \<Longrightarrow>
      timed_inner (le_inner s') = timed_inner (le_inner s) \<or>
      (\<exists>ev. timed_inner (le_inner s) = ev # timed_inner (le_inner s') \<and> \<not> is_chunk ev) \<or> timed_dead (le_inner s')"
    using t step by (cases r') (auto simp: leased_poll_def)
  show "leased_poll c s = (r, s') \<Longrightarrow> timed_dead (le_inner s) \<Longrightarrow> timed_dead (le_inner s')"
    using t timed_dead_step [OF t] by (auto simp: leased_poll_def)
qed

subsection \<open>Deadlines over a whole consumption\<close>

text \<open>
  C36: the absolute deadline of a response is never passed by its body: however the body is
  polled, a chunk is handed over only by a poll whose clock, read after the chunk came, is
  before the deadline, a poll reports waiting only before the deadline, and what is handed
  over is an initial part of the chunks of the body, unchanged and in order.
\<close>
theorem total_deadline_holds:
  "list_all (\<lambda>(now, r). case r of ReadyOk _ \<Rightarrow> now 4 < rd_deadline t | Pending \<Rightarrow> now 2 < rd_deadline t | _ \<Rightarrow> True)
     (zip cs (polls body_timeout_poll cs (body_timeout_new evs read (Some t)))) \<and>
   prefix (poll_chunks (polls body_timeout_poll cs (body_timeout_new evs read (Some t)))) (chunks evs)"
proof -
  have "list_all (\<lambda>(now, r). case r of ReadyOk _ \<Rightarrow> now 4 < rd_deadline t | Pending \<Rightarrow> now 2 < rd_deadline t | _ \<Rightarrow> True)
     (zip cs (polls body_timeout_poll cs s))" if "bt_total s = Some t" for s :: "'a body_timeout_stream"
    using that
  proof (induction cs arbitrary: s)
    case (Cons c cs)
    obtain r s' where r: "body_timeout_poll c s = (r, s')" by (cases "body_timeout_poll c s")
    with Cons.IH [of s'] body_timeout_total [OF r] body_timeout_within [OF r Cons.prems] Cons.prems show ?case by simp
  qed simp
  from this [of "body_timeout_new evs read (Some t)"]
    body_timeout.delivered_prefix [of cs "body_timeout_new evs read (Some t)"]
  show ?thesis by (simp add: body_timeout_new_def)
qed

lemma stalled_poll:
  assumes "body_timeout_poll now s = (r, s')" "bt_started s" "\<not> bt_timed_out s"
    "bt_inner s = NotReady # evs" "bt_read s = Some d" "bt_read_deadline s = Some x"
  shows "(\<exists>ph e. r = ReadyErr (Timeout ph e)) \<or>
    r = Pending \<and> now 8 < x \<and> bt_started s' \<and> \<not> bt_timed_out s' \<and> bt_inner s' = evs \<and> bt_read s' = Some d \<and>
      bt_read_deadline s' = Some x"
  using assms
  by (auto simp: body_timeout_poll_def bt_poll_started_def bt_defs timer_fired_def total_timeout_error_def total_expired_def
      split: if_splits option.splits)

lemma stalled_polls:
  assumes "bt_started s" "\<not> bt_timed_out s" "bt_inner s = replicate n NotReady @ evs" "bt_read s = Some d"
    "bt_read_deadline s = Some x" "length cs \<le> n" "c \<in> set cs" "x \<le> c 8"
  shows "\<exists>ph e. ReadyErr (Timeout ph e) \<in> set (polls body_timeout_poll cs s)"
  using assms
proof (induction cs arbitrary: s n)
  case (Cons c0 cs)
  then obtain m where n: "n = Suc m" by (cases n) auto
  obtain r s' where r: "body_timeout_poll c0 s = (r, s')" by (cases "body_timeout_poll c0 s")
  from stalled_poll [OF r Cons.prems(1,2) _ Cons.prems(4,5)] Cons.prems(3) n
  consider ph e where "r = ReadyErr (Timeout ph e)"
    | "r = Pending" "c0 8 < x" "bt_started s'" "\<not> bt_timed_out s'" "bt_inner s' = replicate m NotReady @ evs"
      "bt_read s' = Some d" "bt_read_deadline s' = Some x"
    by auto
  then show ?case
  proof cases
    case 1
    with r show ?thesis by auto
  next
    case 2
    with Cons.prems have "c \<in> set cs" by (auto dest: leD)
    with Cons.IH [of s' m] 2 Cons.prems n r show ?thesis by fastforce
  qed
qed simp

text \<open>
  C37: a stalled response is given up: when the body sends nothing after its first poll and is
  polled again once the read timeout is over, one of the polls reports a timeout, and no chunk
  was handed over.
\<close>
theorem stalled_read_times_out:
  fixes cap :: "response_deadline option"
  assumes "c \<in> set cs" "sleep_until_after (now 1) d \<le> c 8" "length cs < n"
  defines "rs \<equiv> polls body_timeout_poll (now # cs) (body_timeout_new (replicate n NotReady :: byte_stream) (Some d) cap)"
  shows "(\<exists>ph e. ReadyErr (Timeout ph e) \<in> set rs) \<and> poll_chunks rs = []"
proof
  let ?s = "body_timeout_new (replicate n NotReady) (Some d) cap :: string body_timeout_stream"
  obtain m where n: "n = Suc m" using assms(3) by (cases n) auto
  have "chunks (replicate k NotReady :: byte_stream) = []" for k by (induction k) auto
  then show "poll_chunks rs = []"
    using body_timeout.delivered_prefix [of "now # cs" ?s] by (simp add: rs_def body_timeout_new_def)
  show "\<exists>ph e. ReadyErr (Timeout ph e) \<in> set rs"
  proof (cases "total_expired (now 0) ?s")
    case True
    then show ?thesis by (auto simp: rs_def body_timeout_poll_def body_timeout_new_def bt_total_error_def total_expired_def
          total_timeout_error_def split: option.splits)
  next
    case False
    let ?s1 = "bt_start (now 1) ?s"
    have s1: "bt_started ?s1" "\<not> bt_timed_out ?s1" "bt_inner ?s1 = replicate (Suc m) NotReady" "bt_read ?s1 = Some d"
      "bt_read_deadline ?s1 = Some (sleep_until_after (now 1) d)"
      by (simp_all add: bt_start_def body_timeout_new_def n)
    from False have same: "body_timeout_poll now ?s = body_timeout_poll now ?s1"
      by (simp add: body_timeout_poll_def body_timeout_new_def bt_start_def)
    have "polls body_timeout_poll (now # cs) ?s = polls body_timeout_poll (now # cs) ?s1"
      by (simp add: same)
    moreover have "\<exists>ph e. ReadyErr (Timeout ph e) \<in> set (polls body_timeout_poll (now # cs) ?s1)"
      using s1 assms(1,2,3) n by (intro stalled_polls [where n = "Suc m" and evs = "[]" and d = d and c = c]) auto
    ultimately show ?thesis by (simp add: rs_def)
  qed
qed

theorem stalled_read_times_out_witness:
  "\<exists>ph e. ReadyErr (Timeout ph e) \<in> set (polls body_timeout_poll [\<lambda>_. 0, \<lambda>_. 7, \<lambda>_. 12]
     (body_timeout_new (replicate 3 NotReady :: byte_stream) (Some 10) None))"
proof -
  have "sleep_until_after 0 10 \<le> 12" by (simp add: sleep_until_after_def checked_add_time_def time_limit_def nanos_per_sec_def)
  then show ?thesis
    using stalled_read_times_out [of "\<lambda>_. 12" "[\<lambda>_. 7, \<lambda>_. 12]" "\<lambda>_. 0" 10 3 None] by simp
qed

end
