(* ===== verification/Response_Props.thy ===== *)
theory Response_Props
  imports Complex_Main Response_Body Body_Props
begin

text \<open>
  The limits on what a response hands over (\<open>compression.rs\<close>, \<open>body.rs\<close>,
  \<open>pipeline/finalize.rs\<close>), end to end from the finalized response to the chunks its
  reader gives, and the one way around them.
\<close>

subsection \<open>Readers\<close>

fun reader_inner :: "reader \<Rightarrow> byte_stream" where
  "reader_inner (OnceReader evs) = evs"
| "reader_inner (LeasedReader s) = timed_inner (le_inner s)"

fun reader_dead :: "reader \<Rightarrow> bool" where
  "reader_dead (OnceReader evs) = False"
| "reader_dead (LeasedReader s) = timed_dead (le_inner s)"

lemma reader_step:
  assumes "reader_poll c s = (r, s')"
  shows "case r of
      ReadyOk x \<Rightarrow> \<not> reader_dead s \<and> reader_inner s = Chunk x # reader_inner s'
    | _ \<Rightarrow> reader_inner s' = reader_inner s \<or> (\<exists>ev. reader_inner s = ev # reader_inner s' \<and> \<not> is_chunk ev) \<or> reader_dead s'"
proof (cases s)
  case (OnceReader evs)
  obtain x evs' where x: "poll_source evs = (x, evs')" by (cases "poll_source evs")
  from x show ?thesis using assms x OnceReader by (cases rule: poll_source_cases) auto
next
  case (LeasedReader l)
  obtain x l' where x: "leased_poll c l = (x, l')" by (cases "leased_poll c l")
  with leased.gives [of c l _ l'] leased.passes [OF x] assms LeasedReader show ?thesis by (cases x) auto
qed

lemma reader_dead_step: "reader_poll c s = (r, s') \<Longrightarrow> reader_dead s \<Longrightarrow> reader_dead s'"
  using leased.stays_dead [of c "case s of LeasedReader l \<Rightarrow> l | _ \<Rightarrow> undefined"]
  by (cases s; cases "leased_poll c (case s of LeasedReader l \<Rightarrow> l | _ \<Rightarrow> undefined)") auto

interpretation reader: adapter reader_poll reader_inner reader_dead
proof
  fix c s s' x r
  show "reader_poll c s = (ReadyOk x, s') \<Longrightarrow> \<not> reader_dead s \<and> reader_inner s = Chunk x # reader_inner s'"
    using reader_step [of c s "ReadyOk x" s'] by simp
  show "reader_poll c s = (r, s') \<Longrightarrow> \<forall>x. r \<noteq> ReadyOk x \<Longrightarrow>
      reader_inner s' = reader_inner s \<or> (\<exists>ev. reader_inner s = ev # reader_inner s' \<and> \<not> is_chunk ev) \<or> reader_dead s'"
    using reader_step [of c s r s'] by (cases r) auto
  show "reader_poll c s = (r, s') \<Longrightarrow> reader_dead s \<Longrightarrow> reader_dead s'"
    by (rule reader_dead_step)
qed

lemma leased_reader_inner [simp]: "reader_inner (leased_reader evs g) = evs"
  by (cases g) (auto simp: leased_reader_def body_timeout_stream_of_def body_timeout_new_def)

subsection \<open>The two limiting streams\<close>

fun limit_run :: "nat \<Rightarrow> nat \<Rightarrow> byte_stream \<Rightarrow> byte_stream" where
  "limit_run m d [] = []"
| "limit_run m d (Chunk c # evs) =
     (let d' = usize_saturating_add d (length c)
      in if d' > m then [Fail DecodedBodyTooLarge] else Chunk c # limit_run m d' evs)"
| "limit_run m d (ev # evs) = ev # limit_run m d evs"

lemma limited_script:
  "script limited_poll (Suc (length evs))
     \<lparr>lr_inner = evs, lr_max = m, lr_decoded_bytes = d, lr_limit_exceeded = False\<rparr> = limit_run m d evs"
proof (induction evs arbitrary: d)
  case (Cons ev evs)
  have dead: "script limited_poll n s = []" if "lr_limit_exceeded s" for n s
    using that by (cases n) (auto simp: limited_poll_def)
  show ?case using Cons by (cases ev) (simp_all add: limited_poll_def Let_def dead)
qed (simp add: limited_poll_def)

lemma limited_stream_run: "limited_stream m evs = limit_run m 0 evs"
  unfolding limited_stream_def by (rule limited_script)

lemma stream_bytes_simps [simp]:
  "stream_bytes [] = 0" "stream_bytes (Chunk c # evs) = length c + stream_bytes evs"
  "stream_bytes (Fail e # evs) = stream_bytes evs" "stream_bytes (NotReady # evs) = stream_bytes evs"
  by (simp_all add: stream_bytes_def)

lemma saturating_le: "usize_saturating_add a b \<le> m \<Longrightarrow> m < usize_max \<Longrightarrow> usize_saturating_add a b = a + b"
  by (simp add: usize_saturating_add_def)

lemma limit_run_bytes: "m < usize_max \<Longrightarrow> d \<le> m \<Longrightarrow> d + stream_bytes (limit_run m d evs) \<le> m"
proof (induction m d evs rule: limit_run.induct)
  case (2 m d c evs)
  show ?case
  proof (cases "usize_saturating_add d (length c) > m")
    case False
    then have "usize_saturating_add d (length c) = d + length c" using 2(2) by (intro saturating_le [of _ _ m]) auto
    with False 2 show ?thesis by simp
  qed (use 2 in simp)
qed auto

lemma limit_run_id: "d + stream_bytes evs \<le> m \<Longrightarrow> limit_run m d evs = evs"
proof (induction m d evs rule: limit_run.induct)
  case (2 m d c evs)
  then have "usize_saturating_add d (length c) \<le> m" "usize_saturating_add d (length c) + stream_bytes evs \<le> m"
    by (auto simp: usize_saturating_add_def)
  with 2(1) show ?case by (simp add: Let_def)
qed auto

lemma limited_stream_bytes: "m < usize_max \<Longrightarrow> stream_bytes (limited_stream m evs) \<le> m"
  using limit_run_bytes [of m 0 evs] by (simp add: limited_stream_run)

lemma check_limit_size:
  "check_limit R l d count = None \<Longrightarrow> dl_max_decoded_body_size l = Some m \<Longrightarrow> d \<le> m"
  by (simp add: check_limit_def split: if_splits)

lemma limiting_stream_bytes:
  assumes "dl_max_decoded_body_size l = Some m" "m < usize_max"
  shows "d \<le> m \<Longrightarrow> d + stream_bytes (map snd (limiting_stream R l d evs)) \<le> m"
  using assms
proof (induction R l d evs rule: limiting_stream.induct)
  case (2 R l decoded count w c evs)
  show ?case
  proof (cases "check_limit R l (usize_saturating_add decoded (length c)) count")
    case None
    then have "usize_saturating_add decoded (length c) \<le> m" using 2(3) by (rule check_limit_size)
    moreover from this have "usize_saturating_add decoded (length c) = decoded + length c"
      using 2(4) by (rule saturating_le)
    ultimately show ?thesis using 2 None by (simp add: Let_def)
  qed (use 2 in simp)
qed auto

lemma decompress_stream_bytes:
  assumes "decompress_stream L R stream (Some ce) True l = Ok out" "has_codings ce" "trim ce \<noteq> []"
    and l: "dl_max_decoded_body_size l = Some m" "m < usize_max"
  shows "stream_bytes (map snd out) \<le> m"
proof -
  from assms(1-3) l obtain current where "out = limiting_stream R l 0 (map (\<lambda>(w, ev). (w, w, ev)) current)"
    by (auto simp: decompress_stream_def has_codings_def bind_result_Inr dl_is_unlimited_def split: if_splits option.splits)
  with limiting_stream_bytes [OF l, of 0 R] show ?thesis by simp
qed

text \<open>What the reader of a body can hand over at most, when the body is limited to \<open>m\<close>.\<close>

fun holds_at_most :: "nat \<Rightarrow> 'r response_body \<Rightarrow> bool" where
  "holds_at_most m (Buffered b) = (length b \<le> m)"
| "holds_at_most m (Streaming stream g) = (stream_bytes stream \<le> m)"
| "holds_at_most m (EncodedStreaming stream g ce l) =
     (trim ce \<noteq> [] \<and> has_codings ce \<and> (\<exists>k\<le>m. dl_max_decoded_body_size l = Some k))"
| "holds_at_most m BodyConsumed = True"

lemma reader_within:
  assumes "take_stream L R False b = (Ok s, b')" "holds_at_most m b" "m < usize_max"
  shows "delivered (polls reader_poll cs s) \<le> m"
proof -
  have "stream_bytes (reader_inner s) \<le> m"
  proof (cases b)
    case (EncodedStreaming stream g ce l)
    with assms(1) obtain out where out: "decompress_stream L R stream (Some ce) True l = Ok out"
      "s = leased_reader (map snd out) g" by (auto simp: bind_result_Inr)
    from assms(2) EncodedStreaming obtain k where k: "dl_max_decoded_body_size l = Some k" "k \<le> m" by auto
    with decompress_stream_bytes [OF out(1), of k] assms EncodedStreaming out(2) show ?thesis by simp
  qed (use assms in auto)
  with delivered_le [OF reader.adapter_axioms, of cs s] show ?thesis by simp
qed

lemma attach_lease_holds [simp]: "holds_at_most m (attach_lease g b) = holds_at_most m b"
  by (cases b) simp_all

lemma limit_decoded_size_holds:
  assumes "limit_decoded_size m b = Ok b'" "m < usize_max"
    and "\<And>stream g ce l. b = EncodedStreaming stream g ce l \<Longrightarrow> trim ce \<noteq> [] \<and> has_codings ce"
  shows "holds_at_most m b'"
  using assms by (cases b) (auto simp: limited_stream_bytes split: if_splits option.splits)

lemma decoded_body_encoded:
  assumes "decoded_body L R ce l b = Ok (EncodedStreaming stream g v l', applied)" "\<And>s g c l. b \<noteq> EncodedStreaming s g c l"
  shows "ce = Some v \<and> trim v \<noteq> []"
  using assms by (cases b) (auto simp: bind_result_Inr split: option.splits if_splits)

subsection \<open>Finalized responses\<close>

text \<open>The body a transport hands to the finalization.\<close>

definition fresh_body :: "'r response_body \<Rightarrow> bool" where
  "fresh_body b \<longleftrightarrow> (case b of EncodedStreaming _ _ _ _ \<Rightarrow> False | _ \<Rightarrow> True)"

text \<open>The Content-Encoding names a coding that is decoded, or there is nothing to decode.\<close>

definition no_bare_identity :: "string option \<Rightarrow> bool" where
  "no_bare_identity ce \<longleftrightarrow> (case ce of Some v \<Rightarrow> trim v = [] \<or> has_codings v | None \<Rightarrow> True)"

lemma finalize_body_holds:
  assumes "finalize_body H L R enabled (Some m) ratio guard read cap resp = Ok r" "fresh_body (br_body resp)"
    and "m < usize_max"
    and "enabled \<Longrightarrow> no_bare_identity (header_text H (rs_headers resp) ''content-encoding'')"
  shows "holds_at_most m (br_body r)"
proof -
  let ?ce = "header_text H (rs_headers resp) ''content-encoding''"
  let ?l = "\<lparr>dl_max_decoded_body_size = Some m, dl_max_decompression_ratio = ratio\<rparr>"
  from assms(1) obtain r1 b where r1: "(if enabled then apply_decompression H L R resp ?ce ?l else Ok resp) = Ok r1"
    and b: "limit_decoded_size m (br_body r1) = Ok b"
    and r: "r = apply_timeouts_and_lease guard read cap (r1\<lparr>br_body := b\<rparr>)"
    by (auto simp: finalize_body_def bind_result_Inr)
  have "trim ce' \<noteq> [] \<and> has_codings ce'" if e: "br_body r1 = EncodedStreaming stream g ce' l'" for stream g ce' l'
  proof (cases enabled)
    case True
    with r1 obtain applied where "decoded_body L R ?ce ?l (br_body resp) = Ok (br_body r1, applied)"
      by (auto simp: apply_decompression_def bind_result_Inr Let_def split: if_splits)
    moreover have "br_body resp \<noteq> EncodedStreaming s g c l" for s g c l
      using assms(2) by (auto simp: fresh_body_def)
    ultimately have "?ce = Some ce'" "trim ce' \<noteq> []"
      using e decoded_body_encoded [of L R ?ce ?l "br_body resp" stream g ce' l' applied] by auto
    with assms(4) True show ?thesis by (simp add: no_bare_identity_def)
  next
    case False
    with r1 e assms(2) show ?thesis by (simp add: fresh_body_def)
  qed
  with limit_decoded_size_holds [OF b assms(3)] have "holds_at_most m b" by blast
  with r show ?thesis by (simp add: apply_timeouts_and_lease_def Let_def)
qed

text \<open>
  C34: the size limit holds end to end: when a response is finalized with a limit on its decoded
  body, automatic decompression or not, every consumption of its body, however it is polled, hands
  over at most that many bytes, unless decompression is on and the Content-Encoding lists nothing but
  identity.
\<close>
theorem delivered_bytes_limited:
  assumes "finalize_body H L R enabled (Some m) ratio guard read cap resp = Ok r" "fresh_body (br_body resp)"
    and "m < usize_max"
    and "enabled \<Longrightarrow> no_bare_identity (header_text H (rs_headers resp) ''content-encoding'')"
    and "take_stream L R False (br_body r) = (Ok s, b')"
  shows "delivered (polls reader_poll cs s) \<le> m"
  by (rule reader_within [OF assms(5) finalize_body_holds [OF assms(1-4)] assms(3)])

text \<open>A build with all codings, over codecs that store their data as it is.\<close>

definition store_codecs :: codec_lib where
  "store_codecs =
     \<lparr>cl_enabled = (\<lambda>_. True), cl_reads = (\<lambda>_ s. [ReadBytes s]),
      cl_stream = (\<lambda>_ evs. map (\<lambda>(i, ev). (Suc i, case ev of Chunk c \<Rightarrow> Decoded c | Fail _ \<Rightarrow> Broken ''input'' | NotReady \<Rightarrow> Waiting))
                             (enumerate 0 evs)),
      cl_show = (\<lambda>_. ''error'')\<rparr>"

definition rat_ratios :: "rat ratio_lib" where
  "rat_ratios =
     \<lparr>rt_valid = (\<lambda>r. r > 0), rt_exceeds = (\<lambda>d c r. of_nat d / of_nat c > r),
      rt_budget = (\<lambda>c r. min (nat \<lceil>of_nat c * r\<rceil>) usize_max)\<rparr>"

definition body_url :: url where
  "body_url = \<lparr>url_scheme = ''http'', url_username = [], url_password = None, url_host_str = Some ''a'', url_port = None,
     url_port_or_known_default = Some 80, url_path = ''/'', url_query = None, url_fragment = None,
     url_as_str = ''http://a/''\<rparr>"

definition example_response :: "header_list \<Rightarrow> byte_stream \<Rightarrow> (header_list, rat) body_response" where
  "example_response h stream = response_new list_http 200 h body_url (Streaming stream None)"

definition idle_lease :: lease where
  "idle_lease = \<lparr>lc_read_timeout = None, lc_total_deadline = None, lc_permits = 1\<rparr>"

lemma example_response_simps [simp]:
  "br_body (example_response h stream) = Streaming stream None" "rs_headers (example_response h stream) = h"
  by (simp_all add: example_response_def response_new_def)

theorem delivered_bytes_limited_witness:
  "\<exists>r s b'. finalize_body list_http store_codecs rat_ratios False (Some 4) None idle_lease None None
        (example_response [] [Chunk ''abc'', Chunk ''def'']) = Ok r \<and>
     take_stream store_codecs rat_ratios False (br_body r) = (Ok s, b') \<and>
     delivered (polls reader_poll [\<lambda>_. 0, \<lambda>_. 1, \<lambda>_. 2] s) \<le> 4"
proof -
  let ?resp = "example_response [] [Chunk ''abc'', Chunk ''def'']"
  have f: "finalize_body list_http store_codecs rat_ratios False (Some 4) None idle_lease None None ?resp =
      Ok (apply_timeouts_and_lease idle_lease None None
           (?resp\<lparr>br_body := Streaming (limited_stream 4 [Chunk ''abc'', Chunk ''def'']) None\<rparr>))" (is "_ = Ok ?r")
    by (simp add: finalize_body_def bind_result_def)
  obtain s b' where t: "take_stream store_codecs rat_ratios False (br_body ?r) = (Ok s, b')"
    by (simp add: apply_timeouts_and_lease_def Let_def idle_lease_def lease_has_response_state_def)
  have "(4::nat) < usize_max" by (simp add: usize_max_def)
  from delivered_bytes_limited [OF f _ this _ t] f t show ?thesis by (fastforce simp: fresh_body_def)
qed

subsection \<open>Identity lifts the limit\<close>

lemma collect_all:
  "list_all is_chunk evs \<Longrightarrow> length cs = length evs \<Longrightarrow>
     collect (cs @ [c]) (LeasedReader \<lparr>le_inner = Untimed evs, le_lease = g\<rparr>) buf = Some (Ok (buf @ concat (chunks evs)))"
proof (induction evs arbitrary: buf cs)
  case (Cons ev evs)
  then obtain c0 cs' x where "cs = c0 # cs'" "ev = Chunk x" by (cases cs; cases ev) auto
  with Cons show ?case by (simp add: leased_poll_def)
qed (simp add: leased_poll_def)

text \<open>
  C35: a Content-Encoding of identity switches the size limit off: the body of such a response,
  finalized with decompression and with any limit, is handed over whole, whatever its size.
\<close>
theorem identity_lifts_limit:
  assumes "header_text H (rs_headers resp) ''content-encoding'' = Some ''identity''"
    and "br_body resp = Streaming stream None" "list_all is_chunk stream"
  shows "\<exists>r. finalize_body H L R True (Some m) None guard None None resp = Ok r \<and>
     fst (body_bytes L R (replicate (length stream) now @ [now]) (br_body r)) = Some (Ok (concat (chunks stream)))"
proof -
  have i: "trim ''identity'' \<noteq> []" "validate_content_encodings ''identity'' = Ok ()"
    "parse_content_encodings ''identity'' = None" by code_simp+
  let ?l = "\<lparr>dl_max_decoded_body_size = Some m, dl_max_decompression_ratio = None\<rparr>"
  let ?b = "EncodedStreaming stream None ''identity'' ?l"
  let ?g = "guard\<lparr>lc_read_timeout := None, lc_total_deadline := None\<rparr>"
  have "\<exists>r g. finalize_body H L R True (Some m) None guard None None resp = Ok r \<and>
      br_body r = EncodedStreaming stream g ''identity'' ?l \<and> (g = None \<or> g = Some ?g)"
    using assms i by (cases "lease_has_response_state ?g")
      (simp_all add: finalize_body_def apply_decompression_def dl_validate_def bind_result_def has_codings_def
        apply_timeouts_and_lease_def Let_def)
  then obtain r g where r: "finalize_body H L R True (Some m) None guard None None resp = Ok r"
    "br_body r = EncodedStreaming stream g ''identity'' ?l" "g = None \<or> g = Some ?g" by blast
  have "map snd (on_wire stream) = stream"
  proof -
    have "length (counted n evs) = length evs" for n evs by (induction n evs rule: counted.induct) (auto simp: Let_def)
    then show ?thesis by (simp add: on_wire_def)
  qed
  then have "take_stream L R False (br_body r) = (Ok (leased_reader stream g), BodyConsumed)"
    using r(2) i by (simp add: decompress_stream_def dl_validate_def bind_result_def)
  moreover have "leased_reader stream g = LeasedReader \<lparr>le_inner = Untimed stream, le_lease = g\<rparr>"
    using r(3) by (auto simp: leased_reader_def body_timeout_stream_of_def)
  ultimately show ?thesis using r collect_all [OF assms(3), of "replicate (length stream) now" now g "[]"]
    by (simp add: body_bytes_def)
qed

theorem identity_lifts_limit_witness:
  "\<exists>r. finalize_body list_http store_codecs rat_ratios True (Some 1) None idle_lease None None
        (example_response [(''content-encoding'', ''identity'')] [Chunk ''abc'', Chunk ''def'']) = Ok r \<and>
     fst (body_bytes store_codecs rat_ratios (replicate 3 (\<lambda>_. 0)) (br_body r)) = Some (Ok ''abcdef'')"
proof -
  have "header_text list_http [(''content-encoding'', ''identity'')] ''content-encoding'' = Some ''identity''"
  proof -
    have "to_ascii_lowercase ''content-encoding'' = ''content-encoding''" by code_simp
    then show ?thesis by (simp add: header_text_def headers_get_def list_http_def value_to_str_def)
  qed
  from identity_lifts_limit [of list_http "example_response [(''content-encoding'', ''identity'')] [Chunk ''abc'', Chunk ''def'']"
      "[Chunk ''abc'', Chunk ''def'']" store_codecs rat_ratios 1 idle_lease "\<lambda>_. 0"] this
  show ?thesis by (simp add: numeral_3_eq_3)
qed

subsection \<open>The ratio limit\<close>

text \<open>At every chunk: the bytes decoded so far against the bytes taken off the wire by then.\<close>

fun ratio_held :: "'r ratio_lib \<Rightarrow> 'r \<Rightarrow> nat \<Rightarrow> (nat \<times> string stream_event) list \<Rightarrow> bool" where
  "ratio_held R r d [] = True"
| "ratio_held R r d ((w, Chunk c) # evs) =
     (let d' = usize_saturating_add d (length c)
      in (if w = 0 then d' = 0 else \<not> rt_exceeds R d' w r) \<and> ratio_held R r d' evs)"
| "ratio_held R r d ((w, ev) # evs) = ratio_held R r d evs"

lemma limiting_stream_ratio:
  assumes "dl_max_decompression_ratio l = Some r"
  shows "ratio_held R r d (limiting_stream R l d (map (\<lambda>(w, ev). (w, w, ev)) evs))"
  using assms
proof (induction evs arbitrary: d)
  case (Cons wev evs)
  obtain w ev where wev: "wev = (w, ev)" by (cases wev)
  show ?case
  proof (cases ev)
    case (Chunk c)
    then show ?thesis using Cons wev
      by (cases "check_limit R l (usize_saturating_add d (length c)) w")
         (auto simp: Let_def check_limit_def split: if_splits)
  qed (use Cons wev in auto)
qed simp

text \<open>
  The ratio limit holds at every moment: in a stream decompressed under a ratio, the bytes
  handed over up to any chunk never exceed the ratio over the compressed bytes taken from the
  transport by then, whatever the number of stacked codings, and nothing is handed over before
  a compressed byte was taken.
\<close>
lemma decoded_ratio_held:
  assumes "decompress_stream L R stream (Some ce) True l = Ok out" "has_codings ce" "trim ce \<noteq> []"
    and "dl_max_decompression_ratio l = Some r"
  shows "ratio_held R r 0 out"
proof -
  from assms obtain current where "out = limiting_stream R l 0 (map (\<lambda>(w, ev). (w, w, ev)) current)"
    by (auto simp: decompress_stream_def has_codings_def bind_result_Inr dl_is_unlimited_def split: if_splits option.splits)
  with limiting_stream_ratio [OF assms(4)] show ?thesis by simp
qed

end
