(* ===== verification/Decode_Props.thy ===== *)
theory Decode_Props
  imports Response_Props
begin

text \<open>
  The buffered decoder, the codings a client advertises, the framing of deflate
  (\<open>compression.rs\<close>) and the lines of a text body (\<open>response.rs\<close>).
\<close>

subsection \<open>What is advertised is accepted\<close>

text \<open>
  A server that answers with codings the client advertised is understood: the Accept-Encoding
  value, sent back as a Content-Encoding, is valid, names exactly the codings compiled in, in
  order, within the nesting limit, and each has a decoder.
\<close>
lemma advertised_codings_accepted:
  assumes "accept_encoding_value L = Some v"
  shows "validate_content_encodings v = Ok () \<and> parse_content_encodings v = Some (advertised L) \<and>
    length (advertised L) \<le> max_nesting_depth \<and>
    list_all (\<lambda>c. \<forall>evs. \<exists>out. make_decoder L c evs = Ok out) (advertised L)"
proof -
  have "list_all (\<lambda>c. \<forall>evs. \<exists>out. make_decoder L c evs = Ok out) (advertised L)"
    by (simp add: advertised_def list_all_iff make_decoder_def)
  moreover have "length (advertised L) \<le> max_nesting_depth"
    using length_filter_le [of "cl_enabled L" "[Gzip, Deflate, Brotli, Zstd]"]
    by (simp add: advertised_def max_nesting_depth_def)
  moreover have "validate_content_encodings v = Ok () \<and> parse_content_encodings v = Some (advertised L)"
  proof -
    have *: "filter P [Gzip, Deflate, Brotli, Zstd] = cs \<Longrightarrow> cs \<in> set (subseqs [Gzip, Deflate, Brotli, Zstd])" for P cs
      by (auto split: if_splits)
    have "list_all (\<lambda>cs. cs \<noteq> [] \<longrightarrow> validate_content_encodings (join_comma (map coding_str cs)) = Ok () \<and>
        parse_content_encodings (join_comma (map coding_str cs)) = Some cs) (subseqs [Gzip, Deflate, Brotli, Zstd])"
      by code_simp
    from bspec [OF this [unfolded list_all_iff] * [OF refl, of "cl_enabled L"]]
    have "advertised L \<noteq> [] \<longrightarrow> validate_content_encodings (join_comma (map coding_str (advertised L))) = Ok ()
        \<and> parse_content_encodings (join_comma (map coding_str (advertised L))) = Some (advertised L)"
      by (simp only: advertised_def)
    moreover have "advertised L \<noteq> []" "v = join_comma (map coding_str (advertised L))"
      using assms by (auto simp: accept_encoding_value_def advertised_def [symmetric] Let_def split: if_splits)
    ultimately show ?thesis by blast
  qed
  ultimately show ?thesis by blast
qed

subsection \<open>The buffered decoder\<close>

fun read_size :: "read_event \<Rightarrow> nat" where
  "read_size (ReadBytes b) = length b" | "read_size (ReadFail t) = 0"

definition read_sizes :: "read_event list \<Rightarrow> nat" where
  "read_sizes rs = sum_list (map read_size rs)"

lemma sync_read_within: "sync_read_limited rs (Some m) tighter out = Ok r \<Longrightarrow> length out \<le> m \<Longrightarrow> length r \<le> m"
  by (induction rs "Some m" tighter out rule: sync_read_limited.induct) (auto split: if_splits)

lemma sync_read_decided:
  assumes "\<forall>r\<in>set rs. read_size r \<le> c" "length out \<le> m"
  shows "\<exists>k. length out + read_sizes (take k rs) \<le> m + c \<and>
    (k < length rs \<longrightarrow> (\<forall>rest. sync_read_limited (take k rs @ rest) (Some m) tighter out = sync_read_limited rs (Some m) tighter out))"
  using assms
proof (induction rs "Some m" tighter out rule: sync_read_limited.induct)
  case (1 tighter out)
  then show ?case by (auto simp: read_sizes_def)
next
  case (2 t rs tighter out)
  then show ?case by (intro exI [of _ 1]) (simp add: read_sizes_def)
next
  case (3 b rs tighter out)
  show ?case
  proof (cases "b = [] \<or> length (out @ b) > m")
    case True
    with 3 show ?thesis by (intro exI [of _ 1]) (auto simp: read_sizes_def)
  next
    case False
    with 3 obtain k where "length (out @ b) + read_sizes (take k rs) \<le> m + c"
      "k < length rs \<longrightarrow> (\<forall>rest. sync_read_limited (take k rs @ rest) (Some m) tighter (out @ b) =
          sync_read_limited rs (Some m) tighter (out @ b))" by auto
    with False show ?thesis by (intro exI [of _ "Suc k"]) (auto simp: read_sizes_def)
  qed
qed

text \<open>
  Decoding one layer of a buffered body stops early: its outcome is decided by reads of
  the codec that together give at most the output limit and one buffer more, whatever the codec
  would still give, and an output that is returned is within the limit.
\<close>
lemma buffered_layer_bounded:
  assumes "\<forall>r\<in>set rs. read_size r \<le> 8 * 1024"
  shows "(\<exists>k. read_sizes (take k rs) \<le> m + 8 * 1024 \<and>
      (k < length rs \<longrightarrow> (\<forall>rest. sync_read_limited (take k rs @ rest) (Some m) tighter [] = sync_read_limited rs (Some m) tighter []))) \<and>
    (\<forall>out. sync_read_limited rs (Some m) tighter [] = Ok out \<longrightarrow> length out \<le> m)"
  using sync_read_decided [OF assms, of "[]" m tighter] sync_read_within [of rs m tighter "[]"] by auto

lemma decompress_buffered_limits:
  assumes "decompress_buffered L R data ce l = Ok out" "has_codings ce" "data \<noteq> []"
  shows "(\<forall>m. dl_max_decoded_body_size l = Some m \<longrightarrow> length out \<le> m) \<and>
    (\<forall>r. dl_max_decompression_ratio l = Some r \<longrightarrow> \<not> rt_exceeds R (length out) (length data) r)"
  using assms
  by (auto simp: decompress_buffered_def has_codings_def bind_result_Inr Let_def layer_ratio_ok_def
      split: if_splits option.splits)

subsection \<open>A limit error that the deflate fallback hides\<close>

text \<open>
  For deflate, a body over the limit is not reported as one: when the zlib reading of a
  buffered body is refused because it is larger than the size limit, the bytes are read once more
  as raw deflate, and the error returned is that of the raw codec, not the limit error that the
  same body under gzip gives.
\<close>
lemma deflate_limit_error_hidden:
  assumes "cl_enabled L Deflate" "data \<noteq> []"
    and "sync_read_limited (cl_reads L ZlibCodec data) (Some m) False [] = Err DecodedBodyTooLarge"
    and "cl_reads L GzipCodec data = cl_reads L ZlibCodec data"
    and "cl_reads L RawDeflateCodec data = ReadFail t # rs"
  defines "l \<equiv> \<lparr>dl_max_decoded_body_size = Some m, dl_max_decompression_ratio = None\<rparr>"
  shows "decompress_buffered L R data ''deflate'' l = Err (Decompression t) \<and>
    decompress_buffered L R data ''gzip'' l = Err DecodedBodyTooLarge"
proof -
  have "validate_content_encodings ''deflate'' = Ok ()" "parse_content_encodings ''deflate'' = Some [Deflate]"
    "validate_content_encodings ''gzip'' = Ok ()" "parse_content_encodings ''gzip'' = Some [Gzip]" by code_simp+
  with assms show ?thesis
    by (simp add: decompress_buffered_def dl_validate_def bind_result_def max_nesting_depth_def ratio_limit_of_def
        sync_decode_def sync_decode_flate2_def Let_def)
qed

subsection \<open>The framing of deflate depends on the first chunk\<close>

text \<open>
  The framing of a deflate stream depends on how the transport cuts it: a stream that starts
  with a zlib header is decoded as zlib when the header comes in one chunk, and as raw deflate,
  which it is not, when the first chunk holds only its first byte.
\<close>
lemma deflate_framing_depends_on_chunks:
  assumes "is_zlib_header (a # b # s)"
  shows "make_deflate_decoder L [Chunk (a # b # s)] =
      map (\<lambda>(n, ev). (max 1 n, ev)) (run_codec L ZlibCodec [Chunk (a # b # s)]) \<and>
    make_deflate_decoder L [Chunk [a], Chunk (b # s)] =
      map (\<lambda>(n, ev). (max 1 n, ev)) (run_codec L RawDeflateCodec [Chunk [a], Chunk (b # s)])"
  using assms by (simp add: make_deflate_decoder_def)

subsection \<open>Lines\<close>

abbreviation LineFeed :: char where "LineFeed \<equiv> CHR 0x0A"

text \<open>The lines of a text: what stands between line feeds, and a last piece that is not empty.\<close>

definition raw_lines :: "string \<Rightarrow> string list" where
  "raw_lines s = (let ps = split_char LineFeed s in if last ps = [] then butlast ps else ps)"

lemma raw_lines_append: "LineFeed \<notin> set l \<Longrightarrow> raw_lines (l @ LineFeed # r) = l # raw_lines r"
  by (simp add: raw_lines_def split_char_append Let_def)

lemma raw_lines_last: "LineFeed \<notin> set l \<Longrightarrow> raw_lines l = (if l = [] then [] else [l])"
  by (simp add: raw_lines_def split_char_single)

lemma find_char_split:
  assumes "find_char c b = Some pos"
  shows "b = take pos b @ c # drop (Suc pos) b" "c \<notin> set (take pos b)" "pos < length b"
proof -
  from find_char_SomeD [OF assms] have p: "pos < length b" "b ! pos = c" "c \<notin> set (take pos b)" by auto
  then show "c \<notin> set (take pos b)" "pos < length b" by simp_all
  from id_take_nth_drop [OF p(1)] p(2) show "b = take pos b @ c # drop (Suc pos) b" by simp
qed

lemma raw_lines_take:
  assumes "find_char LineFeed b = Some pos"
  shows "raw_lines (b @ t) = take pos b # raw_lines (drop (Suc pos) b @ t)"
proof -
  from find_char_split(1) [OF assms] have "b @ t = take pos b @ LineFeed # (drop (Suc pos) b @ t)"
    by (metis append.assoc append_Cons)
  then have "raw_lines (b @ t) = raw_lines (take pos b @ LineFeed # (drop (Suc pos) b @ t))" by (rule arg_cong)
  also have "... = take pos b # raw_lines (drop (Suc pos) b @ t)"
    by (rule raw_lines_append [OF find_char_split(2) [OF assms]])
  finally show ?thesis .
qed

lemma first_line:
  assumes "LineFeed \<notin> set p" "p \<noteq> []"
  shows "\<exists>l ls. raw_lines (p @ t) = l # ls \<and> length p \<le> length l"
proof (cases "find_char LineFeed t")
  case None
  with assms raw_lines_last [of "p @ t"] show ?thesis by simp
next
  case (Some pos)
  from find_char_split(1) [OF Some] have "p @ t = (p @ take pos t) @ LineFeed # drop (Suc pos) t"
    by (metis append.assoc)
  moreover have "LineFeed \<notin> set (p @ take pos t)" using assms(1) find_char_split(2) [OF Some] by simp
  ultimately have "raw_lines (p @ t) = (p @ take pos t) # raw_lines (drop (Suc pos) t)"
    using raw_lines_append by metis
  then show ?thesis by simp
qed

text \<open>A text whose lines are short enough and well-formed.\<close>

definition good_line :: "string \<Rightarrow> bool" where
  "good_line l \<longleftrightarrow> length l \<le> max_line_length \<and> from_utf8 (strip_cr l) = Ok (strip_cr l)"

definition good_text :: "string \<Rightarrow> bool" where
  "good_text s \<longleftrightarrow> list_all good_line (raw_lines s)"

lemma good_prefix: "good_text (p @ t) \<Longrightarrow> LineFeed \<notin> set p \<Longrightarrow> length p \<le> max_line_length"
  using first_line [of p t] by (cases "p = []") (auto simp: good_text_def good_line_def)

lemma good_chunk:
  assumes "LineFeed \<notin> set b" "good_text (b @ c @ t)"
  shows "length b \<le> max_line_length" "\<not> chunk_overflows b c"
proof -
  show "length b \<le> max_line_length" using good_prefix [OF assms(2,1)] .
  show "\<not> chunk_overflows b c"
  proof (cases "find_char LineFeed c")
    case None
    with assms good_prefix [of "b @ c" t] have "length b + length c \<le> max_line_length" by simp
    then show ?thesis by (simp add: chunk_overflows_def)
  next
    case (Some pos)
    note f = find_char_split [OF Some]
    from f(1) have "b @ c @ t = (b @ take pos c) @ LineFeed # drop (Suc pos) c @ t"
      by (metis append.assoc append_Cons)
    with assms f good_prefix [of "b @ take pos c" "LineFeed # drop (Suc pos) c @ t"]
    have "length b + pos \<le> max_line_length" by simp
    with Some show ?thesis by (simp add: chunk_overflows_def)
  qed
qed

text \<open>What a stream of lines has still to give, and one poll of it.\<close>

definition no_failure :: "byte_stream \<Rightarrow> bool" where
  "no_failure evs \<longleftrightarrow> list_all (\<lambda>ev. case ev of Fail _ \<Rightarrow> False | _ \<Rightarrow> True) evs"

lemma line_result_good: "good_line l \<Longrightarrow> line_result l = ReadyOk (strip_cr l)"
  by (simp add: line_result_def good_line_def)

lemma line_poll_loop_good:
  assumes "no_failure evs" "good_text (b @ concat (chunks evs))" "line_poll_loop evs b = (r, s')"
  defines "rest \<equiv> raw_lines (ln_buffer s' @ concat (chunks (ln_stream s')))"
  shows "no_failure (ln_stream s') \<and> length (ln_stream s') \<le> length evs \<and>
    (case r of
       ReadyOk l \<Rightarrow> (\<exists>x. l = strip_cr x \<and> raw_lines (b @ concat (chunks evs)) = x # rest)
     | Pending \<Rightarrow> length (ln_stream s') < length evs \<and> rest = raw_lines (b @ concat (chunks evs))
     | ReadyNone \<Rightarrow> raw_lines (b @ concat (chunks evs)) = []
     | ReadyErr e \<Rightarrow> False)"
  using assms
proof (induction evs b rule: line_poll_loop.induct)
  case (1 evs b)
  show ?case
  proof (cases "find_char LineFeed b")
    case (Some pos)
    with 1(3,4) have g: "good_line (take pos b)" by (auto simp: good_text_def raw_lines_take)
    then have "\<not> pos > max_line_length" using find_char_split(3) [OF Some] by (simp add: good_line_def)
    with Some g 1(5) have "r = ReadyOk (strip_cr (take pos b))" "s' = \<lparr>ln_stream = evs, ln_buffer = drop (pos + 1) b\<rparr>"
      by (simp_all add: line_poll_loop.simps [of evs b] line_result_good)
    with 1(3) raw_lines_take [OF Some] show ?thesis by (simp add: 1(6))
  next
    case None
    then have lf: "LineFeed \<notin> set b" by simp
    with 1(4) have len: "\<not> length b > max_line_length" using good_prefix by (simp add: not_less)
    show ?thesis
    proof (cases evs)
      case Nil
      with None len 1(4,5) lf show ?thesis
        by (auto simp: line_poll_loop.simps [of "[]" b] raw_lines_last line_result_good good_text_def no_failure_def 1(6)
            split: if_splits simp del: find_char_None)
    next
      case (Cons ev es)
      show ?thesis
      proof (cases ev)
        case (Chunk c)
        have nf: "no_failure es" using 1(3) Cons by (simp add: no_failure_def)
        show ?thesis
        proof (cases "c = []")
          case True
          with None len Cons Chunk 1(4,5)
          have "line_poll_loop es b = (r, s')" "good_text (b @ concat (chunks es))"
            by (simp_all add: line_poll_loop.simps [of "Chunk [] # es" b] del: find_char_None)
          from 1(1) [OF None len Cons Chunk True nf this(2,1) 1(6)] show ?thesis
            using Cons Chunk True by (auto split: poll.splits)
        next
          case False
          have ov: "\<not> chunk_overflows b c" using good_chunk(2) [OF lf, of c] 1(4) Cons Chunk by simp
          with None len Cons Chunk False 1(4,5)
          have "line_poll_loop es (b @ c) = (r, s')" "good_text ((b @ c) @ concat (chunks es))"
            by (simp_all add: line_poll_loop.simps [of "Chunk c # es" b] del: find_char_None)
          from 1(2) [OF None len Cons Chunk False ov nf this(2,1) 1(6)] show ?thesis
            using Cons Chunk by (auto split: poll.splits)
        qed
      next
        case (Fail e)
        with 1(3) Cons show ?thesis by (simp add: no_failure_def)
      next
        case NotReady
        with None len Cons 1(3,5) show ?thesis
          by (auto simp: line_poll_loop.simps [of "NotReady # es" b] no_failure_def 1(6) simp del: find_char_None)
      qed
    qed
  qed
qed

lemma line_poll_none: "line_poll_loop evs b = (ReadyNone, s') \<Longrightarrow> s' = \<lparr>ln_stream = [], ln_buffer = []\<rparr>"
proof (induction evs b rule: line_poll_loop.induct)
  case (1 evs b)
  have "line_result l \<noteq> ReadyNone" for l by (auto simp: line_result_def split: sum.splits)
  with 1(3) 1(1,2) show ?case
    by (subst (asm) line_poll_loop.simps) (auto split: option.splits if_splits list.splits stream_event.splits simp del: find_char_None)
qed

lemma line_polls_empty: "poll_chunks (polls (\<lambda>_. line_poll) cs \<lparr>ln_stream = [], ln_buffer = []\<rparr>) = []"
proof (induction cs)
  case (Cons c cs)
  have "line_poll \<lparr>ln_stream = [], ln_buffer = []\<rparr> = (ReadyNone, \<lparr>ln_stream = [], ln_buffer = []\<rparr>)"
    by (simp add: line_poll_def line_poll_loop.simps [of "[]" "[]"])
  with Cons show ?case by simp
qed simp

lemma line_polls_good:
  assumes "no_failure (ln_stream s)" "good_text (ln_buffer s @ concat (chunks (ln_stream s)))"
    "length (raw_lines (ln_buffer s @ concat (chunks (ln_stream s)))) + length (ln_stream s) \<le> length cs"
  shows "poll_chunks (polls (\<lambda>_. line_poll) cs s) = map strip_cr (raw_lines (ln_buffer s @ concat (chunks (ln_stream s))))"
  using assms
proof (induction cs arbitrary: s)
  case Nil
  have "raw_lines (ln_buffer s @ concat (chunks (ln_stream s))) = []"
    using Nil(3) unfolding list.size le_zero_eq add_is_0 length_0_conv by (rule conjunct1)
  then show ?case by (simp only: polls.simps poll_chunks.simps list.map)
next
  case (Cons c cs)
  let ?T = "\<lambda>s. ln_buffer s @ concat (chunks (ln_stream s))"
  obtain r s' where r: "line_poll s = (r, s')" by (cases "line_poll s")
  note step = line_poll_loop_good [OF Cons.prems(1,2) r [unfolded line_poll_def]]
  show ?case
  proof (cases r)
    case (ReadyOk l)
    with step obtain x where x: "l = strip_cr x" "raw_lines (?T s) = x # raw_lines (?T s')"
      "no_failure (ln_stream s')" "length (ln_stream s') \<le> length (ln_stream s)" by auto
    with Cons.prems have "good_text (?T s')" "length (raw_lines (?T s')) + length (ln_stream s') \<le> length cs"
      by (auto simp: good_text_def)
    with Cons.IH [of s'] x r ReadyOk show ?thesis by simp
  next
    case Pending
    with step have x: "raw_lines (?T s') = raw_lines (?T s)" "no_failure (ln_stream s')"
      "length (ln_stream s') < length (ln_stream s)" by auto
    with Cons.prems have "good_text (?T s')" "length (raw_lines (?T s')) + length (ln_stream s') \<le> length cs"
      by (auto simp: good_text_def)
    with Cons.IH [of s'] x r Pending show ?thesis by simp
  next
    case ReadyNone
    with step have T: "raw_lines (?T s) = []" by auto
    from ReadyNone r have "s' = \<lparr>ln_stream = [], ln_buffer = []\<rparr>"
      using line_poll_none [of "ln_stream s" "ln_buffer s" s'] by (simp add: line_poll_def)
    then have "poll_chunks (polls (\<lambda>_. line_poll) cs s') = []" by (simp add: line_polls_empty)
    with T r ReadyNone show ?thesis by simp
  qed (use step in auto)
qed

text \<open>
  The lines of a text body do not depend on how it was cut into chunks: for a body that
  arrives without failure, whose lines are valid UTF-8 and within the length limit, polling the
  line stream often enough gives exactly the lines of the whole text, each without its line feed
  and carriage return, the last one also when no line feed ends it.
\<close>
lemma lines_independent_of_chunks:
  assumes "no_failure evs" "good_text (concat (chunks evs))"
    and "length (raw_lines (concat (chunks evs))) + length evs \<le> length cs"
  shows "poll_chunks (polls (\<lambda>_. line_poll) cs \<lparr>ln_stream = evs, ln_buffer = []\<rparr>) =
    map strip_cr (raw_lines (concat (chunks evs)))"
  using line_polls_good [of "\<lparr>ln_stream = evs, ln_buffer = []\<rparr>" cs] assms by simp

end
