(* ===== verification/Prepare.thy ===== *)
theory Prepare
  imports Response_Body Pool H3_Dispatch
begin

text \<open>
  The preparation of one request (\<open>pipeline/prepare.rs\<close>, \<open>target_extension_str\<close> of
  \<open>transport_hints.rs\<close>): the checks before anything is acquired, the pool slot under its
  deadline, the headers the program adds, the wire target and the size bound.  The URI
  type of the \<open>http\<close> crate, and the text of a number that does not parse, are arguments;
  acquiring a slot is an argument with the clock readings made around it.
\<close>

subsection \<open>The wire target\<close>

definition utf8_ok :: "string \<Rightarrow> bool" where
  "utf8_ok s \<longleftrightarrow> utf8_error 0 s = None"

definition target_extension_str :: "string \<Rightarrow> string result" where
  "target_extension_str target =
     (if utf8_ok target then Ok target else Err (InvalidUrl ''target extension is not valid UTF-8''))"

definition encoded_nul :: string where "encoded_nul = ''%00''"

definition validate_target :: "string \<Rightarrow> unit result" where
  "validate_target target =
     (if target = [] then Err (RequestBuild ''target extension must not be empty'')
      else if list_ex (\<lambda>b. byte b < 32 \<or> byte b = 127) target
      then Err (RequestBuild ''target extension contains forbidden characters (C0 controls/DEL; includes CR/LF/NUL)'')
      else if list_ex (\<lambda>i. take 3 (drop i target) = encoded_nul) [0..<length target]
      then Err (RequestBuild ''target extension must not contain encoded NUL (%00)'')
      else if list_all (\<lambda>b. b = CHR '' '') target
      then Err (RequestBuild ''target extension must not be whitespace-only'')
      else if hd target = CHR '' '' \<or> last target = CHR '' ''
      then Err (RequestBuild ''target extension must not contain leading or trailing whitespace'')
      else Ok ())"

record 'u uri_lib =
  il_parse :: "string \<Rightarrow> string + 'u"
  il_path_and_query :: "'u \<Rightarrow> string option"
  il_parse_path :: "string \<Rightarrow> string option"
  il_with_path :: "'u \<Rightarrow> string \<Rightarrow> string + 'u"
  il_show :: "'u \<Rightarrow> string"
  il_int_error :: "string \<Rightarrow> string"

definition target_failed :: "string \<Rightarrow> error" where
  "target_failed e = InvalidUrl (''failed to convert target to URI: '' @ e)"

text \<open>The path of the wire target: that of the target read as a URI, or else the target itself.\<close>

definition target_path :: "'u uri_lib \<Rightarrow> string \<Rightarrow> string option" where
  "target_path I target =
     or_else (case il_parse I target of Inr u \<Rightarrow> il_path_and_query I u | Inl _ \<Rightarrow> None) (il_parse_path I target)"

definition apply_target :: "'u uri_lib \<Rightarrow> 'u \<Rightarrow> transport_hints \<Rightarrow> 'u result" where
  "apply_target I u hints =
     (case th_target hints of
        None \<Rightarrow> Ok u
      | Some target \<Rightarrow>
          bind_result (validate_target target) (\<lambda>_.
          bind_result (target_extension_str target) (\<lambda>t.
          bind_result (ok_or (target_path I t) (InvalidUrl ''failed to convert target to URI'')) (\<lambda>pq.
            case il_with_path I u pq of Inl e \<Rightarrow> Err (target_failed e) | Inr r \<Rightarrow> Ok r))))"

definition resolve_request_uri :: "'u uri_lib \<Rightarrow> url \<Rightarrow> transport_hints \<Rightarrow> 'u result" where
  "resolve_request_uri I u hints =
     (case il_parse I (url_as_str u) of
        Inl e \<Rightarrow> Err (InvalidUrl (''failed to convert url to URI: '' @ e))
      | Inr logical \<Rightarrow> apply_target I logical hints)"

definition resolve_native_request_uri :: "'u uri_lib \<Rightarrow> 'u \<Rightarrow> transport_hints \<Rightarrow> 'u result" where
  "resolve_native_request_uri I u hints = apply_target I u hints"

subsection \<open>Content-Length\<close>

fun known_length :: "request_body \<Rightarrow> nat option" where
  "known_length BodyEmpty = Some 0"
| "known_length (BodyBytes b) = Some (length b)"
| "known_length (BodyStream i n) = n"

definition bad_content_length :: "string \<Rightarrow> error" where
  "bad_content_length e = InvalidHeaderValue (''invalid Content-Length: '' @ e)"

definition supplied_length :: "'h http_lib \<Rightarrow> 'u uri_lib \<Rightarrow> 'h \<Rightarrow> nat option result" where
  "supplied_length H I headers =
     (case headers_get H headers ''content-length'' of
        None \<Rightarrow> Ok None
      | Some v \<Rightarrow>
          (case hm_to_str H v of
             Inl e \<Rightarrow> Err (bad_content_length e)
           | Inr s \<Rightarrow> (case parse_u64 s of
                 None \<Rightarrow> Err (bad_content_length (il_int_error I s))
               | Some n \<Rightarrow> Ok (Some n))))"

definition apply_content_length :: "'h http_lib \<Rightarrow> 'u uri_lib \<Rightarrow> 'h \<Rightarrow> request_body \<Rightarrow> 'h result" where
  "apply_content_length H I headers body =
     bind_result (supplied_length H I headers) (\<lambda>supplied.
       case known_length body of
         Some known \<Rightarrow>
           (case supplied of
              Some user \<Rightarrow>
                if user \<noteq> known
                then Err (RequestBuild (''Content-Length mismatch: user supplied '' @ show_nat user @ '' but body is '' @ show_nat known))
                else Ok headers
            | None \<Rightarrow> headers_insert H headers ''content-length'' (show_nat known))
       | None \<Rightarrow>
           if supplied \<noteq> None
           then Err (RequestBuild ''Content-Length cannot be supplied for an unknown-length stream body'')
           else Ok headers)"

subsection \<open>The client the request is sent with\<close>

record 'h client_inner =
  ci_lifecycle_invalid :: bool
  ci_tls_config_error :: "string option"
  ci_automatic_decompression :: bool
  ci_max_decoded_body_size :: "nat option"
  ci_max_decompression_ratio :: "64 word option"
  ci_proxy :: "'h proxy option"
  ci_environment_proxies :: "'h proxy list"
  ci_uds_client :: bool
  ci_uds_configured :: bool
  ci_dialer :: bool
  ci_direct_connector_config :: bool
  ci_http_version_policy :: http_version_policy
  ci_user_agent :: "string option"
  ci_needs_origin_key :: bool

record ('h, 'u) prepared_request =
  pr_method :: string
  pr_url :: url
  pr_uri :: 'u
  pr_headers :: 'h
  pr_body :: request_body
  pr_write_timeout :: "duration option"
  pr_version :: http_version
  pr_transport_hints :: transport_hints
  pr_proxied_target :: "socket_addr list option"
  pr_effective_proxy :: "'h proxy_config option"
  pr_decompression_enabled :: bool
  pr_max_decoded_body_size :: "nat option"
  pr_max_decompression_ratio :: "64 word option"
  pr_timeout :: timeout
  pr_remaining_total :: "duration option"
  pr_deadline :: "instant option"
  pr_failure_context :: "nat option"

definition invalid_lifecycle :: error where
  "invalid_lifecycle = RequestBuild
     ''physical connection policy requires max_live > 0 and admission_timeout only with max_live''"

definition check_pinned_ports :: "('h, 'f) request \<Rightarrow> unit result" where
  "check_pinned_ports r =
     bind_result
       (case th_resolved_target (rq_transport_hints r) of
          Some t \<Rightarrow> validate_url_effective_port ResolvedDestination (rq_url r) t | None \<Rightarrow> Ok ()) (\<lambda>_.
       case rq_proxied_target r of
         Some t \<Rightarrow> validate_url_effective_port ProxiedDestination (rq_url r) t | None \<Rightarrow> Ok ())"

definition check_tls_config :: "'h client_inner \<Rightarrow> url \<Rightarrow> unit result" where
  "check_tls_config C u =
     (case ci_tls_config_error C of
        Some e \<Rightarrow> if url_scheme u = ''https'' then Err (Tls e) else Ok ()
      | None \<Rightarrow> Ok ())"

definition check_proxied_target :: "('h, 'f) request \<Rightarrow> 'h proxy_config option \<Rightarrow> unit result" where
  "check_proxied_target r effective =
     (if rq_proxied_target r = None then Ok ()
      else (case effective of
          None \<Rightarrow> Err (Unsupported ''caller-supplied proxied destinations require proxy routing'')
        | Some p \<Rightarrow>
            if url_scheme (pc_uri p) = ''socks5h''
            then Err (Unsupported ''proxied destinations are incompatible with SOCKS5H remote DNS'')
            else if url_scheme (rq_url r) = ''http'' \<and> \<not> is_socks_scheme (url_scheme (pc_uri p))
            then Err (Unsupported ''proxied destinations are unsupported for plaintext HTTP forward proxies'')
            else Ok ()))"

definition check_resolved_target :: "'h client_inner \<Rightarrow> ('h, 'f) request \<Rightarrow> 'h proxy_config option \<Rightarrow> unit result" where
  "check_resolved_target C r effective =
     (if th_resolved_target (rq_transport_hints r) = None then Ok ()
      else if effective \<noteq> None
      then Err (Unsupported ''caller-supplied resolved destinations require direct routing; disable the proxy explicitly'')
      else if ci_uds_client C
      then Err (Unsupported ''caller-supplied resolved destinations are incompatible with Unix-domain routing'')
      else Ok ())"

definition check_custom_dialing :: "'h client_inner \<Rightarrow> ('h, 'f) request \<Rightarrow> unit result" where
  "check_custom_dialing C r =
     (if \<not> ci_dialer C then Ok ()
      else (case custom_dialing_conflict_of
              \<lparr>cd_has_resolved_target = th_resolved_target (rq_transport_hints r) \<noteq> None,
               cd_has_local_address_or_socket_options = ci_direct_connector_config C,
               cd_has_uds = ci_uds_configured C,
               cd_is_http3_only = (ci_http_version_policy C = Http3Only),
               cd_has_built_in_proxy = None\<rparr> of
          Some c \<Rightarrow> Err (Unsupported (conflict_message c))
        | None \<Rightarrow> Ok ()))"

definition add_accept_encoding :: "'h http_lib \<Rightarrow> codec_lib \<Rightarrow> bool \<Rightarrow> 'h \<Rightarrow> 'h result" where
  "add_accept_encoding H L enabled headers =
     (if enabled \<and> \<not> headers_contains H headers ''accept-encoding''
      then (case accept_encoding_value L of
              Some v \<Rightarrow> headers_insert H headers ''accept-encoding'' v
            | None \<Rightarrow> Ok headers)
      else Ok headers)"

definition pool_origin :: "'h client_inner \<Rightarrow> url \<Rightarrow> 'h proxy_config option \<Rightarrow> origin_key option result" where
  "pool_origin C u effective =
     (if \<not> ci_needs_origin_key C then Ok None
      else (case effective of
          None \<Rightarrow> Ok (key_from_url u)
        | Some p \<Rightarrow>
            bind_result (proxy_port p) (\<lambda>port.
              Ok (key_from_url_with_proxy_scheme u (url_host_str (pc_uri p)) (Some port) (Some (url_scheme (pc_uri p)))
                    (url_scheme u = ''https'')))))"

text \<open>Which deadline covers the wait for a slot: the total one when it is not later.\<close>

definition pool_deadline :: "timeout \<Rightarrow> (duration \<times> timeout_phase) option" where
  "pool_deadline t =
     (case (to_pool t, to_total t) of
        (Some pool, Some tot) \<Rightarrow> if tot \<le> pool then Some (tot, PhaseTotal) else Some (pool, PhasePool)
      | (Some pool, None) \<Rightarrow> Some (pool, PhasePool)
      | (None, Some tot) \<Rightarrow> Some (tot, PhaseTotal)
      | (None, None) \<Rightarrow> None)"

text \<open>
  What comes of the wait: the guard or the failure, and whether a timer of a given
  length fires before it.
\<close>

record 'g acquisition =
  aq_result :: "'g result"
  aq_expires :: "duration \<Rightarrow> bool"

definition acquire_slot :: "readings \<Rightarrow> timeout \<Rightarrow> 'g acquisition \<Rightarrow> 'g result" where
  "acquire_slot now t a =
     (case pool_deadline t of
        Some (d, phase) \<Rightarrow>
          if aq_expires a d then Err (Timeout phase (duration_since (now 1) (now 0))) else aq_result a
      | None \<Rightarrow> aq_result a)"

definition body_write_timeout :: "request_body \<Rightarrow> timeout \<Rightarrow> duration option" where
  "body_write_timeout b t = (case b of BodyStream i n \<Rightarrow> to_write t | _ \<Rightarrow> None)"

definition add_user_agent :: "'h http_lib \<Rightarrow> 'h client_inner \<Rightarrow> 'h \<Rightarrow> 'h result" where
  "add_user_agent H C headers =
     (case ci_user_agent C of
        Some ua \<Rightarrow> if \<not> headers_contains H headers ''user-agent'' then headers_insert H headers ''user-agent'' ua else Ok headers
      | None \<Rightarrow> Ok headers)"

definition known_http2 :: "http_version \<Rightarrow> http_version_policy \<Rightarrow> bool" where
  "known_http2 v p \<longleftrightarrow> v = Http2 \<or> (\<not> enable_http1 p \<and> enable_http2 p)"

definition validate_request_size_uri :: "'h http_lib \<Rightarrow> 'u uri_lib \<Rightarrow> 'h \<Rightarrow> string \<Rightarrow> 'u \<Rightarrow> unit result" where
  "validate_request_size_uri H I headers meth u =
     (if length (il_show I u) > usize_max then Err (RequestBuild ''request target serialization overflowed'')
      else validate_request_size_len H headers meth (length (il_show I u)))"

definition remaining_of :: "readings \<Rightarrow> timeout \<Rightarrow> duration option" where
  "remaining_of now t = map_option (\<lambda>tot. tot - duration_since (now 2) (now 0)) (to_total t)"

text \<open>What follows the slot: the headers that depend on the body, the target, the bound, the deadline.\<close>

definition finish_preparation ::
  "'h http_lib \<Rightarrow> 'u uri_lib \<Rightarrow> url_lib \<Rightarrow> 'h client_inner \<Rightarrow> ('h, 'f) request \<Rightarrow> timeout \<Rightarrow> readings
     \<Rightarrow> 'h \<Rightarrow> 'h proxy_config option \<Rightarrow> bool \<Rightarrow> ('h, 'u) prepared_request result" where
  "finish_preparation H I U C r t now headers effective decompression =
     bind_result (apply_content_length H I headers (rq_body r)) (\<lambda>h1.
     bind_result (add_user_agent H C h1) (\<lambda>h2.
     let h3 = (if known_http2 (rq_version r) (ci_http_version_policy C) then strip_h2_forbidden_headers H h2 else h2)
     in bind_result (resolve_request_uri I (rq_url r) (rq_transport_hints r)) (\<lambda>u.
        bind_result (validate_request_size_uri H I h3 (rq_method r) u) (\<lambda>_.
          if remaining_of now t = Some 0 then Err (Timeout PhaseTotal (duration_since (now 3) (now 0)))
          else Ok
            \<lparr>pr_method = rq_method r, pr_url = rq_url r, pr_uri = u, pr_headers = h3, pr_body = rq_body r,
             pr_write_timeout = body_write_timeout (rq_body r) t, pr_version = rq_version r,
             pr_transport_hints = rq_transport_hints r, pr_proxied_target = rq_proxied_target r,
             pr_effective_proxy = effective, pr_decompression_enabled = decompression,
             pr_max_decoded_body_size = or_else (rq_max_decoded_body_size r) (ci_max_decoded_body_size C),
             pr_max_decompression_ratio = or_else (rq_max_decompression_ratio r) (ci_max_decompression_ratio C),
             pr_timeout = t, pr_remaining_total = remaining_of now t,
             pr_deadline = map_option (saturating_add_instant (now 0)) (to_total t),
             pr_failure_context = rq_failure_context r\<rparr>))))"

definition prepare_single_request ::
  "'h http_lib \<Rightarrow> 'u uri_lib \<Rightarrow> url_lib \<Rightarrow> codec_lib \<Rightarrow> 'h client_inner \<Rightarrow> ('h, 'f) request \<Rightarrow> timeout \<Rightarrow> readings
     \<Rightarrow> (origin_key option \<Rightarrow> 'g acquisition) \<Rightarrow> (('h, 'u) prepared_request \<times> 'g) result" where
  "prepare_single_request H I U L C r t now acquire =
     (let decompression = (case rq_decompress r of Some b \<Rightarrow> b | None \<Rightarrow> ci_automatic_decompression C);
          effective = resolve_proxy U (ci_proxy C) (ci_environment_proxies C) (rq_url r) (rq_proxy_override r)
      in bind_result (if ci_lifecycle_invalid C then Err invalid_lifecycle else Ok ()) (\<lambda>_.
         bind_result (check_pinned_ports r) (\<lambda>_.
         bind_result (check_tls_config C (rq_url r)) (\<lambda>_.
         bind_result (add_accept_encoding H L decompression (rq_headers r)) (\<lambda>headers.
         bind_result (check_proxied_target r effective) (\<lambda>_.
         bind_result (check_resolved_target C r effective) (\<lambda>_.
         bind_result (check_custom_dialing C r) (\<lambda>_.
         bind_result (pool_origin C (rq_url r) effective) (\<lambda>origin.
         bind_result (acquire_slot now t (acquire origin)) (\<lambda>guard.
         bind_result (finish_preparation H I U C r t now headers effective decompression) (\<lambda>p.
           Ok (p, guard))))))))))))"

end
