(* ===== verification/Proxy_Wire.thy ===== *)
theory Proxy_Wire
  imports Prepare Http_Connect Socks
begin

text \<open>
  The HTTP/1.1 exchange with a forward proxy or through a tunnel that the program frames
  itself (\<open>transport/proxy.rs\<close>, \<open>transport/connect.rs\<close>): the request head and its
  body, the bounded reader of the response head, the two streams of the response body, the
  tunnel, and the text kept of a rejected CONNECT.  A connection is a \<open>tcp_stream\<close> of
  \<open>Socks\<close>; what its reads give after the head is a list.
\<close>

subsection \<open>Text\<close>

lemma utf8_error_bound:
  "utf8_error i s = Some (j, r) \<Longrightarrow> i \<le> j \<and> j < i + length s \<and> r \<noteq> Some 0"
proof (induction i s rule: utf8_error.induct)
  case (2 i a s)
  show ?case
  proof (cases "utf8_width a = 1 \<or> utf8_width a = 0 \<or> s = []")
    case True
    with 2(1,5) show ?thesis by (auto split: if_splits)
  next
    case False
    then obtain b s1 where s: "s = b # s1" by (cases s) auto
    show ?thesis
    proof (cases "\<not> utf8_second_ok a b \<or> utf8_width a = 2 \<or> s1 = []")
      case True
      with False s 2(2) [of b s1] 2(5) show ?thesis by (auto split: if_splits)
    next
      case nz: False
      then obtain c s2 where s1: "s1 = c # s2" by (cases s1) auto
      show ?thesis
      proof (cases "\<not> utf8_cont c \<or> utf8_width a = 3 \<or> s2 = []")
        case True
        with False nz s s1 2(3) [of b s1 c s2] 2(5) show ?thesis by (auto split: if_splits)
      next
        case nw: False
        then obtain d s3 where "s2 = d # s3" by (cases s2) auto
        with False nz nw s s1 2(4) [of b s1 c s2 d s3] 2(5) show ?thesis by (auto split: if_splits)
      qed
    qed
  qed
qed simp

definition replacement_char :: string where
  "replacement_char = [CHR 0xEF, CHR 0xBF, CHR 0xBD]"

text \<open>\<open>String::from_utf8_lossy\<close>: one replacement for each maximal bad sequence.\<close>

function utf8_lossy :: "string \<Rightarrow> string" where
  "utf8_lossy s =
     (case utf8_error 0 s of
        None \<Rightarrow> s
      | Some (i, None) \<Rightarrow> take i s @ replacement_char
      | Some (i, Some n) \<Rightarrow> take i s @ replacement_char @ utf8_lossy (drop (i + n) s))"
  by auto

termination
proof (relation "measure length")
  fix s :: string and p i r n
  assume "utf8_error 0 s = Some p" "(i, r) = p" "r = Some n"
  then have "utf8_error 0 s = Some (i, Some n)" by simp
  then show "(drop (i + n) s, s) \<in> measure length" using utf8_error_bound [of 0 s i "Some n"] by auto
qed simp

declare utf8_lossy.simps [simp del]

text \<open>The characters of a valid text, each as its bytes.\<close>

function utf8_chars :: "string \<Rightarrow> string list" where
  "utf8_chars [] = []"
| "utf8_chars (a # s) = (a # takeWhile utf8_cont s) # utf8_chars (dropWhile utf8_cont s)"
  by pat_completeness auto

termination
  by (relation "measure length") (auto simp: less_Suc_eq_le length_dropWhile_le)

definition max_preview_chars :: nat where "max_preview_chars = 200"

definition truncate_preview :: "string \<Rightarrow> string" where
  "truncate_preview bytes =
     (let cs = utf8_chars (utf8_lossy bytes)
      in concat (take max_preview_chars cs) @
         (if length cs > max_preview_chars then [CHR 0xE2, CHR 0x80, CHR 0xA6] else []))"

fun upper_hex :: "nat \<Rightarrow> string" where
  "upper_hex n =
     (let d = n mod 16; c = char_of (if d < 10 then 48 + d else 55 + d)
      in if n < 16 then [c] else upper_hex (n div 16) @ [c])"

declare upper_hex.simps [simp del]

subsection \<open>Writing a request\<close>

definition write_wire :: "string \<Rightarrow> string \<Rightarrow> tcp_stream \<Rightarrow> unit result \<times> tcp_stream" where
  "write_wire data what s =
     (case ts_write_error s (ts_ops s) of
        Some e \<Rightarrow> (Err (ProxyConnect (what @ e)), tick s)
      | None \<Rightarrow> (Ok (), tick (s\<lparr>ts_written := ts_written s @ [data]\<rparr>)))"

definition flush_wire :: "tcp_stream \<Rightarrow> unit result \<times> tcp_stream" where
  "flush_wire s =
     (case ts_write_error s (ts_ops s) of
        Some e \<Rightarrow> (Err (ProxyConnect (''failed to flush: '' @ e)), tick s)
      | None \<Rightarrow> (Ok (), tick s))"

definition is_proxy_auth :: "string \<Rightarrow> bool" where
  "is_proxy_auth n \<longleftrightarrow> eq_ignore_ascii_case n ''proxy-authorization''"

definition push_header_line :: "string \<times> string \<Rightarrow> string" where
  "push_header_line p = header_line_of p @ crlf"

fun version_str :: "http_version \<Rightarrow> string" where
  "version_str Http10 = ''HTTP/1.0''"
| "version_str _ = ''HTTP/1.1''"

definition host_field :: "'h http_lib \<Rightarrow> url_lib \<Rightarrow> 'h \<Rightarrow> string \<Rightarrow> (string \<times> string) list" where
  "host_field H U headers uri =
     (if headers_contains H headers ''host'' then []
      else (case ul_parse U uri of
          Inl _ \<Rightarrow> []
        | Inr parsed \<Rightarrow>
            let host = (case url_host_str parsed of None \<Rightarrow> [] | Some h \<Rightarrow> h)
            in [(''Host'', case url_port parsed of Some p \<Rightarrow> host @ '':'' @ show_nat p | None \<Rightarrow> host)]))"

definition request_fields :: "'h http_lib \<Rightarrow> 'h \<Rightarrow> 'h \<Rightarrow> (string \<times> string) list" where
  "request_fields H headers proxy_headers =
     filter (\<lambda>(n, v). \<not> is_proxy_auth n) (hm_iter H headers) @
     filter (\<lambda>(n, v). \<not> is_proxy_auth n \<and> \<not> headers_contains H headers n) (hm_iter H proxy_headers)"

definition chunked_field :: "'h http_lib \<Rightarrow> 'h \<Rightarrow> 'h \<Rightarrow> bool \<Rightarrow> (string \<times> string) list result" where
  "chunked_field H headers proxy_headers chunked =
     (if \<not> chunked then Ok []
      else (case or_else (headers_get H headers ''transfer-encoding'') (headers_get H proxy_headers ''transfer-encoding'') of
          Some v \<Rightarrow>
            if \<not> eq_ignore_ascii_case v ''chunked''
            then Err (RequestBuild ''unknown-length proxy request bodies require chunked transfer encoding'')
            else Ok []
        | None \<Rightarrow> Ok [(''Transfer-Encoding'', ''chunked'')]))"

fun auth_field :: "url_lib \<Rightarrow> proxy_auth option \<Rightarrow> (string \<times> string) list" where
  "auth_field U None = []"
| "auth_field U (Some a) = [(''Proxy-Authorization'', proxy_auth_header_value U a)]"

definition proxy_request_line :: "string \<Rightarrow> string \<Rightarrow> http_version \<Rightarrow> string" where
  "proxy_request_line meth uri version = meth @ '' '' @ uri @ '' '' @ version_str version"

definition oversized_head :: error where
  "oversized_head = RequestBuild (''request headers exceed maximum size of '' @ show_nat max_request_header_bytes @ '' bytes'')"

definition proxy_request_head ::
  "'h http_lib \<Rightarrow> url_lib \<Rightarrow> string \<Rightarrow> string \<Rightarrow> http_version \<Rightarrow> 'h \<Rightarrow> proxy_auth option \<Rightarrow> 'h \<Rightarrow> bool \<Rightarrow> string result" where
  "proxy_request_head H U meth uri version headers auth proxy_headers chunked =
     bind_result (chunked_field H headers proxy_headers chunked) (\<lambda>te.
       let head = proxy_request_line meth uri version @ crlf @
             concat (map push_header_line (host_field H U headers uri @ request_fields H headers proxy_headers @ te @ auth_field U auth))
             @ crlf
       in if length head > max_request_header_bytes then Err oversized_head else Ok head)"

fun write_chunks :: "(error \<Rightarrow> string) \<Rightarrow> bool \<Rightarrow> byte_stream \<Rightarrow> tcp_stream \<Rightarrow> unit result \<times> tcp_stream" where
  "write_chunks shw chunked [] = sreturn (Ok ())"
| "write_chunks shw chunked (NotReady # evs) = write_chunks shw chunked evs"
| "write_chunks shw chunked (Fail e # evs) = sreturn (Err (Body (shw e)))"
| "write_chunks shw chunked (Chunk c # evs) =
     (if chunked then
        if c = [] then write_chunks shw chunked evs
        else sbind (write_wire (upper_hex (length c) @ crlf) ''failed to write body: '') (\<lambda>_.
             sbind (write_wire c ''failed to write body: '') (\<lambda>_.
             sbind (write_wire crlf ''failed to write body: '') (\<lambda>_. write_chunks shw chunked evs)))
      else sbind (write_wire c ''failed to write body: '') (\<lambda>_. write_chunks shw chunked evs))"

definition last_chunk :: string where "last_chunk = ''0'' @ crlf @ crlf"

fun write_proxy_body ::
  "(error \<Rightarrow> string) \<Rightarrow> (nat \<Rightarrow> byte_stream) \<Rightarrow> request_body \<Rightarrow> bool \<Rightarrow> tcp_stream \<Rightarrow> unit result \<times> tcp_stream" where
  "write_proxy_body shw bodies BodyEmpty chunked = sreturn (Ok ())"
| "write_proxy_body shw bodies (BodyBytes b) chunked = write_wire b ''failed to write body: ''"
| "write_proxy_body shw bodies (BodyStream i n) chunked =
     sbind (write_chunks shw chunked (bodies i)) (\<lambda>_.
       if chunked then write_wire last_chunk ''failed to write body: '' else sreturn (Ok ()))"

fun unknown_length :: "request_body \<Rightarrow> bool" where
  "unknown_length (BodyStream i None) = True"
| "unknown_length _ = False"

definition write_proxy_request ::
  "'h http_lib \<Rightarrow> url_lib \<Rightarrow> (error \<Rightarrow> string) \<Rightarrow> (nat \<Rightarrow> byte_stream) \<Rightarrow> string \<Rightarrow> string \<Rightarrow> http_version \<Rightarrow> 'h
     \<Rightarrow> proxy_auth option \<Rightarrow> 'h \<Rightarrow> request_body \<Rightarrow> tcp_stream \<Rightarrow> unit result \<times> tcp_stream" where
  "write_proxy_request H U shw bodies meth uri version headers auth proxy_headers body =
     (if unknown_length body \<and> version \<noteq> Http11
      then sreturn (Err (RequestBuild ''unknown-length proxy request bodies require HTTP/1.1''))
      else (case proxy_request_head H U meth uri version headers auth proxy_headers (unknown_length body) of
          Inl e \<Rightarrow> sreturn (Err e)
        | Inr head \<Rightarrow>
            sbind (write_wire head ''failed to write request: '') (\<lambda>_.
            sbind (write_proxy_body shw bodies body (unknown_length body)) (\<lambda>_. flush_wire))))"

subsection \<open>Reading a response head\<close>

definition line_end_error :: "peer_end \<Rightarrow> error" where
  "line_end_error e =
     (case e of
        PeerEof \<Rightarrow> MalformedProxyResponse ''proxy closed connection before end of line''
      | PeerError m \<Rightarrow> ProxyConnect (''failed to read proxy response: '' @ m))"

definition long_line :: "nat \<Rightarrow> error" where
  "long_line m = MalformedProxyResponse (''proxy response line exceeded maximum length of '' @ show_nat m @ '' bytes'')"

fun proxy_read_line :: "peer_end \<Rightarrow> nat \<Rightarrow> string \<Rightarrow> string \<Rightarrow> string result \<times> string" where
  "proxy_read_line e max_len buf [] = (Err (line_end_error e), [])"
| "proxy_read_line e max_len buf (b # s) =
     (if b = CHR 0x0A then (Ok (drop_cr buf), s)
      else if length (buf @ [b]) > max_len then (Err (long_line max_len), s)
      else proxy_read_line e max_len (buf @ [b]) s)"

lemma proxy_read_line_shorter:
  "proxy_read_line e m buf s = (Inr line, s') \<Longrightarrow> length s' < length s"
  by (induction e m buf s rule: proxy_read_line.induct) (fastforce split: if_splits)+

definition max_status_line_len :: nat where "max_status_line_len = 4096"
definition max_header_count :: nat where "max_header_count = 100"
definition max_header_line_len :: nat where "max_header_line_len = 8192"
definition max_total_header_bytes :: nat where "max_total_header_bytes = 65536"

definition headers_too_large :: error where
  "headers_too_large = MalformedProxyResponse (''proxy response headers exceeded maximum total size of ''
     @ show_nat max_total_header_bytes @ '' bytes'')"

definition too_many_headers :: error where
  "too_many_headers = MalformedProxyResponse (''proxy response exceeded maximum header count of '' @ show_nat max_header_count)"

definition proxy_header_line :: "string \<Rightarrow> (string \<times> string) result" where
  "proxy_header_line line =
     (case split_once CHR '':'' line of
        None \<Rightarrow> Err (MalformedProxyResponse (''invalid header line: '' @ truncate_preview line))
      | Some (n, v) \<Rightarrow>
          if \<not> utf8_ok (trim_ows n) then Err (MalformedProxyResponse ''proxy response header name is not ASCII'')
          else Ok (trim_ows n, trim_ows v))"

function proxy_read_headers ::
  "peer_end \<Rightarrow> (string \<times> string) list \<Rightarrow> nat \<Rightarrow> string \<Rightarrow> (string \<times> string) list result \<times> string" where
  "proxy_read_headers e hs total_bytes s =
     (case proxy_read_line e max_header_line_len [] s of
        (Inl err, s') \<Rightarrow> (Err err, s')
      | (Inr line, s') \<Rightarrow>
          if line = [] then (Ok hs, s')
          else (case checked_add total_bytes (length line) of
              None \<Rightarrow> (Err headers_too_large, s')
            | Some t \<Rightarrow>
                if t > max_total_header_bytes then (Err headers_too_large, s')
                else if length hs \<ge> max_header_count then (Err too_many_headers, s')
                else (case proxy_header_line line of
                    Inl err \<Rightarrow> (Err err, s')
                  | Inr h \<Rightarrow> proxy_read_headers e (hs @ [h]) t s')))"
  by auto

termination
  by (relation "measure (\<lambda>(e, hs, t, s). length s)") (auto dest: proxy_read_line_shorter [OF sym])

declare proxy_read_headers.simps [simp del]

record proxy_response_head =
  ph_status :: nat
  ph_headers :: "(string \<times> string) list"
  ph_reason_phrase :: "string option"

text \<open>\<open>splitn(3, ' ')\<close>: the version, the status and the rest of the line.\<close>

definition parse_proxy_status :: "string \<Rightarrow> (nat \<times> string option) result" where
  "parse_proxy_status line =
     (let bad = MalformedProxyResponse (''invalid status line: '' @ truncate_preview line);
          status = (\<lambda>s. if utf8_ok s then parse_u16 s else None)
      in (case split_once CHR '' '' line of
            None \<Rightarrow> Err bad
          | Some (_, rest) \<Rightarrow>
              (case split_once CHR '' '' rest of
                 None \<Rightarrow> bind_result (ok_or (status rest) bad) (\<lambda>n. Ok (n, None))
               | Some (code, phrase) \<Rightarrow>
                   bind_result (ok_or (status code) bad) (\<lambda>n. Ok (n, Some (utf8_lossy phrase))))))"

definition read_proxy_response :: "peer_end \<Rightarrow> string \<Rightarrow> proxy_response_head result \<times> string" where
  "read_proxy_response e s =
     (case proxy_read_line e max_status_line_len [] s of
        (Inl err, s1) \<Rightarrow> (Err err, s1)
      | (Inr line, s1) \<Rightarrow>
          if line = [] then (Err (MalformedProxyResponse ''proxy closed connection before response''), s1)
          else (case parse_proxy_status line of
              Inl err \<Rightarrow> (Err err, s1)
            | Inr (status, reason) \<Rightarrow>
                (case proxy_read_headers e [] 0 s1 of
                   (Inl err, s2) \<Rightarrow> (Err err, s2)
                 | (Inr hs, s2) \<Rightarrow>
                     (Ok \<lparr>ph_status = status, ph_headers = hs, ph_reason_phrase = reason\<rparr>, s2))))"

subsection \<open>The length of a response body\<close>

definition names_chunked :: "string \<Rightarrow> bool" where
  "names_chunked v \<longleftrightarrow>
     list_ex (\<lambda>t. eq_ignore_ascii_case (trim t) ''chunked'') (split_char CHR '','' (if utf8_ok v then v else []))"

fun declared_length :: "(string \<times> string) list \<Rightarrow> nat option \<Rightarrow> bool \<Rightarrow> nat option" where
  "declared_length [] content_length chunked = (if chunked then None else content_length)"
| "declared_length ((n, v) # hs) content_length chunked =
     (let chunked' = (chunked \<or> eq_ignore_ascii_case n ''transfer-encoding'' \<and> names_chunked v)
      in if eq_ignore_ascii_case n ''content-length'' then
           if \<not> utf8_ok v then None
           else (case (content_length, parse_u64 (trim v)) of
               (None, parsed) \<Rightarrow> declared_length hs parsed chunked'
             | (Some existing, Some current) \<Rightarrow>
                 if existing = current then declared_length hs content_length chunked' else None
             | (Some existing, None) \<Rightarrow> None)
         else declared_length hs content_length chunked')"

definition proxy_content_length :: "(string \<times> string) list \<Rightarrow> nat option" where
  "proxy_content_length hs = declared_length hs None False"

subsection \<open>The streams of a response body\<close>

datatype raw_read = RawBytes string | RawPending | RawError io_error_kind string

record proxy_response_stream =
  ps_initial_buf :: string
  ps_inner :: "raw_read list"
  ps_expected_len :: "nat option"
  ps_delivered :: nat

definition response_stream_new :: "string \<Rightarrow> raw_read list \<Rightarrow> nat option \<Rightarrow> proxy_response_stream" where
  "response_stream_new initial reads expected =
     \<lparr>ps_initial_buf = initial, ps_inner = reads, ps_expected_len = expected, ps_delivered = 0\<rparr>"

definition body_is_complete :: "proxy_response_stream \<Rightarrow> bool" where
  "body_is_complete s \<longleftrightarrow> (case ps_expected_len s of Some n \<Rightarrow> ps_delivered s \<ge> n | None \<Rightarrow> False)"

definition chunk_capacity :: nat where "chunk_capacity = 8192"

text \<open>The two streams differ in the error for a truncated body.  \<open>u64\<close> and \<open>usize\<close> saturate alike.\<close>

definition response_stream_poll ::
  "(string \<Rightarrow> error) \<Rightarrow> proxy_response_stream \<Rightarrow> string poll \<times> proxy_response_stream" where
  "response_stream_poll truncated s =
     (if ps_initial_buf s \<noteq> [] then
        let n = min chunk_capacity (length (ps_initial_buf s))
        in (ReadyOk (take n (ps_initial_buf s)),
            s\<lparr>ps_initial_buf := drop n (ps_initial_buf s), ps_delivered := usize_saturating_add (ps_delivered s) n\<rparr>)
      else (case ps_inner s of
          [] \<Rightarrow> (ReadyNone, s)
        | RawBytes b # reads \<Rightarrow>
            if b \<noteq> [] then (ReadyOk b, s\<lparr>ps_inner := reads, ps_delivered := usize_saturating_add (ps_delivered s) (length b)\<rparr>)
            else (ReadyNone, s\<lparr>ps_inner := reads\<rparr>)
        | RawPending # reads \<Rightarrow> (Pending, s\<lparr>ps_inner := reads\<rparr>)
        | RawError k m # reads \<Rightarrow>
            (if k = IoUnexpectedEof
             then if ps_expected_len s \<noteq> None \<and> \<not> body_is_complete s
                  then ReadyErr (truncated (''proxy closed connection unexpectedly: '' @ m))
                  else ReadyNone
             else ReadyErr (Body (''proxy stream read error: '' @ m)),
             s\<lparr>ps_inner := reads\<rparr>)))"

definition proxy_stream_poll :: "proxy_response_stream \<Rightarrow> string poll \<times> proxy_response_stream" where
  "proxy_stream_poll = response_stream_poll MalformedProxyResponse"

definition tls_stream_poll :: "proxy_response_stream \<Rightarrow> string poll \<times> proxy_response_stream" where
  "tls_stream_poll = response_stream_poll Body"

subsection \<open>The tunnel\<close>

record proxy_tunnel =
  tn_initial_buf :: string
  tn_inner :: "raw_read list"

text \<open>One read with room for \<open>space\<close> bytes; the end of the stream is a read of nothing.\<close>

definition tunnel_read :: "nat \<Rightarrow> proxy_tunnel \<Rightarrow> raw_read \<times> proxy_tunnel" where
  "tunnel_read space t =
     (if tn_initial_buf t \<noteq> [] then
        let n = min (length (tn_initial_buf t)) space
        in (RawBytes (take n (tn_initial_buf t)), t\<lparr>tn_initial_buf := drop n (tn_initial_buf t)\<rparr>)
      else (case tn_inner t of
          [] \<Rightarrow> (RawBytes [], t)
        | r # reads \<Rightarrow> (r, t\<lparr>tn_inner := reads\<rparr>)))"

subsection \<open>The text of a rejection\<close>

definition max_proxy_rejection_body_chars :: nat where "max_proxy_rejection_body_chars = 256"

definition escape_char :: string where "escape_char = [CHR 0x1B]"

fun csi_final :: "string \<Rightarrow> bool" where
  "csi_final [b] \<longleftrightarrow> 64 \<le> byte b \<and> byte b \<le> 126"
| "csi_final _ \<longleftrightarrow> False"

fun skip_csi :: "string list \<Rightarrow> string list" where
  "skip_csi [] = []"
| "skip_csi (c # cs) = (if csi_final c then cs else skip_csi cs)"

fun char_is_control :: "string \<Rightarrow> bool" where
  "char_is_control [b] \<longleftrightarrow> byte b < 32 \<or> byte b = 127"
| "char_is_control [a, b] \<longleftrightarrow> byte a = 194 \<and> byte b < 160"
| "char_is_control _ \<longleftrightarrow> False"

lemma length_skip_csi: "length (skip_csi cs) \<le> length cs"
  by (induction cs) auto

function sanitize_chars :: "nat \<Rightarrow> string list \<Rightarrow> string list" where
  "sanitize_chars n [] = []"
| "sanitize_chars n (c # cs) =
     (if c = escape_char then
        (case cs of
           d # ds \<Rightarrow> if d = ''['' then sanitize_chars n (skip_csi ds) else sanitize_chars n cs
         | [] \<Rightarrow> [])
      else if char_is_control c then sanitize_chars n cs
      else if n + 1 \<ge> max_proxy_rejection_body_chars then [c]
      else c # sanitize_chars (n + 1) cs)"
  by pat_completeness auto

termination
  by (relation "measure (\<lambda>(n, cs). length cs)") (auto simp: less_Suc_eq_le le_SucI length_skip_csi)

definition ascii_alphanumeric :: "char \<Rightarrow> bool" where
  "ascii_alphanumeric c \<longleftrightarrow>
     (48 \<le> byte c \<and> byte c \<le> 57) \<or> (65 \<le> byte c \<and> byte c \<le> 90) \<or> (97 \<le> byte c \<and> byte c \<le> 122)"

definition contains_token :: "string \<Rightarrow> string \<Rightarrow> bool" where
  "contains_token hay ndl \<longleftrightarrow> ndl \<noteq> [] \<and> length ndl \<le> length hay \<and>
     list_ex (\<lambda>i. take (length ndl) (drop i hay) = ndl \<and> (i = 0 \<or> \<not> ascii_alphanumeric (hay ! (i - 1))))
       [0..<length hay - length ndl + 1]"

definition credential_words :: "string list" where
  "credential_words = [''proxy-authorization'', ''authorization'', ''api_key'', ''apikey'', ''password'', ''passwd'',
     ''secret'', ''bearer '']"

definition redacted_rejection :: string where "redacted_rejection = ''[redacted proxy error]''"

definition rejection_source :: "(string \<times> string) list \<Rightarrow> string \<Rightarrow> string" where
  "rejection_source headers initial_buf =
     (case List.find (\<lambda>(n, v). eq_ignore_ascii_case n ''x-error-message'' \<or> eq_ignore_ascii_case n ''x-proxy-error'') headers of
        None \<Rightarrow> utf8_lossy initial_buf
      | Some (n, v) \<Rightarrow> utf8_lossy v)"

definition proxy_rejection_body :: "(string \<times> string) list \<Rightarrow> string \<Rightarrow> string" where
  "proxy_rejection_body headers initial_buf =
     (let sanitized = concat (sanitize_chars 0 (utf8_chars (rejection_source headers initial_buf)))
      in if list_ex (contains_token (to_ascii_lowercase sanitized)) credential_words then redacted_rejection
         else sanitized)"

end
