(* ===== verification/Proxy_Transport.thy ===== *)
theory Proxy_Transport
  imports Proxy_Wire
begin

text \<open>
  Requests through a proxy (\<open>transport/proxy.rs\<close>, \<open>transport/connect.rs\<close>,
  \<open>pipeline/proxy_dispatch.rs\<close>): connecting to the proxy, opening a tunnel, the exchange over
  either, the order in which several destinations are tried, and the choice between
  this code and the pooled clients of hyper.  Name resolution, TCP, TLS and hyper are
  arguments; a timer either fires before its operation is done or does not.
\<close>

subsection \<open>Budgets\<close>

definition phase_budget :: "instant option \<Rightarrow> duration option \<Rightarrow> instant \<Rightarrow> duration option result" where
  "phase_budget deadline configured now =
     bind_result
       (case deadline of
          Some d \<Rightarrow> if d > now then Ok (Some (duration_since d now)) else Err (Timeout PhaseTotal (duration_since now d))
        | None \<Rightarrow> Ok None) (\<lambda>remaining.
     Ok (case (configured, remaining) of
           (Some p, Some t) \<Rightarrow> Some (min p t)
         | (Some p, None) \<Rightarrow> Some p
         | (None, t) \<Rightarrow> t))"

definition timed :: "duration option \<Rightarrow> timeout_phase \<Rightarrow> (tcp_stream \<Rightarrow> 'a result \<times> tcp_stream) \<Rightarrow> tcp_stream \<Rightarrow> 'a result \<times> tcp_stream" where
  "timed budget phase m s =
     (case budget of
        None \<Rightarrow> m s
      | Some d \<Rightarrow> if ts_expires s (ts_ops s) \<noteq> None then (Err (Timeout phase d), tick s) else m s)"

definition timed_phase ::
  "instant option \<Rightarrow> duration option \<Rightarrow> instant \<Rightarrow> timeout_phase \<Rightarrow> (tcp_stream \<Rightarrow> 'a result \<times> tcp_stream) \<Rightarrow> tcp_stream
     \<Rightarrow> 'a result \<times> tcp_stream" where
  "timed_phase deadline configured now phase m s =
     (case phase_budget deadline configured now of
        Inl e \<Rightarrow> (Err e, s)
      | Inr budget \<Rightarrow> timed budget phase m s)"

subsection \<open>The connection to the proxy\<close>

record proxy_net =
  pn_lookup :: "string \<Rightarrow> string + socket_addr list"
  pn_tcp :: "socket_addr \<Rightarrow> string + tcp_stream"
  pn_nodelay_error :: "socket_addr \<Rightarrow> string option"
  pn_connect_expires :: "duration option"
  pn_tls_config :: "tls_config option \<Rightarrow> string + unit"
  pn_server_name :: "string \<Rightarrow> string + string"
  pn_tls :: "string \<Rightarrow> tcp_stream \<Rightarrow> string + tcp_stream"
  pn_tls_expires :: "duration option"
  pn_origin_tls :: "string \<Rightarrow> proxy_tunnel \<Rightarrow> string + tcp_stream"
  pn_origin_tls_expires :: bool
  pn_ahead :: "string \<Rightarrow> nat"
  pn_arrive :: "string \<Rightarrow> peer_end \<Rightarrow> raw_read list"

text \<open>
  \<open>pn_ahead\<close> is how much of the bytes after a head the buffered reader already
  holds, \<open>pn_arrive\<close> how the rest arrives.
\<close>

record proxy_metrics =
  px_attempts :: nat
  px_failures :: nat
  px_tls_attempts :: nat
  px_tls_failures :: nat

definition tls_server_name :: "proxy_net \<Rightarrow> string \<Rightarrow> string result" where
  "tls_server_name N host =
     (let ip_host = (case strip_brackets host of Some i \<Rightarrow> i | None \<Rightarrow> host)
      in if parse_ip_addr ip_host \<noteq> None then Ok ip_host
         else (case pn_server_name N host of Inl e \<Rightarrow> Err (Tls e) | Inr n \<Rightarrow> Ok n))"

definition proxy_address :: "string \<Rightarrow> nat \<Rightarrow> string" where
  "proxy_address host port = host @ '':'' @ show_nat port"

fun dial_proxy :: "proxy_net \<Rightarrow> string \<Rightarrow> socket_addr list \<Rightarrow> string option \<Rightarrow> tcp_stream result" where
  "dial_proxy N peer [] last_error =
     Err (ProxyConnect (''TCP connect to proxy '' @ peer @ '' failed: '' @
       (case last_error of Some e \<Rightarrow> e | None \<Rightarrow> ''no addresses resolved'')))"
| "dial_proxy N peer (a # addrs) last_error =
     (case pn_tcp N a of
        Inl e \<Rightarrow> dial_proxy N peer addrs (Some e)
      | Inr s \<Rightarrow>
          (case pn_nodelay_error N a of
             Some e \<Rightarrow> Err (ProxyConnect (''failed to set nodelay: '' @ e))
           | None \<Rightarrow> Ok s))"

definition proxy_addresses :: "proxy_net \<Rightarrow> 'h proxy_config \<Rightarrow> string \<Rightarrow> socket_addr list result" where
  "proxy_addresses N c peer =
     (case pc_resolved_addresses c of
        Some addrs \<Rightarrow> Ok addrs
      | None \<Rightarrow>
          (case pn_lookup N peer of
             Inl e \<Rightarrow> Err (ProxyConnect (''DNS resolution failed for proxy '' @ peer @ '': '' @ e))
           | Inr addrs \<Rightarrow> Ok addrs))"

definition proxy_tls_handshake ::
  "proxy_net \<Rightarrow> string \<Rightarrow> tls_config option \<Rightarrow> instant option \<Rightarrow> duration option \<Rightarrow> instant \<Rightarrow> tcp_stream \<Rightarrow> proxy_metrics
     \<Rightarrow> tcp_stream result \<times> proxy_metrics" where
  "proxy_tls_handshake N host tls deadline tls_timeout now s m =
     (let m1 = m\<lparr>px_tls_attempts := Suc (px_tls_attempts m)\<rparr>;
          failed = m1\<lparr>px_tls_failures := Suc (px_tls_failures m)\<rparr>
      in case pn_tls_config N tls of
           Inl e \<Rightarrow> (Err (Tls (''failed to build proxy TLS config: '' @ e)), m1)
         | Inr _ \<Rightarrow>
             (case tls_server_name N host of
                Inl e \<Rightarrow> (Err (case e of Tls t \<Rightarrow> Tls (''invalid proxy TLS server name: '' @ t) | _ \<Rightarrow> e), m1)
              | Inr name \<Rightarrow>
                  (case phase_budget deadline tls_timeout now of
                     Inl e \<Rightarrow> (Err e, m1)
                   | Inr budget \<Rightarrow>
                       (case (budget, pn_tls_expires N) of
                          (Some _, Some elapsed) \<Rightarrow> (Err (Timeout PhaseProxyTls elapsed), failed)
                        | _ \<Rightarrow>
                            (case pn_tls N name s of
                               Inl e \<Rightarrow> (Err (Tls (''proxy TLS handshake failed: '' @ e)), failed)
                             | Inr t \<Rightarrow> (Ok t, m1))))))"

definition connect_to_proxy ::
  "proxy_net \<Rightarrow> 'h proxy_config \<Rightarrow> duration option \<Rightarrow> duration option \<Rightarrow> instant option \<Rightarrow> tls_config option \<Rightarrow> readings
     \<Rightarrow> proxy_metrics \<Rightarrow> tcp_stream result \<times> proxy_metrics" where
  "connect_to_proxy N c connect_timeout tls_timeout deadline tls now m =
     (let m1 = m\<lparr>px_attempts := Suc (px_attempts m)\<rparr>; failed = m1\<lparr>px_failures := Suc (px_failures m)\<rparr>
      in case bind_result (ok_or (url_host_str (pc_uri c)) (ProxyConnect ''proxy URI has no host''))
                (\<lambda>host. bind_result (proxy_port c) (\<lambda>port.
                   bind_result (phase_budget deadline connect_timeout (now 0)) (\<lambda>budget. Ok (host, port, budget)))) of
           Inl e \<Rightarrow> (Err e, m1)
         | Inr (host, port, budget) \<Rightarrow>
             (case (budget, pn_connect_expires N) of
                (Some _, Some elapsed) \<Rightarrow> (Err (Timeout PhaseProxyConnect elapsed), failed)
              | _ \<Rightarrow>
                  (case bind_result (proxy_addresses N c (proxy_address host port))
                          (\<lambda>addrs. dial_proxy N (proxy_address host port) addrs None) of
                     Inl e \<Rightarrow> (Err e, failed)
                   | Inr s \<Rightarrow>
                       if url_scheme (pc_uri c) = ''https''
                       then proxy_tls_handshake N host tls deadline tls_timeout (now 1) s m1
                       else (Ok s, m1))))"

subsection \<open>The context of a request\<close>

record proxy_context =
  px_remaining_total :: "duration option"
  px_deadline :: "instant option"
  px_connect_timeout :: "duration option"
  px_proxy_connect_timeout :: "duration option"
  px_proxy_tls_timeout :: "duration option"
  px_write_timeout :: "duration option"
  px_read_timeout :: "duration option"
  px_http_version_policy :: http_version_policy
  px_origin_tls_config :: "tls_config option"
  px_endpoint_tls_config :: "tls_config option"
  px_proxied_target :: "socket_addr list option"
  px_socks_client :: bool
  px_forward_client :: bool
  px_connect_client :: bool

subsection \<open>The tunnel\<close>

text \<open>The \<open>Display\<close> of the errors of \<open>eggfetch-http-connect\<close>.\<close>

fun show_connect_error :: "connect_error \<Rightarrow> string" where
  "show_connect_error InvalidTarget = ''invalid CONNECT target''"
| "show_connect_error InvalidHeader = ''invalid CONNECT header''"
| "show_connect_error InvalidCredentials = ''invalid proxy credentials''"
| "show_connect_error DuplicateAuthorization = ''duplicate proxy-authorization header''"
| "show_connect_error ReservedHeader = ''reserved CONNECT header''"
| "show_connect_error (RequestHeadTooLarge n m) =
     ''CONNECT request head too large: '' @ show_nat n @ '' exceeds maximum '' @ show_nat m"
| "show_connect_error (ConnectIo e) = ''CONNECT transport I/O failed: '' @ e"
| "show_connect_error MalformedStatus = ''malformed CONNECT status line''"
| "show_connect_error MalformedHeader = ''malformed CONNECT header line''"
| "show_connect_error (StatusLineTooLarge m) = ''CONNECT status line exceeds maximum of '' @ show_nat m @ '' bytes''"
| "show_connect_error (HeaderLineTooLarge m) = ''CONNECT header line exceeds maximum of '' @ show_nat m @ '' bytes''"
| "show_connect_error (ResponseHeadTooLarge m) = ''CONNECT response head exceeds maximum of '' @ show_nat m @ '' bytes''"
| "show_connect_error (TooManyHeaders m) = ''too many CONNECT response headers: maximum '' @ show_nat m"
| "show_connect_error ConnectUnexpectedEof = ''unexpected EOF while reading CONNECT response head''"

fun map_connect_error :: "connect_error \<Rightarrow> error" where
  "map_connect_error (RequestHeadTooLarge n m) = oversized_head"
| "map_connect_error (ConnectIo e) = ProxyConnect (''failed to send CONNECT: '' @ e)"
| "map_connect_error _ = RequestBuild ''invalid CONNECT request''"

fun map_connect_response_error :: "connect_error \<Rightarrow> error" where
  "map_connect_response_error (ConnectIo e) = ProxyConnect (''failed to read CONNECT response: '' @ e)"
| "map_connect_response_error other = MalformedProxyResponse (show_connect_error other)"

fun show_ip :: "ip_addr \<Rightarrow> string" where
  "show_ip (V4 w) = show_ipv4 w"
| "show_ip (V6 w) = show_ipv6 w"

definition tunnel_target :: "url \<Rightarrow> socket_addr option \<Rightarrow> connect_target result" where
  "tunnel_target dest proxied =
     bind_result (ok_or (url_host_str dest) (InvalidUrl ''destination URL has no host'')) (\<lambda>host.
     bind_result (ok_or (url_port_or_known_default dest)
        (InvalidUrl (''destination scheme '' @ [CHR 0x27] @ url_scheme dest @ [CHR 0x27] @ '' has no known default port for CONNECT''))) (\<lambda>port.
     case (case proxied of Some (ip, p) \<Rightarrow> connect_target_new (show_ip ip) p | None \<Rightarrow> connect_target_new host port) of
       Inl _ \<Rightarrow> Err (RequestBuild ''invalid CONNECT target'')
     | Inr t \<Rightarrow> Ok t))"

definition tunnel_request :: "'h http_lib \<Rightarrow> url_lib \<Rightarrow> 'h proxy_config \<Rightarrow> connect_target \<Rightarrow> connect_request" where
  "tunnel_request H U c t =
     \<lparr>cr_target = t, cr_proxy_authorization = map_option (proxy_auth_header_value U) (pc_auth c),
      cr_extra_headers = filter (\<lambda>(n, v). \<not> is_proxy_auth n) (hm_iter H (pc_proxy_headers c)),
      cr_max_head_bytes = max_request_header_bytes\<rparr>"

definition stream_end_of :: "peer_end \<Rightarrow> stream_end" where
  "stream_end_of e = (case e of PeerEof \<Rightarrow> AtEof | PeerError m \<Rightarrow> AtError m)"

definition send_connect_head :: "string \<Rightarrow> tcp_stream \<Rightarrow> unit result \<times> tcp_stream" where
  "send_connect_head head = write_wire head ''failed to send CONNECT: ''"

definition read_connect_head :: "tcp_stream \<Rightarrow> connect_head result \<times> tcp_stream" where
  "read_connect_head s =
     (case read_connect_response_head (stream_end_of (ts_end s)) connect_limits_default (ts_input s) of
        (Inl e, rest) \<Rightarrow> (Err (map_connect_response_error e), s\<lparr>ts_input := rest\<rparr>)
      | (Inr h, rest) \<Rightarrow> (Ok h, s\<lparr>ts_input := rest\<rparr>))"

text \<open>The status decides: only 200 opens the tunnel, which starts with what was read ahead.\<close>

definition open_tunnel :: "proxy_net \<Rightarrow> connect_head \<Rightarrow> tcp_stream \<Rightarrow> proxy_tunnel result \<times> tcp_stream" where
  "open_tunnel N h s =
     (let ahead = take (pn_ahead N (ts_input s)) (ts_input s); rest = drop (pn_ahead N (ts_input s)) (ts_input s)
      in if ch_status h \<noteq> 200
         then (Err (ProxyConnectRejected (ch_status h) (proxy_rejection_body (ch_headers h) ahead)), s\<lparr>ts_input := rest\<rparr>)
         else (Ok \<lparr>tn_initial_buf = ahead, tn_inner = pn_arrive N rest (ts_end s)\<rparr>, s))"

definition negotiate_tunnel ::
  "'h http_lib \<Rightarrow> url_lib \<Rightarrow> proxy_net \<Rightarrow> 'h proxy_config \<Rightarrow> proxy_context \<Rightarrow> readings \<Rightarrow> connect_target \<Rightarrow> tcp_stream
     \<Rightarrow> proxy_tunnel result \<times> tcp_stream" where
  "negotiate_tunnel H U N c ctx now t =
     (case encode_connect_request (tunnel_request H U c t) of
        Inl e \<Rightarrow> sreturn (Err (map_connect_error e))
      | Inr head \<Rightarrow>
          sbind (timed_phase (px_deadline ctx) (px_write_timeout ctx) (now 2) PhaseWrite (send_connect_head head)) (\<lambda>_.
          sbind (timed_phase (px_deadline ctx) (px_read_timeout ctx) (now 3) PhaseRead read_connect_head) (\<lambda>h.
            open_tunnel N h)))"

definition origin_handshake ::
  "proxy_net \<Rightarrow> proxy_context \<Rightarrow> readings \<Rightarrow> string \<Rightarrow> proxy_tunnel \<Rightarrow> tcp_stream result" where
  "origin_handshake N ctx now sni t =
     (case pn_tls_config N (px_origin_tls_config ctx) of
        Inl e \<Rightarrow> Err (Tls (''failed to build TLS config for tunnel: '' @ e))
      | Inr _ \<Rightarrow>
          (case tls_server_name N sni of
             Inl e \<Rightarrow> Err (case e of Tls x \<Rightarrow> Tls (''invalid TLS server name: '' @ x) | _ \<Rightarrow> e)
           | Inr name \<Rightarrow>
               bind_result (phase_budget (px_deadline ctx) (px_connect_timeout ctx) (now 4)) (\<lambda>budget.
                 case budget of
                   Some d \<Rightarrow>
                     if pn_origin_tls_expires N then Err (Timeout PhaseConnect d)
                     else (case pn_origin_tls N name t of
                         Inl e \<Rightarrow> Err (Tls (''TLS handshake through tunnel failed: '' @ e)) | Inr s \<Rightarrow> Ok s)
                 | None \<Rightarrow>
                     (case pn_origin_tls N name t of
                        Inl e \<Rightarrow> Err (Tls (''TLS handshake through tunnel failed: '' @ e)) | Inr s \<Rightarrow> Ok s))))"

text \<open>The stream to the origin, the connection to the proxy as it was left, and the counters.\<close>

definition establish_https_tunnel ::
  "'h http_lib \<Rightarrow> url_lib \<Rightarrow> proxy_net \<Rightarrow> url \<Rightarrow> 'h proxy_config \<Rightarrow> transport_hints \<Rightarrow> proxy_context \<Rightarrow> socket_addr option
     \<Rightarrow> readings \<Rightarrow> proxy_metrics \<Rightarrow> tcp_stream result \<times> tcp_stream option \<times> proxy_metrics" where
  "establish_https_tunnel H U N dest c hints ctx proxied now m =
     (case connect_to_proxy N c (px_proxy_connect_timeout ctx) (px_proxy_tls_timeout ctx) (px_deadline ctx)
             (px_endpoint_tls_config ctx) now m of
        (Inl e, m1) \<Rightarrow> (Err e, None, m1)
      | (Inr s, m1) \<Rightarrow>
          (case tunnel_target dest proxied of
             Inl e \<Rightarrow> (Err e, Some s, m1)
           | Inr t \<Rightarrow>
               (case negotiate_tunnel H U N c ctx now t s of
                  (Inl e, s1) \<Rightarrow> (Err e, Some s1, m1)
                | (Inr tunnel, s1) \<Rightarrow>
                    (origin_handshake N ctx now
                       (case th_sni_hostname hints of Some n \<Rightarrow> n | None \<Rightarrow> (case url_host_str dest of Some h \<Rightarrow> h | None \<Rightarrow> []))
                       tunnel, Some s1, m1))))"

end
