(* ===== verification/Proxy_Dispatch.thy ===== *)
theory Proxy_Dispatch
  imports Proxy_Transport
begin

text \<open>
  The dispatch of a request through a proxy (\<open>transport/proxy.rs\<close>,
  \<open>transport/connect.rs\<close>, \<open>pipeline/proxy_dispatch.rs\<close>): the exchange over a connection the
  program frames itself, the destinations of a tunnel in turn, the requests handed to
  the pooled clients of hyper, and the choice among them.  What a pooled client makes
  of a request is an argument.
\<close>

subsection \<open>The exchange\<close>

fun response_header_map :: "'h http_lib \<Rightarrow> (string \<times> string) list \<Rightarrow> 'h \<Rightarrow> 'h result" where
  "response_header_map H [] h = Ok h"
| "response_header_map H ((n, v) # hs) h =
     (case hm_header_name H n of
        Inl e \<Rightarrow> Err (MalformedProxyResponse (''invalid header name: '' @ e))
      | Inr name \<Rightarrow>
          (case hm_header_value H v of
             Inl e \<Rightarrow> Err (MalformedProxyResponse (''invalid header value: '' @ e))
           | Inr val \<Rightarrow> response_header_map H hs (hm_append H h name val)))"

definition status_ok :: "nat \<Rightarrow> bool" where
  "status_ok n \<longleftrightarrow> 100 \<le> n \<and> n < 1000"

definition wire_stream ::
  "proxy_net \<Rightarrow> (proxy_response_stream \<Rightarrow> string poll \<times> proxy_response_stream) \<Rightarrow> (string \<times> string) list \<Rightarrow> string
     \<Rightarrow> peer_end \<Rightarrow> byte_stream" where
  "wire_stream N poll hs rest e =
     (let k = pn_ahead N rest; reads = pn_arrive N (drop k rest) e
      in script poll (Suc (length rest + length reads)) (response_stream_new (take k rest) reads (proxy_content_length hs)))"

definition build_response ::
  "'h http_lib \<Rightarrow> proxy_net \<Rightarrow> (proxy_response_stream \<Rightarrow> string poll \<times> proxy_response_stream) \<Rightarrow> url
     \<Rightarrow> proxy_response_head \<Rightarrow> tcp_stream \<Rightarrow> ('h, 'r) body_response result \<times> tcp_stream" where
  "build_response H N poll dest h s =
     (bind_result (if status_ok (ph_status h) then Ok () else Err (MalformedProxyResponse ''invalid status code: invalid status code''))
        (\<lambda>_. bind_result (response_header_map H (ph_headers h) (hm_empty H)) (\<lambda>hm.
           Ok (response_new H (ph_status h) hm dest
                 (Streaming (wire_stream N poll (ph_headers h) (ts_input s) (ts_end s)) None)))),
      s\<lparr>ts_input := []\<rparr>)"

definition read_response_head :: "tcp_stream \<Rightarrow> proxy_response_head result \<times> tcp_stream" where
  "read_response_head s =
     (case read_proxy_response (ts_end s) (ts_input s) of (r, rest) \<Rightarrow> (r, s\<lparr>ts_input := rest\<rparr>))"

definition wire_exchange ::
  "'h http_lib \<Rightarrow> url_lib \<Rightarrow> (error \<Rightarrow> string) \<Rightarrow> (nat \<Rightarrow> byte_stream) \<Rightarrow> proxy_net \<Rightarrow> proxy_context \<Rightarrow> readings
     \<Rightarrow> (proxy_response_stream \<Rightarrow> string poll \<times> proxy_response_stream) \<Rightarrow> url \<Rightarrow> string \<Rightarrow> string \<Rightarrow> http_version
     \<Rightarrow> 'h \<Rightarrow> proxy_auth option \<Rightarrow> 'h \<Rightarrow> request_body \<Rightarrow> tcp_stream \<Rightarrow> ('h, 'r) body_response result \<times> tcp_stream" where
  "wire_exchange H U shw bodies N ctx now poll dest meth uri version headers auth proxy_headers body =
     sbind (timed_phase (px_deadline ctx) (px_write_timeout ctx) (now 5) PhaseWrite
              (write_proxy_request H U shw bodies meth uri version headers auth proxy_headers body)) (\<lambda>_.
     sbind (timed_phase (px_deadline ctx) (px_read_timeout ctx) (now 6) PhaseRead read_response_head) (\<lambda>h.
       build_response H N poll dest h))"

subsection \<open>Through a tunnel\<close>

definition origin_form :: "url \<Rightarrow> string" where
  "origin_form u = (case url_query u of Some q \<Rightarrow> url_path u @ ''?'' @ q | None \<Rightarrow> url_path u)"

definition tunnel_uri :: "url \<Rightarrow> transport_hints \<Rightarrow> string result" where
  "tunnel_uri dest hints =
     (case th_target hints of
        Some t \<Rightarrow> bind_result (validate_target t) (\<lambda>_. target_extension_str t)
      | None \<Rightarrow> Ok (origin_form dest))"

record ('h, 'r) attempt =
  at_result :: "('h, 'r) body_response result"
  at_proxy :: "tcp_stream option"
  at_origin :: "tcp_stream option"

definition send_https_connect_request_once ::
  "'h http_lib \<Rightarrow> url_lib \<Rightarrow> (error \<Rightarrow> string) \<Rightarrow> (nat \<Rightarrow> byte_stream) \<Rightarrow> proxy_net \<Rightarrow> proxy_context \<Rightarrow> readings \<Rightarrow> url
     \<Rightarrow> string \<Rightarrow> 'h \<Rightarrow> request_body \<Rightarrow> http_version \<Rightarrow> 'h proxy_config \<Rightarrow> transport_hints \<Rightarrow> socket_addr option
     \<Rightarrow> proxy_metrics \<Rightarrow> ('h, 'r) attempt \<times> proxy_metrics" where
  "send_https_connect_request_once H U shw bodies N ctx now dest meth headers body version c hints proxied m =
     (case establish_https_tunnel H U N dest c hints ctx proxied now m of
        (Inl e, ps, m1) \<Rightarrow> (\<lparr>at_result = Err e, at_proxy = ps, at_origin = None\<rparr>, m1)
      | (Inr s, ps, m1) \<Rightarrow>
          (case tunnel_uri dest hints of
             Inl e \<Rightarrow> (\<lparr>at_result = Err e, at_proxy = ps, at_origin = Some s\<rparr>, m1)
           | Inr uri \<Rightarrow>
               (case wire_exchange H U shw bodies N ctx now tls_stream_poll dest meth uri version headers None (hm_empty H) body s of
                  (r, s1) \<Rightarrow> (\<lparr>at_result = r, at_proxy = ps, at_origin = Some s1\<rparr>, m1))))"

fun target_failure_may_retry :: "error \<Rightarrow> bool" where
  "target_failure_may_retry (ProxyConnectRejected status body) \<longleftrightarrow> status = 502 \<or> status = 504"
| "target_failure_may_retry _ \<longleftrightarrow> False"

text \<open>
  The destinations in turn.  Every attempt but the last works on a copy of the body; an
  attempt is \<open>once\<close>, with its number, and the attempts made are kept.
\<close>

fun connect_attempts ::
  "(nat \<Rightarrow> socket_addr option \<Rightarrow> request_body \<Rightarrow> 'm \<Rightarrow> ('h, 'r) attempt \<times> 'm) \<Rightarrow> nat \<Rightarrow> socket_addr option list \<Rightarrow> request_body
     \<Rightarrow> error option \<Rightarrow> 'm \<Rightarrow> ('h, 'r) body_response result \<times> ('h, 'r) attempt list \<times> 'm" where
  "connect_attempts once i [] body last_error m =
     (Err (case last_error of Some e \<Rightarrow> e | None \<Rightarrow> Connect ''no CONNECT targets attempted''), [], m)"
| "connect_attempts once i (t # ts) body last_error m =
     (case (if ts = [] then Ok body else try_clone_for_retry body) of
        Inl e \<Rightarrow> (Err e, [], m)
      | Inr attempt_body \<Rightarrow>
          (case once i t attempt_body m of
             (a, m1) \<Rightarrow>
               (case at_result a of
                  Inr r \<Rightarrow> (Ok r, [a], m1)
                | Inl e \<Rightarrow>
                    if ts \<noteq> [] \<and> target_failure_may_retry e
                    then (case connect_attempts once (Suc i) ts body (Some e) m1 of (r, as, m2) \<Rightarrow> (r, a # as, m2))
                    else (Err e, [a], m1))))"

definition connect_targets :: "proxy_context \<Rightarrow> socket_addr option list" where
  "connect_targets ctx = (case px_proxied_target ctx of Some addrs \<Rightarrow> map Some addrs | None \<Rightarrow> [None])"

subsection \<open>Requests for the pooled clients\<close>

datatype proxy_client = SocksClient | ForwardClient | ConnectClient

record 'u hyper_request =
  hq_method :: string
  hq_uri :: 'u
  hq_version :: http_version
  hq_headers :: "(string \<times> string) list"
  hq_body :: request_body

type_synonym ('u, 'h, 'r) pooled = "proxy_client \<Rightarrow> 'u hyper_request \<Rightarrow> ('h, 'r) body_response result"

text \<open>A forward request: the caller's headers, the configured authorization, the proxy's own headers.\<close>

definition forward_headers :: "'h http_lib \<Rightarrow> url_lib \<Rightarrow> 'h proxy_config \<Rightarrow> 'h \<Rightarrow> (string \<times> string) list" where
  "forward_headers H U c headers =
     hm_iter H headers
     @ (case pc_auth c of Some a \<Rightarrow> [(''proxy-authorization'', proxy_auth_header_value U a)] | None \<Rightarrow> [])
     @ filter (\<lambda>(n, v). \<not> (is_proxy_auth n \<and> pc_auth c \<noteq> None)) (hm_iter H (pc_proxy_headers c))"

definition forward_request ::
  "'h http_lib \<Rightarrow> 'u uri_lib \<Rightarrow> url_lib \<Rightarrow> url \<Rightarrow> string \<Rightarrow> 'h \<Rightarrow> request_body \<Rightarrow> http_version \<Rightarrow> 'h proxy_config
     \<Rightarrow> transport_hints \<Rightarrow> 'u hyper_request result" where
  "forward_request H I U dest meth headers body version c hints =
     bind_result (case th_target hints of Some t \<Rightarrow> target_extension_str t | None \<Rightarrow> Ok (url_as_str dest)) (\<lambda>absolute.
     case il_parse I absolute of
       Inl e \<Rightarrow> Err (RequestBuild (''invalid forward-proxy target: '' @ e))
     | Inr uri \<Rightarrow> Ok \<lparr>hq_method = meth, hq_uri = uri, hq_version = version, hq_headers = forward_headers H U c headers, hq_body = body\<rparr>)"

text \<open>The URI that the pooled tunnel client is asked for.\<close>

definition tunnel_request_uri :: "url \<Rightarrow> string \<Rightarrow> string" where
  "tunnel_request_uri dest target =
     (if starts_with target ''/''
      then url_scheme dest @ ''://'' @ (case url_host_str dest of Some h \<Rightarrow> h | None \<Rightarrow> []) @ target
      else url_as_str dest)"

definition connect_request_of ::
  "'h http_lib \<Rightarrow> 'u uri_lib \<Rightarrow> url \<Rightarrow> string \<Rightarrow> 'h \<Rightarrow> request_body \<Rightarrow> http_version \<Rightarrow> transport_hints \<Rightarrow> 'u hyper_request result" where
  "connect_request_of H I dest meth headers body version hints =
     bind_result (tunnel_uri dest hints) (\<lambda>target.
     case il_parse I (tunnel_request_uri dest target) of
       Inl e \<Rightarrow> Err (RequestBuild (''invalid CONNECT target: '' @ e))
     | Inr uri \<Rightarrow> Ok \<lparr>hq_method = meth, hq_uri = uri, hq_version = version, hq_headers = hm_iter H headers, hq_body = body\<rparr>)"

definition socks_request ::
  "'h http_lib \<Rightarrow> 'u uri_lib \<Rightarrow> url \<Rightarrow> string \<Rightarrow> 'h \<Rightarrow> request_body \<Rightarrow> http_version \<Rightarrow> transport_hints \<Rightarrow> 'u hyper_request result" where
  "socks_request H I dest meth headers body version hints =
     (case th_target hints of
        Some t \<Rightarrow>
          bind_result (validate_target t) (\<lambda>_. bind_result (target_extension_str t) (\<lambda>s.
            case il_parse I s of
              Inl e \<Rightarrow> Err (target_failed e)
            | Inr uri \<Rightarrow> Ok \<lparr>hq_method = meth, hq_uri = uri, hq_version = version, hq_headers = hm_iter H headers, hq_body = body\<rparr>))
      | None \<Rightarrow>
          (case il_parse I (url_as_str dest) of
             Inl e \<Rightarrow> Err (InvalidUrl (''failed to convert url to URI: '' @ e))
           | Inr uri \<Rightarrow> Ok \<lparr>hq_method = meth, hq_uri = uri, hq_version = version, hq_headers = hm_iter H headers, hq_body = body\<rparr>))"

subsection \<open>The three ways\<close>

record ('h, 'r) proxy_outcome =
  po_result :: "('h, 'r) body_response result"
  po_attempts :: "('h, 'r) attempt list"
  po_metrics :: proxy_metrics

definition pooled_outcome :: "('h, 'r) body_response result \<Rightarrow> proxy_metrics \<Rightarrow> ('h, 'r) proxy_outcome" where
  "pooled_outcome r m = \<lparr>po_result = r, po_attempts = [], po_metrics = m\<rparr>"

definition check_forward_target :: "transport_hints \<Rightarrow> unit result" where
  "check_forward_target hints =
     (case th_target hints of
        None \<Rightarrow> Ok ()
      | Some t \<Rightarrow>
          bind_result (validate_target t) (\<lambda>_. bind_result (target_extension_str t) (\<lambda>s.
            if starts_with s ''http://'' \<or> starts_with s ''https://'' then Ok ()
            else Err (RequestBuild ''target extension must be absolute-form (http:// or https://) for forward-proxy requests''))))"

definition forward_uri :: "url \<Rightarrow> transport_hints \<Rightarrow> string result" where
  "forward_uri dest hints = (case th_target hints of Some t \<Rightarrow> target_extension_str t | None \<Rightarrow> Ok (url_as_str dest))"

definition send_http_proxy_request ::
  "'h http_lib \<Rightarrow> 'u uri_lib \<Rightarrow> url_lib \<Rightarrow> (error \<Rightarrow> string) \<Rightarrow> (nat \<Rightarrow> byte_stream) \<Rightarrow> proxy_net \<Rightarrow> ('u, 'h, 'r) pooled
     \<Rightarrow> proxy_context \<Rightarrow> readings \<Rightarrow> url \<Rightarrow> string \<Rightarrow> 'h \<Rightarrow> request_body \<Rightarrow> http_version \<Rightarrow> 'h proxy_config \<Rightarrow> transport_hints
     \<Rightarrow> proxy_metrics \<Rightarrow> ('h, 'r) proxy_outcome" where
  "send_http_proxy_request H I U shw bodies N pool ctx now dest meth headers body version c hints m =
     (if px_http_version_policy ctx = Http2Only
      then pooled_outcome (Err (Unsupported ''HTTP/2-only policy is not supported through an HTTP forward proxy'')) m
      else (case check_forward_target hints of
          Inl e \<Rightarrow> pooled_outcome (Err e) m
        | Inr _ \<Rightarrow>
            if px_forward_client ctx
            then pooled_outcome (bind_result (forward_request H I U dest meth headers body version c hints) (pool ForwardClient)) m
            else (case connect_to_proxy N c (px_proxy_connect_timeout ctx) (px_proxy_tls_timeout ctx) (px_deadline ctx)
                         (px_endpoint_tls_config ctx) now m of
                (Inl e, m1) \<Rightarrow> pooled_outcome (Err e) m1
              | (Inr s, m1) \<Rightarrow>
                  (case forward_uri dest hints of
                     Inl e \<Rightarrow> pooled_outcome (Err e) m1
                   | Inr uri \<Rightarrow>
                       (case wire_exchange H U shw bodies N ctx now proxy_stream_poll dest meth uri version headers (pc_auth c)
                               (pc_proxy_headers c) body s of
                          (r, s1) \<Rightarrow>
                            \<lparr>po_result = r, po_attempts = [\<lparr>at_result = r, at_proxy = Some s1, at_origin = None\<rparr>],
                             po_metrics = m1\<rparr>)))))"

definition send_https_connect_request ::
  "'h http_lib \<Rightarrow> 'u uri_lib \<Rightarrow> url_lib \<Rightarrow> (error \<Rightarrow> string) \<Rightarrow> (nat \<Rightarrow> byte_stream) \<Rightarrow> (nat \<Rightarrow> proxy_net)
     \<Rightarrow> ('u, 'h, 'r) pooled \<Rightarrow> proxy_context \<Rightarrow> (nat \<Rightarrow> readings) \<Rightarrow> url \<Rightarrow> string \<Rightarrow> 'h \<Rightarrow> request_body \<Rightarrow> http_version
     \<Rightarrow> 'h proxy_config \<Rightarrow> transport_hints \<Rightarrow> proxy_metrics \<Rightarrow> ('h, 'r) proxy_outcome" where
  "send_https_connect_request H I U shw bodies N pool ctx now dest meth headers body version c hints m =
     (if px_connect_client ctx
      then pooled_outcome (bind_result (connect_request_of H I dest meth headers body version hints) (pool ConnectClient)) m
      else (case connect_attempts
                   (\<lambda>i t b. send_https_connect_request_once H U shw bodies (N i) ctx (now i) dest meth headers b version c hints t)
                   0 (connect_targets ctx) body None m of
          (r, as, m1) \<Rightarrow> \<lparr>po_result = r, po_attempts = as, po_metrics = m1\<rparr>))"

definition send_socks_request ::
  "'h http_lib \<Rightarrow> 'u uri_lib \<Rightarrow> ('u, 'h, 'r) pooled \<Rightarrow> proxy_context \<Rightarrow> url \<Rightarrow> string \<Rightarrow> 'h \<Rightarrow> request_body \<Rightarrow> http_version
     \<Rightarrow> transport_hints \<Rightarrow> ('h, 'r) body_response result" where
  "send_socks_request H I pool ctx dest meth headers body version hints =
     (if \<not> px_socks_client ctx then Err (ProxyConnect ''persistent SOCKS client was not initialized'')
      else bind_result (socks_request H I dest meth headers body version hints) (pool SocksClient))"

definition send_proxy_request ::
  "'h http_lib \<Rightarrow> 'u uri_lib \<Rightarrow> url_lib \<Rightarrow> (error \<Rightarrow> string) \<Rightarrow> (nat \<Rightarrow> byte_stream) \<Rightarrow> (nat \<Rightarrow> proxy_net)
     \<Rightarrow> ('u, 'h, 'r) pooled \<Rightarrow> proxy_context \<Rightarrow> (nat \<Rightarrow> readings) \<Rightarrow> url \<Rightarrow> string \<Rightarrow> 'h \<Rightarrow> request_body \<Rightarrow> http_version
     \<Rightarrow> 'h proxy_config \<Rightarrow> transport_hints \<Rightarrow> proxy_metrics \<Rightarrow> ('h, 'r) proxy_outcome" where
  "send_proxy_request H I U shw bodies N pool ctx now dest meth headers body version c hints m =
     (if is_socks_scheme (url_scheme (pc_uri c))
      then pooled_outcome (send_socks_request H I pool ctx dest meth headers body version hints) m
      else if url_scheme dest = ''http''
      then send_http_proxy_request H I U shw bodies (N 0) pool ctx (now 0) dest meth headers body version c hints m
      else if url_scheme dest = ''https''
      then send_https_connect_request H I U shw bodies N pool ctx now dest meth headers body version c hints m
      else pooled_outcome (Err (Unsupported (''unsupported destination scheme '' @ [CHR 0x27] @ url_scheme dest @ [CHR 0x27] @
             '' through proxy''))) m)"

subsection \<open>The route\<close>

definition pooled_tunnel :: "url \<Rightarrow> 'h proxy_config \<Rightarrow> transport_hints \<Rightarrow> socket_addr list option \<Rightarrow> bool" where
  "pooled_tunnel u c hints proxied \<longleftrightarrow>
     url_scheme u = ''https'' \<and> \<not> is_socks_scheme (url_scheme (pc_uri c)) \<and>
     is_none_or (th_target hints) (\<lambda>t. starts_with t ''/'') \<and> is_none_or proxied (\<lambda>addrs. length addrs \<le> 1)"

definition proxy_context_of ::
  "url \<Rightarrow> 'h proxy_config \<Rightarrow> transport_hints \<Rightarrow> socket_addr list option \<Rightarrow> timeout \<Rightarrow> duration option \<Rightarrow> instant option
     \<Rightarrow> http_version_policy \<Rightarrow> tls_config option \<Rightarrow> proxy_context" where
  "proxy_context_of u c hints proxied t remaining deadline policy origin_tls =
     \<lparr>px_remaining_total = remaining, px_deadline = deadline, px_connect_timeout = to_connect t,
      px_proxy_connect_timeout = to_connect t, px_proxy_tls_timeout = to_connect t, px_write_timeout = to_write t,
      px_read_timeout = to_read t, px_http_version_policy = policy, px_origin_tls_config = origin_tls,
      px_endpoint_tls_config = pc_proxy_tls_config c, px_proxied_target = proxied,
      px_socks_client = is_socks_scheme (url_scheme (pc_uri c)),
      px_forward_client = (url_scheme u = ''http'' \<and> \<not> is_socks_scheme (url_scheme (pc_uri c))),
      px_connect_client = pooled_tunnel u c hints proxied\<rparr>"

text \<open>
  \<open>make_clients\<close> is the failure, if any, of taking the pooled client out of its cache;
  the total budget is around the whole dispatch.
\<close>

definition send_proxy_route ::
  "'h http_lib \<Rightarrow> 'u uri_lib \<Rightarrow> url_lib \<Rightarrow> (error \<Rightarrow> string) \<Rightarrow> (nat \<Rightarrow> byte_stream) \<Rightarrow> (nat \<Rightarrow> proxy_net)
     \<Rightarrow> ('u, 'h, 'r) pooled \<Rightarrow> (proxy_context \<Rightarrow> error option) \<Rightarrow> (nat \<Rightarrow> readings) \<Rightarrow> duration option
     \<Rightarrow> http_version_policy \<Rightarrow> tls_config option \<Rightarrow> ('h, 'u) prepared_request \<Rightarrow> proxy_metrics \<Rightarrow> ('h, 'r) proxy_outcome" where
  "send_proxy_route H I U shw bodies N pool make_clients now total_expires policy origin_tls p m =
     (case pr_effective_proxy p of
        None \<Rightarrow> pooled_outcome (Err (Unsupported ''proxy configuration not available'')) m
      | Some c \<Rightarrow>
          if headers_contains H (pr_headers p) ''proxy-authorization'' \<and> pc_auth c \<noteq> None
          then pooled_outcome (Err (ConflictingAuth
                 ''conflict: both request Proxy-Authorization header and proxy auth are configured; remove one'')) m
          else
            let ctx = proxy_context_of (pr_url p) c (pr_transport_hints p) (pr_proxied_target p) (pr_timeout p)
                        (pr_remaining_total p) (pr_deadline p) policy origin_tls
            in (case make_clients ctx of
                  Some e \<Rightarrow> pooled_outcome (Err e) m
                | None \<Rightarrow>
                    let out = send_proxy_request H I U shw bodies N pool ctx now (pr_url p) (pr_method p) (pr_headers p)
                                (pr_body p) (pr_version p) c (pr_transport_hints p) m
                    in (case (pr_remaining_total p, total_expires) of
                          (Some _, Some elapsed) \<Rightarrow> out\<lparr>po_result := Err (Timeout PhaseTotal elapsed)\<rparr>
                        | _ \<Rightarrow> out)))"

end
