(* ===== verification/Proxy_Framing.thy ===== *)
theory Proxy_Framing
  imports Proxy_Wire Body_Props
begin

text \<open>
  The framing of what is exchanged with a proxy (\<open>Proxy_Wire\<close>): the chunked coding of a
  request body, the bytes of a response body, the reading of a response head by the two
  readers of the program, and the text kept of a rejection.
\<close>

subsection \<open>A reference decoder of the chunked coding\<close>

definition hex_digit :: "char \<Rightarrow> nat option" where
  "hex_digit c = (if 48 \<le> byte c \<and> byte c \<le> 57 then Some (byte c - 48)
     else if 65 \<le> byte c \<and> byte c \<le> 70 then Some (byte c - 55) else None)"

fun hex_value :: "nat \<Rightarrow> string \<Rightarrow> nat option" where
  "hex_value acc [] = Some acc"
| "hex_value acc (c # s) = (case hex_digit c of None \<Rightarrow> None | Some d \<Rightarrow> hex_value (16 * acc + d) s)"

text \<open>A chunk is its size, its bytes and a line end; the one of size 0 is the last.\<close>

function decode_chunked :: "string \<Rightarrow> (string \<times> string) option" where
  "decode_chunked s =
     (let line = takeWhile (\<lambda>c. c \<noteq> CR) s; rest = drop (length line) s
      in case (if line = [] then None else hex_value 0 line) of
           None \<Rightarrow> None
         | Some n \<Rightarrow>
             if take 2 rest \<noteq> crlf then None
             else let body = drop 2 rest
                  in if n = 0 then (if take 2 body = crlf then Some ([], drop 2 body) else None)
                     else if length body < n + 2 \<or> take 2 (drop n body) \<noteq> crlf then None
                     else (case decode_chunked (drop (n + 2) body) of
                             None \<Rightarrow> None | Some (b, r) \<Rightarrow> Some (take n body @ b, r)))"
  by auto
termination
  by (relation "measure length") auto

declare decode_chunked.simps [simp del]

lemma hex_value_append: "hex_value a (s @ t) = (case hex_value a s of None \<Rightarrow> None | Some v \<Rightarrow> hex_value v t)"
  by (induction a s rule: hex_value.induct) (auto split: option.splits)

lemma hex_digit_upper:
  "n < 16 \<Longrightarrow> hex_digit (char_of (if n < 10 then 48 + n else 55 + n)) = Some n"
  by (simp add: hex_digit_def)

lemma hex_value_upper: "hex_value 0 (upper_hex n) = Some n"
proof (induction n rule: upper_hex.induct)
  case (1 n)
  show ?case
  proof (cases "n < 16")
    case True
    then show ?thesis using hex_digit_upper [of n] by (subst upper_hex.simps) (simp add: Let_def)
  next
    case False
    have d: "hex_digit (char_of (if n mod 16 < 10 then 48 + n mod 16 else 55 + n mod 16)) = Some (n mod 16)"
      by (rule hex_digit_upper) simp
    from False have "hex_value 0 (upper_hex (n div 16)) = Some (n div 16)" by (intro 1) (auto simp: Let_def)
    with False d show ?thesis by (subst upper_hex.simps) (simp add: Let_def hex_value_append)
  qed
qed

lemma hex_value_no_cr: "hex_value a s = Some n \<Longrightarrow> CR \<notin> set s"
  by (induction a s rule: hex_value.induct) (auto simp: hex_digit_def split: option.splits if_splits)

lemma upper_hex_nonempty: "upper_hex n \<noteq> []"
  by (subst upper_hex.simps) (simp add: Let_def)

lemma decode_last: "decode_chunked (last_chunk @ rest) = Some ([], rest)"
  by (subst decode_chunked.simps) (simp add: last_chunk_def crlf_def hex_digit_def Let_def)

lemma decode_chunk:
  assumes "c \<noteq> []" "decode_chunked t = Some (b, r)"
  shows "decode_chunked (upper_hex (length c) @ crlf @ c @ crlf @ t) = Some (c @ b, r)"
proof -
  let ?line = "upper_hex (length c)" and ?s = "upper_hex (length c) @ crlf @ c @ crlf @ t"
  have "takeWhile (\<lambda>c. c \<noteq> CR) ?s = ?line"
    using hex_value_no_cr [OF hex_value_upper, of "length c"] by (simp add: takeWhile_append crlf_def)
  moreover have "length c \<noteq> 0" using assms(1) by simp
  ultimately show ?thesis
    using assms by (subst decode_chunked.simps)
      (simp add: Let_def hex_value_upper upper_hex_nonempty, simp add: crlf_def)
qed

subsection \<open>The body of a request\<close>

lemma write_wire_Ok: "write_wire d w s = (Inr u, s') \<Longrightarrow> ts_written s' = ts_written s @ [d]"
  by (auto simp: write_wire_def tick_def split: option.splits)

lemma sbind_split: "sbind m f s = (Inr y, s2) \<Longrightarrow> (\<And>x s1. m s = (Inr x, s1) \<Longrightarrow> f x s1 = (Inr y, s2) \<Longrightarrow> P) \<Longrightarrow> P"
  by (auto simp: sbind_def split: prod.splits sum.splits)

lemma chunks_written:
  assumes "write_chunks shw True evs s = (Inr u, s')"
  shows "\<exists>ws. ts_written s' = ts_written s @ ws \<and>
    (\<forall>t b r. decode_chunked t = Some (b, r) \<longrightarrow> decode_chunked (concat ws @ t) = Some (concat (chunks evs) @ b, r))"
  using assms
proof (induction shw "True" evs arbitrary: s rule: write_chunks.induct)
  case (4 shw c evs)
  show ?case
  proof (cases "c = []")
    case False
    with 4(4) obtain s1 s2 s3 where w: "write_wire (upper_hex (length c) @ crlf) ''failed to write body: '' s = (Inr (), s1)"
      "write_wire c ''failed to write body: '' s1 = (Inr (), s2)" "write_wire crlf ''failed to write body: '' s2 = (Inr (), s3)"
      "write_chunks shw True evs s3 = (Inr u, s')"
      by (auto elim!: sbind_split)
    from 4(2) [OF TrueI False w(4)] obtain ws where ws: "ts_written s' = ts_written s3 @ ws"
      "\<And>t b r. decode_chunked t = Some (b, r) \<Longrightarrow> decode_chunked (concat ws @ t) = Some (concat (chunks evs) @ b, r)"
      by blast
    have "ts_written s' = ts_written s @ [upper_hex (length c) @ crlf, c, crlf] @ ws"
      using ws(1) w(1-3) [THEN write_wire_Ok] by simp
    then show ?thesis using ws(2) decode_chunk [OF False]
      by (intro exI [of _ "[upper_hex (length c) @ crlf, c, crlf] @ ws"]) auto
  qed (use 4 in auto)
qed (auto simp: sreturn_def)

text \<open>
  C31: the body of a request with no known length is written in the chunked coding:
  when it was written, a decoder gets back exactly the bytes the stream gave, in order,
  and stops at the byte after the last chunk, whatever follows.  Empty chunks of the
  stream do not end it.
\<close>

theorem chunked_body_roundtrip:
  assumes "write_proxy_body shw bodies (BodyStream i None) True s = (Ok (), s')"
  shows "\<exists>ws. ts_written s' = ts_written s @ ws \<and>
    decode_chunked (concat ws @ rest) = Some (concat (chunks (bodies i)), rest)"
proof -
  from assms obtain s1 where w: "write_chunks shw True (bodies i) s = (Inr (), s1)"
    "write_wire last_chunk ''failed to write body: '' s1 = (Inr (), s')"
    by (auto elim!: sbind_split)
  from chunks_written [OF w(1)] obtain ws where "ts_written s1 = ts_written s @ ws"
    "\<forall>t b r. decode_chunked t = Some (b, r) \<longrightarrow> decode_chunked (concat ws @ t) = Some (concat (chunks (bodies i)) @ b, r)"
    by blast
  with write_wire_Ok [OF w(2)] decode_last [of rest] show ?thesis
    by (intro exI [of _ "ws @ [last_chunk]"]) auto
qed

subsection \<open>The body of a response\<close>

lemma script_chunks:
  "list_all (\<lambda>b. b \<noteq> []) bs \<Longrightarrow> d \<le> usize_max \<Longrightarrow>
     script (response_stream_poll tr) (length bs + n)
        \<lparr>ps_initial_buf = [], ps_inner = map RawBytes bs @ tail, ps_expected_len = ex, ps_delivered = d\<rparr>
     = map Chunk bs @ script (response_stream_poll tr) n
        \<lparr>ps_initial_buf = [], ps_inner = tail, ps_expected_len = ex, ps_delivered = usize_saturating_add d (length (concat bs))\<rparr>"
proof (induction bs arbitrary: d)
  case Nil
  then show ?case by (simp add: usize_saturating_add_def)
next
  case (Cons b bs)
  have "usize_saturating_add (usize_saturating_add d (length b)) (length (concat bs)) = usize_saturating_add d (length b + length (concat bs))"
    by (simp add: usize_saturating_add_def)
  moreover have "usize_saturating_add d (length b) \<le> usize_max" by (simp add: usize_saturating_add_def)
  ultimately show ?case using Cons by (simp add: response_stream_poll_def)
qed

lemma script_initial:
  "d \<le> usize_max \<Longrightarrow> \<exists>cs. concat cs = buf \<and> length cs \<le> length buf \<and> (\<forall>n reads.
     script (response_stream_poll tr) (length cs + n)
        \<lparr>ps_initial_buf = buf, ps_inner = reads, ps_expected_len = ex, ps_delivered = d\<rparr>
     = map Chunk cs @ script (response_stream_poll tr) n
        \<lparr>ps_initial_buf = [], ps_inner = reads, ps_expected_len = ex, ps_delivered = usize_saturating_add d (length buf)\<rparr>)"
proof (induction buf arbitrary: d rule: length_induct)
  case (1 buf)
  show ?case
  proof (cases "buf = []")
    case True
    with 1(2) show ?thesis by (intro exI [of _ "[]"]) (simp add: usize_saturating_add_def)
  next
    case False
    define k where "k = min chunk_capacity (length buf)"
    have k: "0 < k" "k \<le> length buf" using False by (simp_all add: k_def chunk_capacity_def)
    let ?d = "usize_saturating_add d k"
    have "?d \<le> usize_max" by (simp add: usize_saturating_add_def)
    moreover have "length (drop k buf) < length buf" using k by simp
    ultimately obtain cs where cs: "concat cs = drop k buf" "length cs \<le> length (drop k buf)"
      "\<And>n reads. script (response_stream_poll tr) (length cs + n)
        \<lparr>ps_initial_buf = drop k buf, ps_inner = reads, ps_expected_len = ex, ps_delivered = ?d\<rparr>
       = map Chunk cs @ script (response_stream_poll tr) n
        \<lparr>ps_initial_buf = [], ps_inner = reads, ps_expected_len = ex, ps_delivered = usize_saturating_add ?d (length (drop k buf))\<rparr>"
      using 1(1) by meson
    have "usize_saturating_add ?d (length (drop k buf)) = usize_saturating_add d (length buf)"
      using k(2) by (simp add: usize_saturating_add_def)
    moreover have "response_stream_poll tr \<lparr>ps_initial_buf = buf, ps_inner = reads, ps_expected_len = ex, ps_delivered = d\<rparr>
        = (ReadyOk (take k buf), \<lparr>ps_initial_buf = drop k buf, ps_inner = reads, ps_expected_len = ex, ps_delivered = ?d\<rparr>)" for reads
      using False by (simp add: response_stream_poll_def k_def Let_def)
    ultimately show ?thesis using cs k
      by (intro exI [of _ "take k buf # cs"]) simp
  qed
qed

lemma script_response:
  assumes "list_all (\<lambda>b. b \<noteq> []) bs"
  shows "\<exists>cs. concat cs = buf @ concat bs \<and> length cs \<le> length buf + length bs \<and> (\<forall>n tail.
     script (response_stream_poll tr) (length cs + n) (response_stream_new buf (map RawBytes bs @ tail) ex)
     = map Chunk cs @ script (response_stream_poll tr) n
        \<lparr>ps_initial_buf = [], ps_inner = tail, ps_expected_len = ex,
         ps_delivered = usize_saturating_add 0 (length (buf @ concat bs))\<rparr>)"
proof -
  obtain cs where cs: "concat cs = buf" "length cs \<le> length buf"
    "\<And>n reads. script (response_stream_poll tr) (length cs + n) (response_stream_new buf reads ex)
     = map Chunk cs @ script (response_stream_poll tr) n
        \<lparr>ps_initial_buf = [], ps_inner = reads, ps_expected_len = ex, ps_delivered = usize_saturating_add 0 (length buf)\<rparr>"
    using script_initial [of 0 buf tr ex] unfolding response_stream_new_def by blast
  have "usize_saturating_add (usize_saturating_add 0 (length buf)) (length (concat bs)) =
      usize_saturating_add 0 (length (buf @ concat bs))"
    by (simp add: usize_saturating_add_def)
  with script_chunks [OF assms, of "usize_saturating_add 0 (length buf)" tr _ _ ex] cs
  show ?thesis
    by (intro exI [of _ "cs @ bs"]) (simp add: usize_saturating_add_def add.assoc)
qed

text \<open>
  C32: the body of a response is the bytes read ahead and then those of every read, in
  order.  A connection that ends is the end of the body, even when fewer bytes than the
  declared length came and even when more did; only a close that the TLS layer reports
  as unexpected is compared with the declared length, and is an error when bytes are
  missing.
\<close>

theorem short_body_needs_abrupt_close:
  assumes "list_all (\<lambda>b. b \<noteq> []) bs" "length buf + length bs + 1 < n" "is_none_or expected (\<lambda>k. k \<le> usize_max)"
  shows "\<exists>cs. concat cs = buf @ concat bs
    \<and> script (response_stream_poll truncated) n (response_stream_new buf (map RawBytes bs) expected) = map Chunk cs
    \<and> script (response_stream_poll truncated) n (response_stream_new buf (map RawBytes bs @ [RawError IoUnexpectedEof e]) expected)
      = map Chunk cs @ (case expected of
          Some k \<Rightarrow> if length (buf @ concat bs) < k then [Fail (truncated (''proxy closed connection unexpectedly: '' @ e))] else []
        | None \<Rightarrow> [])"
proof -
  obtain cs where cs: "concat cs = buf @ concat bs" "length cs \<le> length buf + length bs"
    "\<And>n tail. script (response_stream_poll truncated) (length cs + n) (response_stream_new buf (map RawBytes bs @ tail) expected)
     = map Chunk cs @ script (response_stream_poll truncated) n
        \<lparr>ps_initial_buf = [], ps_inner = tail, ps_expected_len = expected,
         ps_delivered = usize_saturating_add 0 (length (buf @ concat bs))\<rparr>"
    using script_response [OF assms(1)] by blast
  obtain m where n: "n = length cs + Suc (Suc m)"
    using cs(2) assms(2) by (metis add_Suc_right less_iff_Suc_add le_add1 le_less_trans nat_add_left_cancel_less add.assoc Suc_eq_plus1 less_imp_Suc_add add_Suc not_less_eq order.strict_trans1)
  show ?thesis
    using cs(1) cs(3) [of "Suc (Suc m)" "[]"] cs(3) [of "Suc (Suc m)" "[RawError IoUnexpectedEof e]"] assms(3) n
    by (intro exI [of _ cs])
       (auto simp: response_stream_poll_def body_is_complete_def usize_saturating_add_def split: option.splits)
qed

theorem short_body_needs_abrupt_close_witness:
  "\<exists>cs. concat cs = ''abc''
    \<and> script (response_stream_poll Body) 5 (response_stream_new ''a'' (map RawBytes [''bc'']) (Some 4)) = map Chunk cs
    \<and> script (response_stream_poll Body) 5 (response_stream_new ''a'' (map RawBytes [''bc''] @ [RawError IoUnexpectedEof ''x'']) (Some 4))
      = map Chunk cs @ [Fail (Body (''proxy closed connection unexpectedly: '' @ ''x''))]"
  using short_body_needs_abrupt_close [of "[''bc'']" "''a''" 5 "Some 4" Body "''x''"] by (simp add: usize_max_def)

subsection \<open>Text in UTF-8\<close>

lemma utf8_error_cases [case_names Nil One Bad Two Three Four]:
  assumes "s = [] \<Longrightarrow> P"
    and "\<And>a t. s = a # t \<Longrightarrow> utf8_width a = 1 \<Longrightarrow> P"
    and "\<And>a t. s = a # t \<Longrightarrow> utf8_width a \<noteq> 1 \<Longrightarrow> \<forall>i. \<exists>r. utf8_error i s = Some (i, r) \<Longrightarrow> P"
    and "\<And>a b t. s = a # b # t \<Longrightarrow> utf8_width a = 2 \<Longrightarrow> utf8_second_ok a b \<Longrightarrow> P"
    and "\<And>a b c t. s = a # b # c # t \<Longrightarrow> utf8_width a = 3 \<Longrightarrow> utf8_second_ok a b \<Longrightarrow> utf8_cont c \<Longrightarrow> P"
    and "\<And>a b c d t. s = a # b # c # d # t \<Longrightarrow> utf8_width a = 4 \<Longrightarrow> utf8_second_ok a b \<Longrightarrow> utf8_cont c \<Longrightarrow> utf8_cont d \<Longrightarrow> P"
  shows P
proof (cases s)
  case Nil
  with assms(1) show ?thesis .
next
  case (Cons a t)
  have w: "utf8_width a \<in> {0, 1, 2, 3, 4}" by (auto simp: utf8_width_def)
  show ?thesis
  proof (cases "utf8_width a = 1 \<or> (\<forall>i. \<exists>r. utf8_error i s = Some (i, r))")
    case True
    with Cons assms(2,3) show ?thesis by blast
  next
    case False
    with Cons obtain b t1 where b: "t = b # t1" "utf8_second_ok a b" "utf8_width a \<noteq> 0" "utf8_width a \<noteq> 1"
      by (cases t) (auto split: if_splits)
    show ?thesis
    proof (cases "utf8_width a = 2")
      case True
      with Cons b assms(4) show ?thesis by blast
    next
      case two: False
      with False Cons b obtain c t2 where c: "t1 = c # t2" "utf8_cont c"
        by (cases t1) (auto split: if_splits)
      show ?thesis
      proof (cases "utf8_width a = 3")
        case True
        with Cons b c assms(5) show ?thesis by blast
      next
        case three: False
        with two b w have four: "utf8_width a = 4" by auto
        from three two False Cons b c obtain d t3 where "t2 = d # t3" "utf8_cont d"
          by (cases t2) (auto split: if_splits)
        with Cons b c four assms(6) show ?thesis by blast
      qed
    qed
  qed
qed

lemma utf8_error_shift: "utf8_error (i + k) s = map_option (\<lambda>(j, r). (j + k, r)) (utf8_error i s)"
proof (induction "length s" arbitrary: i s rule: less_induct)
  case less
  have ih: "length t < length s \<Longrightarrow> utf8_error (n + (i + k)) t = map_option (\<lambda>(j, r). (j + k, r)) (utf8_error (n + i) t)" for n t
    using less [of t "n + i"] by (simp add: add.assoc)
  show ?case
  proof (cases s)
    case (Cons a t)
    then show ?thesis using ih [of _ 1] ih [of _ 2] ih [of _ 3] ih [of _ 4]
      by (simp add: add.commute [of _ 1] add.commute [of _ 2] add.commute [of _ 3] add.commute [of _ 4] split: list.splits)
  qed simp
qed

lemma take_past: "i + length p \<le> j \<Longrightarrow> take (j - i) (p @ u) = p @ take (j - (i + length p)) u"
  by simp

lemma utf8_error_append:
  "utf8_error i s = Some (j, r) \<Longrightarrow> utf8_error i (take (j - i) s @ t) = utf8_error j t"
proof (induction "length s" arbitrary: i s rule: less_induct)
  case less
  note b = utf8_error_bound
  show ?case
  proof (cases s rule: utf8_error_cases)
    case Nil
    with less(2) show ?thesis by simp
  next
    case (One a u)
    with less(2) have e: "utf8_error (i + 1) u = Some (j, r)" by simp
    then have "take (j - i) s = a # take (j - (i + 1)) u" using b [OF e] One take_past [of i "[a]" j u] by (simp add: numeral_eq_Suc)
    with less(1) [OF _ e] One show ?thesis by simp
  next
    case (Bad a u)
    with less(2) have "j = i" by (metis fst_conv option.inject)
    then show ?thesis by simp
  next
    case (Two a c u)
    with less(2) have e: "utf8_error (i + 2) u = Some (j, r)" by simp
    then have "take (j - i) s = a # c # take (j - (i + 2)) u"
      using b [OF e] Two take_past [of i "[a, c]" j u] by (simp add: numeral_eq_Suc)
    with less(1) [OF _ e] Two show ?thesis by simp
  next
    case (Three a c d u)
    with less(2) have e: "utf8_error (i + 3) u = Some (j, r)" by simp
    then have "take (j - i) s = a # c # d # take (j - (i + 3)) u"
      using b [OF e] Three take_past [of i "[a, c, d]" j u] by (simp add: numeral_eq_Suc)
    with less(1) [OF _ e] Three show ?thesis by simp
  next
    case (Four a c d f u)
    with less(2) have e: "utf8_error (i + 4) u = Some (j, r)" by simp
    then have "take (j - i) s = a # c # d # f # take (j - (i + 4)) u"
      using b [OF e] Four take_past [of i "[a, c, d, f]" j u] by (simp add: numeral_eq_Suc)
    with less(1) [OF _ e] Four show ?thesis by simp
  qed
qed

lemma utf8_lossy_valid: "utf8_error 0 (utf8_lossy s) = None"
proof (induction s rule: utf8_lossy.induct)
  case (1 s)
  have rep: "utf8_error i (replacement_char @ t) = utf8_error (i + 3) t" for i t
    by (simp add: replacement_char_def utf8_width_def utf8_second_ok_def utf8_cont_def)
  show ?case
  proof (cases "utf8_error 0 s")
    case (Some p)
    obtain i r where p: "p = (i, r)" by fastforce
    have ap: "utf8_error 0 (take i s @ t) = utf8_error i t" for t
      using utf8_error_append [of 0 s i r t] Some p by simp
    show ?thesis
    proof (cases r)
      case None
      with Some p ap [of replacement_char] rep [of i "[]"] show ?thesis by (subst utf8_lossy.simps) simp
    next
      case (Some n)
      with \<open>utf8_error 0 s = Some p\<close> p have "utf8_error 0 (utf8_lossy (drop (i + n) s)) = None" by (intro 1) auto
      then have "utf8_error (i + 3) (utf8_lossy (drop (i + n) s)) = None"
        using utf8_error_shift [of 0 "i + 3"] by simp
      with \<open>utf8_error 0 s = Some p\<close> p Some ap [of "replacement_char @ utf8_lossy (drop (i + n) s)"] rep
      show ?thesis by (subst utf8_lossy.simps) simp
    qed
  qed (subst utf8_lossy.simps, simp)
qed

text \<open>In valid text a character is one byte below 128, or bytes of at least 128.\<close>

definition whole_char :: "string \<Rightarrow> bool" where
  "whole_char c \<longleftrightarrow> (\<exists>b. c = [b] \<and> byte b < 128) \<or> list_all (\<lambda>b. 128 \<le> byte b) c"

lemma utf8_valid_start: "utf8_error i s = None \<Longrightarrow> takeWhile utf8_cont s = [] \<and> dropWhile utf8_cont s = s"
  by (cases s) (auto simp: utf8_cont_def utf8_width_def split: if_splits)

lemma utf8_chars_whole: "utf8_error i s = None \<Longrightarrow> list_all whole_char (utf8_chars s)"
proof (induction "length s" arbitrary: i s rule: less_induct)
  case less
  show ?case
  proof (cases s rule: utf8_error_cases)
    case (One a t)
    with less(2) have "utf8_error (i + 1) t = None" "byte a < 128" by (auto simp: utf8_width_def split: if_splits)
    with less(1) [of t "i + 1"] utf8_valid_start [of "i + 1" t] One show ?thesis by (simp add: whole_char_def)
  next
    case (Bad a t)
    with less(2) show ?thesis by (metis option.distinct(1))
  next
    case (Two a b t)
    then have "utf8_error (i + 2) t = None" "128 \<le> byte a" "utf8_cont b"
      using less(2) by (auto simp: utf8_width_def utf8_second_ok_def split: if_splits)
    with less(1) [of t "i + 2"] utf8_valid_start [of "i + 2" t] Two show ?thesis
      by (simp add: whole_char_def utf8_cont_def)
  next
    case (Three a b c t)
    then have "utf8_error (i + 3) t = None" "128 \<le> byte a" "utf8_cont b"
      using less(2) by (auto simp: utf8_width_def utf8_second_ok_def split: if_splits)
    with less(1) [of t "i + 3"] utf8_valid_start [of "i + 3" t] Three show ?thesis
      by (simp add: whole_char_def utf8_cont_def)
  next
    case (Four a b c d t)
    then have "utf8_error (i + 4) t = None" "128 \<le> byte a" "utf8_cont b"
      using less(2) by (auto simp: utf8_width_def utf8_second_ok_def split: if_splits)
    with less(1) [of t "i + 4"] utf8_valid_start [of "i + 4" t] Four show ?thesis
      by (simp add: whole_char_def utf8_cont_def)
  qed simp
qed

subsection \<open>The text of a rejection\<close>

lemma set_skip_csi: "set (skip_csi cs) \<subseteq> set cs"
  by (induction cs) auto

lemma sanitize_chars_clean: "set (sanitize_chars n cs) \<subseteq> {c \<in> set cs. \<not> char_is_control c}"
proof (induction n cs rule: sanitize_chars.induct)
  case (2 n c cs)
  show ?case
  proof (cases "c = escape_char")
    case esc: True
    show ?thesis
    proof (cases cs)
      case (Cons d ds)
      with esc 2(1) [of d ds] 2(2) [of d ds] set_skip_csi [of ds] show ?thesis by (cases "d = ''[''") auto
    qed (use esc in simp)
  next
    case False
    with 2(3,4) show ?thesis by (cases "char_is_control c"; cases "n + 1 \<ge> max_proxy_rejection_body_chars") auto
  qed
qed simp

lemma sanitize_chars_length: "n < max_proxy_rejection_body_chars \<Longrightarrow> length (sanitize_chars n cs) \<le> max_proxy_rejection_body_chars - n"
proof (induction n cs rule: sanitize_chars.induct)
  case (2 n c cs)
  show ?case
  proof (cases "c = escape_char")
    case esc: True
    show ?thesis
    proof (cases cs)
      case (Cons d ds)
      with esc 2(1) [of d ds] 2(2) [of d ds] 2(5) show ?thesis by (cases "d = ''[''") auto
    qed (use esc in simp)
  next
    case False
    with 2(3,4,5) show ?thesis by (cases "char_is_control c"; cases "n + 1 \<ge> max_proxy_rejection_body_chars") auto
  qed
qed simp

definition printable :: "string \<Rightarrow> bool" where
  "printable s \<longleftrightarrow> list_all (\<lambda>b. 32 \<le> byte b \<and> byte b \<noteq> 127) s"

lemma whole_char_printable: "whole_char c \<Longrightarrow> \<not> char_is_control c \<Longrightarrow> printable c"
  by (auto simp: whole_char_def printable_def list_all_iff)

lemma rejection_redacted:
  "concat (map (\<lambda>b. [b]) redacted_rejection) = redacted_rejection" "length redacted_rejection = 22"
  "list_all (\<lambda>c. \<not> char_is_control c) (map (\<lambda>b. [b]) redacted_rejection)" "printable redacted_rejection"
  "list_all (\<lambda>w. \<not> contains_token (to_ascii_lowercase redacted_rejection) w) credential_words"
  by code_simp+

text \<open>
  The text that an error keeps of a rejected CONNECT has at most 256 characters, no
  control character and so no escape sequence and no line break, whatever bytes the
  proxy sent, and names none of the words that credentials come with.
\<close>

lemma rejection_text_clean:
  "\<exists>cs. proxy_rejection_body hs buf = concat cs \<and> length cs \<le> max_proxy_rejection_body_chars
    \<and> list_all (\<lambda>c. \<not> char_is_control c) cs \<and> printable (proxy_rejection_body hs buf)
    \<and> list_all (\<lambda>w. \<not> contains_token (to_ascii_lowercase (proxy_rejection_body hs buf)) w) credential_words"
proof (cases "proxy_rejection_body hs buf = redacted_rejection")
  case True
  then show ?thesis using rejection_redacted
    by (intro exI [of _ "map (\<lambda>b. [b]) redacted_rejection"]) (simp add: max_proxy_rejection_body_chars_def)
next
  case False
  define cs where "cs = sanitize_chars 0 (utf8_chars (rejection_source hs buf))"
  have body: "proxy_rejection_body hs buf = concat cs"
    "\<not> list_ex (contains_token (to_ascii_lowercase (concat cs))) credential_words"
    using False by (auto simp: proxy_rejection_body_def Let_def cs_def split: if_splits)
  have "utf8_error 0 (rejection_source hs buf) = None"
    using utf8_lossy_valid by (auto simp: rejection_source_def split: option.splits)
  from utf8_chars_whole [OF this] have w: "\<forall>c\<in>set cs. whole_char c \<and> \<not> char_is_control c"
    using sanitize_chars_clean [of 0 "utf8_chars (rejection_source hs buf)"] by (auto simp: cs_def list_all_iff)
  then have "printable (concat cs)"
    using whole_char_printable by (fastforce simp: printable_def list_all_iff)
  with body w sanitize_chars_length [of 0 "utf8_chars (rejection_source hs buf)"] show ?thesis
    by (intro exI [of _ cs]) (auto simp: cs_def max_proxy_rejection_body_chars_def list_all_iff list_ex_iff)
qed

subsection \<open>The two readers of a response head\<close>

lemma ascii_valid: "list_all (\<lambda>b. byte b < 128) s \<Longrightarrow> utf8_error i s = None"
  by (induction s arbitrary: i) (simp_all add: utf8_width_def)

lemma lines_agree: "read_bounded_line e m buf s = (Inr line, s') \<Longrightarrow> proxy_read_line e' m buf s = (Inr line, s')"
  by (induction e m buf s rule: read_bounded_line.induct) (auto split: if_splits)

lemma token_ascii: "is_token_byte b \<Longrightarrow> byte b < 128"
  by (cases "byte b < 128") (auto simp: is_token_byte_def)

lemma header_lines_agree: "parse_header_line line = Inr h \<Longrightarrow> proxy_header_line line = Ok h"
proof -
  assume p: "parse_header_line line = Inr h"
  then obtain n v where nv: "split_once CHR '':'' line = Some (n, v)" "response_header_name (trim_ows n) = Inr ()"
    "h = (trim_ows n, trim_ows v)"
    by (auto simp: parse_header_line_def split: option.splits sum.splits)
  then have "list_all (\<lambda>b. byte b < 128) (trim_ows n)"
    by (auto simp: response_header_name_def list_all_iff token_ascii split: if_splits)
  with nv ascii_valid show ?thesis by (simp add: proxy_header_line_def utf8_ok_def)
qed

lemma headers_agree:
  "read_headers e connect_limits_default hs t s = (Inr hs', s') \<Longrightarrow> proxy_read_headers e' hs t s = (Ok hs', s')"
proof (induction e "connect_limits_default" hs t s rule: read_headers.induct)
  case (1 e hs t s)
  note lim = connect_limits_default_def max_header_line_len_def max_total_header_bytes_def max_header_count_def
  obtain q s1 where q: "read_bounded_line e (cl_max_header_line connect_limits_default) [] s = (q, s1)" by fastforce
  with 1(2) obtain line where line: "q = Inr line"
    by (subst (asm) read_headers.simps) (auto split: sum.splits)
  with lines_agree q have p: "proxy_read_line e' max_header_line_len [] s = (Inr line, s1)"
    by (simp add: lim)
  show ?case
  proof (cases "line = []")
    case True
    with 1(2) q line p show ?thesis
      by (subst proxy_read_headers.simps, subst (asm) read_headers.simps) simp
  next
    case False
    with 1(2) q line obtain t' h where l: "checked_add t (length line) = Some t'"
      "\<not> t' > cl_max_headers_bytes connect_limits_default" "\<not> length hs \<ge> cl_max_header_count connect_limits_default"
      "parse_header_line line = Inr h" "read_headers e connect_limits_default (hs @ [h]) t' s1 = (Inr hs', s')"
      by (subst (asm) read_headers.simps) (auto split: option.splits if_splits sum.splits)
    from 1(1) [OF q [symmetric] line False l(1-4) l(5)] p False l header_lines_agree [OF l(4)]
    show ?thesis by (subst proxy_read_headers.simps) (simp add: lim)
  qed
qed

lemma parse_unsigned_ascii: "parse_unsigned m s = Some n \<Longrightarrow> list_all (\<lambda>b. byte b < 128) s"
proof -
  assume p: "parse_unsigned m s = Some n"
  then have "list_all is_digit (if starts_with s ''+'' then tl s else s)"
    by (auto simp: parse_unsigned_def Let_def split: if_splits)
  then show ?thesis
    by (cases s) (auto simp: list_all_iff is_digit_def starts_with_def split: if_splits)
qed

text \<open>
  C30: the reader of response heads that the program frames itself accepts every head that the
  reader of \<open>eggfetch-http-connect\<close> accepts under its default limits, with the same status
  and headers, and leaves the same bytes in the stream.  The reasons differ: this reader
  keeps an empty one, and replaces what is not UTF-8.
\<close>

theorem readers_agree:
  assumes "read_connect_response_head e connect_limits_default s = (Inr h, rest)"
  shows "\<exists>reason. read_proxy_response e' s
      = (Ok \<lparr>ph_status = ch_status h, ph_headers = ch_headers h, ph_reason_phrase = reason\<rparr>, rest)
    \<and> (case ch_reason_phrase h of None \<Rightarrow> reason = None \<or> reason = Some [] | Some r \<Rightarrow> reason = Some (utf8_lossy r))"
proof -
  obtain line s1 where line: "read_bounded_line e (cl_max_status_line connect_limits_default) [] s = (Inr line, s1)"
    using assms by (auto simp: read_connect_response_head_def split: prod.splits sum.splits)
  with assms obtain st reason hs where st: "parse_status_line line = Inr (st, reason)"
    "read_headers e connect_limits_default [] 0 s1 = (Inr hs, rest)"
    "h = \<lparr>ch_status = st, ch_headers = hs, ch_reason_phrase = reason\<rparr>"
    by (auto simp: read_connect_response_head_def split: prod.splits sum.splits)
  have p: "proxy_read_line e' max_status_line_len [] s = (Inr line, s1)"
    using lines_agree [OF line] by (simp add: connect_limits_default_def max_status_line_len_def)
  obtain ver tail where v: "line \<noteq> []" "split_once CHR '' '' line = Some (ver, tail)"
    using st(1) by (auto simp: parse_status_line_def split: option.splits if_splits simp del: split_once_None)
  have "\<exists>r. parse_proxy_status line = Ok (st, r)
    \<and> (case reason of None \<Rightarrow> r = None \<or> r = Some [] | Some x \<Rightarrow> r = Some (utf8_lossy x))"
  proof (cases "split_once CHR '' '' tail")
    case None
    with st(1) v have "parse_u16 tail = Some st" "reason = None"
      by (auto simp: parse_status_line_def split: option.splits simp del: split_once_None)
    with None v ascii_valid parse_unsigned_ascii show ?thesis
      by (simp add: parse_proxy_status_def Let_def utf8_ok_def parse_u16_def bind_result_def ok_or_def del: split_once_None)
  next
    case (Some a)
    then obtain tok phrase where a: "split_once CHR '' '' tail = Some (tok, phrase)" by (cases a) auto
    with st(1) v have "parse_u16 tok = Some st" "reason = (if phrase = [] then None else Some phrase)"
      by (auto simp: parse_status_line_def split: option.splits simp del: split_once_None)
    moreover have "utf8_lossy [] = []" by (subst utf8_lossy.simps) simp
    ultimately show ?thesis using a v ascii_valid parse_unsigned_ascii
      by (simp add: parse_proxy_status_def Let_def utf8_ok_def parse_u16_def bind_result_def ok_or_def del: split_once_None)
  qed
  with p v(1) st headers_agree [OF st(2), of e'] show ?thesis
    by (auto simp: read_proxy_response_def)
qed

subsection \<open>Witnesses\<close>

definition idle_stream :: tcp_stream where
  "idle_stream = \<lparr>ts_input = [], ts_end = PeerEof, ts_written = [], ts_ops = 0, ts_expires = (\<lambda>_. None),
     ts_write_error = (\<lambda>_. None)\<rparr>"

theorem chunked_body_roundtrip_witness:
  "\<exists>ws. ts_written (snd (write_proxy_body (\<lambda>_. []) (\<lambda>_. [Chunk ''hello'', Chunk [], NotReady, Chunk ''!'']) (BodyStream 0 None) True idle_stream)) = ws
    \<and> decode_chunked (concat ws @ ''GET'') = Some (''hello!'', ''GET'')"
proof -
  let ?m = "write_proxy_body (\<lambda>_. []) (\<lambda>_. [Chunk ''hello'', Chunk [], NotReady, Chunk ''!'']) (BodyStream 0 None) True"
  have "fst (?m idle_stream) = Ok ()"
    by (simp add: sbind_def write_wire_def tick_def idle_stream_def sreturn_def)
  then have "?m idle_stream = (Ok (), snd (?m idle_stream))" by (metis prod.collapse)
  from chunked_body_roundtrip [OF this, of "''GET''"] show ?thesis by (simp add: idle_stream_def)
qed

theorem readers_agree_witness:
  "\<exists>reason. read_proxy_response PeerEof (render_head example_head @ ''tunnel'')
      = (Ok \<lparr>ph_status = 200, ph_headers = [(''via'', ''p'')], ph_reason_phrase = reason\<rparr>, ''tunnel'')
    \<and> reason = Some (utf8_lossy ''OK'')"
proof -
  have "read_connect_response_head AtEof connect_limits_default (render_head example_head @ ''tunnel'') = (Inr example_head, ''tunnel'')"
    by (rule read_rendered_head [OF example_head_fits]) (simp add: connect_limits_default_def)
  from readers_agree [OF this, of PeerEof] show ?thesis by (simp add: example_head_def)
qed

subsection \<open>Declared lengths\<close>

text \<open>
  A length that is not a number followed by one that is: the number is trusted.  The other
  way round neither is.
\<close>

lemma declared_length_depends_on_order:
  "proxy_content_length [(''Content-Length'', ''x''), (''Content-Length'', ''5'')] = Some 5"
  "proxy_content_length [(''Content-Length'', ''5''), (''Content-Length'', ''x'')] = None"
proof -
  have "eq_ignore_ascii_case ''Content-Length'' ''content-length''"
    "\<not> eq_ignore_ascii_case ''Content-Length'' ''transfer-encoding''" "utf8_ok ''x''" "utf8_ok ''5''"
    "trim ''x'' = ''x''" "trim ''5'' = ''5''"
    by code_simp+
  then show "proxy_content_length [(''Content-Length'', ''x''), (''Content-Length'', ''5'')] = Some 5"
    "proxy_content_length [(''Content-Length'', ''5''), (''Content-Length'', ''x'')] = None"
    by (simp_all add: proxy_content_length_def parse_u64_def parse_unsigned_def starts_with_def is_digit_def)
qed

text \<open>The scheme of a Basic credential is not among the words that redact a text.\<close>

lemma basic_credential_kept:
  "proxy_rejection_body [] ''denied: Basic dTpw'' = ''denied: Basic dTpw''"
  by code_simp

end
