(* ===== verification/Prepare_Props.thy ===== *)
theory Prepare_Props
  imports Prepare
begin

text \<open>
  The correctness of a prepared request (\<open>Prepare\<close>): its length header, its routes and
  its size.
\<close>

lemma finish_Ok:
  assumes "finish_preparation H I U C r t now h0 effective d = Ok p"
  obtains h1 h2 where "apply_content_length H I h0 (rq_body r) = Ok h1" "add_user_agent H C h1 = Ok h2"
    "pr_headers p = (if known_http2 (rq_version r) (ci_http_version_policy C) then strip_h2_forbidden_headers H h2 else h2)"
    "resolve_request_uri I (rq_url r) (rq_transport_hints r) = Ok (pr_uri p)"
    "validate_request_size_uri H I (pr_headers p) (rq_method r) (pr_uri p) = Ok ()"
    "remaining_of now t \<noteq> Some 0" "pr_effective_proxy p = effective" "pr_method p = rq_method r"
  using assms
  by (auto simp: finish_preparation_def Let_def bind_result_Inr simp del: bind_result_simps split: if_splits)

lemma prepare_Ok:
  assumes "prepare_single_request H I U L C r t now acquire = Ok (p, g)"
  obtains h0 effective d where "finish_preparation H I U C r t now h0 effective d = Ok p"
    "check_proxied_target r effective = Ok ()" "check_resolved_target C r effective = Ok ()"
    "check_tls_config C (rq_url r) = Ok ()" "check_custom_dialing C r = Ok ()" "check_pinned_ports r = Ok ()"
  using assms
  by (auto simp: prepare_single_request_def Let_def bind_result_Inr simp del: bind_result_simps)

lemma resolved_target_sane:
  assumes "resolve_request_uri I u hints = Ok v" "th_target hints = Some target"
  shows "validate_target target = Ok ()"
  using assms
  by (auto simp: resolve_request_uri_def apply_target_def bind_result_Inr simp del: bind_result_simps split: sum.splits)

lemma validate_target_printable:
  "validate_target target = Ok () \<Longrightarrow> target \<noteq> [] \<and> list_all (\<lambda>b. 32 \<le> byte b \<and> byte b \<noteq> 127) target
     \<and> hd target \<noteq> CHR '' '' \<and> last target \<noteq> CHR '' ''"
  by (auto simp: validate_target_def list_all_iff list_ex_iff not_less split: if_splits)

subsection \<open>Content-Length\<close>

lemma names_canonical: "canonical_name ''user-agent''" "canonical_name ''accept-encoding''"
  by (simp_all add: canonical_name_def to_ascii_lowercase_def ascii_lower_def)

context http_headers
begin

lemma applied_length:
  assumes "apply_content_length H I h body = Ok h1"
  shows "case known_length body of
      Some n \<Rightarrow> \<exists>v. headers_get H h1 ''content-length'' = Some v \<and> (v = show_nat n \<or> (\<exists>s. hm_to_str H v = Inr s \<and> parse_u64 s = Some n))
    | None \<Rightarrow> headers_get H h1 ''content-length'' = None"
proof -
  obtain sup where s: "supplied_length H I h = Ok sup"
    using assms by (cases "supplied_length H I h") (auto simp: apply_content_length_def)
  have given: "\<exists>v s. headers_get H h ''content-length'' = Some v \<and> hm_to_str H v = Inr s \<and> parse_u64 s = Some n" if "sup = Some n" for n
    using s that by (auto simp: supplied_length_def split: option.splits sum.splits)
  have none: "headers_get H h ''content-length'' = None" if "sup = None"
    using s that by (auto simp: supplied_length_def split: option.splits sum.splits)
  show ?thesis
  proof (cases "known_length body")
    case None
    with assms s none show ?thesis by (auto simp: apply_content_length_def split: if_splits)
  next
    case (Some n)
    show ?thesis
    proof (cases sup)
      case None
      with assms s Some have "headers_insert H h ''content-length'' (show_nat n) = Ok h1"
        by (simp add: apply_content_length_def)
      from headers_insert_view [OF this, of "''content-length''"] Some show ?thesis by (simp add: headers_get_view)
    next
      case (Some m)
      with assms s \<open>known_length body = Some n\<close> have "m = n" "h1 = h"
        by (auto simp: apply_content_length_def split: if_splits)
      with given [OF Some] \<open>known_length body = Some n\<close> show ?thesis by auto
    qed
  qed
qed

lemma user_agent_keeps:
  assumes "add_user_agent H C h = Ok h'" "canonical_name m" "m \<noteq> ''user-agent''"
  shows "headers_get H h' m = headers_get H h m"
proof (cases "h' = h")
  case False
  with assms(1) obtain ua where "headers_insert H h ''user-agent'' ua = Ok h'"
    by (auto simp: add_user_agent_def split: option.splits if_splits)
  from headers_insert_view [OF this names_canonical(1) assms(2)] assms(3) show ?thesis by (simp add: headers_get_view)
qed simp

lemma h2_keeps_length: "headers_get H (strip_h2_forbidden_headers H h) ''content-length'' = headers_get H h ''content-length''"
proof -
  have "''content-length'' \<notin> set h2_forbidden_headers" by (simp add: h2_forbidden_headers_def)
  then show ?thesis using strip_h2_view [of "''content-length''" h] by (simp add: headers_get_view)
qed

end

text \<open>
  C33: the first \<open>Content-Length\<close> of a prepared request is the length of its body, whether
  the program added it or the caller gave it; a body of unknown length has none.
\<close>

theorem content_length_is_body_length:
  assumes "http_headers H" "prepare_single_request H I U L C r t now acquire = Ok (p, g)"
  shows "case known_length (rq_body r) of
      Some n \<Rightarrow> \<exists>v. headers_get H (pr_headers p) ''content-length'' = Some v
        \<and> (v = show_nat n \<or> (\<exists>s. hm_to_str H v = Inr s \<and> parse_u64 s = Some n))
    | None \<Rightarrow> headers_get H (pr_headers p) ''content-length'' = None"
proof -
  from prepare_Ok [OF assms(2)] obtain h0 e d where f: "finish_preparation H I U C r t now h0 e d = Ok p" .
  from finish_Ok [OF f] obtain h1 h2 where h: "apply_content_length H I h0 (rq_body r) = Ok h1" "add_user_agent H C h1 = Ok h2"
    "pr_headers p = (if known_http2 (rq_version r) (ci_http_version_policy C) then strip_h2_forbidden_headers H h2 else h2)" .
  have "headers_get H (pr_headers p) ''content-length'' = headers_get H h1 ''content-length''"
    using http_headers.user_agent_keeps [OF assms(1) h(2)] http_headers.h2_keeps_length [OF assms(1)] h(3) by simp
  with http_headers.applied_length [OF assms(1) h(1)] show ?thesis by (simp split: option.splits)
qed

text \<open>
  A prepared request goes where its caller pinned it: with a resolved destination it
  takes no proxy and no Unix socket, and with a proxied one it takes a proxy that does not
  resolve names itself and is no plain forward proxy.  A target of its own has no
  control character and no space at either end.
\<close>

lemma pinned_routes_respected:
  assumes "prepare_single_request H I U L C r t now acquire = Ok (p, g)"
  shows "(th_resolved_target (rq_transport_hints r) \<noteq> None \<longrightarrow> pr_effective_proxy p = None \<and> \<not> ci_uds_client C)
    \<and> (rq_proxied_target r \<noteq> None \<longrightarrow> th_resolved_target (rq_transport_hints r) = None \<and>
        (\<exists>c. pr_effective_proxy p = Some c \<and> url_scheme (pc_uri c) \<noteq> ''socks5h''
           \<and> (url_scheme (rq_url r) = ''http'' \<longrightarrow> is_socks_scheme (url_scheme (pc_uri c)))))
    \<and> (\<forall>target. th_target (rq_transport_hints r) = Some target \<longrightarrow>
        target \<noteq> [] \<and> list_all (\<lambda>b. 32 \<le> byte b \<and> byte b \<noteq> 127) target \<and> hd target \<noteq> CHR '' '' \<and> last target \<noteq> CHR '' '')"
proof -
  from prepare_Ok [OF assms] obtain h0 e d where f: "finish_preparation H I U C r t now h0 e d = Ok p"
    "check_proxied_target r e = Ok ()" "check_resolved_target C r e = Ok ()" .
  from finish_Ok [OF f(1)] have u: "resolve_request_uri I (rq_url r) (rq_transport_hints r) = Ok (pr_uri p)"
    "pr_effective_proxy p = e" by blast+
  have "th_resolved_target (rq_transport_hints r) \<noteq> None \<Longrightarrow> e = None \<and> \<not> ci_uds_client C"
    using f(3) by (auto simp: check_resolved_target_def split: if_splits)
  moreover have "rq_proxied_target r \<noteq> None \<Longrightarrow> \<exists>c. e = Some c \<and> url_scheme (pc_uri c) \<noteq> ''socks5h''
      \<and> (url_scheme (rq_url r) = ''http'' \<longrightarrow> is_socks_scheme (url_scheme (pc_uri c)))"
    using f(2) by (auto simp: check_proxied_target_def split: option.splits if_splits)
  moreover have "\<And>target. th_target (rq_transport_hints r) = Some target \<Longrightarrow> validate_target target = Ok ()"
    using resolved_target_sane [OF u(1)] by blast
  ultimately show ?thesis using u(2) validate_target_printable by blast
qed

subsection \<open>A prepared request\<close>

definition site_url :: url where
  "site_url = \<lparr>url_scheme = ''https'', url_username = [], url_password = None, url_host_str = Some ''a'',
     url_port = None, url_port_or_known_default = Some 443, url_path = ''/'', url_query = None,
     url_fragment = None, url_as_str = ''https://a/''\<rparr>"

definition text_uris :: "string uri_lib" where
  "text_uris = \<lparr>il_parse = Inr, il_path_and_query = Some, il_parse_path = Some, il_with_path = (\<lambda>u p. Inr p),
     il_show = (\<lambda>u. u), il_int_error = (\<lambda>_. ''invalid digit'')\<rparr>"

definition no_url_lib :: url_lib where
  "no_url_lib = \<lparr>ul_parse = (\<lambda>s. Inl ''relative''), ul_without_userinfo = (\<lambda>u. u), ul_percent_decode = (\<lambda>s. s),
     ul_base64 = (\<lambda>s. s)\<rparr>"

definition no_codecs :: codec_lib where
  "no_codecs = \<lparr>cl_enabled = (\<lambda>_. False), cl_reads = (\<lambda>_ _. []), cl_stream = (\<lambda>_ _. []), cl_show = (\<lambda>_. [])\<rparr>"

definition plain_client :: "header_list client_inner" where
  "plain_client = \<lparr>ci_lifecycle_invalid = False, ci_tls_config_error = None, ci_automatic_decompression = False,
     ci_max_decoded_body_size = None, ci_max_decompression_ratio = None, ci_proxy = None, ci_environment_proxies = [],
     ci_uds_client = False, ci_uds_configured = False, ci_dialer = False, ci_direct_connector_config = False,
     ci_http_version_policy = Auto False, ci_user_agent = Some ''egg'', ci_needs_origin_key = False\<rparr>"

definition pinned_request :: "(header_list, unit) request" where
  "pinned_request = (request_new list_http ''PUT'' site_url)\<lparr>rq_body := BodyBytes ''abc'',
     rq_transport_hints := hints_default\<lparr>th_resolved_target := Some [(V4 1, 443)], th_target := Some ''/x''\<rparr>\<rparr>"

lemma pinned_request_prepared:
  "\<exists>p. prepare_single_request list_http text_uris no_url_lib no_codecs plain_client pinned_request timeout_default (\<lambda>_. 0)
     (\<lambda>_. \<lparr>aq_result = Ok (), aq_expires = (\<lambda>_. False)\<rparr>) = Ok (p, ())"
proof -
  have n: "show_nat (Suc (Suc (Suc 0))) = ''3''" "to_ascii_lowercase ''content-length'' = ''content-length''"
    "to_ascii_lowercase ''user-agent'' = ''user-agent''" "utf8_ok ''/x''" "validate_target ''/x'' = Ok ()" by code_simp+
  have f: "pinned_request = \<lparr>rq_method = ''PUT'', rq_url = site_url, rq_headers = [], rq_body = BodyBytes ''abc'', rq_version = Http11,
      rq_timeout = None, rq_redirect = None, rq_auth = None, rq_auth_disabled = False, rq_decompress = None,
      rq_max_decoded_body_size = None, rq_max_decompression_ratio = None, rq_proxy_override = Inherit,
      rq_retry = None, rq_transport_hints = \<lparr>th_target = Some ''/x'', th_sni_hostname = None, th_resolved_target = Some [(V4 1, 443)],
        th_trace = None\<rparr>, rq_proxied_target = None, rq_failure_context = None\<rparr>"
    by (simp add: pinned_request_def request_new_def list_http_def hints_default_def)
  have ports: "validate_url_effective_port ResolvedDestination site_url [(V4 1, 443)] = Ok ()"
    by (simp add: validate_url_effective_port_Ok site_url_def sock_port_def)
  have h1: "apply_content_length list_http text_uris [] (BodyBytes ''abc'') = Ok [(''content-length'', ''3'')]"
    using n by (simp add: apply_content_length_def supplied_length_def headers_get_def list_http_def headers_insert_def
        validate_header_name_def validate_header_value_def parse_header_name_def parse_header_value_def)
  have h2: "add_user_agent list_http plain_client [(''content-length'', ''3'')] = Ok [(''content-length'', ''3''), (''user-agent'', ''egg'')]"
    using n by (simp add: add_user_agent_def plain_client_def headers_contains_def list_http_def headers_insert_def
        validate_header_name_def validate_header_value_def parse_header_name_def parse_header_value_def)
  have u: "resolve_request_uri text_uris site_url (rq_transport_hints pinned_request) = Ok ''/x''"
    using n by (simp add: f resolve_request_uri_def text_uris_def apply_target_def target_extension_str_def target_path_def
        ok_or_def or_else_def)
  have s: "validate_request_size_uri list_http text_uris [(''content-length'', ''3''), (''user-agent'', ''egg'')] ''PUT'' ''/x'' = Ok ()"
    by (simp add: validate_request_size_uri_def validate_request_size_len_def text_uris_def usize_max_def list_http_def
        request_line_size_def checked_add_def max_request_header_bytes_def)
  have k: "\<not> known_http2 Http11 (Auto False)" by (simp add: known_http2_def)
  have t: "to_total timeout_default = None" "to_pool timeout_default = None" by (simp_all add: timeout_default_def)
  have res: "resolve_proxy no_url_lib None [] site_url Inherit = None"
    by simp
  have c: "check_tls_config plain_client site_url = Ok ()" "ci_lifecycle_invalid plain_client = False"
    "ci_automatic_decompression plain_client = False" "ci_proxy plain_client = None" "ci_environment_proxies plain_client = []"
    "ci_uds_client plain_client = False" "ci_dialer plain_client = False" "ci_needs_origin_key plain_client = False"
    "ci_http_version_policy plain_client = Auto False"
    by (simp_all add: check_tls_config_def plain_client_def)
  show ?thesis
    using h1 h2 u s k t c res ports
    by (simp add: prepare_single_request_def f Let_def check_pinned_ports_def add_accept_encoding_def check_proxied_target_def
        check_resolved_target_def check_custom_dialing_def pool_origin_def acquire_slot_def pool_deadline_def
        finish_preparation_def remaining_of_def)
qed

theorem content_length_is_body_length_witness:
  "\<exists>p. prepare_single_request list_http text_uris no_url_lib no_codecs plain_client pinned_request timeout_default (\<lambda>_. 0)
     (\<lambda>_. \<lparr>aq_result = Ok (), aq_expires = (\<lambda>_. False)\<rparr>) = Ok (p, ())
   \<and> (\<exists>v. headers_get list_http (pr_headers p) ''content-length'' = Some v
        \<and> (v = show_nat 3 \<or> (\<exists>s. hm_to_str list_http v = Inr s \<and> parse_u64 s = Some 3)))"
proof -
  obtain p where p: "prepare_single_request list_http text_uris no_url_lib no_codecs plain_client pinned_request timeout_default (\<lambda>_. 0)
     (\<lambda>_. \<lparr>aq_result = Ok (), aq_expires = (\<lambda>_. False)\<rparr>) = Ok (p, ())" using pinned_request_prepared by blast
  have "known_length (rq_body pinned_request) = Some 3" by (simp add: pinned_request_def)
  with content_length_is_body_length [OF list_headers.http_headers_axioms p] p show ?thesis by auto
qed

text \<open>Only the first \<open>Content-Length\<close> is compared with the body: a second one with another length stays.\<close>

lemma second_content_length_survives:
  "apply_content_length list_http text_uris [(''content-length'', ''3''), (''content-length'', ''7'')] (BodyBytes ''abc'')
    = Ok [(''content-length'', ''3''), (''content-length'', ''7'')]"
proof -
  have "to_ascii_lowercase ''content-length'' = ''content-length''" by code_simp
  then show ?thesis
    by (simp add: apply_content_length_def supplied_length_def headers_get_def list_http_def parse_u64_def parse_unsigned_def
        starts_with_def is_digit_def)
qed

end
