(* ===== verification/Proxy_Props.thy ===== *)
theory Proxy_Props
  imports Proxy_Dispatch Proxy_Framing Prepare_Props
begin

text \<open>
  The correctness of requests through a proxy: what is written, that credentials and
  proxy headers stay out of the tunnel, the framing of a body of unknown length, what a
  response body stream gives, that the two readers of a response head agree, which
  destinations are tried, and the text kept of a rejection.
\<close>

subsection \<open>Operations that only append\<close>

definition appends :: "(tcp_stream \<Rightarrow> 'a \<times> tcp_stream) \<Rightarrow> bool" where
  "appends m \<longleftrightarrow> (\<forall>s. \<exists>ws. ts_written (snd (m s)) = ts_written s @ ws)"

named_theorems appending

lemma appendsI: "(\<And>s. \<exists>ws. ts_written (snd (m s)) = ts_written s @ ws) \<Longrightarrow> appends m"
  by (simp add: appends_def)

lemma appendsD: "appends m \<Longrightarrow> \<exists>ws. ts_written (snd (m s)) = ts_written s @ ws"
  by (simp add: appends_def)

lemma appends_sbind [appending]:
  fixes f :: "'a \<Rightarrow> tcp_stream \<Rightarrow> ('e + 'b) \<times> tcp_stream"
  assumes "appends m" "\<And>x. appends (f x)"
  shows "appends (sbind m f)"
proof (rule appendsI)
  fix s
  obtain r s1 where m: "m s = (r, s1)" by fastforce
  obtain ws where w: "ts_written s1 = ts_written s @ ws" using appendsD [OF assms(1), of s] m by auto
  show "\<exists>ws. ts_written (snd (sbind m f s)) = ts_written s @ ws"
  proof (cases r)
    case (Inr x)
    then show ?thesis using appendsD [OF assms(2), of x s1] m w by (auto simp: sbind_def)
  qed (simp add: sbind_def m w)
qed

lemma appends_sreturn [appending]: "appends (sreturn r)"
  by (simp add: appends_def sreturn_def)

lemma appends_write [appending]: "appends (write_wire d w)"
  by (auto simp: appends_def write_wire_def tick_def split: option.splits)

lemma appends_flush [appending]: "appends flush_wire"
  by (auto simp: appends_def flush_wire_def tick_def split: option.splits)

lemma appends_chunks [appending]: "appends (write_chunks shw chunked evs)"
  by (induction shw chunked evs rule: write_chunks.induct) (auto intro: appending)

lemma appends_body [appending]: "appends (write_proxy_body shw bodies body chunked)"
  by (cases body) (auto intro: appending)

subsection \<open>The first write of a request\<close>

text \<open>The head of a request: its line, then \<open>fs\<close> as header fields, then an empty line.\<close>

definition head_of :: "string \<Rightarrow> (string \<times> string) list \<Rightarrow> string" where
  "head_of line fs = line @ crlf @ concat (map push_header_line fs) @ crlf"

definition sent_fields ::
  "'h http_lib \<Rightarrow> url_lib \<Rightarrow> 'h \<Rightarrow> proxy_auth option \<Rightarrow> 'h \<Rightarrow> (string \<times> string) list \<Rightarrow> bool" where
  "sent_fields H U headers auth proxy_headers fs \<longleftrightarrow>
     filter (\<lambda>(n, v). is_proxy_auth n) fs = auth_field U auth \<and>
     set fs \<subseteq> {f. fst f = ''Host''} \<union> {(''Transfer-Encoding'', ''chunked'')} \<union> set (auth_field U auth)
       \<union> set (hm_iter H headers) \<union> set (hm_iter H proxy_headers)"

lemma host_field_names: "f \<in> set (host_field H U headers uri) \<Longrightarrow> fst f = ''Host''"
  by (auto simp: host_field_def Let_def split: if_splits sum.splits)

lemma is_proxy_auth_fixed:
  "is_proxy_auth ''Proxy-Authorization''" "\<not> is_proxy_auth ''Host''" "\<not> is_proxy_auth ''Transfer-Encoding''"
  by code_simp+

lemma proxy_request_head_fields:
  assumes "proxy_request_head H U meth uri version headers auth phs chunked = Ok head"
  shows "\<exists>fs. head = head_of (proxy_request_line meth uri version) fs \<and> sent_fields H U headers auth phs fs
    \<and> length head \<le> max_request_header_bytes"
proof -
  obtain te where te: "chunked_field H headers phs chunked = Ok te"
    and head: "head = head_of (proxy_request_line meth uri version)
        (host_field H U headers uri @ request_fields H headers phs @ te @ auth_field U auth)"
    and len: "length head \<le> max_request_header_bytes"
    using assms unfolding proxy_request_head_def head_of_def
    by (cases "chunked_field H headers phs chunked") (auto simp: Let_def split: if_splits)
  have te': "te = [] \<or> te = [(''Transfer-Encoding'', ''chunked'')]"
    using te by (auto simp: chunked_field_def split: if_splits option.splits)
  have "filter (\<lambda>(n, v). is_proxy_auth n) (host_field H U headers uri) = []"
    using host_field_names is_proxy_auth_fixed by (force simp: filter_empty_conv)
  moreover have "filter (\<lambda>(n, v). is_proxy_auth n) (request_fields H headers phs) = []"
    by (auto simp: request_fields_def filter_empty_conv)
  moreover have "filter (\<lambda>(n, v). is_proxy_auth n) (auth_field U auth) = auth_field U auth"
    by (cases auth) (simp_all add: is_proxy_auth_fixed)
  moreover have "filter (\<lambda>(n, v). is_proxy_auth n) te = []"
    using te' by (auto simp: is_proxy_auth_fixed)
  ultimately have "sent_fields H U headers auth phs
      (host_field H U headers uri @ request_fields H headers phs @ te @ auth_field U auth)"
    using te' host_field_names by (fastforce simp: sent_fields_def request_fields_def)
  with head len show ?thesis by blast
qed

lemma write_proxy_request_first:
  assumes "write_proxy_request H U shw bodies meth uri version headers auth phs body s = (r, s')"
  shows "ts_written s' = ts_written s \<or>
    (\<exists>fs ws. ts_written s' = ts_written s @ head_of (proxy_request_line meth uri version) fs # ws
       \<and> sent_fields H U headers auth phs fs \<and> length (head_of (proxy_request_line meth uri version) fs) \<le> max_request_header_bytes)"
proof (cases "proxy_request_head H U meth uri version headers auth phs (unknown_length body)")
  case (Inl e)
  with assms show ?thesis by (auto simp: write_proxy_request_def sreturn_def split: if_splits)
next
  case (Inr head)
  let ?rest = "sbind (write_proxy_body shw bodies body (unknown_length body)) (\<lambda>_. flush_wire)"
  from proxy_request_head_fields [OF Inr] obtain fs where fs: "head = head_of (proxy_request_line meth uri version) fs"
    "sent_fields H U headers auth phs fs" "length head \<le> max_request_header_bytes" by blast
  have rest: "appends ?rest" by (intro appending)
  show ?thesis
  proof (cases "ts_write_error s (ts_ops s)")
    case (Some e)
    with assms Inr show ?thesis
      by (auto simp: write_proxy_request_def sreturn_def sbind_def [of "write_wire head _"] write_wire_def tick_def split: if_splits)
  next
    case None
    define t where "t = tick (s\<lparr>ts_written := ts_written s @ [head]\<rparr>)"
    from appendsD [OF rest, of t] obtain ws where "ts_written (snd (?rest t)) = ts_written s @ head # ws"
      by (auto simp: t_def tick_def)
    moreover have "s' = s \<or> s' = snd (?rest t)"
      using assms Inr None
      by (auto simp: write_proxy_request_def sreturn_def sbind_def [of "write_wire head _"] write_wire_def t_def split: if_splits)
    ultimately show ?thesis using fs by blast
  qed
qed

subsection \<open>Which attempts follow one another\<close>

text \<open>An operation whose failures do not lead to another destination.\<close>

definition settles :: "(tcp_stream \<Rightarrow> 'a result \<times> tcp_stream) \<Rightarrow> bool" where
  "settles m \<longleftrightarrow> (\<forall>s e s'. m s = (Inl e, s') \<longrightarrow> \<not> target_failure_may_retry e)"

named_theorems settling

lemma settlesI: "(\<And>s e s'. m s = (Inl e, s') \<Longrightarrow> \<not> target_failure_may_retry e) \<Longrightarrow> settles m"
  by (auto simp: settles_def)

lemma settlesD: "settles m \<Longrightarrow> m s = (Inl e, s') \<Longrightarrow> \<not> target_failure_may_retry e"
  by (auto simp: settles_def)

lemma settles_sbind [settling]: "settles m \<Longrightarrow> (\<And>x. settles (f x)) \<Longrightarrow> settles (sbind m f)"
  by (fastforce simp: settles_def sbind_def split: prod.splits sum.splits)

lemma settles_sreturn [settling]: "(\<And>e. r = Inl e \<Longrightarrow> \<not> target_failure_may_retry e) \<Longrightarrow> settles (sreturn r)"
  by (auto simp: settles_def sreturn_def)

lemma settles_write [settling]: "settles (write_wire d w)"
  by (auto simp: settles_def write_wire_def split: option.splits)

lemma settles_flush [settling]: "settles flush_wire"
  by (auto simp: settles_def flush_wire_def split: option.splits)

lemma settles_chunks [settling]: "settles (write_chunks shw chunked evs)"
  by (induction shw chunked evs rule: write_chunks.induct) (auto intro!: settling)

lemma settles_body [settling]: "settles (write_proxy_body shw bodies body chunked)"
  by (cases body) (auto intro!: settling)

lemma settles_request [settling]:
  "settles (write_proxy_request H U shw bodies meth uri version headers auth phs body)"
proof -
  have "\<not> target_failure_may_retry e" if "proxy_request_head H U meth uri version headers auth phs ch = Inl e" for ch e
    using that by (auto simp: proxy_request_head_def chunked_field_def oversized_head_def Let_def
        split: if_splits option.splits)
  then show ?thesis
    unfolding write_proxy_request_def [abs_def]
    by (auto intro!: settling simp: fun_eq_iff split: sum.splits)
qed

lemma proxy_read_line_error:
  "proxy_read_line e m buf s = (Inl err, s') \<Longrightarrow> \<not> target_failure_may_retry err"
  by (induction e m buf s rule: proxy_read_line.induct)
     (auto simp: line_end_error_def long_line_def split: if_splits peer_end.splits)

lemma proxy_header_line_error: "proxy_header_line line = Inl err \<Longrightarrow> \<not> target_failure_may_retry err"
  by (auto simp: proxy_header_line_def split: option.splits if_splits)

lemma proxy_read_headers_error:
  "proxy_read_headers e hs t s = (Inl err, s') \<Longrightarrow> \<not> target_failure_may_retry err"
proof (induction e hs t s rule: proxy_read_headers.induct)
  case (1 e hs t s)
  obtain q s1 where q: "proxy_read_line e max_header_line_len [] s = (q, s1)" by fastforce
  show ?case
  proof (cases "\<exists>line t' h. q = Inr line \<and> line \<noteq> [] \<and> checked_add t (length line) = Some t'
      \<and> \<not> t' > max_total_header_bytes \<and> \<not> length hs \<ge> max_header_count \<and> proxy_header_line line = Inr h")
    case True
    then obtain line t' h where l: "q = Inr line" "line \<noteq> []" "checked_add t (length line) = Some t'"
      "\<not> t' > max_total_header_bytes" "\<not> length hs \<ge> max_header_count" "proxy_header_line line = Inr h" by blast
    moreover from 1(2) q l have "proxy_read_headers e (hs @ [h]) t' s1 = (Inl err, s')"
      by (subst (asm) proxy_read_headers.simps) simp
    ultimately show ?thesis using 1(1) [OF q [symmetric]] by simp
  next
    case False
    with 1(2) q show ?thesis
      by (subst (asm) proxy_read_headers.simps)
         (auto simp: headers_too_large_def too_many_headers_def dest: proxy_read_line_error proxy_header_line_error
          split: sum.splits if_splits option.splits)
  qed
qed

lemma settles_read_head [settling]: "settles read_response_head"
proof (rule settlesI)
  fix s s' :: tcp_stream and err
  assume "read_response_head s = (Inl err, s')"
  then obtain rest where r: "read_proxy_response (ts_end s) (ts_input s) = (Inl err, rest)"
    by (auto simp: read_response_head_def split: prod.splits)
  have "\<not> target_failure_may_retry x" if "parse_proxy_status l = Inl x" for l x
    using that by (auto simp: parse_proxy_status_def Let_def bind_result_def ok_or_def split: option.splits if_splits)
  with r show "\<not> target_failure_may_retry err"
    by (auto simp: read_proxy_response_def dest: proxy_read_line_error proxy_read_headers_error
        split: prod.splits sum.splits if_splits)
qed

lemma response_header_map_error: "response_header_map H hs h = Inl e \<Longrightarrow> \<not> target_failure_may_retry e"
  by (induction H hs h rule: response_header_map.induct) (auto split: sum.splits)

lemma settles_build [settling]: "settles (build_response H N poll dest h)"
  by (rule settlesI) (auto simp: build_response_def bind_result_def dest: response_header_map_error
      split: if_splits sum.splits)

lemma settles_timed [settling]:
  assumes "settles m"
  shows "settles (timed_phase deadline configured now phase m)"
proof -
  have "\<not> target_failure_may_retry e" if "phase_budget deadline configured now = Inl e" for e
    using that by (auto simp: phase_budget_def bind_result_def split: option.splits if_splits)
  with assms show ?thesis
    by (fastforce simp: settles_def timed_phase_def timed_def split: sum.splits option.splits if_splits)
qed

lemma settles_exchange: "settles (wire_exchange H U shw bodies N ctx now poll dest meth uri version headers auth phs body)"
  unfolding wire_exchange_def by (intro settling)

lemma retried_before_origin:
  fixes a :: "('h, 'r) attempt"
  assumes "send_https_connect_request_once H U shw bodies N ctx now dest meth headers body version c hints t m = (a, m')"
    and "at_result a = Err e" "target_failure_may_retry e"
  shows "at_origin a = None"
proof -
  obtain q ps m1 where q: "establish_https_tunnel H U N dest c hints ctx t now m = (q, ps, m1)"
    by (metis prod_cases3)
  have u: "\<not> target_failure_may_retry x" if "tunnel_uri dest hints = Inl x" for x
    using that by (auto simp: tunnel_uri_def validate_target_def target_extension_str_def bind_result_def
        split: option.splits if_splits)
  have x: "\<not> target_failure_may_retry y"
    if "wire_exchange H U shw bodies N ctx now tls_stream_poll dest meth uri version headers None (hm_empty H) body st
        = (Inl y :: ('h, 'r) body_response result, st')"
    for uri st y st' using settlesD [OF settles_exchange that] .
  show ?thesis
  proof (cases q)
    case (Inl y)
    with assms q show ?thesis by (auto simp: send_https_connect_request_once_def)
  next
    case (Inr st)
    then show ?thesis
      using assms q u x by (auto simp: send_https_connect_request_once_def split: sum.splits prod.splits)
  qed
qed

lemma attempts_in_turn:
  assumes "\<And>i t b m a m' e. once i t b m = (a, m') \<Longrightarrow> at_result a = Err e \<Longrightarrow> target_failure_may_retry e
      \<Longrightarrow> at_origin a = None"
    and "connect_attempts once i ts body le m = (r, as, m')"
  shows "length as \<le> length ts \<and> (as \<noteq> [] \<longrightarrow> r = at_result (last as)) \<and>
    list_all (\<lambda>a. (\<exists>e. at_result a = Err e \<and> target_failure_may_retry e) \<and> at_origin a = None) (butlast as)"
  using assms(2)
proof (induction ts arbitrary: i le m r as m')
  case (Cons t ts)
  show ?case
  proof (cases "if ts = [] then Ok body else try_clone_for_retry body")
    case (Inl e)
    with Cons(2) show ?thesis by simp
  next
    case (Inr b)
    obtain a m1 where a: "once i t b m = (a, m1)" by fastforce
    show ?thesis
    proof (cases "\<exists>e. at_result a = Err e \<and> ts \<noteq> [] \<and> target_failure_may_retry e")
      case True
      then obtain e where e: "at_result a = Err e" "ts \<noteq> []" "target_failure_may_retry e" by blast
      obtain as' where c: "connect_attempts once (Suc i) ts body (Some e) m1 = (r, as', m')" "as = a # as'"
        using Cons(2) Inr a e by (auto split: prod.splits)
      from e(2) obtain t2 ts2 where t2: "ts = t2 # ts2" by (cases ts) auto
      have "try_clone_for_retry body = Ok b" using Inr e(2) by simp
      with c(1) t2 have "as' \<noteq> []"
        by (cases ts2) (auto split: prod.splits sum.splits if_splits)
      with Cons.IH [OF c(1)] c(2) e assms(1) [OF a] show ?thesis by auto
    next
      case False
      with Cons(2) Inr a show ?thesis by (auto split: sum.splits if_splits)
    qed
  qed
qed simp

lemma attempts_one_origin:
  assumes "list_all (\<lambda>a. P a \<and> at_origin a = None) (butlast as)"
  shows "length (filter (\<lambda>a. at_origin a \<noteq> None) as) \<le> 1"
proof (cases as rule: rev_cases)
  case (snoc bs b)
  with assms have "filter (\<lambda>a. at_origin a \<noteq> None) bs = []" by (auto simp: filter_empty_conv list_all_iff)
  with snoc show ?thesis by simp
qed simp

lemma retry_status: "target_failure_may_retry e \<longleftrightarrow> (\<exists>st b. e = ProxyConnectRejected st b \<and> (st = 502 \<or> st = 504))"
  by (cases e) auto

text \<open>
  C29: of the attempts that a tunnelled request makes, at most one has a connection to an
  origin; every attempt that is followed by another one was rejected by the proxy with
  502 or 504 before that, and there are no more attempts than destinations.  The result
  is that of the last attempt.
\<close>

theorem request_reaches_one_origin:
  fixes H :: "'h http_lib" and I :: "'u uri_lib" and pool :: "('u, 'h, 'r) pooled"
  assumes "send_https_connect_request H I U shw bodies N pool ctx now dest meth headers body version c hints m = out"
    and "po_attempts out \<noteq> []"
  shows "po_result out = at_result (last (po_attempts out))
    \<and> length (po_attempts out) \<le> length (connect_targets ctx)
    \<and> length (filter (\<lambda>a. at_origin a \<noteq> None) (po_attempts out)) \<le> 1
    \<and> list_all (\<lambda>a. at_origin a = None \<and> (\<exists>st b. at_result a = Err (ProxyConnectRejected st b) \<and> (st = 502 \<or> st = 504)))
        (butlast (po_attempts out))"
proof -
  let ?once = "\<lambda>i t b. send_https_connect_request_once H U shw bodies (N i) ctx (now i) dest meth headers b version c hints t"
  have "\<not> px_connect_client ctx"
    using assms by (auto simp: send_https_connect_request_def pooled_outcome_def)
  then obtain r as m' where c: "connect_attempts ?once 0 (connect_targets ctx) body None m = (r, as, m')"
    and r: "po_result out = r" "po_attempts out = as"
    using assms(1) by (auto simp: send_https_connect_request_def split: prod.splits)
  have o: "at_origin a = None" if "?once i t b m = (a, m')" "at_result a = Err e" "target_failure_may_retry e" for i t b m a m' e
    by (rule retried_before_origin [OF that])
  have turn: "length as \<le> length (connect_targets ctx) \<and> (as \<noteq> [] \<longrightarrow> r = at_result (last as)) \<and>
      list_all (\<lambda>a. (\<exists>e. at_result a = Err e \<and> target_failure_may_retry e) \<and> at_origin a = None) (butlast as)"
    by (rule attempts_in_turn [OF _ c]) (rule o)
  from turn have b: "list_all (\<lambda>a. (\<exists>e. at_result a = Err e \<and> target_failure_may_retry e) \<and> at_origin a = None) (butlast as)"
    by blast
  with turn r assms(2) attempts_one_origin [OF b] show ?thesis
    by (auto simp: list_all_iff retry_status)
qed

subsection \<open>What enters the tunnel\<close>

lemma attempts_are_once:
  "connect_attempts once i ts body le m = (r, as, m') \<Longrightarrow> a \<in> set as \<Longrightarrow> \<exists>i t b m m'. once i t b m = (a, m')"
proof (induction ts arbitrary: i le m r as m')
  case (Cons t ts)
  show ?case
  proof (cases "if ts = [] then Ok body else try_clone_for_retry body")
    case (Inr b)
    obtain a' m1 where a': "once i t b m = (a', m1)" by fastforce
    with Cons(2,3) Inr show ?thesis
      by (fastforce split: sum.splits if_splits prod.splits dest: Cons.IH)
  qed (use Cons in simp)
qed simp

lemma handshake_fresh:
  assumes "\<And>name t s. pn_origin_tls N name t = Inr s \<Longrightarrow> ts_written s = []"
    and "establish_https_tunnel H U N dest c hints ctx t now m = (Inr s, ps, m')"
  shows "ts_written s = []"
  using assms by (auto simp: establish_https_tunnel_def origin_handshake_def bind_result_def
      split: prod.splits sum.splits option.splits if_splits)

lemma response_not_written:
  "sbind (timed_phase d cf now ph read_response_head) (\<lambda>h. build_response H N poll dest h) s = (r, s')
     \<Longrightarrow> ts_written s' = ts_written s"
  by (auto simp: sbind_def timed_phase_def timed_def tick_def read_response_head_def build_response_def
      split: prod.splits sum.splits option.splits if_splits)

lemma exchange_first:
  assumes "wire_exchange H U shw bodies N ctx now poll dest meth uri version headers auth phs body s = (r, s')"
    and "ts_written s = []"
  shows "ts_written s' = [] \<or> (\<exists>fs ws. ts_written s' = head_of (proxy_request_line meth uri version) fs # ws
    \<and> sent_fields H U headers auth phs fs \<and> length (head_of (proxy_request_line meth uri version) fs) \<le> max_request_header_bytes)"
proof -
  let ?w = "write_proxy_request H U shw bodies meth uri version headers auth phs body"
  obtain q s1 where q: "timed_phase (px_deadline ctx) (px_write_timeout ctx) (now 5) PhaseWrite ?w s = (q, s1)" by fastforce
  have "ts_written s1 = ts_written s \<or> ?w s = (q, s1)"
    using q by (auto simp: timed_phase_def timed_def tick_def split: sum.splits option.splits if_splits)
  then have first: "ts_written s1 = [] \<or> (\<exists>fs ws. ts_written s1 = head_of (proxy_request_line meth uri version) fs # ws
    \<and> sent_fields H U headers auth phs fs \<and> length (head_of (proxy_request_line meth uri version) fs) \<le> max_request_header_bytes)"
    using write_proxy_request_first [of H U shw bodies meth uri version headers auth phs body s q s1] assms(2) by auto
  have "ts_written s' = ts_written s1"
    using assms(1) q response_not_written
    by (cases q) (fastforce simp: wire_exchange_def sbind_def [of "timed_phase _ _ _ PhaseWrite _"])+
  with first show ?thesis by simp
qed

text \<open>
  What a stream to the origin has been sent: nothing, or first one head whose fields are the
  \<open>Host\<close> and \<open>Transfer-Encoding\<close> that the program adds and the caller's own, none of
  them \<open>Proxy-Authorization\<close>.
\<close>

definition callers_head_sent :: "'h http_lib \<Rightarrow> string \<Rightarrow> http_version \<Rightarrow> 'h \<Rightarrow> tcp_stream \<Rightarrow> bool" where
  "callers_head_sent H meth version headers s \<longleftrightarrow>
     ts_written s = [] \<or> (\<exists>uri fs ws. ts_written s = head_of (proxy_request_line meth uri version) fs # ws
       \<and> list_all (\<lambda>(n, v). \<not> is_proxy_auth n
           \<and> (n = ''Host'' \<or> (n, v) = (''Transfer-Encoding'', ''chunked'') \<or> (n, v) \<in> set (hm_iter H headers))) fs
       \<and> length (head_of (proxy_request_line meth uri version) fs) \<le> max_request_header_bytes)"

lemma framed_tunnel_head:
  fixes H :: "'h http_lib" and I :: "'u uri_lib" and pool :: "('u, 'h, 'r) pooled"
  assumes "\<And>i name t s. pn_origin_tls (N i) name t = Inr s \<Longrightarrow> ts_written s = []" "hm_iter H (hm_empty H) = []"
    and "a \<in> set (po_attempts (send_https_connect_request H I U shw bodies N pool ctx now dest meth headers body version c hints m))"
    and "at_origin a = Some s"
  shows "callers_head_sent H meth version headers s"
proof -
  let ?once = "\<lambda>i t b. send_https_connect_request_once H U shw bodies (N i) ctx (now i) dest meth headers b version c hints t"
  obtain r as m1 where "connect_attempts ?once 0 (connect_targets ctx) body None m = (r, as, m1)" "a \<in> set as"
    using assms(3) by (auto simp: send_https_connect_request_def pooled_outcome_def split: if_splits prod.splits)
  from attempts_are_once [OF this] obtain i t b m m' where once: "?once i t b m = (a, m')" by blast
  obtain q ps m1 where q: "establish_https_tunnel H U (N i) dest c hints ctx t (now i) m = (q, ps, m1)"
    by (metis prod_cases3)
  obtain st where st: "q = Inr st" using once q assms(4) by (cases q) (auto simp: send_https_connect_request_once_def)
  have fresh: "ts_written st = []" by (rule handshake_fresh [OF _ q [unfolded st]]) (rule assms(1))
  consider "s = st" | uri r where
      "wire_exchange H U shw bodies (N i) ctx (now i) tls_stream_poll dest meth uri version headers None (hm_empty H) b st
        = (r :: ('h, 'r) body_response result, s)"
    using once q st assms(4) by (auto simp: send_https_connect_request_once_def split: sum.splits prod.splits)
  then show ?thesis
  proof cases
    case 1
    with fresh show ?thesis by (simp add: callers_head_sent_def)
  next
    case 2
    from exchange_first [OF 2 fresh] show ?thesis
      using assms(2) unfolding callers_head_sent_def
      by (fastforce simp: sent_fields_def list_all_iff filter_empty_conv)
  qed
qed

text \<open>
  C28: what a tunnelled request carries to the origin.  On the path that the program frames
  itself (no pooled tunnel client), whatever an attempt wrote to the origin starts with one head of
  the caller's fields and the added \<open>Host\<close> and \<open>Transfer-Encoding\<close>; neither the configured proxy
  credentials, nor a header meant for the proxy, nor a \<open>Proxy-Authorization\<close> of the caller is in it.  On
  the pooled path no stream is written here: the pooled client is handed one request with exactly
  the caller's fields, whatever the proxy configuration holds, so credentials and headers of
  the configuration are not in it, but a \<open>Proxy-Authorization\<close> that the caller set is.
\<close>

theorem tunnel_request_fields:
  fixes H :: "'h http_lib" and I :: "'u uri_lib" and pool :: "('u, 'h, 'r) pooled"
  assumes "\<And>i name t s. pn_origin_tls (N i) name t = Inr s \<Longrightarrow> ts_written s = []" "hm_iter H (hm_empty H) = []"
    and send: "\<And>c. out c = send_https_connect_request H I U shw bodies N pool ctx now dest meth headers body version c hints m"
  shows "if px_connect_client ctx
    then po_attempts (out c) = [] \<and> out c' = out c
      \<and> (case connect_request_of H I dest meth headers body version hints of
           Inl e \<Rightarrow> po_result (out c) = Err e
         | Inr q \<Rightarrow> po_result (out c) = pool ConnectClient q \<and> hq_method q = meth \<and> hq_version q = version
             \<and> hq_headers q = hm_iter H headers \<and> hq_body q = body)
    else list_all (\<lambda>a. case at_origin a of Some s \<Rightarrow> callers_head_sent H meth version headers s | None \<Rightarrow> True)
           (po_attempts (out c))"
proof (cases "px_connect_client ctx")
  case True
  let ?r = "connect_request_of H I dest meth headers body version hints"
  have out: "out c = pooled_outcome (bind_result ?r (pool ConnectClient)) m" for c
    using True by (simp add: send send_https_connect_request_def)
  show ?thesis
  proof (cases ?r)
    case (Inl e)
    with True show ?thesis by (simp add: out pooled_outcome_def)
  next
    case (Inr q)
    then have "hq_method q = meth" "hq_version q = version" "hq_headers q = hm_iter H headers" "hq_body q = body"
      by (cases "tunnel_uri dest hints"; auto simp: connect_request_of_def split: sum.splits)+
    with True Inr show ?thesis by (auto simp: out pooled_outcome_def)
  qed
next
  case False
  have "callers_head_sent H meth version headers s" if "a \<in> set (po_attempts (out c))" "at_origin a = Some s" for a s
    using framed_tunnel_head [where N = N, OF _ assms(2) _ that(2)] assms(1) that(1) unfolding send by blast
  with False show ?thesis by (auto simp: list_all_iff split: option.splits)
qed

subsection \<open>A request over two destinations\<close>

text \<open>
  The proxy answers the first CONNECT with 502 and the second with 200; the origin behind
  the second answers the request.
\<close>

definition peer_stream :: "string \<Rightarrow> tcp_stream" where
  "peer_stream input = idle_stream\<lparr>ts_input := input\<rparr>"

definition bare_head :: "nat \<Rightarrow> connect_head" where
  "bare_head n = \<lparr>ch_status = n, ch_headers = [], ch_reason_phrase = Some ''x''\<rparr>"

definition two_nets :: "nat \<Rightarrow> proxy_net" where
  "two_nets i =
     \<lparr>pn_lookup = (\<lambda>_. Inr [(V4 1, 3128)]),
      pn_tcp = (\<lambda>_. Inr (peer_stream (render_head (bare_head (if i = 0 then 502 else 200))))),
      pn_nodelay_error = (\<lambda>_. None), pn_connect_expires = None, pn_tls_config = (\<lambda>_. Inr ()),
      pn_server_name = Inr, pn_tls = (\<lambda>_ s. Inr s), pn_tls_expires = None,
      pn_origin_tls = (\<lambda>_ _. Inr (peer_stream (render_head (bare_head 204)))), pn_origin_tls_expires = False,
      pn_ahead = (\<lambda>_. 0), pn_arrive = (\<lambda>s _. [])\<rparr>"

definition proxy_conf :: "header_list proxy_config" where
  "proxy_conf = \<lparr>pc_uri = site_url\<lparr>url_scheme := ''http'', url_host_str := Some ''p''\<rparr>, pc_auth = None,
     pc_proxy_headers = [(''x-p'', ''1'')], pc_proxy_tls_config = None, pc_resolved_addresses = None\<rparr>"

definition plain_context :: proxy_context where
  "plain_context = \<lparr>px_remaining_total = None, px_deadline = None, px_connect_timeout = None,
     px_proxy_connect_timeout = None, px_proxy_tls_timeout = None, px_write_timeout = None, px_read_timeout = None,
     px_http_version_policy = Auto False, px_origin_tls_config = None, px_endpoint_tls_config = None,
     px_proxied_target = Some [(V4 1, 443), (V4 2, 443)], px_socks_client = False, px_forward_client = False,
     px_connect_client = False\<rparr>"

definition zero_metrics :: proxy_metrics where
  "zero_metrics = \<lparr>px_attempts = 0, px_failures = 0, px_tls_attempts = 0, px_tls_failures = 0\<rparr>"

lemma bare_head_fits: "n \<in> {200, 204, 502} \<Longrightarrow> head_fits connect_limits_default (bare_head n)"
proof -
  assume n: "n \<in> {200, 204, 502}"
  have "length (show_nat 200) = 3" "length (show_nat 204) = 3" "length (show_nat 502) = 3" by code_simp+
  with n show ?thesis
    by (auto simp: head_fits_def bare_head_def connect_limits_default_def status_line_of_def usize_max_def)
qed

lemma read_bare_head:
  "n \<in> {200, 204, 502} \<Longrightarrow> read_connect_response_head e connect_limits_default (render_head (bare_head n)) = (Inr (bare_head n), [])"
  using read_rendered_head [OF bare_head_fits, of n e "[]"] by (simp add: connect_limits_default_def)

lemma small_nats: "show_nat 0 = ''0''" "show_nat 1 = ''1''" "show_nat (Suc 0) = ''1''" "show_nat 2 = ''2''" "show_nat 443 = ''443''"
  by code_simp+

lemma two_addresses: "show_ipv4 1 = ''0.0.0.1''" "show_ipv4 2 = ''0.0.0.2''"
  using small_nats by (simp_all add: show_ipv4_def)

lemma two_targets:
  "tunnel_target site_url (Some (V4 1, 443)) = Ok \<lparr>ct_host = ''0.0.0.1'', ct_port = 443\<rparr>"
  "tunnel_target site_url (Some (V4 2, 443)) = Ok \<lparr>ct_host = ''0.0.0.2'', ct_port = 443\<rparr>"
proof -
  have "validate_host ''0.0.0.1'' = Inr ()" "validate_host ''0.0.0.2'' = Inr ()" by code_simp+
  then show "tunnel_target site_url (Some (V4 1, 443)) = Ok \<lparr>ct_host = ''0.0.0.1'', ct_port = 443\<rparr>"
    "tunnel_target site_url (Some (V4 2, 443)) = Ok \<lparr>ct_host = ''0.0.0.2'', ct_port = 443\<rparr>"
    using two_addresses
    by (simp_all add: tunnel_target_def site_url_def bind_result_def ok_or_def connect_target_new_def)
qed

lemma two_requests:
  assumes "t = \<lparr>ct_host = ''0.0.0.1'', ct_port = 443\<rparr> \<or> t = \<lparr>ct_host = ''0.0.0.2'', ct_port = 443\<rparr>"
  shows "\<exists>head. encode_connect_request (tunnel_request list_http no_url_lib proxy_conf t) = Inr head"
proof -
  have "check_extra_headers [(''x-p'', ''1'')] 0 = Inr 0" "\<not> is_proxy_auth ''x-p''"
    "length (authority \<lparr>ct_host = ''0.0.0.1'', ct_port = 443\<rparr>) = 11"
    "length (authority \<lparr>ct_host = ''0.0.0.2'', ct_port = 443\<rparr>) = 11"
    by code_simp+
  with assms show ?thesis
    by (auto simp: encode_connect_request_def tunnel_request_def proxy_conf_def list_http_def head_chunks_def
        request_line_of_def Let_def checked_add_def usize_max_def max_request_header_bytes_def)
qed

lemmas net_simps = two_nets_def proxy_conf_def site_url_def plain_context_def zero_metrics_def

lemma two_connected:
  "connect_to_proxy (two_nets i) proxy_conf None None None None now zero_metrics =
     (Ok (peer_stream (render_head (bare_head (if i = 0 then 502 else 200)))), zero_metrics\<lparr>px_attempts := 1\<rparr>)"
  by (simp add: connect_to_proxy_def net_simps proxy_port_def phase_budget_def bind_result_def ok_or_def proxy_addresses_def)

definition sent_head :: string where
  "sent_head = head_of ''GET / HTTP/1.1'' [(''a'', ''b'')]"

definition two_attempts :: "(header_list, unit) proxy_outcome" where
  "two_attempts = send_https_connect_request list_http text_uris no_url_lib (\<lambda>_. []) (\<lambda>_. []) two_nets
     (\<lambda>_ _. Err (Connect [])) plain_context (\<lambda>_ _. 0) site_url ''GET'' [(''a'', ''b''), (''proxy-authorization'', ''c'')] BodyEmpty Http11 proxy_conf
     hints_default zero_metrics"

lemma negotiated:
  assumes "t = \<lparr>ct_host = ''0.0.0.1'', ct_port = 443\<rparr> \<or> t = \<lparr>ct_host = ''0.0.0.2'', ct_port = 443\<rparr>"
    and "n \<in> {200, 204, 502}"
  shows "\<exists>s'. negotiate_tunnel list_http no_url_lib (two_nets i) proxy_conf plain_context now t (peer_stream (render_head (bare_head n)))
    = (if n \<noteq> 200 then Err (ProxyConnectRejected n []) else Ok \<lparr>tn_initial_buf = [], tn_inner = []\<rparr>, s')"
proof -
  obtain head where h: "encode_connect_request (tunnel_request list_http no_url_lib proxy_conf t) = Inr head"
    using two_requests [OF assms(1)] by blast
  have "proxy_rejection_body [] [] = []"
    by code_simp
  then show ?thesis using h read_bare_head [OF assms(2)]
    by (simp add: negotiate_tunnel_def sbind_def timed_phase_def timed_def plain_context_def phase_budget_def bind_result_def
        send_connect_head_def write_wire_def peer_stream_def idle_stream_def tick_def read_connect_head_def
        connect_limits_default_def [symmetric] stream_end_of_def open_tunnel_def two_nets_def bare_head_def)
qed

lemma plain_timed: "timed_phase (px_deadline plain_context) None now ph m = m"
  by (simp add: fun_eq_iff timed_phase_def timed_def phase_budget_def bind_result_def plain_context_def)

lemma sent_fields_example:
  "proxy_request_head list_http no_url_lib ''GET'' ''/'' Http11 [(''a'', ''b''), (''proxy-authorization'', ''c'')] None [] False
     = Ok sent_head"
proof -
  have "is_proxy_auth ''proxy-authorization''" "\<not> is_proxy_auth ''a''" "to_ascii_lowercase ''host'' = ''host''" by code_simp+
  then show ?thesis
    by (simp add: proxy_request_head_def chunked_field_def bind_result_def host_field_def headers_contains_def
        list_http_def no_url_lib_def request_fields_def sent_head_def head_of_def proxy_request_line_def push_header_line_def
        header_line_of_def crlf_def max_request_header_bytes_def)
qed

lemma exchanged:
  "\<exists>r s'. wire_exchange list_http no_url_lib (\<lambda>_. []) (\<lambda>_. []) N plain_context now poll site_url ''GET'' ''/'' Http11
     [(''a'', ''b''), (''proxy-authorization'', ''c'')] None [] BodyEmpty (peer_stream input) = (r, s') \<and> ts_written s' = [sent_head]"
proof -
  have p: "px_write_timeout plain_context = None" "px_read_timeout plain_context = None" by (simp_all add: plain_context_def)
  obtain r rest where "read_proxy_response PeerEof input = (r, rest)" by fastforce
  then show ?thesis
    by (cases r) (simp_all add: wire_exchange_def p plain_timed sbind_def write_proxy_request_def sent_fields_example write_wire_def
        peer_stream_def idle_stream_def tick_def sreturn_def flush_wire_def read_response_head_def build_response_def)
qed

lemma attempt_first:
  "\<exists>m' ps. send_https_connect_request_once list_http no_url_lib (\<lambda>_. []) (\<lambda>_. []) (two_nets 0) plain_context now site_url ''GET''
     hs BodyEmpty Http11 proxy_conf hints_default (Some (V4 1, 443)) zero_metrics
   = (\<lparr>at_result = Err (ProxyConnectRejected 502 []) :: (header_list, unit) body_response result, at_proxy = ps, at_origin = None\<rparr>, m')"
proof -
  have t: "px_proxy_connect_timeout plain_context = None" "px_proxy_tls_timeout plain_context = None"
    "px_deadline plain_context = None" "px_endpoint_tls_config plain_context = None" by (simp_all add: plain_context_def)
  from negotiated [of "\<lparr>ct_host = ''0.0.0.1'', ct_port = 443\<rparr>" 502 0 now] show ?thesis
    by (auto simp: send_https_connect_request_once_def establish_https_tunnel_def t two_connected two_targets)
qed

lemma attempt_second:
  "\<exists>m' ps r s. send_https_connect_request_once list_http no_url_lib (\<lambda>_. []) (\<lambda>_. []) (two_nets (Suc 0)) plain_context now site_url
     ''GET'' [(''a'', ''b''), (''proxy-authorization'', ''c'')] BodyEmpty Http11 proxy_conf hints_default (Some (V4 2, 443)) m
   = (\<lparr>at_result = r :: (header_list, unit) body_response result, at_proxy = ps, at_origin = Some s\<rparr>, m') \<and> ts_written s = [sent_head]"
proof -
  have t: "px_proxy_connect_timeout plain_context = None" "px_proxy_tls_timeout plain_context = None"
    "px_deadline plain_context = None" "px_endpoint_tls_config plain_context = None" by (simp_all add: plain_context_def)
  have c: "connect_to_proxy (two_nets (Suc 0)) proxy_conf None None None None now m =
     (Ok (peer_stream (render_head (bare_head 200))), m\<lparr>px_attempts := Suc (px_attempts m)\<rparr>)"
    by (simp add: connect_to_proxy_def net_simps proxy_port_def phase_budget_def bind_result_def ok_or_def proxy_addresses_def)
  have o: "origin_handshake (two_nets (Suc 0)) plain_context now ''a'' tn = Ok (peer_stream (render_head (bare_head 204)))" for tn
  proof -
    have "tls_server_name (two_nets (Suc 0)) ''a'' = Ok ''a''"
      by (simp add: tls_server_name_def strip_brackets_def starts_with_def two_nets_def Let_def)
    moreover have "pn_tls_config (two_nets (Suc 0)) c = Inr ()" "pn_origin_tls (two_nets (Suc 0)) n t = Inr (peer_stream (render_head (bare_head 204)))"
      for c n t by (simp_all add: two_nets_def)
    ultimately show ?thesis
      by (simp add: origin_handshake_def phase_budget_def bind_result_def plain_context_def)
  qed
  have u: "tunnel_uri site_url hints_default = Ok ''/''" "th_sni_hostname hints_default = None" "url_host_str site_url = Some ''a''"
    by (simp_all add: tunnel_uri_def hints_default_def origin_form_def site_url_def)
  obtain s1 where n: "negotiate_tunnel list_http no_url_lib (two_nets (Suc 0)) proxy_conf plain_context now
      \<lparr>ct_host = ''0.0.0.2'', ct_port = 443\<rparr> (peer_stream (render_head (bare_head 200)))
    = (Ok \<lparr>tn_initial_buf = [], tn_inner = []\<rparr>, s1)"
    using negotiated [of "\<lparr>ct_host = ''0.0.0.2'', ct_port = 443\<rparr>" 200 "Suc 0" now] by auto
  have h: "hm_empty list_http = []" by (simp add: list_http_def)
  obtain r :: "(header_list, unit) body_response result" and s' where
    "wire_exchange list_http no_url_lib (\<lambda>_. []) (\<lambda>_. []) (two_nets (Suc 0)) plain_context now tls_stream_poll site_url ''GET'' ''/'' Http11
     [(''a'', ''b''), (''proxy-authorization'', ''c'')] None [] BodyEmpty (peer_stream (render_head (bare_head 204))) = (r, s')"
    "ts_written s' = [sent_head]"
    using exchanged by blast
  then show ?thesis
    by (auto simp: send_https_connect_request_once_def establish_https_tunnel_def t c two_targets n o u h)
qed

lemma two_attempts_made:
  "\<exists>ps ps' r s. po_attempts two_attempts =
     [\<lparr>at_result = Err (ProxyConnectRejected 502 []), at_proxy = ps, at_origin = None\<rparr>,
      \<lparr>at_result = r, at_proxy = ps', at_origin = Some s\<rparr>] \<and> ts_written s = [sent_head]"
proof -
  obtain m1 ps where a: "send_https_connect_request_once list_http no_url_lib (\<lambda>_. []) (\<lambda>_. []) (two_nets 0) plain_context (\<lambda>_. 0)
      site_url ''GET'' [(''a'', ''b''), (''proxy-authorization'', ''c'')] BodyEmpty Http11 proxy_conf hints_default (Some (V4 1, 443)) zero_metrics
   = (\<lparr>at_result = Err (ProxyConnectRejected 502 []) :: (header_list, unit) body_response result, at_proxy = ps, at_origin = None\<rparr>, m1)"
    using attempt_first by blast
  have c: "px_connect_client plain_context = False" "connect_targets plain_context = [Some (V4 1, 443), Some (V4 2, 443)]"
    by (simp_all add: plain_context_def connect_targets_def)
  from attempt_second [of "\<lambda>_. 0" m1] obtain m2 ps' r s where
    b: "send_https_connect_request_once list_http no_url_lib (\<lambda>_. []) (\<lambda>_. []) (two_nets (Suc 0)) plain_context (\<lambda>_. 0) site_url
     ''GET'' [(''a'', ''b''), (''proxy-authorization'', ''c'')] BodyEmpty Http11 proxy_conf hints_default (Some (V4 2, 443)) m1
   = (\<lparr>at_result = r :: (header_list, unit) body_response result, at_proxy = ps', at_origin = Some s\<rparr>, m2)"
    "ts_written s = [sent_head]" by blast
  show ?thesis
    by (cases r) (simp_all add: two_attempts_def send_https_connect_request_def c a b)
qed

theorem request_reaches_one_origin_witness:
  "length (po_attempts two_attempts) \<le> 2 \<and> length (filter (\<lambda>a. at_origin a \<noteq> None) (po_attempts two_attempts)) \<le> 1
    \<and> po_result two_attempts = at_result (last (po_attempts two_attempts))"
proof -
  have "po_attempts two_attempts \<noteq> []" using two_attempts_made by auto
  from request_reaches_one_origin [OF two_attempts_def [symmetric] this] show ?thesis
    by (simp add: connect_targets_def plain_context_def)
qed

text \<open>
  The same request over the pooled tunnel client, here one that answers with the names of the
  fields it was handed: the caller's \<open>Proxy-Authorization\<close> is among them.
\<close>

definition names_pool :: "(string, header_list, unit) pooled" where
  "names_pool _ q = Err (RequestBuild (concat (map fst (hq_headers q))))"

definition pooled_tunnel_run :: "header_list proxy_config \<Rightarrow> (header_list, unit) proxy_outcome" where
  "pooled_tunnel_run c = send_https_connect_request list_http text_uris no_url_lib (\<lambda>_. []) (\<lambda>_. []) two_nets
     names_pool (plain_context\<lparr>px_connect_client := True\<rparr>) (\<lambda>_ _. 0) site_url ''GET''
     [(''a'', ''b''), (''proxy-authorization'', ''c'')] BodyEmpty Http11 c hints_default zero_metrics"

definition framed_run :: "header_list proxy_config \<Rightarrow> (header_list, unit) proxy_outcome" where
  "framed_run c = send_https_connect_request list_http text_uris no_url_lib (\<lambda>_. []) (\<lambda>_. []) two_nets
     (\<lambda>_ _. Err (Connect [])) plain_context (\<lambda>_ _. 0) site_url ''GET'' [(''a'', ''b''), (''proxy-authorization'', ''c'')] BodyEmpty Http11 c
     hints_default zero_metrics"

lemma handed_to_pool:
  "po_result (pooled_tunnel_run c) = Err (RequestBuild ''aproxy-authorization'')"
  by (simp add: pooled_tunnel_run_def send_https_connect_request_def plain_context_def connect_request_of_def pooled_outcome_def
      tunnel_uri_def hints_default_def origin_form_def site_url_def names_pool_def text_uris_def list_http_def)

theorem tunnel_request_fields_witness:
  "(\<exists>s. at_origin (last (po_attempts two_attempts)) = Some s \<and> ts_written s = [sent_head]
      \<and> callers_head_sent list_http ''GET'' Http11 [(''a'', ''b''), (''proxy-authorization'', ''c'')] s)
   \<and> pooled_tunnel_run (proxy_conf\<lparr>pc_proxy_headers := []\<rparr>) = pooled_tunnel_run proxy_conf
   \<and> po_result (pooled_tunnel_run proxy_conf) = Err (RequestBuild ''aproxy-authorization'')"
proof -
  have fresh: "pn_origin_tls (two_nets i) name t = Inr s \<Longrightarrow> ts_written s = []" for i name t s
    by (auto simp: two_nets_def peer_stream_def idle_stream_def)
  have iter: "hm_iter list_http (hm_empty list_http) = []" by (simp add: list_http_def)
  have direct: "\<not> px_connect_client plain_context" by (simp add: plain_context_def)
  have "list_all (\<lambda>a. case at_origin a of
        Some s \<Rightarrow> callers_head_sent list_http ''GET'' Http11 [(''a'', ''b''), (''proxy-authorization'', ''c'')] s
      | None \<Rightarrow> True) (po_attempts (framed_run proxy_conf))"
    using tunnel_request_fields [where N = two_nets and c = proxy_conf, OF fresh iter framed_run_def] direct by simp
  moreover have "two_attempts = framed_run proxy_conf" by (simp add: two_attempts_def framed_run_def)
  moreover have "pooled_tunnel_run (proxy_conf\<lparr>pc_proxy_headers := []\<rparr>) = pooled_tunnel_run proxy_conf"
    using tunnel_request_fields [where N = two_nets and c = proxy_conf and c' = "proxy_conf\<lparr>pc_proxy_headers := []\<rparr>",
        OF fresh iter pooled_tunnel_run_def] by simp
  ultimately show ?thesis using two_attempts_made handed_to_pool by (auto simp: list_all_iff)
qed

end
