(* ===== verification/Lifecycle.thy ===== *)
theory Lifecycle
  imports Pool Body_Stream
begin

text \<open>
  The admission of physical connections and the inactivity limits of their I/O
  (\<open>transport/lifecycle.rs\<close>), with the counters they keep (\<open>transport/metrics.rs\<close>).  A call
  of the connector is where its future stands; calls interleave at every access to the
  semaphore or to a counter.  The semaphore is the one of \<open>Pool\<close>; what it refuses first is a
  matter of its queue and left open.
\<close>

subsection \<open>Counters\<close>

datatype transport_counter =
  PhysicalAdmissionWaits | PhysicalAdmissionTimeouts | PhysicalConnectionsLive | PhysicalConnectionsHighWater
| TransportReadInactivityTimeouts | TransportWriteInactivityTimeouts
| DirectConnectorAttempts | DirectConnectorSuccesses | DirectConnectorFailures
| DirectDnsAttempts | DirectDnsFailures | DirectTlsAttempts | DirectTlsFailures
| UdsConnectorAttempts | UdsConnectorFailures | ProxyConnectorAttempts | ProxyConnectorFailures
| ProxyTlsAttempts | ProxyTlsFailures | H3ConnectionsCreated | H3CacheEvictions | UpgradedConnectionsCreated
| AltsvcLearned | AltsvcExpired | AltsvcCleared | AltsvcRejected | H3RouteAttempted | H3RouteSuppressed
| H3FallbackSelected | H3DrainObserved | H3Closed | H3Reconnected

datatype h3_route_kind = ExplicitRoute | AltSvcRoute

datatype h3_close_kind = VersionMismatch | TransportError | ConnectionClosed | ApplicationClosed | Reset | TimedOutClose
  | LocallyClosed | CidsExhausted

record h3_close_summary =
  cs_kind :: h3_close_kind
  cs_code :: "nat option"
  cs_graceful :: bool

record h3_connection_diagnostic =
  hd_stable_id :: nat
  hd_remote_address :: socket_addr
  hd_local_ip :: "ip_addr option"
  hd_route :: h3_route_kind
  hd_alt_svc_generation :: "nat option"
  hd_rtt :: duration
  hd_sent_packets :: nat
  hd_received_datagrams :: nat
  hd_lost_packets :: nat
  hd_sent_bytes :: nat
  hd_received_bytes :: nat
  hd_lost_bytes :: nat
  hd_close :: "h3_close_summary option"
  hd_open_streams :: "nat option"

record transport_metrics =
  tm_count :: "transport_counter \<Rightarrow> 64 word"
  tm_h3_diagnostics :: "h3_connection_diagnostic list"

definition metrics_new :: transport_metrics where
  "metrics_new = \<lparr>tm_count = (\<lambda>_. 0), tm_h3_diagnostics = []\<rparr>"

definition inc :: "transport_counter \<Rightarrow> transport_metrics \<Rightarrow> transport_metrics" where
  "inc c m = m\<lparr>tm_count := (tm_count m)(c := tm_count m c + 1)\<rparr>"

fun record_transport_io_timeout :: "transport_io_direction \<Rightarrow> transport_metrics \<Rightarrow> transport_metrics" where
  "record_transport_io_timeout DirRead m = inc TransportReadInactivityTimeouts m"
| "record_transport_io_timeout DirWrite m = inc TransportWriteInactivityTimeouts m"

definition max_h3_diagnostics :: nat where "max_h3_diagnostics = 64"

text \<open>The first snapshot of the same connection is replaced, or the oldest one gives way.\<close>

fun replace_diagnostic ::
  "h3_connection_diagnostic \<Rightarrow> h3_connection_diagnostic list \<Rightarrow> h3_connection_diagnostic list option" where
  "replace_diagnostic d [] = None"
| "replace_diagnostic d (e # es) =
     (if hd_stable_id e = hd_stable_id d then Some (d # es) else map_option (Cons e) (replace_diagnostic d es))"

definition record_h3_diagnostic :: "h3_connection_diagnostic \<Rightarrow> transport_metrics \<Rightarrow> transport_metrics" where
  "record_h3_diagnostic d m =
     (case replace_diagnostic d (tm_h3_diagnostics m) of
        Some ds \<Rightarrow> m\<lparr>tm_h3_diagnostics := ds\<rparr>
      | None \<Rightarrow>
          let ds = tm_h3_diagnostics m
          in m\<lparr>tm_h3_diagnostics := (if length ds \<ge> max_h3_diagnostics then tl ds else ds) @ [d]\<rparr>)"

subsection \<open>The policy\<close>

record physical_connection_policy =
  pp_max_live :: "nat option"
  pp_admission_timeout :: "duration option"

record transport_io_timeout =
  io_read :: "duration option"
  io_write :: "duration option"

record 's lifecycle_config =
  lf_admission :: "'s option"
  lf_admission_timeout :: "duration option"
  lf_io_timeout :: transport_io_timeout
  lf_invalid :: bool

definition lifecycle_from_policy ::
  "'s sem_lib \<Rightarrow> physical_connection_policy \<Rightarrow> transport_io_timeout \<Rightarrow> 's lifecycle_config" where
  "lifecycle_from_policy S p io =
     \<lparr>lf_admission = (case pp_max_live p of None \<Rightarrow> None | Some n \<Rightarrow> if n > 0 then Some (sm_new S n) else None),
      lf_admission_timeout = pp_admission_timeout p, lf_io_timeout = io,
      lf_invalid = (pp_max_live p = Some 0 \<or> pp_max_live p = None \<and> pp_admission_timeout p \<noteq> None)\<rparr>"

definition invalid_physical_policy :: string where
  "invalid_physical_policy = ''invalid physical connection policy: max_live must be greater than zero, and admission_timeout requires max_live''"

definition admission_closed :: error where
  "admission_closed = Pool ''physical connection admission closed''"

subsection \<open>A call of the connector\<close>

text \<open>
  Between the permit and the dialling the counters are brought up to date: the live
  connections are counted, then the high-water mark is raised by compare and exchange.  A
  call that drops its permit counts down first and gives the permit back then.
\<close>

datatype call_outcome = CallFailed error | CallDropped

datatype call_pc =
  Calling | NoPermit | AwaitPermit | PermitAssigned | HavePermit
| Counted "64 word" | Raising "64 word" "64 word"
| Dialling bool | Connected bool
| AdmissionExpired | CountDown call_outcome | ReturnPermit call_outcome | Ended call_outcome

record 's lifecycle_state =
  ls_config :: "'s lifecycle_config"
  ls_metrics :: transport_metrics
  ls_calls :: "call_pc list"

definition lifecycle_new ::
  "'s sem_lib \<Rightarrow> physical_connection_policy \<Rightarrow> transport_io_timeout \<Rightarrow> 's lifecycle_state" where
  "lifecycle_new S p io = \<lparr>ls_config = lifecycle_from_policy S p io, ls_metrics = metrics_new, ls_calls = []\<rparr>"

definition set_call :: "nat \<Rightarrow> call_pc \<Rightarrow> 's lifecycle_state \<Rightarrow> 's lifecycle_state" where
  "set_call i pc st = st\<lparr>ls_calls := (ls_calls st)[i := pc]\<rparr>"

definition set_admission :: "'s \<Rightarrow> 's lifecycle_state \<Rightarrow> 's lifecycle_state" where
  "set_admission s st = st\<lparr>ls_config := (ls_config st)\<lparr>lf_admission := Some s\<rparr>\<rparr>"

definition on_metrics :: "(transport_metrics \<Rightarrow> transport_metrics) \<Rightarrow> 's lifecycle_state \<Rightarrow> 's lifecycle_state" where
  "on_metrics f st = st\<lparr>ls_metrics := f (ls_metrics st)\<rparr>"

abbreviation live_count :: "'s lifecycle_state \<Rightarrow> 64 word" where
  "live_count st \<equiv> tm_count (ls_metrics st) PhysicalConnectionsLive"

abbreviation high_water :: "'s lifecycle_state \<Rightarrow> 64 word" where
  "high_water st \<equiv> tm_count (ls_metrics st) PhysicalConnectionsHighWater"

definition begin_call :: "'s sem_lib \<Rightarrow> nat \<Rightarrow> 's lifecycle_state \<Rightarrow> 's lifecycle_state" where
  "begin_call S i st =
     (if lf_invalid (ls_config st) then set_call i (Ended (CallFailed (Pool invalid_physical_policy))) st
      else (case lf_admission (ls_config st) of
          None \<Rightarrow> set_call i (Dialling False) st
        | Some s \<Rightarrow>
            if sm_closed S s then set_call i (Ended (CallFailed admission_closed)) st
            else (case sm_try_acquire S s of
                Some s' \<Rightarrow> set_call i HavePermit (set_admission s' st)
              | None \<Rightarrow> set_call i NoPermit st)))"

definition await_permit :: "'s sem_lib \<Rightarrow> nat \<Rightarrow> 's lifecycle_state \<Rightarrow> 's lifecycle_state option" where
  "await_permit S i st =
     (case lf_admission (ls_config st) of
        None \<Rightarrow> None
      | Some s \<Rightarrow>
          if sm_closed S s then Some (set_call i (Ended (CallFailed admission_closed)) st)
          else map_option (\<lambda>s'. set_call i PermitAssigned (set_admission s' st)) (sm_try_acquire S s))"

definition release_permit :: "'s sem_lib \<Rightarrow> 's lifecycle_state \<Rightarrow> 's lifecycle_state" where
  "release_permit S st =
     (case lf_admission (ls_config st) of Some s \<Rightarrow> set_admission (sm_release S s) st | None \<Rightarrow> st)"

definition count_live :: "nat \<Rightarrow> 's lifecycle_state \<Rightarrow> 's lifecycle_state" where
  "count_live i st =
     set_call i (Counted (if live_count st = -1 then -1 else live_count st + 1))
       (on_metrics (inc PhysicalConnectionsLive) st)"

text \<open>One turn of the loop that raises the mark; \<open>weak\<close> is a failure without a reason.\<close>

definition raise_high_water :: "bool \<Rightarrow> nat \<Rightarrow> 64 word \<Rightarrow> 64 word \<Rightarrow> 's lifecycle_state \<Rightarrow> 's lifecycle_state" where
  "raise_high_water weak i live seen st =
     (if live \<le> seen then set_call i (Dialling True) st
      else if high_water st = seen \<and> \<not> weak
      then set_call i (Dialling True)
             (on_metrics (\<lambda>m. m\<lparr>tm_count := (tm_count m)(PhysicalConnectionsHighWater := live)\<rparr>) st)
      else set_call i (Raising live (high_water st)) st)"

definition count_down :: "nat \<Rightarrow> call_outcome \<Rightarrow> 's lifecycle_state \<Rightarrow> 's lifecycle_state" where
  "count_down i r st =
     set_call i (ReturnPermit r)
       (on_metrics (\<lambda>m. m\<lparr>tm_count := (tm_count m)(PhysicalConnectionsLive := tm_count m PhysicalConnectionsLive - 1)\<rparr>) st)"

definition let_go :: "bool \<Rightarrow> call_outcome \<Rightarrow> call_pc" where
  "let_go permit r = (if permit then CountDown r else Ended r)"

fun call_step :: "'s sem_lib \<Rightarrow> bool \<Rightarrow> nat \<Rightarrow> call_pc \<Rightarrow> 's lifecycle_state \<Rightarrow> 's lifecycle_state option" where
  "call_step S weak i Calling st = Some (begin_call S i st)"
| "call_step S weak i NoPermit st = Some (set_call i AwaitPermit (on_metrics (inc PhysicalAdmissionWaits) st))"
| "call_step S weak i AwaitPermit st = await_permit S i st"
| "call_step S weak i PermitAssigned st = Some (set_call i HavePermit st)"
| "call_step S weak i HavePermit st = Some (count_live i st)"
| "call_step S weak i (Counted live) st = Some (set_call i (Raising live (high_water st)) st)"
| "call_step S weak i (Raising live seen) st = Some (raise_high_water weak i live seen st)"
| "call_step S weak i (Dialling permit) st = None"
| "call_step S weak i (Connected permit) st = None"
| "call_step S weak i AdmissionExpired st =
     Some (set_call i (Ended (CallFailed (Pool physical_admission_timeout))) (on_metrics (inc PhysicalAdmissionTimeouts) st))"
| "call_step S weak i (CountDown r) st = Some (count_down i r st)"
| "call_step S weak i (ReturnPermit r) st = Some (set_call i (Ended r) (release_permit S st))"
| "call_step S weak i (Ended r) st = None"

text \<open>The admission deadline; a permit that was assigned meanwhile goes back.\<close>

fun call_expire :: "'s sem_lib \<Rightarrow> nat \<Rightarrow> call_pc \<Rightarrow> 's lifecycle_state \<Rightarrow> 's lifecycle_state option" where
  "call_expire S i AwaitPermit st =
     (if lf_admission_timeout (ls_config st) = None then None else Some (set_call i AdmissionExpired st))"
| "call_expire S i PermitAssigned st =
     (if lf_admission_timeout (ls_config st) = None then None else Some (set_call i AdmissionExpired (release_permit S st)))"
| "call_expire S i _ st = None"

text \<open>The inner connector is done, with a connection or an error.\<close>

fun call_dialled :: "error option \<Rightarrow> nat \<Rightarrow> call_pc \<Rightarrow> 's lifecycle_state \<Rightarrow> 's lifecycle_state option" where
  "call_dialled None i (Dialling permit) st = Some (set_call i (Connected permit) st)"
| "call_dialled (Some e) i (Dialling permit) st = Some (set_call i (let_go permit (CallFailed e)) st)"
| "call_dialled r i _ st = None"

text \<open>The future is dropped at an await point, or the connection is.\<close>

fun call_drop :: "'s sem_lib \<Rightarrow> nat \<Rightarrow> call_pc \<Rightarrow> 's lifecycle_state \<Rightarrow> 's lifecycle_state option" where
  "call_drop S i Calling st = Some (set_call i (Ended CallDropped) st)"
| "call_drop S i AwaitPermit st = Some (set_call i (Ended CallDropped) st)"
| "call_drop S i PermitAssigned st = Some (set_call i (Ended CallDropped) (release_permit S st))"
| "call_drop S i (Dialling permit) st = Some (set_call i (let_go permit CallDropped) st)"
| "call_drop S i (Connected permit) st = Some (set_call i (let_go permit CallDropped) st)"
| "call_drop S i _ st = None"

datatype connector_event = Call | Step nat bool | Expire nat | Dialled nat "error option" | DropCall nat

fun lifecycle_event :: "'s sem_lib \<Rightarrow> connector_event \<Rightarrow> 's lifecycle_state \<Rightarrow> 's lifecycle_state option" where
  "lifecycle_event S Call st = Some (st\<lparr>ls_calls := ls_calls st @ [Calling]\<rparr>)"
| "lifecycle_event S (Step i weak) st =
     (if i < length (ls_calls st) then call_step S weak i (ls_calls st ! i) st else None)"
| "lifecycle_event S (Expire i) st =
     (if i < length (ls_calls st) then call_expire S i (ls_calls st ! i) st else None)"
| "lifecycle_event S (Dialled i r) st =
     (if i < length (ls_calls st) then call_dialled r i (ls_calls st ! i) st else None)"
| "lifecycle_event S (DropCall i) st =
     (if i < length (ls_calls st) then call_drop S i (ls_calls st ! i) st else None)"

inductive lifecycle_reachable ::
  "'s sem_lib \<Rightarrow> physical_connection_policy \<Rightarrow> transport_io_timeout \<Rightarrow> 's lifecycle_state \<Rightarrow> bool"
  for S p io where
  lifecycle_init: "lifecycle_reachable S p io (lifecycle_new S p io)"
| lifecycle_next: "lifecycle_reachable S p io st \<Longrightarrow> lifecycle_event S e st = Some st' \<Longrightarrow> lifecycle_reachable S p io st'"

subsection \<open>Inactivity of an established connection\<close>

text \<open>What one I/O operation of the wrapped connection gives: the bytes moved, or its end.\<close>

datatype io_poll = IoPending | IoDone nat | IoFailed string

record io_connection =
  ic_io_timeout :: transport_io_timeout
  ic_read_timer :: "instant option"
  ic_write_timer :: "instant option"

datatype io_result = IoOk nat | IoError string | IoInactive transport_io_direction duration | IoWait

text \<open>
  \<open>poll_timer\<close>: the timer is made when it is first needed, and gone when it fired; the result
  says whether it did.
\<close>

definition poll_timer :: "readings \<Rightarrow> duration option \<Rightarrow> instant option \<Rightarrow> bool \<times> instant option" where
  "poll_timer now limit timer =
     (case limit of
        None \<Rightarrow> (False, timer)
      | Some d \<Rightarrow>
          let t = (case timer of Some t \<Rightarrow> t | None \<Rightarrow> sleep_until_after (now 0) d)
          in if timer_fired (Some t) (now 1) then (True, None) else (False, Some t))"

definition conn_poll_read ::
  "readings \<Rightarrow> nat \<Rightarrow> io_poll \<Rightarrow> io_connection \<Rightarrow> transport_metrics \<Rightarrow> io_result \<times> io_connection \<times> transport_metrics" where
  "conn_poll_read now capacity r c m =
     (case io_read (ic_io_timeout c) of
        None \<Rightarrow> (case r of IoDone n \<Rightarrow> IoOk n | IoFailed e \<Rightarrow> IoError e | IoPending \<Rightarrow> IoWait, c, m)
      | Some d \<Rightarrow>
          if capacity = 0 then (case r of IoDone n \<Rightarrow> IoOk n | IoFailed e \<Rightarrow> IoError e | IoPending \<Rightarrow> IoWait, c, m)
          else (case r of
              IoDone n \<Rightarrow>
                if n > 0 then (IoOk n, c\<lparr>ic_read_timer := None\<rparr>, m)
                else if ic_read_timer c = None then (IoOk 0, c, m)
                else (case poll_timer now (Some d) (ic_read_timer c) of
                    (fired, t) \<Rightarrow>
                      if fired then (IoInactive DirRead d, c\<lparr>ic_read_timer := t\<rparr>, record_transport_io_timeout DirRead m)
                      else (IoOk 0, c\<lparr>ic_read_timer := t\<rparr>, m))
            | IoFailed e \<Rightarrow> (IoError e, c\<lparr>ic_read_timer := None\<rparr>, m)
            | IoPending \<Rightarrow>
                (case poll_timer now (Some d) (ic_read_timer c) of
                   (fired, t) \<Rightarrow>
                     if fired then (IoInactive DirRead d, c\<lparr>ic_read_timer := t\<rparr>, record_transport_io_timeout DirRead m)
                     else (IoWait, c\<lparr>ic_read_timer := t\<rparr>, m))))"

definition write_pending ::
  "readings \<Rightarrow> io_connection \<Rightarrow> transport_metrics \<Rightarrow> io_result \<times> io_connection \<times> transport_metrics" where
  "write_pending now c m =
     (case poll_timer now (io_write (ic_io_timeout c)) (ic_write_timer c) of
        (fired, t) \<Rightarrow>
          if fired
          then (IoInactive DirWrite (case io_write (ic_io_timeout c) of Some d \<Rightarrow> d | None \<Rightarrow> 0), c\<lparr>ic_write_timer := t\<rparr>,
                record_transport_io_timeout DirWrite m)
          else (IoWait, c\<lparr>ic_write_timer := t\<rparr>, m))"

text \<open>A write, plain or vectored, of a buffer that may be empty.\<close>

definition conn_poll_write ::
  "readings \<Rightarrow> nat \<Rightarrow> io_poll \<Rightarrow> io_connection \<Rightarrow> transport_metrics \<Rightarrow> io_result \<times> io_connection \<times> transport_metrics" where
  "conn_poll_write now len r c m =
     (if len = 0 then (case r of IoDone n \<Rightarrow> IoOk n | IoFailed e \<Rightarrow> IoError e | IoPending \<Rightarrow> IoWait, c, m)
      else (case r of
          IoDone n \<Rightarrow> (IoOk n, if n > 0 then c\<lparr>ic_write_timer := None\<rparr> else c, m)
        | IoFailed e \<Rightarrow> (IoError e, c\<lparr>ic_write_timer := None\<rparr>, m)
        | IoPending \<Rightarrow> write_pending now c m))"

text \<open>A flush or a shutdown.\<close>

definition conn_poll_flush ::
  "readings \<Rightarrow> io_poll \<Rightarrow> io_connection \<Rightarrow> transport_metrics \<Rightarrow> io_result \<times> io_connection \<times> transport_metrics" where
  "conn_poll_flush now r c m =
     (case r of
        IoDone n \<Rightarrow> (IoOk n, c\<lparr>ic_write_timer := None\<rparr>, m)
      | IoFailed e \<Rightarrow> (IoError e, c\<lparr>ic_write_timer := None\<rparr>, m)
      | IoPending \<Rightarrow> write_pending now c m)"

end
