(* ===== verification/Lifecycle_Props.thy ===== *)
theory Lifecycle_Props
  imports Lifecycle Pool_Props
begin

text \<open>
  The admission of physical connections keeps its cap under every interleaving, its counters
  tell what the calls hold, and the loop that raises the high-water mark ends.  Then the
  bounded list of HTTP/3 snapshots and the inactivity timers.
\<close>

subsection \<open>Who holds what\<close>

fun holds_permit :: "call_pc \<Rightarrow> bool" where
  "holds_permit PermitAssigned = True"
| "holds_permit HavePermit = True"
| "holds_permit (Counted _) = True"
| "holds_permit (Raising _ _) = True"
| "holds_permit (Dialling p) = p"
| "holds_permit (Connected p) = p"
| "holds_permit (CountDown _) = True"
| "holds_permit (ReturnPermit _) = True"
| "holds_permit _ = False"

fun counts_live :: "call_pc \<Rightarrow> bool" where
  "counts_live (Counted _) = True"
| "counts_live (Raising _ _) = True"
| "counts_live (Dialling p) = p"
| "counts_live (Connected p) = p"
| "counts_live (CountDown _) = True"
| "counts_live _ = False"

fun unadmitted :: "call_pc \<Rightarrow> bool" where
  "unadmitted (Dialling p) \<longleftrightarrow> \<not> p"
| "unadmitted (Connected p) \<longleftrightarrow> \<not> p"
| "unadmitted _ \<longleftrightarrow> False"

fun pending_live :: "call_pc \<Rightarrow> 64 word option" where
  "pending_live (Counted l) = Some l"
| "pending_live (Raising l _) = Some l"
| "pending_live _ = None"

definition permits_held :: "'s lifecycle_state \<Rightarrow> nat" where
  "permits_held st = cnt holds_permit (ls_calls st)"

definition connections_live :: "'s lifecycle_state \<Rightarrow> nat" where
  "connections_live st = cnt counts_live (ls_calls st)"

lemma counts_holds: "counts_live pc \<Longrightarrow> holds_permit pc"
  by (cases pc) auto

lemma live_le_held: "connections_live st \<le> permits_held st"
  unfolding connections_live_def permits_held_def by (rule cnt_mono) (rule counts_holds)

definition life_inv :: "'s sem_lib \<Rightarrow> nat \<Rightarrow> 's lifecycle_state \<Rightarrow> bool" where
  "life_inv S cap st \<longleftrightarrow>
     \<not> lf_invalid (ls_config st)
     \<and> (\<exists>s. lf_admission (ls_config st) = Some s \<and> \<not> sm_closed S s \<and> sm_available S s + permits_held st = cap)
     \<and> live_count st = of_nat (connections_live st) \<and> \<not> list_ex unadmitted (ls_calls st)"

text \<open>A call moves on, and takes from the semaphore and adds to the counter what its new place holds.\<close>

definition life_move :: "'s sem_lib \<Rightarrow> 's lifecycle_state \<Rightarrow> nat \<Rightarrow> call_pc \<Rightarrow> 's lifecycle_state \<Rightarrow> bool" where
  "life_move S st i pc st' \<longleftrightarrow>
     i < length (ls_calls st) \<and> ls_calls st' = (ls_calls st)[i := pc]
     \<and> lf_invalid (ls_config st') = lf_invalid (ls_config st) \<and> (unadmitted pc \<longrightarrow> unadmitted (ls_calls st ! i))
     \<and> rel_option (\<lambda>s s'. sm_closed S s' = sm_closed S s
          \<and> sm_available S s' + of_bool (holds_permit pc) = sm_available S s + of_bool (holds_permit (ls_calls st ! i)))
         (lf_admission (ls_config st)) (lf_admission (ls_config st'))
     \<and> live_count st' + of_bool (counts_live (ls_calls st ! i)) = live_count st + of_bool (counts_live pc)"

lemma life_move_inv:
  assumes "life_inv S cap st" "life_move S st i pc st'"
  shows "life_inv S cap st'"
proof -
  have i: "i < length (ls_calls st)" and calls: "ls_calls st' = (ls_calls st)[i := pc]"
    using assms(2) by (simp_all add: life_move_def)
  obtain s where s: "lf_admission (ls_config st) = Some s" "\<not> sm_closed S s" "sm_available S s + permits_held st = cap"
    using assms(1) by (auto simp: life_inv_def)
  obtain s' where s': "lf_admission (ls_config st') = Some s'" "\<not> sm_closed S s'"
    "sm_available S s' + of_bool (holds_permit pc) = sm_available S s + of_bool (holds_permit (ls_calls st ! i))"
    using assms(2) s by (cases "lf_admission (ls_config st')") (auto simp: life_move_def)
  have "permits_held st' + of_bool (holds_permit (ls_calls st ! i)) = permits_held st + of_bool (holds_permit pc)"
    using cnt_update [OF i, of holds_permit pc] by (simp add: permits_held_def calls)
  then have "sm_available S s' + permits_held st' = cap" using s(3) s'(3) by linarith
  moreover have "live_count st' = of_nat (connections_live st')"
  proof -
    have "of_nat (connections_live st' + of_bool (counts_live (ls_calls st ! i))) =
        (of_nat (connections_live st + of_bool (counts_live pc)) :: 64 word)"
      using cnt_update [OF i, of counts_live pc] by (simp add: connections_live_def calls)
    then have "of_nat (connections_live st') + of_bool (counts_live (ls_calls st ! i)) =
        of_nat (connections_live st) + (of_bool (counts_live pc) :: 64 word)"
      by (simp only: of_nat_add of_nat_of_bool)
    also have "\<dots> = live_count st + of_bool (counts_live pc)"
      using assms(1) by (simp only: life_inv_def)
    also have "\<dots> = live_count st' + of_bool (counts_live (ls_calls st ! i))"
      using assms(2) by (simp only: life_move_def)
    finally show ?thesis by (simp only: add_right_cancel)
  qed
  moreover have "\<not> list_ex unadmitted (ls_calls st')"
    using assms i by (auto simp: life_inv_def life_move_def list_ex_iff dest!: set_update_subset_insert [THEN subsetD])
  ultimately show ?thesis using s' assms by (simp add: life_inv_def life_move_def)
qed

lemmas life_ops = set_call_def set_admission_def on_metrics_def inc_def release_permit_def count_live_def
  raise_high_water_def count_down_def let_go_def begin_call_def await_permit_def

inductive_cases lifecycle_stepE: "lifecycle_reachable S p io st"

context semaphore
begin

lemma call_step_moves:
  assumes "call_step S weak i (ls_calls st ! i) st = Some st'" "i < length (ls_calls st)"
    "\<not> lf_invalid (ls_config st)" "lf_admission (ls_config st) = Some s" "\<not> sm_closed S s"
  shows "\<exists>pc. life_move S st i pc st'"
  using assms
  by (cases "ls_calls st ! i")
    (auto simp: life_move_def life_ops release_available release_closed split: option.splits if_splits
      dest!: acquire_some)

lemma call_expire_moves:
  assumes "call_expire S i (ls_calls st ! i) st = Some st'" "i < length (ls_calls st)"
    "lf_admission (ls_config st) = Some s"
  shows "\<exists>pc. life_move S st i pc st'"
  using assms
  by (cases "ls_calls st ! i")
    (auto simp: life_move_def life_ops release_available release_closed split: option.splits if_splits)

lemma call_dialled_moves:
  assumes "call_dialled r i (ls_calls st ! i) st = Some st'" "i < length (ls_calls st)"
    "lf_admission (ls_config st) = Some s"
  shows "\<exists>pc. life_move S st i pc st'"
  using assms
  by (cases "ls_calls st ! i"; cases r) (auto simp: life_move_def life_ops)

lemma call_drop_moves:
  assumes "call_drop S i (ls_calls st ! i) st = Some st'" "i < length (ls_calls st)"
    "lf_admission (ls_config st) = Some s"
  shows "\<exists>pc. life_move S st i pc st'"
  using assms
  by (cases "ls_calls st ! i")
    (auto simp: life_move_def life_ops release_available release_closed split: option.splits if_splits)

lemmas moves = call_step_moves call_expire_moves call_dialled_moves call_drop_moves

lemma event_moves:
  assumes "lifecycle_event S e st = Some st'" "life_inv S cap st" "e \<noteq> Call"
  shows "\<exists>i pc. life_move S st i pc st'"
proof -
  obtain s where "lf_admission (ls_config st) = Some s" "\<not> sm_closed S s" "\<not> lf_invalid (ls_config st)"
    using assms(2) by (auto simp: life_inv_def)
  with assms(1,3) show ?thesis
    by (cases e; simp split: if_split_asm) (blast dest: moves)+
qed

lemma life_inv_call: "life_inv S cap st \<Longrightarrow> life_inv S cap (st\<lparr>ls_calls := ls_calls st @ [Calling]\<rparr>)"
  by (auto simp: life_inv_def permits_held_def connections_live_def)

lemma life_inv_event: "lifecycle_event S e st = Some st' \<Longrightarrow> life_inv S cap st \<Longrightarrow> life_inv S cap st'"
  by (cases "e = Call") (auto simp: life_inv_call dest: event_moves life_move_inv)

lemma life_inv_reachable:
  assumes "lifecycle_reachable S p io st" "pp_max_live p = Some cap" "0 < cap"
  shows "life_inv S cap st"
  using assms
proof induction
  case lifecycle_init
  then show ?case
    by (simp add: life_inv_def lifecycle_new_def lifecycle_from_policy_def metrics_new_def available_new closed_new
        permits_held_def connections_live_def)
qed (auto dest: life_inv_event)

end

lemma life_inv_bounds:
  assumes "life_inv S cap st" "cap < 2 ^ 64"
  shows "connections_live st \<le> cap" "unat (live_count st) = connections_live st"
proof -
  show le: "connections_live st \<le> cap" using assms live_le_held [of st] by (auto simp: life_inv_def)
  then have "connections_live st < 2 ^ LENGTH(64)" using assms(2) by simp
  then show "unat (live_count st) = connections_live st"
    using assms by (simp add: life_inv_def unat_of_nat take_bit_nat_eq_self)
qed

subsection \<open>The high-water mark\<close>

text \<open>A reachable state with the greatest number of live connections up to it.\<close>

inductive lifecycle_peak ::
  "'s sem_lib \<Rightarrow> physical_connection_policy \<Rightarrow> transport_io_timeout \<Rightarrow> 's lifecycle_state \<Rightarrow> nat \<Rightarrow> bool"
  for S p io where
  peak_init: "lifecycle_peak S p io (lifecycle_new S p io) 0"
| peak_next: "lifecycle_peak S p io st k \<Longrightarrow> lifecycle_event S e st = Some st' \<Longrightarrow>
    lifecycle_peak S p io st' (max k (connections_live st'))"

lemma peak_reachable: "lifecycle_peak S p io st k \<Longrightarrow> lifecycle_reachable S p io st"
  by (induction rule: lifecycle_peak.induct) (auto intro: lifecycle_reachable.intros)

text \<open>A value that is on its way to the mark may be missing there, and nothing else.\<close>

definition mark_inv :: "'s lifecycle_state \<Rightarrow> nat \<Rightarrow> bool" where
  "mark_inv st k \<longleftrightarrow>
     connections_live st \<le> k \<and> unat (high_water st) \<le> k
     \<and> (\<forall>i<length (ls_calls st). \<forall>l. pending_live (ls_calls st ! i) = Some l \<longrightarrow> unat l \<le> k)
     \<and> (\<forall>i<length (ls_calls st). \<forall>l h. ls_calls st ! i = Raising l h \<longrightarrow> unat h \<le> unat (high_water st))
     \<and> (k \<le> unat (high_water st) \<or> (\<exists>i<length (ls_calls st). \<exists>l. pending_live (ls_calls st ! i) = Some l \<and> k \<le> unat l))"

lemma mark_call: "mark_inv st k \<Longrightarrow> mark_inv (st\<lparr>ls_calls := ls_calls st @ [Calling]\<rparr>) k"
  by (auto simp: mark_inv_def connections_live_def nth_append less_Suc_eq)

lemma mark_same:
  assumes "mark_inv st k" "i < length (ls_calls st)" "ls_calls st' = (ls_calls st)[i := pc]"
    "pending_live pc = pending_live (ls_calls st ! i)" "high_water st' = high_water st"
    "counts_live pc \<longrightarrow> counts_live (ls_calls st ! i)"
    "\<And>l h. pc = Raising l h \<Longrightarrow> unat h \<le> unat (high_water st)"
  shows "mark_inv st' k"
proof -
  have "connections_live st' \<le> connections_live st"
    using cnt_update [OF assms(2), of counts_live pc] assms(3,6)
    by (auto simp: connections_live_def of_bool_def split: if_splits)
  moreover have "pending_live (ls_calls st' ! j) = pending_live (ls_calls st ! j)" if "j < length (ls_calls st)" for j
    using that assms(3-4) by (cases "j = i") simp_all
  moreover have "unat h \<le> unat (high_water st)" if "j < length (ls_calls st)" "ls_calls st' ! j = Raising l h" for j l h
    using that assms(1,3,7) by (cases "j = i") (simp_all add: mark_inv_def)
  ultimately show ?thesis using assms(1,3,5) by (auto simp: mark_inv_def)
qed

lemma mark_load:
  assumes "mark_inv st k" "i < length (ls_calls st)" "ls_calls st ! i = Counted l"
  shows "mark_inv (set_call i (Raising l (high_water st)) st) k"
  using assms(1,2) by (rule mark_same) (auto simp: set_call_def assms(3))

lemma mark_counted:
  assumes "mark_inv st k" "i < length (ls_calls st)" "ls_calls st ! i = HavePermit"
    "unat (live_count st) = connections_live st" "connections_live st < 2 ^ 64 - 1"
  shows "mark_inv (count_live i st) (max k (connections_live (count_live i st)))"
proof -
  let ?l = "live_count st + 1" and ?st = "count_live i st"
  have "unat (-1 :: 64 word) = 2 ^ 64 - 1" by (simp add: unsigned_minus_1_eq_mask mask_eq_exp_minus_1)
  then have top: "live_count st \<noteq> -1" using assms(4,5) by auto
  then have l: "unat ?l = Suc (connections_live st)" using assms(4) unatSuc [of "live_count st"] top
    by (simp add: add.commute add_eq_0_iff)
  have calls: "ls_calls ?st = (ls_calls st)[i := Counted ?l]" and hw: "high_water ?st = high_water st"
    using top by (simp_all add: count_live_def set_call_def on_metrics_def inc_def)
  have live: "connections_live ?st = Suc (connections_live st)"
    using cnt_update [OF assms(2), of counts_live "Counted ?l"] assms(3) by (simp add: connections_live_def calls)
  have others: "pending_live (ls_calls ?st ! j) = (if j = i then Some ?l else pending_live (ls_calls st ! j))"
    if "j < length (ls_calls st)" for j
    using that by (simp add: calls nth_list_update)
  have raising: "j \<noteq> i \<and> ls_calls st ! j = Raising l' h" if "j < length (ls_calls st)" "ls_calls ?st ! j = Raising l' h" for j l' h
    using that by (cases "j = i") (simp_all add: calls)
  have len: "length (ls_calls ?st) = length (ls_calls st)" by (simp add: calls)
  show ?thesis
  proof (cases "k \<le> Suc (connections_live st)")
    case True
    then have "max k (connections_live ?st) = unat ?l" by (simp add: live l)
    moreover have "unat (high_water st) \<le> unat ?l" "\<And>j l'. j < length (ls_calls st) \<Longrightarrow>
        pending_live (ls_calls st ! j) = Some l' \<Longrightarrow> unat l' \<le> unat ?l"
      using assms(1) True unfolding mark_inv_def l by (meson order_trans)+
    ultimately show ?thesis
      using assms(1,2) others raising
      unfolding mark_inv_def len hw live by (auto simp: l split: if_splits)
  next
    case False
    then have k: "max k (connections_live ?st) = k" by (simp add: live)
    have "k \<le> unat (high_water st) \<or> (\<exists>j<length (ls_calls st). \<exists>l'. pending_live (ls_calls st ! j) = Some l' \<and> k \<le> unat l')"
      using assms(1) by (simp add: mark_inv_def)
    moreover have "pending_live (ls_calls ?st ! j) = pending_live (ls_calls st ! j)"
      if "j < length (ls_calls st)" "pending_live (ls_calls st ! j) = Some l'" for j l'
      using that assms(3) by (auto simp: others)
    ultimately have "k \<le> unat (high_water st) \<or> (\<exists>j<length (ls_calls st). \<exists>l'. pending_live (ls_calls ?st ! j) = Some l' \<and> k \<le> unat l')"
      by metis
    with False assms(1) others raising show ?thesis
      unfolding mark_inv_def len hw live k [unfolded live] by (auto simp: l split: if_splits)
  qed
qed

lemma mark_raise:
  assumes "mark_inv st k" "i < length (ls_calls st)" "ls_calls st ! i = Raising l h"
  shows "mark_inv (raise_high_water weak i l h st) k"
proof -
  let ?st = "raise_high_water weak i l h st"
  have h: "unat h \<le> unat (high_water st)" "unat l \<le> k" using assms by (auto simp: mark_inv_def)
  have live: "connections_live ?st = connections_live st"
    using cnt_update [OF assms(2), of counts_live "Dialling True"]
      cnt_update [OF assms(2), of counts_live "Raising l (high_water st)"] assms(3)
    by (simp add: raise_high_water_def connections_live_def set_call_def on_metrics_def)
  show ?thesis
  proof (cases "l \<le> h \<or> high_water st = h \<and> \<not> weak")
    case True
    let ?hw = "if l \<le> h then high_water st else l"
    have calls: "ls_calls ?st = (ls_calls st)[i := Dialling True]" and hw: "high_water ?st = ?hw"
      using True by (auto simp: raise_high_water_def set_call_def on_metrics_def)
    have up: "unat (high_water st) \<le> unat ?hw" "unat l \<le> unat ?hw" "unat ?hw \<le> k"
      using True h assms(1) by (auto simp: word_le_nat_alt mark_inv_def)
    have "k \<le> unat ?hw \<or> (\<exists>j<length (ls_calls st). \<exists>l'. j \<noteq> i \<and> pending_live (ls_calls st ! j) = Some l' \<and> k \<le> unat l')"
      using assms(1) up(1,2) assms(3) unfolding mark_inv_def by (metis option.inject order_trans pending_live.simps(2))
    moreover have "pending_live (ls_calls ?st ! j) = (if j = i then None else pending_live (ls_calls st ! j))"
      if "j < length (ls_calls st)" for j
      using that by (simp add: calls nth_list_update)
    moreover have "ls_calls st ! j = Raising l' h'" if "j < length (ls_calls st)" "ls_calls ?st ! j = Raising l' h'" for j l' h'
      using that by (cases "j = i") (simp_all add: calls)
    moreover have "unat h' \<le> unat ?hw" if "j < length (ls_calls st)" "ls_calls st ! j = Raising l' h'" for j l' h'
      using assms(1) that up(1) unfolding mark_inv_def by (meson order_trans)
    moreover have "length (ls_calls ?st) = length (ls_calls st)" by (simp add: calls)
    ultimately show ?thesis
      using assms(1) up(3) unfolding mark_inv_def live hw by (auto split: if_split_asm)
  next
    case False
    then have st: "?st = set_call i (Raising l (high_water st)) st" by (auto simp: raise_high_water_def)
    show ?thesis unfolding st
      using assms(1,2) by (rule mark_same) (auto simp: set_call_def assms(3))
  qed
qed

text \<open>What an event does to the mark: nothing but in the counting of a call and the raising.\<close>

definition quiet_move :: "'s lifecycle_state \<Rightarrow> nat \<Rightarrow> 's lifecycle_state \<Rightarrow> bool" where
  "quiet_move st i st' \<longleftrightarrow>
     (\<exists>pc. ls_calls st' = (ls_calls st)[i := pc] \<and> pending_live pc = None \<and> high_water st' = high_water st
        \<and> (counts_live pc \<longrightarrow> counts_live (ls_calls st ! i)))"

lemma mark_quiet:
  assumes "quiet_move st i st'" "mark_inv st k" "i < length (ls_calls st)" "pending_live (ls_calls st ! i) = None"
  shows "mark_inv st' k"
proof -
  obtain pc where pc: "ls_calls st' = (ls_calls st)[i := pc]" "pending_live pc = None" "high_water st' = high_water st"
    "counts_live pc \<longrightarrow> counts_live (ls_calls st ! i)"
    using assms(1) by (auto simp: quiet_move_def)
  show ?thesis
    by (rule mark_same [OF assms(2,3) pc(1)]) (use pc assms(4) in auto)
qed

lemma call_step_quiet:
  "call_step S weak i pc st = Some st' \<Longrightarrow> ls_calls st ! i = pc \<Longrightarrow> pending_live pc = None \<Longrightarrow> pc \<noteq> HavePermit
    \<Longrightarrow> quiet_move st i st'"
  by (cases pc) (force simp: quiet_move_def life_ops split: option.splits if_splits)+

lemma call_expire_quiet:
  "call_expire S i pc st = Some st' \<Longrightarrow> ls_calls st ! i = pc \<Longrightarrow> quiet_move st i st' \<and> pending_live pc = None"
  by (cases pc) (force simp: quiet_move_def life_ops split: option.splits if_splits)+

lemma call_dialled_quiet:
  "call_dialled r i pc st = Some st' \<Longrightarrow> ls_calls st ! i = pc \<Longrightarrow> quiet_move st i st' \<and> pending_live pc = None"
  by (cases pc; cases r) (force simp: quiet_move_def life_ops split: option.splits if_splits)+

lemma call_drop_quiet:
  "call_drop S i pc st = Some st' \<Longrightarrow> ls_calls st ! i = pc \<Longrightarrow> quiet_move st i st' \<and> pending_live pc = None"
  by (cases pc) (force simp: quiet_move_def life_ops split: option.splits if_splits)+

lemma mark_step:
  assumes "lifecycle_event S e st = Some st'" "mark_inv st k"
    "unat (live_count st) = connections_live st" "connections_live st < 2 ^ 64 - 1"
  shows "mark_inv st' (max k (connections_live st'))"
proof -
  have absorb: "mark_inv st' (max k (connections_live st'))" if "mark_inv st' k"
  proof -
    have "max k (connections_live st') = k" using that by (simp add: mark_inv_def)
    with that show ?thesis by simp
  qed
  show ?thesis
  proof (cases e)
    case Call
    then show ?thesis using assms by (intro absorb) (auto intro: mark_call)
  next
    case (Step i weak)
    then have i: "i < length (ls_calls st)" "call_step S weak i (ls_calls st ! i) st = Some st'"
      using assms(1) by (simp_all split: if_splits)
    show ?thesis
    proof (cases "pending_live (ls_calls st ! i) = None \<and> ls_calls st ! i \<noteq> HavePermit")
      case True
      have "quiet_move st i st'" by (rule call_step_quiet [OF i(2) refl]) (use True in simp_all)
      from mark_quiet [OF this assms(2) i(1)] True show ?thesis by (intro absorb) simp
    next
      case False
      then consider "ls_calls st ! i = HavePermit" | l where "ls_calls st ! i = Counted l" | l h where "ls_calls st ! i = Raising l h"
        by (cases "ls_calls st ! i") auto
      then show ?thesis
      proof cases
        case 1
        then have "st' = count_live i st" using i by simp
        then show ?thesis using mark_counted [OF assms(2) i(1) 1 assms(3,4)] by simp
      next
        case 2
        then show ?thesis using i assms(2) by (intro absorb) (auto intro: mark_load)
      next
        case 3
        then show ?thesis using i assms(2) by (intro absorb) (auto intro: mark_raise)
      qed
    qed
  next
    case (Expire i)
    with assms(1) have i: "i < length (ls_calls st)" "call_expire S i (ls_calls st ! i) st = Some st'"
      by (simp_all split: if_splits)
    from call_expire_quiet [OF i(2) refl] mark_quiet [OF _ assms(2) i(1)] show ?thesis by (intro absorb) blast
  next
    case (Dialled i r)
    with assms(1) have i: "i < length (ls_calls st)" "call_dialled r i (ls_calls st ! i) st = Some st'"
      by (simp_all split: if_splits)
    from call_dialled_quiet [OF i(2) refl] mark_quiet [OF _ assms(2) i(1)] show ?thesis by (intro absorb) blast
  next
    case (DropCall i)
    with assms(1) have i: "i < length (ls_calls st)" "call_drop S i (ls_calls st ! i) st = Some st'"
      by (simp_all split: if_splits)
    from call_drop_quiet [OF i(2) refl] mark_quiet [OF _ assms(2) i(1)] show ?thesis by (intro absorb) blast
  qed
qed

lemma mark_inv_peak:
  assumes "semaphore S" "lifecycle_peak S p io st k" "pp_max_live p = Some cap" "0 < cap" "cap < 2 ^ 61"
  shows "mark_inv st k \<and> k \<le> cap"
  using assms(2)
proof induction
  case peak_init
  then show ?case
    by (simp add: mark_inv_def lifecycle_new_def metrics_new_def connections_live_def)
next
  case (peak_next st k e st')
  have inv: "life_inv S cap st" "life_inv S cap st'"
    using semaphore.life_inv_reachable [OF assms(1) _ assms(3,4)] peak_reachable lifecycle_peak.peak_next peak_next.hyps
    by metis+
  have cap: "cap < 2 ^ 64" using assms(5) by simp
  show ?case
    using mark_step [OF peak_next.hyps(2)] peak_next.IH life_inv_bounds [OF inv(1) cap] life_inv_bounds [OF inv(2) cap] assms(5)
    by simp
qed

subsection \<open>What the cap promises\<close>

text \<open>
  C16: With a cap on the physical connections, every call that dials or has a connection is in
  the live counter, permits and calls add up to the cap, so that never more connections than
  the cap are live; a call waits only while every permit is held.  The cap is below the most
  permits a semaphore of the runtime takes.
\<close>

theorem live_connections_bounded:
  assumes "semaphore S" "lifecycle_reachable S p io st" "pp_max_live p = Some cap" "0 < cap" "cap < 2 ^ 61"
  shows "cnt (\<lambda>pc. \<exists>b. pc = Dialling b \<or> pc = Connected b) (ls_calls st) \<le> unat (live_count st)
    \<and> unat (live_count st) \<le> cap
    \<and> (\<exists>s. lf_admission (ls_config st) = Some s \<and> sm_available S s + cnt holds_permit (ls_calls st) = cap)
    \<and> (\<forall>i. i < length (ls_calls st) \<and> ls_calls st ! i = AwaitPermit \<and> lifecycle_event S (Step i weak) st = None
          \<longrightarrow> cnt holds_permit (ls_calls st) = cap)"
proof -
  have inv: "life_inv S cap st" by (rule semaphore.life_inv_reachable [OF assms(1,2,3,4)])
  have "cap < 2 ^ 64" using assms(5) by simp
  note bounds = life_inv_bounds [OF inv this]
  obtain s where s: "lf_admission (ls_config st) = Some s" "\<not> sm_closed S s" "sm_available S s + permits_held st = cap"
    using inv by (auto simp: life_inv_def)
  have "cnt (\<lambda>pc. \<exists>b. pc = Dialling b \<or> pc = Connected b) (ls_calls st) \<le> connections_live st"
    unfolding connections_live_def
  proof (rule cnt_mono)
    fix pc assume "pc \<in> set (ls_calls st)" "\<exists>b. pc = Dialling b \<or> pc = Connected b"
    moreover have "\<not> unadmitted pc" using inv calculation(1) by (auto simp: life_inv_def list_ex_iff)
    ultimately show "counts_live pc" by auto
  qed
  moreover have "permits_held st = cap"
    if "i < length (ls_calls st)" "ls_calls st ! i = AwaitPermit" "lifecycle_event S (Step i weak) st = None" for i
    using that s semaphore.acquire_none [OF assms(1)] by (auto simp: await_permit_def)
  ultimately show ?thesis using bounds s by (auto simp: permits_held_def)
qed

text \<open>
  C17: Whenever no call is between counting itself and raising the mark, the high-water mark is
  exactly the greatest number of connections that were live at once, whatever interleaving of
  counting, comparing and exchanging led there; it is never above the cap.
\<close>

theorem high_water_is_peak:
  assumes "semaphore S" "lifecycle_peak S p io st k" "pp_max_live p = Some cap" "0 < cap" "cap < 2 ^ 61"
  shows "unat (high_water st) \<le> k \<and> k \<le> cap
    \<and> (list_all (\<lambda>pc. pending_live pc = None) (ls_calls st) \<longrightarrow> unat (high_water st) = k)"
  using mark_inv_peak [OF assms] by (auto simp: mark_inv_def list_all_length)

text \<open>
  Once every call has ended, failed or dropped, the semaphore has all its permits again and
  no connection counts as live.
\<close>

lemma all_permits_return:
  assumes "semaphore S" "lifecycle_reachable S p io st" "pp_max_live p = Some cap" "0 < cap"
    "list_all (\<lambda>pc. \<exists>r. pc = Ended r) (ls_calls st)"
  shows "map_option (sm_available S) (lf_admission (ls_config st)) = Some cap \<and> live_count st = 0"
proof -
  have "permits_held st = 0" "connections_live st = 0"
    unfolding permits_held_def connections_live_def using assms(5) by (auto intro!: cnt_none simp: list_all_iff)
  then show ?thesis
    using semaphore.life_inv_reachable [OF assms(1-4)] by (auto simp: life_inv_def)
qed

subsection \<open>The loop ends\<close>

fun lifecycle_run :: "'s sem_lib \<Rightarrow> connector_event list \<Rightarrow> 's lifecycle_state \<Rightarrow> 's lifecycle_state option" where
  "lifecycle_run S [] st = Some st"
| "lifecycle_run S (e # es) st = Option.bind (lifecycle_event S e st) (lifecycle_run S es)"

lemma run_peak: "lifecycle_peak S p io st k \<Longrightarrow> lifecycle_run S es st = Some st' \<Longrightarrow> \<exists>k'. lifecycle_peak S p io st' k'"
proof (induction es arbitrary: st k)
  case (Cons e es)
  then show ?case by (auto simp: Option.bind_eq_Some_conv intro: peak_next)
qed auto

text \<open>Another call's event leaves a call alone; one that raises the mark is not interrupted.\<close>

lemma call_step_frame: "call_step S weak j (ls_calls st ! j) st = Some st' \<Longrightarrow> \<exists>pc. ls_calls st' = (ls_calls st)[j := pc]"
  by (cases "ls_calls st ! j") (auto simp: life_ops split: option.splits if_splits)

lemma call_expire_frame: "call_expire S j (ls_calls st ! j) st = Some st' \<Longrightarrow> \<exists>pc. ls_calls st' = (ls_calls st)[j := pc]"
  by (cases "ls_calls st ! j") (auto simp: life_ops split: option.splits if_splits)

lemma call_dialled_frame: "call_dialled r j (ls_calls st ! j) st = Some st' \<Longrightarrow> \<exists>pc. ls_calls st' = (ls_calls st)[j := pc]"
  by (cases "ls_calls st ! j"; cases r) (auto simp: life_ops)

lemma call_drop_frame: "call_drop S j (ls_calls st ! j) st = Some st' \<Longrightarrow> \<exists>pc. ls_calls st' = (ls_calls st)[j := pc]"
  by (cases "ls_calls st ! j") (auto simp: life_ops split: option.splits if_splits)

lemmas frames = call_step_frame call_expire_frame call_dialled_frame call_drop_frame

fun event_call :: "connector_event \<Rightarrow> nat option" where
  "event_call Call = None"
| "event_call (Step i _) = Some i"
| "event_call (Expire i) = Some i"
| "event_call (Dialled i _) = Some i"
| "event_call (DropCall i) = Some i"

lemma event_frame:
  "lifecycle_event S e st = Some st' \<Longrightarrow> event_call e = Some j \<Longrightarrow> \<exists>pc. ls_calls st' = (ls_calls st)[j := pc]"
  by (cases e; simp split: if_split_asm) (blast dest: frames)+

lemma others_stay:
  assumes "lifecycle_event S e st = Some st'" "i < length (ls_calls st)" "ls_calls st ! i = Raising l h"
    "\<And>weak. e \<noteq> Step i weak"
  shows "i < length (ls_calls st') \<and> ls_calls st' ! i = Raising l h"
proof (cases "event_call e")
  case None
  with assms show ?thesis by (cases e) (auto simp: nth_append)
next
  case (Some j)
  have "j \<noteq> i"
  proof
    assume "j = i"
    with assms Some show False by (cases e) auto
  qed
  with event_frame [OF assms(1) Some] assms(2,3) show ?thesis by auto
qed

lemma own_turn:
  assumes "lifecycle_event S (Step i weak) st = Some st'" "i < length (ls_calls st)" "ls_calls st ! i = Raising l h"
  shows "ls_calls st' ! i = Dialling True
    \<or> ls_calls st' ! i = Raising l (high_water st) \<and> h < l \<and> (\<not> weak \<longrightarrow> high_water st \<noteq> h)"
    "i < length (ls_calls st')"
  using assms by (cases "l \<le> h"; cases "high_water st = h \<and> \<not> weak";
      auto simp: raise_high_water_def set_call_def on_metrics_def)+

text \<open>
  C18: The loop that raises the high-water mark ends: in any run, interleaved with all the other
  calls, a call that has had more turns without a spurious failure than the mark was below its
  value is through, because every lost exchange has seen the mark go up.
\<close>

theorem raising_ends:
  assumes "semaphore S" "lifecycle_peak S p io st k" "pp_max_live p = Some cap" "0 < cap" "cap < 2 ^ 61"
    "i < length (ls_calls st)" "ls_calls st ! i = Raising l h" "lifecycle_run S es st = Some st'"
    "unat l - unat h < length (filter ((=) (Step i False)) es)"
  shows "\<exists>n st''. lifecycle_run S (take n es) st = Some st'' \<and> ls_calls st'' ! i = Dialling True"
  using assms(2,6-9)
proof (induction es arbitrary: st k h)
  case (Cons e es)
  obtain st1 where st1: "lifecycle_event S e st = Some st1" "lifecycle_run S es st1 = Some st'"
    using Cons.prems(4) by (auto simp: Option.bind_eq_Some_conv)
  have up: "unat h \<le> unat (high_water st)"
    using mark_inv_peak [OF assms(1) Cons.prems(1) assms(3-5)] Cons.prems(2,3) by (auto simp: mark_inv_def)
  have onward: ?case if a: "i < length (ls_calls st1)" "ls_calls st1 ! i = Raising l h'"
    and b: "unat l - unat h' < length (filter ((=) (Step i False)) es)" for h'
  proof -
    obtain n st'' where "lifecycle_run S (take n es) st1 = Some st''" "ls_calls st'' ! i = Dialling True"
      using Cons.IH [OF peak_next [OF Cons.prems(1) st1(1)] a st1(2) b] by blast
    then show ?thesis using st1(1) by (intro exI [of _ "Suc n"] exI [of _ st'']) simp
  qed
  show ?case
  proof (cases "\<exists>weak. e = Step i weak")
    case False
    then have "e \<noteq> Step i weak" for weak by blast
    moreover have "Step i False \<noteq> e" using False by metis
    ultimately show ?thesis
      using others_stay [OF st1(1) Cons.prems(2,3)] Cons.prems(5) by (intro onward [of h]) auto
  next
    case True
    then obtain weak where e: "e = Step i weak" by blast
    note turn = own_turn [OF st1(1) [unfolded e] Cons.prems(2,3)]
    from turn(1) show ?thesis
    proof
      assume "ls_calls st1 ! i = Dialling True"
      then show ?thesis using st1(1) by (intro exI [of _ 1] exI [of _ st1]) simp
    next
      assume t: "ls_calls st1 ! i = Raising l (high_water st) \<and> h < l \<and> (\<not> weak \<longrightarrow> high_water st \<noteq> h)"
      then have "\<not> weak \<Longrightarrow> unat h < unat (high_water st)"
        using up by (metis le_neq_implies_less unsigned_word_eqI)
      moreover have "unat h < unat l" using t by (simp add: word_less_nat_alt)
      ultimately have "unat l - unat (high_water st) < length (filter ((=) (Step i False)) es)"
        using up Cons.prems(5) e by (cases weak) auto
      with onward turn(2) t show ?thesis by blast
    qed
  qed
qed simp

subsection \<open>A run of three calls\<close>

definition two_connections :: physical_connection_policy where
  "two_connections = \<lparr>pp_max_live = Some 2, pp_admission_timeout = None\<rparr>"

definition no_io_timeout :: transport_io_timeout where
  "no_io_timeout = \<lparr>io_read = None, io_write = None\<rparr>"

text \<open>Two calls have counted themselves and read the same mark; the third one waits.\<close>

definition raising_events :: "connector_event list" where
  "raising_events = [Call, Call, Call, Step 0 False, Step 1 False, Step 2 False, Step 2 False,
     Step 0 False, Step 1 False, Step 0 False, Step 1 False]"

text \<open>The second one wins the exchange, the first one finds the mark above its value.\<close>

definition raised_events :: "connector_event list" where
  "raised_events = [Step 1 False, Step 0 False, Step 0 False]"

definition ending_events :: "connector_event list" where
  "ending_events = [Dialled 0 None, DropCall 0, Step 0 False, Step 0 False,
     Dialled 1 (Some admission_closed), Step 1 False, Step 1 False, DropCall 2]"

abbreviation run_two :: "connector_event list \<Rightarrow> nat lifecycle_state option" where
  "run_two es \<equiv> lifecycle_run counter_sem es (lifecycle_new counter_sem two_connections no_io_timeout)"

definition raising_state :: "nat lifecycle_state" where
  "raising_state = the (run_two raising_events)"

definition raised_state :: "nat lifecycle_state" where
  "raised_state = the (run_two (raising_events @ raised_events))"

definition ended_state :: "nat lifecycle_state" where
  "ended_state = the (run_two (raising_events @ raised_events @ ending_events))"

lemmas run_two_defs = raising_events_def raised_events_def ending_events_def lifecycle_new_def two_connections_def
  no_io_timeout_def lifecycle_from_policy_def metrics_new_def counter_sem_def life_ops

lemma raising_run: "run_two raising_events = Some raising_state \<and> ls_calls raising_state = [Raising 1 0, Raising 2 0, AwaitPermit]"
  unfolding raising_state_def by (simp add: run_two_defs)

lemma raised_run: "run_two (raising_events @ raised_events) = Some raised_state
    \<and> ls_calls raised_state = [Dialling True, Dialling True, AwaitPermit]"
  unfolding raised_state_def by (simp add: run_two_defs)

lemma ended_run: "run_two (raising_events @ raised_events @ ending_events) = Some ended_state
    \<and> list_all (\<lambda>pc. \<exists>r. pc = Ended r) (ls_calls ended_state)"
  unfolding ended_state_def by (simp add: run_two_defs)

lemma run_append: "lifecycle_run S (es @ fs) st = Option.bind (lifecycle_run S es st) (lifecycle_run S fs)"
  by (induction es arbitrary: st) (auto split: bind_splits)

lemma run_two_reached:
  "run_two es = Some st \<Longrightarrow> \<exists>k. lifecycle_peak counter_sem two_connections no_io_timeout st k"
  using run_peak [OF peak_init] by blast

lemma two_is_the_cap: "pp_max_live two_connections = Some 2"
  by (simp add: two_connections_def)

theorem live_connections_bounded_witness: "unat (live_count raised_state) = 2"
proof -
  obtain k where "lifecycle_peak counter_sem two_connections no_io_timeout raised_state k"
    using run_two_reached raised_run by blast
  from live_connections_bounded [OF counter.semaphore_axioms peak_reachable [OF this] two_is_the_cap] raised_run
  show ?thesis by (auto simp: cnt_def ex_bool_eq)
qed

theorem high_water_is_peak_witness:
  "\<exists>k. lifecycle_peak counter_sem two_connections no_io_timeout raised_state k \<and> unat (high_water raised_state) = k \<and> k \<le> 2"
proof -
  obtain k where "lifecycle_peak counter_sem two_connections no_io_timeout raised_state k"
    using run_two_reached raised_run by blast
  with high_water_is_peak [OF counter.semaphore_axioms this two_is_the_cap] raised_run show ?thesis by auto
qed

theorem raising_ends_witness:
  "\<exists>n st. lifecycle_run counter_sem (take n raised_events) raising_state = Some st \<and> ls_calls st ! 0 = Dialling True"
proof -
  obtain k where "lifecycle_peak counter_sem two_connections no_io_timeout raising_state k"
    using run_two_reached raising_run by blast
  moreover have "lifecycle_run counter_sem raised_events raising_state = Some raised_state"
    using raising_run raised_run run_append [of counter_sem raising_events raised_events] by simp
  ultimately show ?thesis
    using raising_ends [of counter_sem two_connections no_io_timeout raising_state k 2 0 1 0 raised_events raised_state]
      counter.semaphore_axioms two_is_the_cap raising_run
    by (simp add: raised_events_def)
qed

subsection \<open>The HTTP/3 snapshots\<close>

lemma replace_None: "replace_diagnostic d es = None \<longleftrightarrow> hd_stable_id d \<notin> hd_stable_id ` set es"
  by (induction es) auto

lemma replace_ids: "replace_diagnostic d es = Some fs \<Longrightarrow> map hd_stable_id fs = map hd_stable_id es \<and> d \<in> set fs"
  by (induction es arbitrary: fs) (auto split: if_splits)

lemma replace_others: "replace_diagnostic d es = Some fs \<Longrightarrow> f \<in> set fs \<Longrightarrow> f = d \<or> f \<in> set es"
  by (induction es arbitrary: fs) (auto split: if_splits)

lemma replaced_once:
  assumes "replace_diagnostic d es = Some fs" "distinct (map hd_stable_id es)" "f \<in> set fs" "hd_stable_id f = hd_stable_id d"
  shows "f = d"
proof -
  have "distinct (map hd_stable_id fs)" "d \<in> set fs" using replace_ids [OF assms(1)] assms(2) by simp_all
  with assms(3,4) show ?thesis by (auto simp: distinct_map inj_on_def)
qed

text \<open>The latest snapshot of every connection that is still listed, as they were recorded.\<close>

definition latest_of :: "h3_connection_diagnostic list \<Rightarrow> h3_connection_diagnostic \<Rightarrow> bool" where
  "latest_of ds d \<longleftrightarrow> find (\<lambda>e. hd_stable_id e = hd_stable_id d) (rev ds) = Some d"

definition snapshots_ok :: "h3_connection_diagnostic list \<Rightarrow> transport_metrics \<Rightarrow> bool" where
  "snapshots_ok ds m \<longleftrightarrow>
     length (tm_h3_diagnostics m) \<le> max_h3_diagnostics \<and> distinct (map hd_stable_id (tm_h3_diagnostics m))
     \<and> (\<forall>d\<in>set (tm_h3_diagnostics m). latest_of ds d) \<and> (ds \<noteq> [] \<longrightarrow> last ds \<in> set (tm_h3_diagnostics m))"

lemma latest_snoc: "latest_of (ds @ [d]) e \<longleftrightarrow> (if hd_stable_id d = hd_stable_id e then e = d else latest_of ds e)"
  by (auto simp: latest_of_def)

lemma snapshot_step:
  assumes "snapshots_ok ds m"
  shows "snapshots_ok (ds @ [d]) (record_h3_diagnostic d m)"
proof (cases "replace_diagnostic d (tm_h3_diagnostics m)")
  case None
  let ?kept = "if length (tm_h3_diagnostics m) \<ge> max_h3_diagnostics then tl (tm_h3_diagnostics m) else tm_h3_diagnostics m"
  have kept: "set ?kept \<subseteq> set (tm_h3_diagnostics m)" "distinct (map hd_stable_id ?kept)" "Suc (length ?kept) \<le> max_h3_diagnostics"
    using assms by (auto simp: snapshots_ok_def max_h3_diagnostics_def map_tl distinct_tl dest: list.set_sel(2) split: if_splits)
      (metis list.set_sel(2) tl_Nil empty_iff list.set(1))+
  have "tm_h3_diagnostics (record_h3_diagnostic d m) = ?kept @ [d]"
    using None by (simp add: record_h3_diagnostic_def Let_def)
  moreover have "hd_stable_id d \<notin> hd_stable_id ` set ?kept" using None kept(1) by (auto simp: replace_None)
  ultimately show ?thesis using assms kept by (auto simp: snapshots_ok_def latest_snoc)
next
  case (Some fs)
  then have "tm_h3_diagnostics (record_h3_diagnostic d m) = fs" by (simp add: record_h3_diagnostic_def)
  moreover have "length fs = length (tm_h3_diagnostics m)" using replace_ids [OF Some] by (metis length_map)
  moreover have "latest_of (ds @ [d]) f" if "f \<in> set fs" for f
    using that replace_others [OF Some that] replaced_once [OF Some _ that] assms
    by (auto simp: snapshots_ok_def latest_snoc)
  ultimately show ?thesis using replace_ids [OF Some] assms by (simp add: snapshots_ok_def)
qed

text \<open>
  However many snapshots were recorded, the list holds at most 64, at most one for each
  connection, each of them the latest one of its connection; the last one recorded is there.
\<close>

lemma h3_snapshots_bounded:
  "let m = fold record_h3_diagnostic ds metrics_new in
    length (tm_h3_diagnostics m) \<le> 64 \<and> distinct (map hd_stable_id (tm_h3_diagnostics m))
    \<and> list_all (\<lambda>d. find (\<lambda>e. hd_stable_id e = hd_stable_id d) (rev ds) = Some d) (tm_h3_diagnostics m)
    \<and> (ds = [] \<or> last ds \<in> set (tm_h3_diagnostics m))"
proof -
  have "snapshots_ok ds (fold record_h3_diagnostic ds metrics_new)"
    by (induction ds rule: rev_induct) (simp_all add: snapshot_step, simp add: snapshots_ok_def metrics_new_def)
  then show ?thesis by (auto simp: snapshots_ok_def latest_of_def max_h3_diagnostics_def Let_def list_all_iff)
qed

subsection \<open>Inactivity\<close>

fun poll_reads ::
  "(readings \<times> nat \<times> io_poll) list \<Rightarrow> io_connection \<Rightarrow> transport_metrics \<Rightarrow> io_result list \<times> io_connection \<times> transport_metrics" where
  "poll_reads [] c m = ([], c, m)"
| "poll_reads ((now, capacity, r) # ps) c m =
     (case conn_poll_read now capacity r c m of
        (x, c', m') \<Rightarrow> (case poll_reads ps c' m' of (xs, c'', m'') \<Rightarrow> (x # xs, c'', m'')))"

text \<open>What the inner stream answered, as the caller sees it when no timer fires.\<close>

fun answer_of :: "io_poll \<Rightarrow> io_result" where
  "answer_of (IoDone n) = IoOk n"
| "answer_of (IoFailed e) = IoError e"
| "answer_of IoPending = IoWait"

text \<open>
  A poll into a buffer with room that moves no byte: the stream is pending, or ready with
  nothing (\<open>IoDone 0\<close>).
\<close>

definition moves_nothing :: "nat \<Rightarrow> io_poll \<Rightarrow> bool" where
  "moves_nothing capacity r \<longleftrightarrow> 0 < capacity \<and> (r = IoPending \<or> r = IoDone 0)"

lemma empty_buffer_read: "conn_poll_read now 0 r c m = (answer_of r, c, m)"
  by (cases r) (simp_all add: conn_poll_read_def split: option.split)

lemma early_read:
  assumes "io_read (ic_io_timeout c) = Some d" "ic_read_timer c = Some t" "moves_nothing n r" "now 1 < t"
  shows "conn_poll_read now n r c m = (answer_of r, c, m)"
  using assms by (cases c) (auto simp: moves_nothing_def conn_poll_read_def poll_timer_def timer_fired_def)

lemma late_read:
  assumes "io_read (ic_io_timeout c) = Some d" "ic_read_timer c = Some t" "moves_nothing n r" "t \<le> now 1"
  shows "conn_poll_read now n r c m =
    (IoInactive DirRead d, c\<lparr>ic_read_timer := None\<rparr>, inc TransportReadInactivityTimeouts m)"
  using assms by (auto simp: moves_nothing_def conn_poll_read_def poll_timer_def timer_fired_def)

lemma early_reads:
  assumes "io_read (ic_io_timeout c) = Some d" "ic_read_timer c = Some t"
    "list_all (\<lambda>(now, capacity, r). capacity = 0 \<or> moves_nothing capacity r \<and> now 1 < t) ps"
    "poll_reads qs c m = (xs, c', m')"
  shows "poll_reads (ps @ qs) c m = (map (\<lambda>(now, capacity, r). answer_of r) ps @ xs, c', m')"
  using assms(3)
  by (induction ps) (auto simp: assms(4) empty_buffer_read early_read [OF assms(1,2)])

text \<open>
  C19: A read that makes no progress waits until the deadline that its first pending poll has
  set, whatever is polled meanwhile without moving a byte: pending reads, reads that are
  ready with nothing and reads into an empty buffer, at any time, are answered as the inner
  stream answers and leave the deadline where it was.  The first poll with room at or after the
  deadline that moves nothing, pending or ready with nothing, fails with the configured limit,
  counts one timeout and starts afresh.
\<close>

theorem read_inactivity_exact:
  assumes "io_read (ic_io_timeout c) = Some d" "ic_read_timer c = None" "0 < n" "first 1 < sleep_until_after (first 0) d"
    "list_all (\<lambda>(now, capacity, r). capacity = 0 \<or> moves_nothing capacity r \<and> now 1 < sleep_until_after (first 0) d) ps"
    "sleep_until_after (first 0) d \<le> late 1" "moves_nothing n' r'"
  shows "poll_reads ((first, n, IoPending) # ps @ [(late, n', r')]) c m =
    (IoWait # map (\<lambda>(now, capacity, r). answer_of r) ps @ [IoInactive DirRead d], c, inc TransportReadInactivityTimeouts m)"
proof -
  let ?t = "sleep_until_after (first 0) d"
  let ?c = "c\<lparr>ic_read_timer := Some ?t\<rparr>"
  have "conn_poll_read first n IoPending c m = (IoWait, ?c, m)"
    using assms(1-4) by (simp add: conn_poll_read_def poll_timer_def timer_fired_def)
  moreover have "poll_reads [(late, n', r')] ?c m = ([IoInactive DirRead d], c, inc TransportReadInactivityTimeouts m)"
    using late_read [of ?c d ?t n' r' late m] assms(1,2,6,7) by (cases c) simp
  ultimately show ?thesis
    using early_reads [of ?c d ?t ps, OF _ _ assms(5)] assms(1) by simp
qed

definition guarded_connection :: io_connection where
  "guarded_connection = \<lparr>ic_io_timeout = \<lparr>io_read = Some 10, io_write = None\<rparr>, ic_read_timer = None, ic_write_timer = None\<rparr>"

text \<open>
  A limit of 10: reads ready with nothing at 9, into an empty buffer at 30, and ready with
  nothing again at 10.
\<close>

theorem read_inactivity_exact_witness:
  "poll_reads [(\<lambda>_. 0, 4, IoPending), (\<lambda>_. 9, 4, IoDone 0), (\<lambda>_. 30, 0, IoDone 0), (\<lambda>_. 10, 4, IoDone 0)]
     guarded_connection metrics_new =
    ([IoWait, IoOk 0, IoOk 0, IoInactive DirRead 10], guarded_connection, inc TransportReadInactivityTimeouts metrics_new)"
proof -
  have "sleep_until_after 0 10 = 10" by (simp add: sleep_until_after_def checked_add_time_def time_limit_def nanos_per_sec_def)
  then show ?thesis
    using read_inactivity_exact [of guarded_connection 10 4 "\<lambda>_. 0" "[(\<lambda>_. 9, 4, IoDone 0), (\<lambda>_. 30, 0, IoDone 0)]"
        "\<lambda>_. 10" 4 "IoDone 0" metrics_new]
    by (simp add: guarded_connection_def moves_nothing_def)
qed

end
