(* ===== verification/H3_Connector.thy ===== *)
theory H3_Connector
  imports H3_Dispatch Lifecycle Header_Map
begin

text \<open>
  The HTTP/3 connector (\<open>transport/http3.rs\<close>): the addresses it dials in turn, the exchange of
  one request over a session, and the cache of sessions that concurrent requests share.  QUIC,
  its TLS and the \<open>h3\<close> crate are outside: what they answer is an argument or part of an event.
\<close>

subsection \<open>Policy\<close>

definition h3_cache_max_entries :: nat where "h3_cache_max_entries = 64"

definition h3_default_idle_timeout :: duration where "h3_default_idle_timeout = from_secs_d 30"

definition h3_default_max_bidi_streams :: nat where "h3_default_max_bidi_streams = 100"

definition derive_quinn_idle_timeout :: "pool_config \<Rightarrow> duration" where
  "derive_quinn_idle_timeout p = (case pf_idle_timeout p of Some d \<Rightarrow> d | None \<Rightarrow> h3_default_idle_timeout)"

definition derive_max_bidi_streams :: "pool_config \<Rightarrow> nat" where
  "derive_max_bidi_streams p =
     (case effective_per_origin p of
        Some n \<Rightarrow> max (if n < 2 ^ 32 then n else 2 ^ 32 - 1) 1
      | None \<Rightarrow> h3_default_max_bidi_streams)"

definition h3_cache_key :: "string \<Rightarrow> nat \<Rightarrow> string" where
  "h3_cache_key host port = host @ '':'' @ show_nat port"

subsection \<open>How a connection was closed\<close>

datatype quinn_close =
  QVersionMismatch | QTransportError nat | QConnectionClosed nat | QApplicationClosed nat | QReset | QTimedOut
| QLocallyClosed | QCidsExhausted

definition h3_close_summary_of :: "quinn_close \<Rightarrow> bool \<Rightarrow> h3_close_summary" where
  "h3_close_summary_of e graceful =
     (case (case e of
              QVersionMismatch \<Rightarrow> (VersionMismatch, None)
            | QTransportError c \<Rightarrow> (TransportError, Some c)
            | QConnectionClosed c \<Rightarrow> (ConnectionClosed, Some c)
            | QApplicationClosed c \<Rightarrow> (ApplicationClosed, Some c)
            | QReset \<Rightarrow> (Reset, None)
            | QTimedOut \<Rightarrow> (TimedOutClose, None)
            | QLocallyClosed \<Rightarrow> (LocallyClosed, None)
            | QCidsExhausted \<Rightarrow> (CidsExhausted, None)) of
        (kind, code) \<Rightarrow> \<lparr>cs_kind = kind, cs_code = code, cs_graceful = graceful\<rparr>)"

text \<open>What Quinn tells of a connection, and the snapshot that is kept of it.\<close>

record quinn_connection =
  qc_stable_id :: nat
  qc_remote_address :: socket_addr
  qc_local_ip :: "ip_addr option"
  qc_rtt :: duration
  qc_sent_packets :: nat
  qc_received_datagrams :: nat
  qc_lost_packets :: nat
  qc_sent_bytes :: nat
  qc_received_bytes :: nat
  qc_lost_bytes :: nat

definition h3_diagnostic_of ::
  "quinn_connection \<Rightarrow> h3_route_kind \<Rightarrow> nat option \<Rightarrow> quinn_close option \<Rightarrow> bool \<Rightarrow> h3_connection_diagnostic" where
  "h3_diagnostic_of q route generation close graceful =
     \<lparr>hd_stable_id = qc_stable_id q, hd_remote_address = qc_remote_address q, hd_local_ip = qc_local_ip q,
      hd_route = route, hd_alt_svc_generation = generation, hd_rtt = qc_rtt q, hd_sent_packets = qc_sent_packets q,
      hd_received_datagrams = qc_received_datagrams q, hd_lost_packets = qc_lost_packets q,
      hd_sent_bytes = qc_sent_bytes q, hd_received_bytes = qc_received_bytes q, hd_lost_bytes = qc_lost_bytes q,
      hd_close = map_option (\<lambda>e. h3_close_summary_of e graceful) close, hd_open_streams = None\<rparr>"

subsection \<open>Dialling\<close>

definition remaining_connect_budget :: "instant option \<Rightarrow> instant \<Rightarrow> duration option" where
  "remaining_connect_budget deadline now = map_option (\<lambda>d. duration_since d now) deadline"

text \<open>
  The addresses in turn.  \<open>clock k\<close> are the readings before the attempt at the \<open>k\<close>th address:
  for the budget, for the deadline and for an error text; \<open>dial k\<close> is the attempt under its
  budget.  The log keeps the attempts.
\<close>

fun connect_from ::
  "(nat \<Rightarrow> readings) \<Rightarrow> (nat \<Rightarrow> socket_addr \<Rightarrow> duration option \<Rightarrow> 'c result) \<Rightarrow> instant option \<Rightarrow> instant \<Rightarrow> nat
   \<Rightarrow> socket_addr list \<Rightarrow> error option \<Rightarrow> 'c result \<times> (socket_addr \<times> duration option) list" where
  "connect_from clock dial deadline started k [] last_err =
     (Err (case last_err of Some e \<Rightarrow> e | None \<Rightarrow> Connect ''no addresses resolved''), [])"
| "connect_from clock dial deadline started k (a # addrs) last_err =
     (let addrs_left = min (Suc (length addrs)) (2 ^ 32 - 1);
          remaining = map_option (\<lambda>r. r div max addrs_left 1) (remaining_connect_budget deadline (clock k 0))
      in if (case deadline of Some d \<Rightarrow> d \<le> clock k 1 | None \<Rightarrow> False) \<or> remaining = Some 0
         then (Err (case last_err of Some e \<Rightarrow> e | None \<Rightarrow> Timeout PhaseConnect (duration_since (clock k 2) started)), [])
         else (case dial k a remaining of
             Ok conn \<Rightarrow> (Ok conn, [(a, remaining)])
           | Err e \<Rightarrow>
               (case connect_from clock dial deadline started (Suc k) addrs (Some e) of
                  (r, tried) \<Rightarrow> (r, (a, remaining) # tried))))"

definition connect_with_fallback ::
  "(nat \<Rightarrow> readings) \<Rightarrow> (nat \<Rightarrow> socket_addr \<Rightarrow> duration option \<Rightarrow> 'c result) \<Rightarrow> instant option \<Rightarrow> instant
   \<Rightarrow> socket_addr list \<Rightarrow> 'c result \<times> (socket_addr \<times> duration option) list" where
  "connect_with_fallback clock dial deadline started addrs = connect_from clock dial deadline started 0 addrs None"

text \<open>Failures of a route that the caller provides, and what is made of them.\<close>

record dial_error =
  de_kind :: dial_error_kind
  de_message :: string
  de_error :: std_error

definition route_dial_error :: "dial_error \<Rightarrow> error" where
  "route_dial_error f =
     (case de_kind f of
        DialConnection \<Rightarrow> H3Connect (''QUIC handshake failed: '' @ de_message f)
      | DialTimeout \<Rightarrow> Timeout PhaseConnect 0
      | _ \<Rightarrow> CustomTransport (de_kind f) (de_error f))"

definition route_error_override :: "dial_error option \<Rightarrow> error \<Rightarrow> error" where
  "route_error_override route_failure fallback =
     (case route_failure of
        None \<Rightarrow> fallback
      | Some f \<Rightarrow>
          (case de_kind f of
             DialConnection \<Rightarrow> H3Connect (''QUIC handshake failed: '' @ de_message f)
           | DialTimeout \<Rightarrow> Timeout PhaseConnect 0
           | _ \<Rightarrow> CustomTransport (de_kind f) (de_error f)))"

subsection \<open>One exchange\<close>

text \<open>
  What the session answers: to the request head (an error, and whether the sender was closing),
  to each data frame, to the end of the body, and the head of the response.  \<open>xw_route_failure\<close>
  is the failure of a caller-owned route, if there is one.
\<close>

record h3_answers =
  xw_build_error :: "string option"
  xw_head :: "(string \<times> bool) option"
  xw_data :: "nat \<Rightarrow> string option"
  xw_finish :: "string option"
  xw_response :: "string + (nat \<times> (string \<times> string) list)"
  xw_route_failure :: "dial_error option"

text \<open>The frames that were handed to the session, and how sending them ended.\<close>

fun h3_send_chunks :: "(nat \<Rightarrow> string option) \<Rightarrow> nat \<Rightarrow> byte_stream \<Rightarrow> unit result \<times> string list" where
  "h3_send_chunks send k [] = (Ok (), [])"
| "h3_send_chunks send k (NotReady # evs) = h3_send_chunks send k evs"
| "h3_send_chunks send k (Fail e # evs) = (Err e, [])"
| "h3_send_chunks send k (Chunk c # evs) =
     (case send k of
        Some e \<Rightarrow> (Err (H3Protocol (''send data: '' @ e)), [c])
      | None \<Rightarrow> (case h3_send_chunks send (Suc k) evs of (r, cs) \<Rightarrow> (r, c # cs)))"

fun h3_send_body :: "(nat \<Rightarrow> byte_stream) \<Rightarrow> (nat \<Rightarrow> string option) \<Rightarrow> request_body \<Rightarrow> unit result \<times> string list" where
  "h3_send_body bodies send BodyEmpty = (Ok (), [])"
| "h3_send_body bodies send (BodyBytes b) =
     (case send 0 of Some e \<Rightarrow> (Err (H3Protocol (''send data: '' @ e)), [b]) | None \<Rightarrow> (Ok (), [b]))"
| "h3_send_body bodies send (BodyStream i n) = h3_send_chunks send 0 (bodies i)"

text \<open>An error with what it means for the session: it is marked as draining, it leaves the cache.\<close>

record h3_failure =
  xf_error :: h3_dispatch_error
  xf_marks_draining :: bool
  xf_evicts :: bool

definition is_transport_failure :: "error \<Rightarrow> bool" where
  "is_transport_failure e \<longleftrightarrow>
     (case e of H3Protocol _ \<Rightarrow> True | H3ConnectionClosed _ \<Rightarrow> True | H3Stream _ \<Rightarrow> True | H3Connect _ \<Rightarrow> True | _ \<Rightarrow> False)"

definition h3_send_head :: "h3_answers \<Rightarrow> h3_failure option" where
  "h3_send_head W =
     (case xw_build_error W of
        Some e \<Rightarrow> Some \<lparr>xf_error = h3_dispatch_error_new (RequestBuild e) False False, xf_marks_draining = False, xf_evicts = False\<rparr>
      | None \<Rightarrow>
         (case xw_head W of
            None \<Rightarrow> None
          | Some (e, closing) \<Rightarrow>
              Some \<lparr>xf_error =
                      (if closing then h3_dispatch_error_new (H3ConnectionClosed ''peer draining (GOAWAY)'') False True
                       else h3_dispatch_error_new
                              (route_error_override (xw_route_failure W) (H3Protocol (''send request: '' @ e))) False False),
                    xf_marks_draining = closing, xf_evicts = True\<rparr>))"

text \<open>The response head: the header map takes each field with its \<open>insert\<close>.\<close>

definition h3_response_headers :: "'h http_lib \<Rightarrow> (string \<times> string) list \<Rightarrow> 'h" where
  "h3_response_headers H fs = fold (\<lambda>(n, v) h. hm_insert H h n v) fs (hm_empty H)"

definition h3_failed_late :: "h3_answers \<Rightarrow> error \<Rightarrow> bool \<Rightarrow> h3_failure" where
  "h3_failed_late W e evicts =
     \<lparr>xf_error = h3_dispatch_error_new (route_error_override (xw_route_failure W) e) True False,
      xf_marks_draining = False, xf_evicts = evicts\<rparr>"

definition h3_send_rest ::
  "'h http_lib \<Rightarrow> (nat \<Rightarrow> byte_stream) \<Rightarrow> url \<Rightarrow> h3_answers \<Rightarrow> request_body \<Rightarrow> (h3_failure + 'h response) \<times> string list" where
  "h3_send_rest H bodies u W body =
     (case h3_send_body bodies (xw_data W) body of
        (Err e, frames) \<Rightarrow> (Inl (h3_failed_late W e (is_transport_failure e)), frames)
      | (Ok _, frames) \<Rightarrow>
          (case xw_finish W of
             Some e \<Rightarrow> (Inl (h3_failed_late W (H3Protocol (''finish stream: '' @ e)) True), frames)
           | None \<Rightarrow>
               (case xw_response W of
                  Inl e \<Rightarrow> (Inl (h3_failed_late W (H3Protocol (''recv response: '' @ e)) True), frames)
                | Inr (status, fs) \<Rightarrow>
                    (Inr \<lparr>rs_status = status, rs_url = u, rs_headers = h3_response_headers H fs, rs_history = []\<rparr>, frames))))"

definition h3_exchange ::
  "'h http_lib \<Rightarrow> (nat \<Rightarrow> byte_stream) \<Rightarrow> url \<Rightarrow> h3_answers \<Rightarrow> request_body \<Rightarrow> (h3_failure + 'h response) \<times> string list" where
  "h3_exchange H bodies u W body =
     (case h3_send_head W of Some f \<Rightarrow> (Inl f, []) | None \<Rightarrow> h3_send_rest H bodies u W body)"

text \<open>
  An attempt: the session that establishing gave or that was in the cache, then the exchange.
  The frames are those that were handed to the session.
\<close>

definition h3_attempt ::
  "'h http_lib \<Rightarrow> (nat \<Rightarrow> byte_stream) \<Rightarrow> url \<Rightarrow> unit result \<Rightarrow> h3_answers \<Rightarrow> request_body
   \<Rightarrow> (h3_dispatch_error + 'h response) \<times> string list" where
  "h3_attempt H bodies u session W body =
     (if url_host_str u = None then (Inl (h3_dispatch_error_new (InvalidUrl ''missing host'') False False), [])
      else (case session of
          Err e \<Rightarrow> (Inl (h3_dispatch_error_new e False False), [])
        | Ok _ \<Rightarrow>
            (case h3_exchange H bodies u W body of
               (Inl f, frames) \<Rightarrow> (Inl (xf_error f), frames)
             | (Inr response, frames) \<Rightarrow> (Inr response, frames))))"

text \<open>The stream of the response body: data frames, then the trailers once.\<close>

datatype h3_data = H3Data string | H3End "string + (string \<times> string) list option" | H3DataFailed string

definition h3_body_next ::
  "dial_error option \<Rightarrow> h3_data \<Rightarrow> bool \<Rightarrow> (string result option \<times> bool \<times> (string \<times> string) list option) \<times> bool" where
  "h3_body_next route_failure answer done =
     (if done then ((None, True, None), False)
      else case answer of
          H3Data bytes \<Rightarrow> ((Some (Ok bytes), False, None), False)
        | H3End (Inr trailers) \<Rightarrow> ((None, False, trailers), False)
        | H3End (Inl e) \<Rightarrow> ((Some (Err (route_error_override route_failure (H3Protocol (''recv trailers: '' @ e)))), True, None), True)
        | H3DataFailed e \<Rightarrow> ((Some (Err (route_error_override route_failure (H3Protocol (''recv data: '' @ e)))), True, None), True))"

end
