(* ===== verification/H3_Cache.thy ===== *)
theory H3_Cache
  imports H3_Connector
begin

text \<open>
  The cache of HTTP/3 sessions (\<open>transport/http3.rs\<close>) under concurrent requests.  An entry of the
  cache points to a cell that one request fills; a cell lives in a store, its pointer is its
  index there.  Each access to the table or to a cell is a step of its own.
\<close>

subsection \<open>Sessions, cells and requests\<close>

text \<open>\<open>se_key\<close> is the origin the session was opened for; that the handshake authenticates it is quinn's part.\<close>

record h3_session =
  se_key :: string
  se_generation :: "64 word option"
  se_draining :: bool

datatype h3_cell = CellEmpty | CellInit nat | CellReady h3_session

datatype h3_pc =
  PcEnsure | PcEvict string | PcLookup | PcInsert
| PcCheck nat | PcStale nat | PcStaleEvict nat | PcFreshEnsure | PcFreshEvict string | PcFreshInsert
| PcInit nat | PcInitializing nat | PcHead nat | PcRest nat | PcStreaming nat
| PcFailed nat h3_failure | PcFailedEvict nat h3_failure
| PcBodyFailed nat | PcBodyRemove nat
| PcFailure h3_dispatch_error | PcEnd

record h3_request =
  hq_key :: string
  hq_generation :: "64 word option"
  hq_reconnect :: bool
  hq_pc :: h3_pc

record h3_connector =
  hc_cache :: "(string, nat) hash_map"
  hc_cells :: "h3_cell list"
  hc_metrics :: transport_metrics
  hc_requests :: "h3_request list"

definition h3_connector_new :: h3_connector where
  "h3_connector_new = \<lparr>hc_cache = [], hc_cells = [], hc_metrics = metrics_new, hc_requests = []\<rparr>"

definition set_pc :: "nat \<Rightarrow> h3_pc \<Rightarrow> h3_connector \<Rightarrow> h3_connector" where
  "set_pc i pc st = st\<lparr>hc_requests := (hc_requests st)[i := (hc_requests st ! i)\<lparr>hq_pc := pc\<rparr>]\<rparr>"

definition set_cell :: "nat \<Rightarrow> h3_cell \<Rightarrow> h3_connector \<Rightarrow> h3_connector" where
  "set_cell c v st = st\<lparr>hc_cells := (hc_cells st)[c := v]\<rparr>"

definition h3_count :: "transport_counter \<Rightarrow> h3_connector \<Rightarrow> h3_connector" where
  "h3_count k st = st\<lparr>hc_metrics := inc k (hc_metrics st)\<rparr>"

definition h3_cache_remove :: "string \<Rightarrow> h3_connector \<Rightarrow> h3_connector" where
  "h3_cache_remove k st = st\<lparr>hc_cache := AList.delete k (hc_cache st)\<rparr>"

definition h3_cache_insert :: "string \<Rightarrow> nat \<Rightarrow> h3_connector \<Rightarrow> h3_connector" where
  "h3_cache_insert k c st = st\<lparr>hc_cache := AList.update k c (hc_cache st)\<rparr>"

definition new_cell :: "h3_connector \<Rightarrow> h3_connector" where
  "new_cell st = st\<lparr>hc_cells := hc_cells st @ [CellEmpty]\<rparr>"

subsection \<open>The steps of a request\<close>

text \<open>The first half of \<open>ensure_cache_bound\<close>, under the read lock: the entry that has to go.\<close>

definition h3_victim :: "string \<Rightarrow> (string, nat) hash_map \<Rightarrow> string option" where
  "h3_victim except table =
     (if length table < h3_cache_max_entries then None else List.find (\<lambda>k. k \<noteq> except) (map fst table))"

definition h3_evict_entry :: "string \<Rightarrow> h3_connector \<Rightarrow> h3_connector" where
  "h3_evict_entry victim st = h3_count H3CacheEvictions (h3_cache_remove victim st)"

text \<open>\<open>evict_if_current\<close>: the look under the read lock and the removal under the write lock.\<close>

definition is_current :: "string \<Rightarrow> nat \<Rightarrow> h3_connector \<Rightarrow> bool" where
  "is_current k c st \<longleftrightarrow> map_of (hc_cache st) k = Some c"

definition evict_current :: "string \<Rightarrow> nat \<Rightarrow> h3_connector \<Rightarrow> h3_connector" where
  "evict_current k c st = (if is_current k c st then h3_count H3CacheEvictions (h3_cache_remove k st) else st)"

definition insert_cell :: "(nat \<Rightarrow> h3_pc) \<Rightarrow> nat \<Rightarrow> string \<Rightarrow> h3_connector \<Rightarrow> h3_connector" where
  "insert_cell next_pc i k st =
     (let c = length (hc_cells st) in set_pc i (next_pc c) (h3_cache_insert k c (new_cell st)))"

definition check_cell :: "nat \<Rightarrow> nat \<Rightarrow> h3_connector \<Rightarrow> h3_connector" where
  "check_cell i c st =
     (case hc_cells st ! c of
        CellReady s \<Rightarrow>
          set_pc i (if se_generation s \<noteq> hq_generation (hc_requests st ! i) \<or> se_draining s then PcStale c else PcHead c) st
      | _ \<Rightarrow> set_pc i (PcInit c) st)"

definition fresh_insert :: "nat \<Rightarrow> string \<Rightarrow> h3_connector \<Rightarrow> h3_connector" where
  "fresh_insert i k st =
     insert_cell PcInit i k
       (st\<lparr>hc_requests := (hc_requests st)[i := (hc_requests st ! i)\<lparr>hq_reconnect := True\<rparr>]\<rparr>)"

definition init_cell :: "nat \<Rightarrow> nat \<Rightarrow> h3_connector \<Rightarrow> h3_connector option" where
  "init_cell i c st =
     (case hc_cells st ! c of
        CellReady s \<Rightarrow> Some (set_pc i (PcHead c) st)
      | CellEmpty \<Rightarrow> Some (set_pc i (PcInitializing c) (set_cell c (CellInit i) st))
      | CellInit j \<Rightarrow> None)"

fun h3_step :: "nat \<Rightarrow> string \<Rightarrow> h3_pc \<Rightarrow> h3_connector \<Rightarrow> h3_connector option" where
  "h3_step i k PcEnsure st =
     Some (set_pc i (case h3_victim k (hc_cache st) of Some v \<Rightarrow> PcEvict v | None \<Rightarrow> PcLookup) st)"
| "h3_step i k (PcEvict v) st = Some (set_pc i PcLookup (h3_evict_entry v st))"
| "h3_step i k PcLookup st =
     Some (set_pc i (case map_of (hc_cache st) k of Some c \<Rightarrow> PcCheck c | None \<Rightarrow> PcInsert) st)"
| "h3_step i k PcInsert st =
     Some (case map_of (hc_cache st) k of Some c \<Rightarrow> set_pc i (PcCheck c) st | None \<Rightarrow> insert_cell PcCheck i k st)"
| "h3_step i k (PcCheck c) st = Some (check_cell i c st)"
| "h3_step i k (PcStale c) st = Some (set_pc i (if is_current k c st then PcStaleEvict c else PcFreshEnsure) st)"
| "h3_step i k (PcStaleEvict c) st = Some (set_pc i PcFreshEnsure (evict_current k c st))"
| "h3_step i k PcFreshEnsure st =
     Some (set_pc i (case h3_victim k (hc_cache st) of Some v \<Rightarrow> PcFreshEvict v | None \<Rightarrow> PcFreshInsert) st)"
| "h3_step i k (PcFreshEvict v) st = Some (set_pc i PcFreshInsert (h3_evict_entry v st))"
| "h3_step i k PcFreshInsert st = Some (fresh_insert i k st)"
| "h3_step i k (PcInit c) st = init_cell i c st"
| "h3_step i k (PcFailed c f) st =
     Some (set_pc i (if is_current k c st then PcFailedEvict c f else PcFailure (xf_error f)) st)"
| "h3_step i k (PcFailedEvict c f) st = Some (set_pc i (PcFailure (xf_error f)) (evict_current k c st))"
| "h3_step i k (PcBodyFailed c) st = Some (set_pc i (if is_current k c st then PcBodyRemove c else PcEnd) st)"
| "h3_step i k (PcBodyRemove c) st = Some (set_pc i PcEnd (h3_cache_remove k st))"
| "h3_step i k _ st = None"

subsection \<open>What comes from outside\<close>

text \<open>The session is there, or establishing it failed.\<close>

definition established :: "nat \<Rightarrow> nat \<Rightarrow> h3_connection_diagnostic \<Rightarrow> h3_connector \<Rightarrow> h3_connector" where
  "established i c d st =
     (let r = hc_requests st ! i;
          st1 = st\<lparr>hc_metrics := inc H3ConnectionsCreated (record_h3_diagnostic d (hc_metrics st))\<rparr>;
          st2 = (if hq_reconnect r then h3_count H3Reconnected st1 else st1)
      in set_pc i (PcHead c)
           (set_cell c (CellReady \<lparr>se_key = hq_key r, se_generation = hq_generation r, se_draining = False\<rparr>) st2))"

definition establish_failed :: "nat \<Rightarrow> nat \<Rightarrow> error \<Rightarrow> h3_connector \<Rightarrow> h3_connector" where
  "establish_failed i c e st = set_pc i (PcFailure (h3_dispatch_error_new e False False)) (set_cell c CellEmpty st)"

definition mark_draining :: "nat \<Rightarrow> h3_connector \<Rightarrow> h3_connector" where
  "mark_draining c st =
     (case hc_cells st ! c of
        CellReady s \<Rightarrow> set_cell c (CellReady (s\<lparr>se_draining := True\<rparr>)) st
      | _ \<Rightarrow> st)"

text \<open>An exchange failed, with what that means for the session.\<close>

definition exchange_failed :: "nat \<Rightarrow> nat \<Rightarrow> h3_failure \<Rightarrow> h3_connector \<Rightarrow> h3_connector" where
  "exchange_failed i c f st =
     set_pc i (if xf_evicts f then PcFailed c f else PcFailure (xf_error f))
       (if xf_marks_draining f then h3_count H3DrainObserved (mark_draining c st) else st)"

text \<open>The task that drives the connection sees it closed.\<close>

definition driver_closed :: "nat \<Rightarrow> h3_connection_diagnostic option \<Rightarrow> bool \<Rightarrow> h3_connector \<Rightarrow> h3_connector option" where
  "driver_closed c d graceful st =
     (case hc_cells st ! c of
        CellReady s \<Rightarrow>
          (let st1 = mark_draining c st;
               st2 = (case d of Some x \<Rightarrow> st1\<lparr>hc_metrics := record_h3_diagnostic x (hc_metrics st1)\<rparr> | None \<Rightarrow> st1);
               st3 = h3_count H3Closed st2
           in Some (if graceful then h3_count H3DrainObserved st3 else st3))
      | _ \<Rightarrow> None)"

text \<open>The future of a request, or the stream of its body, is dropped at an await point.\<close>

definition drop_request :: "nat \<Rightarrow> h3_pc \<Rightarrow> h3_connector \<Rightarrow> h3_connector option" where
  "drop_request i pc st =
     (case pc of
        PcInitializing c \<Rightarrow> Some (set_pc i PcEnd (set_cell c CellEmpty st))
      | PcInit c \<Rightarrow> Some (set_pc i PcEnd st)
      | PcHead c \<Rightarrow> Some (set_pc i PcEnd st)
      | PcRest c \<Rightarrow> Some (set_pc i PcEnd st)
      | PcStreaming c \<Rightarrow> Some (set_pc i PcEnd st)
      | _ \<Rightarrow> None)"

datatype h3_reply =
  Established h3_connection_diagnostic | EstablishFailed error | Exchanged "h3_failure option" | BodyEnded bool | Dropped

definition h3_answer :: "h3_reply \<Rightarrow> nat \<Rightarrow> h3_pc \<Rightarrow> h3_connector \<Rightarrow> h3_connector option" where
  "h3_answer reply i pc st =
     (case reply of
        Established d \<Rightarrow> (case pc of PcInitializing c \<Rightarrow> Some (established i c d st) | _ \<Rightarrow> None)
      | EstablishFailed e \<Rightarrow> (case pc of PcInitializing c \<Rightarrow> Some (establish_failed i c e st) | _ \<Rightarrow> None)
      | Exchanged None \<Rightarrow>
          (case pc of PcHead c \<Rightarrow> Some (set_pc i (PcRest c) st) | PcRest c \<Rightarrow> Some (set_pc i (PcStreaming c) st) | _ \<Rightarrow> None)
      | Exchanged (Some f) \<Rightarrow>
          (case pc of PcHead c \<Rightarrow> Some (exchange_failed i c f st) | PcRest c \<Rightarrow> Some (exchange_failed i c f st) | _ \<Rightarrow> None)
      | BodyEnded failed \<Rightarrow>
          (case pc of PcStreaming c \<Rightarrow> Some (set_pc i (if failed then PcBodyFailed c else PcEnd) st) | _ \<Rightarrow> None)
      | Dropped \<Rightarrow> drop_request i pc st)"

datatype h3_occurrence =
  H3Request string "64 word option"
| H3Advance nat
| H3Answer nat h3_reply
| H3Driver nat "h3_connection_diagnostic option" bool

fun h3_event :: "h3_occurrence \<Rightarrow> h3_connector \<Rightarrow> h3_connector option" where
  "h3_event (H3Request k g) st =
     Some (st\<lparr>hc_requests := hc_requests st @ [\<lparr>hq_key = k, hq_generation = g, hq_reconnect = False, hq_pc = PcEnsure\<rparr>]\<rparr>)"
| "h3_event (H3Advance i) st =
     (if i < length (hc_requests st) then h3_step i (hq_key (hc_requests st ! i)) (hq_pc (hc_requests st ! i)) st else None)"
| "h3_event (H3Answer i reply) st =
     (if i < length (hc_requests st) then h3_answer reply i (hq_pc (hc_requests st ! i)) st else None)"
| "h3_event (H3Driver c d graceful) st = (if c < length (hc_cells st) then driver_closed c d graceful st else None)"

fun h3_run :: "h3_occurrence list \<Rightarrow> h3_connector \<Rightarrow> h3_connector option" where
  "h3_run [] st = Some st"
| "h3_run (e # es) st = Option.bind (h3_event e st) (h3_run es)"

inductive h3_reachable :: "h3_connector \<Rightarrow> bool" where
  h3_init: "h3_reachable h3_connector_new"
| h3_next: "h3_reachable st \<Longrightarrow> h3_event e st = Some st' \<Longrightarrow> h3_reachable st'"

end
