(* ===== verification/H3_Cache_Props.thy ===== *)
theory H3_Cache_Props
  imports H3_Cache Lifecycle_Props
begin

text \<open>
  The cells of the HTTP/3 cache under every interleaving of requests: one request at a time
  fills a cell, a cell gives one session, and a session serves its own origin.
\<close>

subsection \<open>The invariant\<close>

fun pc_cell :: "h3_pc \<Rightarrow> nat option" where
  "pc_cell (PcCheck c) = Some c"
| "pc_cell (PcStale c) = Some c"
| "pc_cell (PcStaleEvict c) = Some c"
| "pc_cell (PcInit c) = Some c"
| "pc_cell (PcInitializing c) = Some c"
| "pc_cell (PcHead c) = Some c"
| "pc_cell (PcRest c) = Some c"
| "pc_cell (PcStreaming c) = Some c"
| "pc_cell (PcFailed c f) = Some c"
| "pc_cell (PcFailedEvict c f) = Some c"
| "pc_cell (PcBodyFailed c) = Some c"
| "pc_cell (PcBodyRemove c) = Some c"
| "pc_cell _ = None"

fun on_session :: "h3_pc \<Rightarrow> bool" where
  "on_session (PcHead c) = True"
| "on_session (PcRest c) = True"
| "on_session (PcStreaming c) = True"
| "on_session _ = False"

fun initializing :: "h3_pc \<Rightarrow> nat option" where
  "initializing (PcInitializing c) = Some c"
| "initializing _ = None"

fun is_ready :: "h3_cell \<Rightarrow> bool" where
  "is_ready (CellReady s) = True"
| "is_ready _ = False"

abbreviation sessions_created :: "h3_connector \<Rightarrow> 64 word" where
  "sessions_created st \<equiv> tm_count (hc_metrics st) H3ConnectionsCreated"

definition pc_ok :: "string list \<Rightarrow> h3_cell list \<Rightarrow> string \<Rightarrow> h3_pc \<Rightarrow> bool" where
  "pc_ok owner cells k pc \<longleftrightarrow>
     (\<forall>c. pc_cell pc = Some c \<longrightarrow> c < length cells \<and> owner ! c = k \<and> (on_session pc \<longrightarrow> is_ready (cells ! c)))"

definition cells_inv :: "string list \<Rightarrow> h3_connector \<Rightarrow> bool" where
  "cells_inv owner st \<longleftrightarrow>
     length owner = length (hc_cells st)
     \<and> (\<forall>k c. map_of (hc_cache st) k = Some c \<longrightarrow> c < length (hc_cells st) \<and> owner ! c = k)
     \<and> (\<forall>i<length (hc_requests st). pc_ok owner (hc_cells st) (hq_key (hc_requests st ! i)) (hq_pc (hc_requests st ! i)))
     \<and> (\<forall>c<length (hc_cells st). \<forall>s. hc_cells st ! c = CellReady s \<longrightarrow> se_key s = owner ! c)
     \<and> (\<forall>c<length (hc_cells st). \<forall>i. hc_cells st ! c = CellInit i \<longleftrightarrow>
           i < length (hc_requests st) \<and> initializing (hq_pc (hc_requests st ! i)) = Some c)
     \<and> sessions_created st = of_nat (cnt is_ready (hc_cells st))"

lemma cells_invD:
  assumes "cells_inv owner st"
  shows "length owner = length (hc_cells st)"
    "map_of (hc_cache st) k = Some c \<Longrightarrow> c < length (hc_cells st) \<and> owner ! c = k"
    "i < length (hc_requests st) \<Longrightarrow> pc_ok owner (hc_cells st) (hq_key (hc_requests st ! i)) (hq_pc (hc_requests st ! i))"
    "c < length (hc_cells st) \<Longrightarrow> hc_cells st ! c = CellReady s \<Longrightarrow> se_key s = owner ! c"
    "c < length (hc_cells st) \<Longrightarrow> hc_cells st ! c = CellInit i \<longleftrightarrow>
       i < length (hc_requests st) \<and> initializing (hq_pc (hc_requests st ! i)) = Some c"
    "sessions_created st = of_nat (cnt is_ready (hc_cells st))"
  using assms unfolding cells_inv_def by blast+

lemma cells_invI:
  assumes "length owner = length (hc_cells st)"
    "\<And>k c. map_of (hc_cache st) k = Some c \<Longrightarrow> c < length (hc_cells st) \<and> owner ! c = k"
    "\<And>i. i < length (hc_requests st) \<Longrightarrow> pc_ok owner (hc_cells st) (hq_key (hc_requests st ! i)) (hq_pc (hc_requests st ! i))"
    "\<And>c s. c < length (hc_cells st) \<Longrightarrow> hc_cells st ! c = CellReady s \<Longrightarrow> se_key s = owner ! c"
    "\<And>c i. c < length (hc_cells st) \<Longrightarrow> hc_cells st ! c = CellInit i \<longleftrightarrow>
       i < length (hc_requests st) \<and> initializing (hq_pc (hc_requests st ! i)) = Some c"
    "sessions_created st = of_nat (cnt is_ready (hc_cells st))"
  shows "cells_inv owner st"
  using assms unfolding cells_inv_def by blast

subsection \<open>Moves\<close>

definition same_cell :: "h3_cell \<Rightarrow> h3_cell \<Rightarrow> bool" where
  "same_cell x y \<longleftrightarrow> x = y \<or> (\<exists>s t. x = CellReady s \<and> y = CellReady t \<and> se_key s = se_key t)"

lemma same_cell_ready: "same_cell x y \<Longrightarrow> is_ready y = is_ready x"
  by (auto simp: same_cell_def)

lemma same_cells_cnt: "list_all2 same_cell xs ys \<Longrightarrow> cnt is_ready ys = cnt is_ready xs"
  by (induction rule: list_all2_induct) (auto simp: cnt_def same_cell_ready)

text \<open>A request goes on without filling a cell: entries only leave the table.\<close>

lemma move_inv:
  assumes "cells_inv owner st" "list_all2 same_cell (hc_cells st) (hc_cells st')"
    and cache: "\<And>k c. map_of (hc_cache st') k = Some c \<Longrightarrow> map_of (hc_cache st) k = Some c"
    and created: "sessions_created st' = sessions_created st"
    and reqs: "length (hc_requests st') = length (hc_requests st)"
      "\<And>j. j < length (hc_requests st) \<Longrightarrow> hc_requests st' ! j = hc_requests st ! j
        \<or> hq_key (hc_requests st' ! j) = hq_key (hc_requests st ! j)
          \<and> initializing (hq_pc (hc_requests st' ! j)) = initializing (hq_pc (hc_requests st ! j))
          \<and> pc_ok owner (hc_cells st) (hq_key (hc_requests st ! j)) (hq_pc (hc_requests st' ! j))"
  shows "cells_inv owner st'"
proof -
  have len: "length (hc_cells st') = length (hc_cells st)" using assms(2) by (simp add: list_all2_lengthD)
  have same: "same_cell (hc_cells st ! c) (hc_cells st' ! c)" if "c < length (hc_cells st)" for c
    using assms(2) that by (simp add: list_all2_nthD)
  have ready: "is_ready (hc_cells st' ! c) = is_ready (hc_cells st ! c)" if "c < length (hc_cells st)" for c
    using same_cell_ready [OF same [OF that]] .
  have "pc_ok owner (hc_cells st') (hq_key (hc_requests st' ! j)) (hq_pc (hc_requests st' ! j))" if "j < length (hc_requests st)" for j
  proof -
    have "pc_ok owner (hc_cells st) (hq_key (hc_requests st' ! j)) (hq_pc (hc_requests st' ! j))"
      using reqs(2) [OF that] assms(1) that by (auto simp: cells_inv_def)
    then show ?thesis by (auto simp: pc_ok_def len ready)
  qed
  moreover have "se_key s = owner ! c" if c: "c < length (hc_cells st)" and r: "hc_cells st' ! c = CellReady s" for c s
  proof -
    obtain t where "hc_cells st ! c = CellReady t" "se_key t = se_key s"
      using same [OF c] r by (auto simp: same_cell_def)
    with cells_invD(4) [OF assms(1) c] show ?thesis by simp
  qed
  moreover have "hc_cells st' ! c = CellInit j \<longleftrightarrow> j < length (hc_requests st) \<and> initializing (hq_pc (hc_requests st' ! j)) = Some c"
    if "c < length (hc_cells st)" for c j
  proof -
    have "hc_cells st' ! c = CellInit j \<longleftrightarrow> hc_cells st ! c = CellInit j"
      using same [OF that] by (auto simp: same_cell_def)
    also have "\<dots> \<longleftrightarrow> j < length (hc_requests st) \<and> initializing (hq_pc (hc_requests st ! j)) = Some c"
      using assms(1) that by (simp add: cells_inv_def)
    also have "\<dots> \<longleftrightarrow> j < length (hc_requests st) \<and> initializing (hq_pc (hc_requests st' ! j)) = Some c"
      using reqs(2) [of j] by (metis (no_types))
    finally show ?thesis .
  qed
  moreover have "c < length (hc_cells st) \<and> owner ! c = k" if "map_of (hc_cache st') k = Some c" for k c
    using cells_invD(2) [OF assms(1) cache [OF that]] .
  moreover note cells_invD(1,6) [OF assms(1)]
  ultimately show ?thesis
    by (intro cells_invI) (simp_all add: len reqs(1) created same_cells_cnt [OF assms(2)])
qed

lemma same_cells_refl: "list_all2 same_cell xs xs"
  by (simp add: list_all2_conv_all_nth same_cell_def)

lemma same_cells_draining: "list_all2 same_cell (hc_cells st) (hc_cells (mark_draining c st))"
  by (cases "c < length (hc_cells st)")
    (auto simp: mark_draining_def set_cell_def list_all2_conv_all_nth same_cell_def nth_list_update split: h3_cell.splits)

lemma mark_draining_other [simp]: "hc_cache (mark_draining c st) = hc_cache st" "hc_metrics (mark_draining c st) = hc_metrics st"
  "hc_requests (mark_draining c st) = hc_requests st"
  by (simp_all add: mark_draining_def set_cell_def split: h3_cell.splits)

lemma delete_lookup: "map_of (AList.delete k t) k' = Some c \<Longrightarrow> map_of t k' = Some c"
  by (simp add: delete_conv split: if_splits)

lemmas conn_ops = set_pc_def set_cell_def h3_count_def inc_def h3_cache_remove_def h3_cache_insert_def new_cell_def
  h3_evict_entry_def evict_current_def

text \<open>A new cell, empty and in the table under the key of its request.\<close>

lemma insert_inv:
  assumes "cells_inv owner st" "i < length (hc_requests st)" "k = hq_key (hc_requests st ! i)"
    "initializing (hq_pc (hc_requests st ! i)) = None"
    "\<And>c. initializing (next_pc c) = None \<and> pc_cell (next_pc c) = Some c \<and> \<not> on_session (next_pc c)"
  shows "cells_inv (owner @ [k]) (insert_cell next_pc i k st)"
proof -
  let ?c = "length (hc_cells st)" and ?st = "insert_cell next_pc i k st"
  have len: "length owner = ?c" using assms(1) by (simp add: cells_inv_def)
  have old: "pc_ok owner (hc_cells st) (hq_key (hc_requests st ! j)) (hq_pc (hc_requests st ! j))"
    if "j < length (hc_requests st)" for j using assms(1) that by (simp add: cells_inv_def)
  have fields: "hc_cells ?st = hc_cells st @ [CellEmpty]" "hc_cache ?st = AList.update k ?c (hc_cache st)"
    "hc_requests ?st = (hc_requests st)[i := (hc_requests st ! i)\<lparr>hq_pc := next_pc ?c\<rparr>]" "hc_metrics ?st = hc_metrics st"
    by (simp_all add: insert_cell_def Let_def conn_ops)
  have pcs: "pc_ok (owner @ [k]) (hc_cells ?st) (hq_key (hc_requests ?st ! j)) (hq_pc (hc_requests ?st ! j))"
    if "j < length (hc_requests st)" for j
  proof (cases "j = i")
    case True
    then show ?thesis using assms(5) len that unfolding fields by (simp add: pc_ok_def nth_append assms(3))
  next
    case False
    with old [OF that] len show ?thesis unfolding fields by (auto simp: pc_ok_def nth_append)
  qed
  have inits: "hc_cells ?st ! c = CellInit j \<longleftrightarrow> j < length (hc_requests st) \<and> initializing (hq_pc (hc_requests ?st ! j)) = Some c"
    if "c < Suc ?c" for c j
  proof (cases "c = ?c")
    case True
    have "\<not> (j < length (hc_requests st) \<and> initializing (hq_pc (hc_requests ?st ! j)) = Some ?c)"
    proof
      assume j: "j < length (hc_requests st) \<and> initializing (hq_pc (hc_requests ?st ! j)) = Some ?c"
      then have "j \<noteq> i" using assms(5) by (auto simp: fields)
      with j have "initializing (hq_pc (hc_requests st ! j)) = Some ?c" by (simp add: fields)
      then have "pc_cell (hq_pc (hc_requests st ! j)) = Some ?c" by (cases "hq_pc (hc_requests st ! j)") auto
      with old [of j] j show False by (simp add: pc_ok_def)
    qed
    with True show ?thesis by (simp add: fields)
  next
    case False
    then have "hc_cells st ! c = CellInit j \<longleftrightarrow> j < length (hc_requests st) \<and> initializing (hq_pc (hc_requests st ! j)) = Some c"
      using assms(1) that by (simp add: cells_inv_def)
    with False that assms(4,5) show ?thesis by (cases "j = i") (auto simp: fields nth_append)
  qed
  show ?thesis
  proof (rule cells_invI)
    fix k' c assume c: "map_of (hc_cache ?st) k' = Some c"
    show "c < length (hc_cells ?st) \<and> (owner @ [k]) ! c = k'"
    proof (cases "k' = k")
      case True
      with c have "c = ?c" by (simp add: fields update_conv)
      with True len show ?thesis by (simp add: fields nth_append)
    next
      case False
      with c have "map_of (hc_cache st) k' = Some c" by (simp add: fields update_conv)
      from cells_invD(2) [OF assms(1) this] len show ?thesis by (simp add: fields nth_append)
    qed
  next
    fix c s assume "c < length (hc_cells ?st)" "hc_cells ?st ! c = CellReady s"
    then have c: "c < ?c" "hc_cells st ! c = CellReady s" by (auto simp: fields nth_append less_Suc_eq split: if_splits)
    then show "se_key s = (owner @ [k]) ! c" using cells_invD(4) [OF assms(1) c] len by (simp add: nth_append)
  next
    show "sessions_created ?st = of_nat (cnt is_ready (hc_cells ?st))"
      using cells_invD(6) [OF assms(1)] by (simp add: fields)
  next
    fix c j assume "c < length (hc_cells ?st)"
    then show "hc_cells ?st ! c = CellInit j \<longleftrightarrow> j < length (hc_requests ?st) \<and> initializing (hq_pc (hc_requests ?st ! j)) = Some c"
      using inits [of c j] by (simp add: fields)
  next
    fix j assume "j < length (hc_requests ?st)"
    then show "pc_ok (owner @ [k]) (hc_cells ?st) (hq_key (hc_requests ?st ! j)) (hq_pc (hc_requests ?st ! j))"
      using pcs [of j] by (simp add: fields)
  qed (simp add: fields len)
qed

text \<open>A request begins to fill a cell, or is done with it.\<close>

lemma fill_inv:
  assumes inv: "cells_inv owner st" and i: "i < length (hc_requests st)" and c: "c < length (hc_cells st)"
    and key: "owner ! c = hq_key (hc_requests st ! i)"
    and old: "hc_cells st ! c = CellEmpty \<and> initializing (hq_pc (hc_requests st ! i)) = None
      \<or> hc_cells st ! c = CellInit i"
    and new: "v = CellInit i \<and> initializing pc = Some c \<or> v = CellEmpty \<and> initializing pc = None
      \<or> (\<exists>s. v = CellReady s \<and> se_key s = owner ! c) \<and> initializing pc = None"
    and pc: "pc_cell pc = None \<or> pc_cell pc = Some c" "on_session pc \<Longrightarrow> is_ready v"
    and st': "hc_cells st' = (hc_cells st)[c := v]" "hc_cache st' = hc_cache st"
      "hc_requests st' = (hc_requests st)[i := (hc_requests st ! i)\<lparr>hq_pc := pc\<rparr>]"
      "sessions_created st' = sessions_created st + of_bool (is_ready v)"
  shows "cells_inv owner st'"
proof -
  have others: "initializing (hq_pc (hc_requests st ! j)) \<noteq> Some c" if "j < length (hc_requests st)" "j \<noteq> i" for j
    using cells_invD(5) [OF inv c, of j] that old by auto
  have mine: "initializing (hq_pc (hc_requests st ! i)) \<in> {None, Some c}"
    using cells_invD(5) [OF inv c, of i] i old by auto
  show ?thesis
  proof (rule cells_invI)
    show "length owner = length (hc_cells st')" using cells_invD(1) [OF inv] by (simp add: st')
  next
    fix k d assume "map_of (hc_cache st') k = Some d"
    then show "d < length (hc_cells st') \<and> owner ! d = k" using cells_invD(2) [OF inv] by (simp add: st')
  next
    fix j assume "j < length (hc_requests st')"
    then have j: "j < length (hc_requests st)" by (simp add: st')
    show "pc_ok owner (hc_cells st') (hq_key (hc_requests st' ! j)) (hq_pc (hc_requests st' ! j))"
    proof (cases "j = i")
      case True
      then show ?thesis using pc c key i by (auto simp: pc_ok_def st')
    next
      case False
      have "is_ready (hc_cells st ! d) \<Longrightarrow> is_ready (hc_cells st' ! d)" for d
        using old c by (cases "d = c") (auto simp: st')
      with False cells_invD(3) [OF inv j] show ?thesis by (auto simp: pc_ok_def st')
    qed
  next
    fix d s assume d: "d < length (hc_cells st')" "hc_cells st' ! d = CellReady s"
    show "se_key s = owner ! d"
    proof (cases "d = c")
      case True
      with d new c show ?thesis by (auto simp: st')
    next
      case False
      with d cells_invD(4) [OF inv, of d s] show ?thesis by (simp add: st')
    qed
  next
    fix d j assume "d < length (hc_cells st')"
    then have d: "d < length (hc_cells st)" by (simp add: st')
    show "hc_cells st' ! d = CellInit j \<longleftrightarrow> j < length (hc_requests st') \<and> initializing (hq_pc (hc_requests st' ! j)) = Some d"
    proof (cases "d = c")
      case True
      with new c i others [of j] show ?thesis by (cases "j = i") (auto simp: st')
    next
      case False
      with cells_invD(5) [OF inv d, of j] mine new i show ?thesis by (cases "j = i") (auto simp: st')
    qed
  next
    have "cnt is_ready (hc_cells st') = cnt is_ready (hc_cells st) + of_bool (is_ready v)"
      using cnt_update [OF c, of is_ready v] old by (auto simp: st')
    with cells_invD(6) [OF inv] show "sessions_created st' = of_nat (cnt is_ready (hc_cells st'))"
      by (simp add: st')
  qed
qed

subsection \<open>Every event keeps it\<close>

lemma pc_move:
  assumes "cells_inv owner st" "i < length (hc_requests st)" "initializing (hq_pc (hc_requests st ! i)) = None"
    "initializing pc = None"
    "\<And>c. pc_cell pc = Some c \<Longrightarrow> pc_cell (hq_pc (hc_requests st ! i)) = Some c
       \<or> c < length (hc_cells st) \<and> owner ! c = hq_key (hc_requests st ! i)"
    "\<And>c. pc_cell pc = Some c \<Longrightarrow> on_session pc \<Longrightarrow> is_ready (hc_cells st ! c)"
    and st': "list_all2 same_cell (hc_cells st) (hc_cells st')"
      "\<And>k c. map_of (hc_cache st') k = Some c \<Longrightarrow> map_of (hc_cache st) k = Some c"
      "sessions_created st' = sessions_created st"
      "hc_requests st' = (hc_requests st)[i := (hc_requests st ! i)\<lparr>hq_pc := pc\<rparr>]"
  shows "cells_inv owner st'"
proof (rule move_inv [OF assms(1) st'(1)])
  show "map_of (hc_cache st) k = Some c" if "map_of (hc_cache st') k = Some c" for k c
    using that by (rule st'(2))
next
  show "sessions_created st' = sessions_created st" by (rule st'(3))
next
  show "length (hc_requests st') = length (hc_requests st)" by (simp add: st'(4))
next
  fix j assume j: "j < length (hc_requests st)"
  show "hc_requests st' ! j = hc_requests st ! j \<or> hq_key (hc_requests st' ! j) = hq_key (hc_requests st ! j)
      \<and> initializing (hq_pc (hc_requests st' ! j)) = initializing (hq_pc (hc_requests st ! j))
      \<and> pc_ok owner (hc_cells st) (hq_key (hc_requests st ! j)) (hq_pc (hc_requests st' ! j))"
  proof (cases "j = i")
    case True
    with assms(2-6) cells_invD(3) [OF assms(1,2)] show ?thesis by (auto simp: st' pc_ok_def)
  qed (simp add: st'(4))
qed

text \<open>What a request may do to the shared state while it goes on.\<close>

definition only_removes :: "h3_connector \<Rightarrow> h3_connector \<Rightarrow> bool" where
  "only_removes st st' \<longleftrightarrow>
     hc_requests st' = hc_requests st \<and> list_all2 same_cell (hc_cells st) (hc_cells st')
     \<and> (\<forall>k c. map_of (hc_cache st') k = Some c \<longrightarrow> map_of (hc_cache st) k = Some c)
     \<and> sessions_created st' = sessions_created st"

lemma only_removes [simp]:
  "only_removes st st" "only_removes st (h3_evict_entry v st)" "only_removes st (evict_current k c st)"
  "only_removes st (h3_cache_remove k st)" "only_removes st (h3_count H3DrainObserved (mark_draining c st))"
  by (auto simp: only_removes_def conn_ops same_cells_refl same_cells_draining delete_conv split: if_splits)

lemma set_pc_inv:
  assumes "cells_inv owner st" "i < length (hc_requests st)" "initializing (hq_pc (hc_requests st ! i)) = None"
    "initializing pc = None" "only_removes st st2"
    "\<And>c. pc_cell pc = Some c \<Longrightarrow> pc_cell (hq_pc (hc_requests st ! i)) = Some c
       \<or> c < length (hc_cells st) \<and> owner ! c = hq_key (hc_requests st ! i)"
    "\<And>c. pc_cell pc = Some c \<Longrightarrow> on_session pc \<Longrightarrow> is_ready (hc_cells st ! c)"
  shows "cells_inv owner (set_pc i pc st2)"
  by (rule pc_move [OF assms(1-4,6,7)]) (use assms(5) in \<open>auto simp: only_removes_def set_pc_def\<close>)

lemma step_inv:
  assumes "h3_step i (hq_key (hc_requests st ! i)) (hq_pc (hc_requests st ! i)) st = Some st'" "cells_inv owner st"
    "i < length (hc_requests st)"
  shows "\<exists>owner'. cells_inv owner' st'"
proof (cases "hq_pc (hc_requests st ! i)")
  case PcLookup
  then show ?thesis using assms
    by (auto split: option.splits intro!: exI [of _ owner] set_pc_inv dest: cells_invD(2))
next
  case PcInsert
  show ?thesis
  proof (cases "map_of (hc_cache st) (hq_key (hc_requests st ! i))")
    case None
    with assms(1) PcInsert have "st' = insert_cell PcCheck i (hq_key (hc_requests st ! i)) st" by simp
    moreover have "cells_inv (owner @ [hq_key (hc_requests st ! i)]) \<dots>"
      by (rule insert_inv [OF assms(2,3) refl]) (simp_all add: PcInsert)
    ultimately show ?thesis by blast
  next
    case (Some c)
    with PcInsert assms cells_invD(2) [OF assms(2) Some] show ?thesis
      by (auto intro!: exI [of _ owner] set_pc_inv)
  qed
next
  case (PcCheck c)
  then show ?thesis using assms
    by (auto simp: check_cell_def split: h3_cell.splits if_splits intro!: exI [of _ owner] set_pc_inv)
next
  case PcFreshInsert
  let ?st = "st\<lparr>hc_requests := (hc_requests st)[i := (hc_requests st ! i)\<lparr>hq_reconnect := True\<rparr>]\<rparr>"
  have req: "hc_requests ?st ! i = (hc_requests st ! i)\<lparr>hq_reconnect := True\<rparr>" using assms(3) by simp
  have "cells_inv owner ?st"
  proof (rule move_inv [OF assms(2)])
    fix j assume "j < length (hc_requests st)"
    then show "hc_requests ?st ! j = hc_requests st ! j \<or> hq_key (hc_requests ?st ! j) = hq_key (hc_requests st ! j)
        \<and> initializing (hq_pc (hc_requests ?st ! j)) = initializing (hq_pc (hc_requests st ! j))
        \<and> pc_ok owner (hc_cells st) (hq_key (hc_requests st ! j)) (hq_pc (hc_requests ?st ! j))"
      using cells_invD(3) [OF assms(2), of j] by (cases "j = i") simp_all
  qed (simp_all add: same_cells_refl)
  then have "cells_inv (owner @ [hq_key (hc_requests st ! i)]) (insert_cell PcInit i (hq_key (hc_requests st ! i)) ?st)"
    by (rule insert_inv) (use assms(3) PcFreshInsert in \<open>simp_all only: req, simp_all\<close>)
  moreover have "st' = insert_cell PcInit i (hq_key (hc_requests st ! i)) ?st"
    using assms(1) PcFreshInsert by (simp add: fresh_insert_def)
  ultimately show ?thesis by blast
next
  case (PcInit c)
  with assms cells_invD(3) [OF assms(2,3)] have c: "c < length (hc_cells st)" "owner ! c = hq_key (hc_requests st ! i)"
    by (simp_all add: pc_ok_def)
  show ?thesis
  proof (cases "hc_cells st ! c")
    case CellEmpty
    then have st': "st' = set_pc i (PcInitializing c) (set_cell c (CellInit i) st)"
      using assms(1) PcInit by (simp add: init_cell_def)
    have "cells_inv owner st'"
      by (rule fill_inv [OF assms(2,3) c, where v = "CellInit i" and pc = "PcInitializing c"])
        (simp_all add: CellEmpty PcInit st' set_pc_def set_cell_def)
    then show ?thesis by blast
  next
    case (CellReady s)
    then show ?thesis using assms PcInit by (auto simp: init_cell_def intro!: exI [of _ owner] set_pc_inv)
  qed (use assms(1) PcInit in \<open>simp add: init_cell_def\<close>)
qed (use assms in \<open>auto intro!: exI [of _ owner] set_pc_inv split: option.splits if_splits\<close>)

lemma fill_answer_inv:
  assumes "cells_inv owner st" "i < length (hc_requests st)" "hq_pc (hc_requests st ! i) = PcInitializing c"
    and "v = CellEmpty \<or> (\<exists>s. v = CellReady s \<and> se_key s = owner ! c)" "initializing pc = None"
      "pc_cell pc = None \<or> pc_cell pc = Some c" "on_session pc \<Longrightarrow> is_ready v"
    and "hc_cells st2 = hc_cells st" "hc_cache st2 = hc_cache st" "hc_requests st2 = hc_requests st"
      "sessions_created st2 = sessions_created st + of_bool (is_ready v)"
  shows "cells_inv owner (set_pc i pc (set_cell c v st2))"
proof -
  have c: "c < length (hc_cells st)" "owner ! c = hq_key (hc_requests st ! i)"
    using cells_invD(3) [OF assms(1,2)] assms(3) by (simp_all add: pc_ok_def)
  have "hc_cells st ! c = CellInit i" using cells_invD(5) [OF assms(1) c(1), of i] assms(2,3) by simp
  then show ?thesis
    by (intro fill_inv [OF assms(1,2) c, where v = v and pc = pc]) (use assms in \<open>auto simp: set_pc_def set_cell_def\<close>)
qed

lemma answer_inv:
  assumes "h3_answer reply i (hq_pc (hc_requests st ! i)) st = Some st'" "cells_inv owner st" "i < length (hc_requests st)"
  shows "cells_inv owner st'"
proof -
  have ok: "pc_ok owner (hc_cells st) (hq_key (hc_requests st ! i)) (hq_pc (hc_requests st ! i))"
    using cells_invD(3) [OF assms(2,3)] .
  note fill = fill_answer_inv [OF assms(2,3)]
  show ?thesis
  proof (cases reply)
    case (Established d)
    then obtain c where "hq_pc (hc_requests st ! i) = PcInitializing c" "st' = established i c d st"
      using assms(1) by (auto simp: h3_answer_def split: h3_pc.splits)
    moreover have "owner ! c = hq_key (hc_requests st ! i)" using ok calculation(1) by (simp add: pc_ok_def)
    ultimately show ?thesis
      by (auto simp: established_def Let_def h3_count_def inc_def record_h3_diagnostic_def intro!: fill split: option.splits)
  next
    case (EstablishFailed e)
    then obtain c where "hq_pc (hc_requests st ! i) = PcInitializing c" "st' = establish_failed i c e st"
      using assms(1) by (auto simp: h3_answer_def split: h3_pc.splits)
    then show ?thesis by (auto simp: establish_failed_def intro!: fill)
  next
    case (Exchanged f)
    with assms ok show ?thesis
      by (auto simp: h3_answer_def exchange_failed_def pc_ok_def split: option.splits h3_pc.splits if_splits intro!: set_pc_inv)
  next
    case (BodyEnded b)
    with assms ok show ?thesis
      by (auto simp: h3_answer_def pc_ok_def split: h3_pc.splits if_splits intro!: set_pc_inv)
  next
    case Dropped
    show ?thesis
    proof (cases "initializing (hq_pc (hc_requests st ! i))")
      case None
      with Dropped assms show ?thesis
        by (auto simp: h3_answer_def drop_request_def split: h3_pc.splits intro!: set_pc_inv)
    next
      case (Some c)
      then have "hq_pc (hc_requests st ! i) = PcInitializing c" by (cases "hq_pc (hc_requests st ! i)") auto
      with Dropped assms(1) show ?thesis by (auto simp: h3_answer_def drop_request_def intro!: fill)
    qed
  qed
qed

lemma request_inv:
  assumes "cells_inv owner st"
  shows "cells_inv owner (st\<lparr>hc_requests := hc_requests st @ [\<lparr>hq_key = k, hq_generation = g, hq_reconnect = r, hq_pc = PcEnsure\<rparr>]\<rparr>)"
    (is "cells_inv owner ?st")
proof (rule cells_invI)
  fix c i assume c: "c < length (hc_cells ?st)"
  then show "hc_cells ?st ! c = CellInit i \<longleftrightarrow> i < length (hc_requests ?st) \<and> initializing (hq_pc (hc_requests ?st ! i)) = Some c"
    using cells_invD(5) [OF assms, of c i] by (auto simp: nth_append less_Suc_eq)
next
  fix i assume "i < length (hc_requests ?st)"
  then show "pc_ok owner (hc_cells ?st) (hq_key (hc_requests ?st ! i)) (hq_pc (hc_requests ?st ! i))"
    using cells_invD(3) [OF assms, of i] by (auto simp: nth_append less_Suc_eq pc_ok_def)
qed (use cells_invD [OF assms] in simp_all)

lemma driver_inv:
  assumes "driver_closed c d graceful st = Some st'" "cells_inv owner st"
  shows "cells_inv owner st'"
proof (rule move_inv [OF assms(2)])
  show "list_all2 same_cell (hc_cells st) (hc_cells st')"
    using assms(1) same_cells_draining [of st c]
    by (auto simp: driver_closed_def h3_count_def Let_def split: h3_cell.splits if_splits option.splits)
  show "map_of (hc_cache st) k = Some c'" if "map_of (hc_cache st') k = Some c'" for k c'
    using assms(1) that by (auto simp: driver_closed_def h3_count_def Let_def split: h3_cell.splits if_splits option.splits)
  show "sessions_created st' = sessions_created st"
    using assms(1) by (auto simp: driver_closed_def h3_count_def inc_def record_h3_diagnostic_def Let_def
        split: h3_cell.splits if_splits option.splits)
  have "hc_requests st' = hc_requests st"
    using assms(1) by (auto simp: driver_closed_def h3_count_def Let_def split: h3_cell.splits if_splits option.splits)
  then show "length (hc_requests st') = length (hc_requests st)"
    "\<And>j. j < length (hc_requests st) \<Longrightarrow> hc_requests st' ! j = hc_requests st ! j
      \<or> hq_key (hc_requests st' ! j) = hq_key (hc_requests st ! j)
        \<and> initializing (hq_pc (hc_requests st' ! j)) = initializing (hq_pc (hc_requests st ! j))
        \<and> pc_ok owner (hc_cells st) (hq_key (hc_requests st ! j)) (hq_pc (hc_requests st' ! j))"
    by simp_all
qed

lemma cells_inv_reachable: "h3_reachable st \<Longrightarrow> \<exists>owner. cells_inv owner st"
proof (induction rule: h3_reachable.induct)
  case h3_init
  then show ?case by (auto simp: cells_inv_def h3_connector_new_def metrics_new_def)
next
  case (h3_next st e st')
  then obtain owner where inv: "cells_inv owner st" by blast
  show ?case
  proof (cases e)
    case (H3Request k g)
    with h3_next.hyps(2) request_inv [OF inv] show ?thesis by auto
  next
    case (H3Advance i)
    with h3_next.hyps(2) step_inv [OF _ inv] show ?thesis by (auto split: if_splits)
  next
    case (H3Answer i r)
    with h3_next.hyps(2) answer_inv [OF _ inv] show ?thesis by (auto split: if_splits)
  next
    case (H3Driver c d g)
    with h3_next.hyps(2) have "driver_closed c d g st = Some st'" by (simp split: if_splits)
    from driver_inv [OF this inv] show ?thesis by blast
  qed
qed

end
