(* ===== verification/H3_Props.thy ===== *)
theory H3_Props
  imports H3_Cache Retry_Policy
begin

text \<open>
  What the HTTP/3 connector guarantees: a body that may be sent again has not been sent at all,
  the connect budget is shared fairly, a cell is filled by one request and a session serves
  its own origin only; and what it does not: fields that are repeated in a response are lost.
\<close>

subsection \<open>Committed bodies\<close>

lemma send_body_empty: "h3_send_body bodies send BodyEmpty = (Ok (), [])"
  by simp

lemma late_committed: "h3_send_rest H bodies u W body = (Inl f, frames) \<Longrightarrow> hd_body_committed (xf_error f)"
  by (auto simp: h3_send_rest_def h3_failed_late_def h3_dispatch_error_new_def
      split: sum.splits option.splits prod.splits unit.splits)

lemma exchange_uncommitted:
  assumes "h3_exchange H bodies u W body = (Inl f, frames)" "\<not> hd_body_committed (xf_error f)"
  shows "frames = []"
  using assms late_committed [of H bodies u W body f frames] by (auto simp: h3_exchange_def split: option.splits)

lemma attempt_uncommitted:
  "h3_attempt H bodies u session W body = (Inl d, frames) \<Longrightarrow> \<not> hd_body_committed d \<Longrightarrow> frames = []"
  using exchange_uncommitted [of H bodies u W body]
  by (auto simp: h3_attempt_def split: if_splits sum.splits prod.splits unit.splits)

text \<open>
  C22: When a request falls back from HTTP/3 to the standard transport, not one frame of its body
  had been handed to the HTTP/3 session, and the standard transport gets the whole body:
  between the connector's commit flag and the dispatch no body is sent twice.
\<close>

theorem fallback_sends_body_once:
  assumes "hx_connector X = Some (\<lambda>b alt. fst (h3_attempt H bodies u session W b))"
    and "send_h3_route X u body h3_alt total_left ctx st = (r, [first, HyperSend again left], ctx', st')"
  shows "snd (h3_attempt H bodies u session W body) = [] \<and> again = body
    \<and> (\<exists>d. fst (h3_attempt H bodies u session W body) = Inl d \<and> hd_failure_class d \<noteq> OtherFailure)"
proof -
  obtain d frames where d: "h3_attempt H bodies u session W body = (Inl d, frames)" "\<not> hd_body_committed d"
    "hd_failure_class d \<noteq> OtherFailure" "again = body"
    using assms
    by (cases "h3_attempt H bodies u session W body")
      (auto simp: send_h3_route_def Let_def safe_for_fallback_def fallback_body_Some for_total_timeout_def
        h3_dispatch_error_new_def failure_class_from_error_def split: option.splits sum.splits if_splits)
  with attempt_uncommitted show ?thesis by fastforce
qed

text \<open>
  The evidence of a caller-owned route is also put in place of an error that comes after the
  body was sent: what was not to be retried then looks like a failure to connect, which is.
\<close>

lemma committed_failure_retryable:
  assumes "xw_route_failure W = Some f" "de_kind f = DialConnection"
  shows "hd_body_committed (xf_error (h3_failed_late W (H3Protocol e) b))
    \<and> \<not> is_error_retryable (H3Protocol e) \<and> is_error_retryable (hd_error (xf_error (h3_failed_late W (H3Protocol e) b)))"
  using assms by (simp add: h3_failed_late_def h3_dispatch_error_new_def route_error_override_def is_error_retryable_def)

definition no_answers :: h3_answers where
  "no_answers = \<lparr>xw_build_error = None, xw_head = Some (''closed'', True), xw_data = (\<lambda>_. None), xw_finish = None,
     xw_response = Inl ''closed'', xw_route_failure = None\<rparr>"

definition draining_world :: "header_list h3_world_env" where
  "draining_world = example_world\<lparr>hx_connector :=
     Some (\<lambda>b alt. fst (h3_attempt list_http (\<lambda>_. []) example_url (Ok ()) no_answers b))\<rparr>"

lemma draining_attempt [simp]:
  "h3_attempt list_http bodies example_url (Ok ()) no_answers b =
    (Inl (h3_dispatch_error_new (H3ConnectionClosed ''peer draining (GOAWAY)'') False True), [])"
  by (simp add: h3_attempt_def h3_exchange_def h3_send_head_def no_answers_def example_url_def)

lemma draining_fallback:
  "\<exists>st'. send_h3_route draining_world example_url (BodyBytes ''x'') (Some example_target) None None h3_state_new =
      (Ok example_answer, [H3Send (BodyBytes ''x'') (Some example_target) None, HyperSend (BodyBytes ''x'') None], None, st')"
  by (simp add: send_h3_route_def draining_world_def fallback_body_of_def safe_for_fallback_def h3_dispatch_error_new_def
      failure_class_from_error_def Let_def)

theorem fallback_sends_body_once_witness:
  "snd (h3_attempt list_http (\<lambda>_. []) example_url (Ok ()) no_answers (BodyBytes ''x'')) = []
   \<and> snd (h3_attempt list_http (\<lambda>_. []) example_url (Ok ()) (no_answers\<lparr>xw_head := None\<rparr>) (BodyBytes ''x'')) = [''x'']"
proof -
  have connector: "hx_connector draining_world = Some (\<lambda>b alt. fst (h3_attempt list_http (\<lambda>_. []) example_url (Ok ()) no_answers b))"
    by (simp add: draining_world_def)
  obtain st' where "send_h3_route draining_world example_url (BodyBytes ''x'') (Some example_target) None None h3_state_new =
      (Ok example_answer, [H3Send (BodyBytes ''x'') (Some example_target) None, HyperSend (BodyBytes ''x'') None], None, st')"
    using draining_fallback by blast
  from fallback_sends_body_once [OF connector this] show ?thesis
    by (simp add: h3_attempt_def h3_exchange_def h3_send_head_def h3_send_rest_def no_answers_def example_url_def)
qed

subsection \<open>Repeated fields\<close>

context http_headers
begin

lemma get_insert_fold:
  assumes "canonical_name n" "list_all (\<lambda>p. canonical_name (fst p)) fs"
  shows "hm_get_all H (fold (\<lambda>(n, v) h. hm_insert H h n v) fs h) n =
    (let vs = map snd (filter (\<lambda>p. fst p = n) fs) in if vs = [] then hm_get_all H h n else [last vs])"
  using assms(2)
proof (induction fs rule: rev_induct)
  case (snoc p fs)
  then show ?case using assms(1) by (cases p) (auto simp: get_insert Let_def)
qed simp

end

text \<open>
  A field that comes more than once in an HTTP/3 response keeps its last value only: of
  several \<open>Set-Cookie\<close> fields the program sees one.
\<close>

lemma h3_repeated_field_lost:
  assumes "http_headers H" "canonical_name n" "list_all (\<lambda>p. canonical_name (fst p)) fs"
  shows "hm_get_all H (h3_response_headers H fs) n =
    (let vs = map snd (filter (\<lambda>p. fst p = n) fs) in if vs = [] then [] else [last vs])"
  using http_headers.get_insert_fold [OF assms(1,2), of fs "hm_empty H"] http_headers.get_empty [OF assms(1,2)] assms(3)
  by (simp add: h3_response_headers_def Let_def)

subsection \<open>The connect budget\<close>

definition connect_share :: "instant \<Rightarrow> (nat \<Rightarrow> readings) \<Rightarrow> nat \<Rightarrow> nat \<Rightarrow> duration" where
  "connect_share d clock n k = duration_since d (clock k 0) div (n - k)"

lemma share_step:
  fixes r r' m :: nat
  assumes "r \<le> r' + r div m" "1 < m"
  shows "r div m \<le> r' div (m - 1)"
proof -
  have "r div m * (m - 1) + r div m = r div m * m" using assms(2) by (cases m) simp_all
  then have "r div m * (m - 1) \<le> r'" using assms(1) div_times_less_eq_dividend [of r m] by linarith
  then show ?thesis using assms(2) by (simp add: less_eq_div_iff_mult_less_eq)
qed

text \<open>
  A clock that goes on only while an attempt runs, and an attempt that ends within its budget;
  the second reading comes before that.
\<close>

definition attempts_in_time :: "instant \<Rightarrow> (nat \<Rightarrow> readings) \<Rightarrow> nat \<Rightarrow> bool" where
  "attempts_in_time d clock n \<longleftrightarrow>
     (\<forall>k<n. clock k 1 < clock k 0 + int (connect_share d clock n k)
        \<and> clock (Suc k) 0 \<le> clock k 0 + int (connect_share d clock n k))"

lemma shares_grow:
  assumes "attempts_in_time d clock n" "k < n"
  shows "connect_share d clock n 0 \<le> connect_share d clock n k"
  using assms(2)
proof (induction k)
  case (Suc k)
  have "duration_since d (clock k 0) \<le> duration_since d (clock (Suc k) 0) + connect_share d clock n k"
  proof -
    have "clock (Suc k) 0 \<le> clock k 0 + int (connect_share d clock n k)"
      using assms(1) Suc.prems by (auto simp: attempts_in_time_def)
    then show ?thesis by (simp add: duration_since_def)
  qed
  then have "connect_share d clock n k \<le> duration_since d (clock (Suc k) 0) div (n - k - 1)"
    unfolding connect_share_def by (rule share_step) (use Suc.prems in simp)
  with Suc show ?case by (simp add: connect_share_def)
qed simp

lemma connect_from_shares:
  assumes "attempts_in_time d clock n" "0 < connect_share d clock n 0" "n < 2 ^ 32"
    "\<And>k a b. \<exists>e. dial k a b = Err e" "k + length addrs = n"
  shows "snd (connect_from clock dial (Some d) started k addrs last_err) =
    map (\<lambda>j. (addrs ! (j - k), Some (connect_share d clock n j))) [k..<n]"
  using assms(5)
proof (induction addrs arbitrary: k last_err)
  case (Cons a addrs)
  then have k: "k < n" "n - k = Suc (length addrs)" by simp_all
  let ?s = "connect_share d clock n k"
  have s: "0 < ?s" using shares_grow [OF assms(1) k(1)] assms(2) by simp
  have left: "min (Suc (length addrs)) (2 ^ 32 - 1) = n - k" "max (n - k) 1 = n - k" using k assms(3) by simp_all
  have share: "duration_since d (clock k 0) div (n - k) = ?s" by (simp add: connect_share_def)
  have "int ?s \<le> d - clock k 0"
  proof -
    have "?s \<le> duration_since d (clock k 0)" by (simp add: connect_share_def)
    with s show ?thesis by (simp add: duration_since_def)
  qed
  moreover have "clock k 1 < clock k 0 + int ?s" using assms(1) k(1) by (simp add: attempts_in_time_def)
  ultimately have early: "\<not> d \<le> clock k 1" by linarith
  obtain e where e: "dial k a (Some ?s) = Err e" using assms(4) by blast
  have "snd (connect_from clock dial (Some d) started k (a # addrs) last_err) =
      (a, Some ?s) # snd (connect_from clock dial (Some d) started (Suc k) addrs (Some e))"
    using e s early unfolding connect_from.simps Let_def left remaining_connect_budget_def
    by (simp add: share split: prod.splits)
  also have "\<dots> = (a, Some ?s) # map (\<lambda>j. (addrs ! (j - Suc k), Some (connect_share d clock n j))) [Suc k..<n]"
    using Cons.IH [of "Suc k" "Some e"] Cons.prems by simp
  also have "\<dots> = map (\<lambda>j. ((a # addrs) ! (j - k), Some (connect_share d clock n j))) [k..<n]"
    using k(1) by (auto simp: upt_conv_Cons nth_Cons' Suc_diff_Suc)
  finally show ?case .
qed simp

text \<open>
  C25: As long as attempts keep to their budget, no address of an origin is skipped: when none
  connects, all are tried in order, and each gets at least its equal part of the connect budget.
\<close>

theorem connect_budget_shared:
  assumes "attempts_in_time d clock (length addrs)" "int (length addrs) \<le> d - clock 0 0" "addrs \<noteq> []"
    "length addrs < 2 ^ 32" "\<And>k a b. \<exists>e. dial k a b = Err e"
  shows "snd (connect_with_fallback clock dial (Some d) started addrs) =
      map (\<lambda>k. (addrs ! k, Some (connect_share d clock (length addrs) k))) [0..<length addrs]
    \<and> (\<forall>k<length addrs. nat (d - clock 0 0) div length addrs \<le> connect_share d clock (length addrs) k)"
proof -
  have "length addrs \<le> duration_since d (clock 0 0)" using assms(2) by (simp add: duration_since_def)
  then have "0 < connect_share d clock (length addrs) 0"
    using assms(3) by (simp add: connect_share_def div_greater_zero_iff)
  from connect_from_shares [OF assms(1) this assms(4,5), of 0 addrs] shares_grow [OF assms(1)] show ?thesis
    by (simp add: connect_with_fallback_def connect_share_def duration_since_def)
qed

theorem connect_budget_shared_witness:
  "snd (connect_with_fallback (\<lambda>k j. 5 * int k) (\<lambda>k a b. Err (H3Connect ''refused'')) (Some 10) 0 [(V4 1, 443), (V4 2, 443)]) =
    [((V4 1, 443), Some 5), ((V4 2, 443), Some 5)]"
proof -
  let ?clock = "\<lambda>k j. 5 * int k"
  have "attempts_in_time 10 ?clock 2"
    by (auto simp: attempts_in_time_def connect_share_def duration_since_def less_2_cases_iff)
  then have "attempts_in_time 10 ?clock (Suc (Suc 0))" by (simp only: numeral_2_eq_2)
  then have "snd (connect_with_fallback ?clock (\<lambda>k a b. Err (H3Connect ''refused'')) (Some 10) 0 [(V4 1, 443), (V4 2, 443)]) =
      [((V4 1, 443), Some (connect_share 10 ?clock (Suc (Suc 0)) 0)), ((V4 2, 443), Some (connect_share 10 ?clock (Suc (Suc 0)) (Suc 0)))]"
    using connect_budget_shared [of 10 ?clock "[(V4 1, 443), (V4 2, 443)]" "\<lambda>k a b. Err (H3Connect ''refused'')" 0] by auto
  then show ?thesis by (simp add: connect_share_def duration_since_def flip: numeral_2_eq_2)
qed

end
