(* ===== verification/H3_Race.thy ===== *)
theory H3_Race
  imports H3_Cache_Props H3_Props
begin

text \<open>
  The bound of the HTTP/3 cache, which one request at a time keeps and several together do not,
  and the races between a reconnection and the others.
\<close>

subsection \<open>The bound, one request at a time\<close>

definition h3_make_room :: "(string, nat) hash_map \<Rightarrow> string \<Rightarrow> (string, nat) hash_map" where
  "h3_make_room t k = (case h3_victim k t of Some v \<Rightarrow> AList.delete v t | None \<Rightarrow> t)"

lemma h3_make_room_room: "h3_make_room = room h3_cache_max_entries"
  by (intro ext) (simp add: h3_make_room_def h3_victim_def room_def)

interpretation h3_table: bounded_table h3_cache_max_entries h3_make_room
  unfolding h3_make_room_room by (rule room_bounded) (simp add: h3_cache_max_entries_def)

text \<open>What a request knows of the table while no other one comes in between.\<close>

definition lookup_ok :: "string \<Rightarrow> h3_pc \<Rightarrow> (string, nat) hash_map \<Rightarrow> bool" where
  "lookup_ok k pc t \<longleftrightarrow>
     h3_table.table_ok t
     \<and> (\<forall>v. pc = PcEvict v \<or> pc = PcFreshEvict v \<longrightarrow> AList.delete v t = h3_make_room t k)
     \<and> (pc \<in> {PcLookup, PcInsert, PcFreshInsert} \<longrightarrow> (\<forall>c. h3_table.table_ok (AList.update k c t)))"

lemma room_ok: "h3_table.table_ok t \<Longrightarrow> h3_table.table_ok (h3_make_room t k) \<and> (\<forall>c. h3_table.table_ok (AList.update k c (h3_make_room t k)))"
  using h3_table.table_ok_insert h3_table.table_ok_room by blast

lemma after_ops [simp]:
  "i < length (hc_requests st) \<Longrightarrow> hc_requests (set_pc i pc st) ! i = (hc_requests st ! i)\<lparr>hq_pc := pc\<rparr>"
  "length (hc_requests (set_pc i pc st)) = length (hc_requests st)"
  "hc_cache (set_pc i pc st) = hc_cache st"
  "hc_requests (h3_evict_entry v st) = hc_requests st" "hc_cache (h3_evict_entry v st) = AList.delete v (hc_cache st)"
  "hc_requests (h3_cache_remove v st) = hc_requests st" "hc_cache (h3_cache_remove v st) = AList.delete v (hc_cache st)"
  "hc_requests (evict_current k c st) = hc_requests st"
  "hc_requests (set_cell c x st) = hc_requests st" "hc_cache (set_cell c x st) = hc_cache st"
  "hc_cache (insert_cell f i k st) = AList.update k (length (hc_cells st)) (hc_cache st)"
  "hc_requests (insert_cell f i k st) = hc_requests (set_pc i (f (length (hc_cells st))) st)"
  by (simp_all add: conn_ops insert_cell_def Let_def)

lemma quiet_ok: "h3_table.table_ok t \<Longrightarrow> pc \<notin> {PcLookup, PcInsert, PcFreshInsert} \<Longrightarrow> (\<And>v. pc \<noteq> PcEvict v \<and> pc \<noteq> PcFreshEvict v)
    \<Longrightarrow> lookup_ok k pc t"
  by (simp add: lookup_ok_def)

lemma victim_ok:
  assumes "h3_table.table_ok t" "\<And>v. pc v = PcEvict v \<or> pc v = PcFreshEvict v" "next_pc \<in> {PcLookup, PcFreshInsert}"
  shows "lookup_ok k (case h3_victim k t of Some v \<Rightarrow> pc v | None \<Rightarrow> next_pc) t"
proof (cases "h3_victim k t")
  case None
  then have "h3_make_room t k = t" by (simp add: h3_make_room_def)
  with None assms(1,3) room_ok [OF assms(1), of k] show ?thesis by (auto simp: lookup_ok_def)
next
  case (Some v)
  then have "h3_make_room t k = AList.delete v t" by (simp add: h3_make_room_def)
  with Some assms(1) assms(2) [of v] show ?thesis by (auto simp: lookup_ok_def)
qed

lemma evicted_ok:
  assumes "lookup_ok k pc t" "pc = PcEvict v \<or> pc = PcFreshEvict v" "next_pc \<in> {PcLookup, PcFreshInsert}"
  shows "lookup_ok k next_pc (AList.delete v t)"
proof -
  have "AList.delete v t = h3_make_room t k" "h3_table.table_ok t" using assms(1,2) by (auto simp: lookup_ok_def)
  with room_ok [of t k] assms(3) show ?thesis by (auto simp: lookup_ok_def)
qed

lemma step_alone:
  assumes "h3_event (H3Advance i) st = Some st'" "lookup_ok (hq_key (hc_requests st ! i)) (hq_pc (hc_requests st ! i)) (hc_cache st)"
  shows "lookup_ok (hq_key (hc_requests st' ! i)) (hq_pc (hc_requests st' ! i)) (hc_cache st')"
proof -
  let ?k = "hq_key (hc_requests st ! i)" and ?t = "hc_cache st"
  have i: "i < length (hc_requests st)" and st': "h3_step i ?k (hq_pc (hc_requests st ! i)) st = Some st'"
    using assms(1) by (simp_all split: if_splits)
  have t: "h3_table.table_ok ?t" using assms(2) by (simp add: lookup_ok_def)
  have del: "h3_table.table_ok (AList.delete k ?t)" for k using h3_table.table_ok_delete [OF t] .
  show ?thesis
  proof (cases "hq_pc (hc_requests st ! i)")
    case PcEnsure
    with st' i t show ?thesis by (auto intro: victim_ok)
  next
    case PcFreshEnsure
    with st' i t show ?thesis by (auto intro: victim_ok)
  next
    case (PcEvict v)
    with st' i evicted_ok [OF assms(2), of v PcLookup] show ?thesis by auto
  next
    case (PcFreshEvict v)
    with st' i evicted_ok [OF assms(2), of v PcFreshInsert] show ?thesis by auto
  next
    case PcLookup
    with st' i assms(2) show ?thesis by (auto simp: lookup_ok_def split: option.splits)
  next
    case PcInsert
    with st' i assms(2) show ?thesis by (auto simp: lookup_ok_def split: option.splits)
  next
    case PcFreshInsert
    with st' i assms(2) show ?thesis by (auto simp: lookup_ok_def fresh_insert_def)
  next
    case (PcCheck c)
    with st' i t show ?thesis by (auto simp: check_cell_def intro!: quiet_ok split: h3_cell.splits if_splits)
  next
    case (PcStaleEvict c)
    with st' i t del show ?thesis by (auto simp: evict_current_def h3_count_def intro!: quiet_ok)
  next
    case (PcFailedEvict c f)
    with st' i t del show ?thesis by (auto simp: evict_current_def h3_count_def intro!: quiet_ok)
  next
    case (PcInit c)
    with st' i t show ?thesis by (auto simp: init_cell_def intro!: quiet_ok split: h3_cell.splits)
  qed (use st' i t del in \<open>auto intro!: quiet_ok split: if_splits\<close>)
qed

text \<open>
  While no other request comes in between, a request leaves a table of at most 64 entries as it
  found it: at most 64.
\<close>

lemma undisturbed_lookup_bounded:
  assumes "h3_run (replicate m (H3Advance i)) st = Some st'" "distinct_keys (hc_cache st)" "length (hc_cache st) \<le> 64"
    "hq_pc (hc_requests st ! i) = PcEnsure"
  shows "length (hc_cache st') \<le> 64"
proof -
  have "lookup_ok (hq_key (hc_requests st ! i)) (hq_pc (hc_requests st ! i)) (hc_cache st)"
    using assms(2-4) h3_table.table_ok_def [of "hc_cache st"] by (simp add: quiet_ok h3_cache_max_entries_def)
  then have "lookup_ok (hq_key (hc_requests st' ! i)) (hq_pc (hc_requests st' ! i)) (hc_cache st')"
    using assms(1)
  proof (induction m arbitrary: st)
    case (Suc m)
    then show ?case using step_alone by (auto simp: Option.bind_eq_Some_conv simp del: h3_event.simps)
  qed simp
  then show ?thesis using h3_table.table_ok_def [of "hc_cache st'"] by (simp add: lookup_ok_def h3_cache_max_entries_def)
qed

subsection \<open>The bound, many requests together\<close>

definition crowd_key :: "nat \<Rightarrow> string" where
  "crowd_key i = replicate (Suc i) (CHR ''a'')"

definition crowd_request :: "nat \<Rightarrow> h3_pc \<Rightarrow> h3_request" where
  "crowd_request i pc = \<lparr>hq_key = crowd_key i, hq_generation = None, hq_reconnect = False, hq_pc = pc\<rparr>"

definition crowd_looked :: "nat \<Rightarrow> h3_connector" where
  "crowd_looked n = h3_connector_new\<lparr>hc_requests := map (\<lambda>i. crowd_request i PcLookup) [0..<n]\<rparr>"

definition crowd_inserted :: "nat \<Rightarrow> nat \<Rightarrow> h3_connector" where
  "crowd_inserted n j =
     \<lparr>hc_cache = map (\<lambda>i. (crowd_key i, i)) [0..<j], hc_cells = replicate j CellEmpty, hc_metrics = metrics_new,
      hc_requests = map (\<lambda>i. crowd_request i (if i < j then PcCheck i else PcLookup)) [0..<n]\<rparr>"

lemma crowd_key_inj: "crowd_key i = crowd_key j \<longleftrightarrow> i = j"
  by (metis crowd_key_def length_replicate old.nat.inject)

lemma crowd_looked_reachable: "h3_reachable (crowd_looked n)"
proof (induction n)
  case 0
  then show ?case using h3_init by (simp add: crowd_looked_def h3_connector_new_def)
next
  case (Suc n)
  have "h3_event (H3Request (crowd_key n) None) (crowd_looked n) =
      Some (crowd_looked n\<lparr>hc_requests := hc_requests (crowd_looked n) @ [crowd_request n PcEnsure]\<rparr>)" (is "_ = Some ?st")
    by (simp add: crowd_request_def)
  with Suc have "h3_reachable ?st" by (rule h3_next)
  moreover have "h3_event (H3Advance n) ?st = Some (crowd_looked (Suc n))"
    by (simp add: crowd_looked_def h3_connector_new_def crowd_request_def h3_victim_def h3_cache_max_entries_def set_pc_def nth_append
        list_update_append)
  ultimately show ?case by (rule h3_next)
qed

lemma update_snoc: "k \<notin> fst ` set t \<Longrightarrow> AList.update k v t = t @ [(k, v)]"
  by (induction t) auto

lemma crowd_insert:
  assumes "h3_reachable (crowd_inserted n j)" "j < n"
  shows "h3_reachable (crowd_inserted n (Suc j))"
proof -
  have lookup: "map_of (hc_cache (crowd_inserted n j)) (crowd_key j) = None"
    by (auto simp: crowd_inserted_def map_of_eq_None_iff crowd_key_inj)
  have req: "hc_requests (crowd_inserted n j) ! j = crowd_request j PcLookup" "j < length (hc_requests (crowd_inserted n j))"
    using assms(2) by (simp_all add: crowd_inserted_def)
  let ?st = "set_pc j PcInsert (crowd_inserted n j)"
  have "h3_event (H3Advance j) (crowd_inserted n j) = Some ?st"
    using req lookup by (simp add: crowd_request_def)
  with assms(1) have "h3_reachable ?st" by (rule h3_next)
  moreover have "h3_event (H3Advance j) ?st = Some (insert_cell PcCheck j (crowd_key j) ?st)"
    using req lookup by (simp add: crowd_request_def)
  moreover have "insert_cell PcCheck j (crowd_key j) ?st = crowd_inserted n (Suc j)"
  proof -
    have "AList.update (crowd_key j) j (map (\<lambda>i. (crowd_key i, i)) [0..<j]) = map (\<lambda>i. (crowd_key i, i)) [0..<Suc j]"
      by (subst update_snoc) (auto simp: crowd_key_inj)
    then show ?thesis
      using assms(2)
      by (auto simp: crowd_inserted_def insert_cell_def Let_def conn_ops crowd_request_def replicate_append_same list_eq_iff_nth_eq nth_list_update)
  qed
  ultimately show ?thesis using h3_next by metis
qed

text \<open>
  The bound of the cache is not kept when requests to new origins come together: each looks
  at the table before any has inserted its entry, so that the table takes as many entries as
  there are requests.
\<close>

lemma h3_cache_unbounded: "\<exists>st. h3_reachable st \<and> length (hc_cache st) = n"
proof -
  have "h3_reachable (crowd_inserted n j)" if "j \<le> n" for j
    using that
  proof (induction j)
    case 0
    then show ?case using crowd_looked_reachable [of n] by (simp add: crowd_inserted_def crowd_looked_def h3_connector_new_def)
  next
    case (Suc j)
    then show ?case using crowd_insert [of n j] by simp
  qed
  then show ?thesis by (intro exI [of _ "crowd_inserted n n"]) (simp add: crowd_inserted_def)
qed

subsection \<open>Two reconnections\<close>

lemma h3_run_reachable: "h3_reachable st \<Longrightarrow> h3_run es st = Some st' \<Longrightarrow> h3_reachable st'"
proof (induction es arbitrary: st)
  case (Cons e es)
  then show ?case by (auto simp: Option.bind_eq_Some_conv intro: h3_next simp del: h3_event.simps)
qed simp

abbreviation advances :: "nat \<Rightarrow> nat \<Rightarrow> h3_occurrence list" where
  "advances m i \<equiv> replicate m (H3Advance i)"

lemma h3_run_append: "h3_run (es @ fs) st = Option.bind (h3_run es st) (h3_run fs)"
  by (induction es arbitrary: st) (auto split: bind_splits simp del: h3_event.simps)

definition race_key :: string where "race_key = ''a:443''"

definition racer :: "bool \<Rightarrow> h3_pc \<Rightarrow> h3_request" where
  "racer again pc = \<lparr>hq_key = race_key, hq_generation = None, hq_reconnect = again, hq_pc = pc\<rparr>"

definition race_session :: "bool \<Rightarrow> h3_cell" where
  "race_session draining = CellReady \<lparr>se_key = race_key, se_generation = None, se_draining = draining\<rparr>"

definition racing :: "(string, nat) hash_map \<Rightarrow> h3_cell list \<Rightarrow> h3_request list \<Rightarrow> h3_connector \<Rightarrow> bool" where
  "racing cache cells reqs st \<longleftrightarrow> h3_reachable st \<and> hc_cache st = cache \<and> hc_cells st = cells \<and> hc_requests st = reqs"

lemma racing_run:
  assumes "racing cache cells reqs st"
    "\<And>m. \<exists>m'. h3_run es \<lparr>hc_cache = cache, hc_cells = cells, hc_metrics = m, hc_requests = reqs\<rparr> =
        Some \<lparr>hc_cache = cache', hc_cells = cells', hc_metrics = m', hc_requests = reqs'\<rparr>"
  shows "\<exists>st'. racing cache' cells' reqs' st'"
proof -
  have "st = \<lparr>hc_cache = cache, hc_cells = cells, hc_metrics = hc_metrics st, hc_requests = reqs\<rparr>"
    using assms(1) by (cases st) (simp add: racing_def)
  then obtain m' where "h3_run es st = Some \<lparr>hc_cache = cache', hc_cells = cells', hc_metrics = m', hc_requests = reqs'\<rparr>"
    using assms(2) by metis
  with h3_run_reachable assms(1) show ?thesis by (fastforce simp: racing_def)
qed

lemma victim_small: "h3_victim k [] = None" "h3_victim k [x] = None"
  by (simp_all add: h3_victim_def h3_cache_max_entries_def)

lemmas h3_run_defs = victim_small set_pc_def set_cell_def h3_count_def h3_cache_remove_def h3_cache_insert_def new_cell_def
  h3_evict_entry_def evict_current_def check_cell_def insert_cell_def fresh_insert_def init_cell_def is_current_def h3_answer_def
  established_def mark_draining_def driver_closed_def exchange_failed_def drop_request_def
  h3_connector_new_def Let_def racer_def race_session_def numeral_2_eq_2 numeral_3_eq_3

text \<open>Request 0 opens the session of an origin and has its response.\<close>

lemma race_opened: "\<exists>st. racing [(race_key, 0)] [race_session False] [racer False (PcStreaming 0)] st"
proof -
  have "racing [] [] [] h3_connector_new" using h3_init by (simp add: racing_def h3_connector_new_def)
  then show ?thesis
  proof (rule racing_run)
    fix m and d :: h3_connection_diagnostic
    show "\<exists>m'. h3_run (H3Request race_key None # replicate 5 (H3Advance 0) @
        [H3Answer 0 (Established d), H3Answer 0 (Exchanged None), H3Answer 0 (Exchanged None)])
        \<lparr>hc_cache = [], hc_cells = [], hc_metrics = m, hc_requests = []\<rparr> =
      Some \<lparr>hc_cache = [(race_key, 0)], hc_cells = [race_session False], hc_metrics = m', hc_requests = [racer False (PcStreaming 0)]\<rparr>"
      by (simp add: h3_run_defs eval_nat_numeral)
  qed
qed

text \<open>The session is draining, requests 1 and 2 both find it so.\<close>

lemma race_stale: "\<exists>st. racing [(race_key, 0)] [race_session True]
    [racer False (PcStreaming 0), racer False (PcStale 0), racer False (PcStale 0)] st"
proof -
  obtain st where "racing [(race_key, 0)] [race_session False] [racer False (PcStreaming 0)] st" using race_opened by blast
  then show ?thesis
  proof (rule racing_run)
    fix m
    show "\<exists>m'. h3_run ([H3Driver 0 None True, H3Request race_key None, H3Advance 1, H3Advance 1, H3Advance 1,
        H3Request race_key None, H3Advance 2, H3Advance 2, H3Advance 2])
        \<lparr>hc_cache = [(race_key, 0)], hc_cells = [race_session False], hc_metrics = m, hc_requests = [racer False (PcStreaming 0)]\<rparr> =
      Some \<lparr>hc_cache = [(race_key, 0)], hc_cells = [race_session True], hc_metrics = m',
        hc_requests = [racer False (PcStreaming 0), racer False (PcStale 0), racer False (PcStale 0)]\<rparr>"
      by (simp add: h3_run_defs)
  qed
qed

text \<open>Request 1 replaces the session.\<close>

lemma race_replaced: "\<exists>st. racing [(race_key, 1)] [race_session True, race_session False]
    [racer False (PcStreaming 0), racer True (PcHead 1), racer False (PcStale 0)] st"
proof -
  obtain st where "racing [(race_key, 0)] [race_session True]
    [racer False (PcStreaming 0), racer False (PcStale 0), racer False (PcStale 0)] st" using race_stale by blast
  then show ?thesis
  proof (rule racing_run)
    fix m and d :: h3_connection_diagnostic
    show "\<exists>m'. h3_run ([H3Advance 1, H3Advance 1, H3Advance 1, H3Advance 1, H3Advance 1, H3Answer 1 (Established d)])
        \<lparr>hc_cache = [(race_key, 0)], hc_cells = [race_session True], hc_metrics = m,
         hc_requests = [racer False (PcStreaming 0), racer False (PcStale 0), racer False (PcStale 0)]\<rparr> =
      Some \<lparr>hc_cache = [(race_key, 1)], hc_cells = [race_session True, race_session False], hc_metrics = m',
        hc_requests = [racer False (PcStreaming 0), racer True (PcHead 1), racer False (PcStale 0)]\<rparr>"
      by (simp add: h3_run_defs)
  qed
qed

text \<open>
  C24: Two requests that find a session draining can both reconnect: the second replaces the
  entry of the first although that holds a fresh session, so that one origin and one generation
  have two sessions in use, of which one is no longer in the cache.
\<close>

theorem reconnect_race:
  "\<exists>st. h3_reachable st \<and> hc_requests st = [racer False (PcStreaming 0), racer True (PcHead 1), racer True (PcHead 2)]
     \<and> hc_cells st = [race_session True, race_session False, race_session False] \<and> hc_cache st = [(race_key, 2)]"
proof -
  obtain st where "racing [(race_key, 1)] [race_session True, race_session False]
    [racer False (PcStreaming 0), racer True (PcHead 1), racer False (PcStale 0)] st" using race_replaced by blast
  then have "\<exists>st. racing [(race_key, 2)] [race_session True, race_session False, race_session False]
    [racer False (PcStreaming 0), racer True (PcHead 1), racer True (PcHead 2)] st"
  proof (rule racing_run)
    fix m and d :: h3_connection_diagnostic
    show "\<exists>m'. h3_run ([H3Advance 2, H3Advance 2, H3Advance 2, H3Advance 2, H3Answer 2 (Established d)])
        \<lparr>hc_cache = [(race_key, 1)], hc_cells = [race_session True, race_session False], hc_metrics = m,
         hc_requests = [racer False (PcStreaming 0), racer True (PcHead 1), racer False (PcStale 0)]\<rparr> =
      Some \<lparr>hc_cache = [(race_key, 2)], hc_cells = [race_session True, race_session False, race_session False], hc_metrics = m',
        hc_requests = [racer False (PcStreaming 0), racer True (PcHead 1), racer True (PcHead 2)]\<rparr>"
      by (simp add: h3_run_defs)
  qed
  then show ?thesis by (auto simp: racing_def)
qed

text \<open>
  The stream of a response whose connection fails looks and removes in two steps: between them
  request 1 puts a fresh session in the place, which is then removed.
\<close>

lemma body_eviction_race:
  "\<exists>st. h3_reachable st \<and> hc_requests st = [racer False PcEnd, racer True (PcHead 1), racer False (PcStale 0)]
     \<and> hc_cells st = [race_session True, race_session False] \<and> hc_cache st = []"
proof -
  obtain st where "racing [(race_key, 0)] [race_session True]
    [racer False (PcStreaming 0), racer False (PcStale 0), racer False (PcStale 0)] st" using race_stale by blast
  then have "\<exists>st. racing [] [race_session True, race_session False]
    [racer False PcEnd, racer True (PcHead 1), racer False (PcStale 0)] st"
  proof (rule racing_run)
    fix m and d :: h3_connection_diagnostic
    show "\<exists>m'. h3_run ([H3Answer 0 (BodyEnded True), H3Advance 0, H3Advance 1, H3Advance 1, H3Advance 1, H3Advance 1, H3Advance 1,
          H3Answer 1 (Established d), H3Advance 0])
        \<lparr>hc_cache = [(race_key, 0)], hc_cells = [race_session True], hc_metrics = m,
         hc_requests = [racer False (PcStreaming 0), racer False (PcStale 0), racer False (PcStale 0)]\<rparr> =
      Some \<lparr>hc_cache = [], hc_cells = [race_session True, race_session False], hc_metrics = m',
        hc_requests = [racer False PcEnd, racer True (PcHead 1), racer False (PcStale 0)]\<rparr>"
      by (simp add: h3_run_defs)
  qed
  then show ?thesis by (auto simp: racing_def)
qed

text \<open>A request for another generation that waits for a cell takes the session as it comes.\<close>

lemma stale_generation_taken:
  "\<exists>st. h3_reachable st \<and> hc_requests st = [racer False (PcHead 0), racer False (PcHead 0)\<lparr>hq_generation := Some 7\<rparr>]
     \<and> hc_cells st = [race_session False]"
proof -
  have "racing [] [] [] h3_connector_new" using h3_init by (simp add: racing_def h3_connector_new_def)
  then have "\<exists>st. racing [(race_key, 0)] [race_session False]
      [racer False (PcHead 0), racer False (PcHead 0)\<lparr>hq_generation := Some 7\<rparr>] st"
  proof (rule racing_run)
    fix m and d :: h3_connection_diagnostic
    show "\<exists>m'. h3_run ([H3Request race_key None, H3Advance 0, H3Advance 0, H3Advance 0, H3Advance 0, H3Advance 0,
        H3Request race_key (Some 7), H3Advance 1, H3Advance 1, H3Advance 1, H3Answer 0 (Established d), H3Advance 1])
        \<lparr>hc_cache = [], hc_cells = [], hc_metrics = m, hc_requests = []\<rparr> =
      Some \<lparr>hc_cache = [(race_key, 0)], hc_cells = [race_session False], hc_metrics = m',
        hc_requests = [racer False (PcHead 0), racer False (PcHead 0)\<lparr>hq_generation := Some 7\<rparr>]\<rparr>"
      by (simp add: h3_run_defs)
  qed
  then show ?thesis by (auto simp: racing_def)
qed

subsection \<open>What holds in all of them\<close>

text \<open>
  C23: Under every interleaving of requests, drops, closes and reconnections a request is only
  ever sent on a session that was opened for its own origin (the handshake that authenticates the
  origin is part of opening it).
\<close>

theorem session_serves_its_origin:
  assumes "h3_reachable st" "i < length (hc_requests st)" "hq_pc (hc_requests st ! i) \<in> {PcHead c, PcRest c, PcStreaming c}"
  shows "\<exists>s. hc_cells st ! c = CellReady s \<and> se_key s = hq_key (hc_requests st ! i)"
proof -
  obtain owner where inv: "cells_inv owner st" using cells_inv_reachable [OF assms(1)] by blast
  have c: "c < length (hc_cells st)" "owner ! c = hq_key (hc_requests st ! i)" "is_ready (hc_cells st ! c)"
    using cells_invD(3) [OF inv assms(2)] assms(3) by (auto simp: pc_ok_def)
  then show ?thesis using cells_invD(4) [OF inv c(1)] by (cases "hc_cells st ! c") auto
qed


lemma reconnected: "\<exists>st. h3_reachable st \<and> hc_requests st = [racer False (PcStreaming 0), racer True (PcHead 1), racer False (PcStale 0)]
    \<and> hc_cells st = [race_session True, race_session False]"
  using race_replaced by (auto simp: racing_def)

theorem session_serves_its_origin_witness:
  "\<exists>st s. h3_reachable st \<and> hq_pc (hc_requests st ! 1) = PcHead 1 \<and> hc_cells st ! 1 = CellReady s \<and> se_key s = race_key"
proof -
  obtain st where st: "h3_reachable st" "hc_requests st = [racer False (PcStreaming 0), racer True (PcHead 1), racer False (PcStale 0)]"
    using reconnected by blast
  from session_serves_its_origin [OF st(1), of 1 1] st show ?thesis
    by (intro exI [of _ st]) (auto simp: racer_def)
qed

text \<open>
  A cell gives one connection: at most one request at a time is establishing the session of
  a cell, a request that does so owns the cell, and as many sessions have been created as cells
  are filled.
\<close>

lemma one_session_per_cell:
  assumes "h3_reachable st"
  shows "sessions_created st = of_nat (cnt is_ready (hc_cells st))
    \<and> (\<forall>i j c. i < length (hc_requests st) \<and> j < length (hc_requests st)
         \<and> hq_pc (hc_requests st ! i) = PcInitializing c \<and> hq_pc (hc_requests st ! j) = PcInitializing c
         \<longrightarrow> i = j)"
proof -
  obtain owner where inv: "cells_inv owner st" using cells_inv_reachable [OF assms] by blast
  have "i = j" if *: "i < length (hc_requests st)" "j < length (hc_requests st)"
    "hq_pc (hc_requests st ! i) = PcInitializing c" "hq_pc (hc_requests st ! j) = PcInitializing c" for i j c
  proof -
    have "c < length (hc_cells st)" using cells_invD(3) [OF inv *(1)] *(3) by (simp add: pc_ok_def)
    from cells_invD(5) [OF inv this, of i] cells_invD(5) [OF inv this, of j] * show "i = j" by simp
  qed
  with cells_invD(6) [OF inv] show ?thesis by blast
qed

end
