(* ===== verification/Spec2Isabelle.thy ===== *)
theory Spec2Isabelle
  imports Cookie_Response Pipeline_Safety Pipeline_Bounds Http_Connect H3_Dispatch Pool_Race
    Socks_Props Multipart_Form Decode_Props Proxy_Props Lifecycle_Props H3_Race
begin

text \<open>
  A verification of the core of eggfetch, an HTTP client library in Rust
  (\<open>src/crates/eggfetch-core\<close> and \<open>src/crates/eggfetch-http-connect\<close>).

  \<^bold>\<open>The program.\<close>  A request enters the retry loop (\<open>pipeline/retry.rs\<close>), each
  attempt of which is a redirect loop (\<open>pipeline/redirect.rs\<close>) over single hops
  (\<open>pipeline/hop.rs\<close>).  A hop takes the cookies of the jar (\<open>cookie.rs\<close>), the
  authentication and the headers of the request (\<open>auth.rs\<close>, \<open>headers.rs\<close>), chooses a
  proxy (\<open>proxy.rs\<close>, \<open>proxy/no_proxy.rs\<close>, \<open>proxy/environment.rs\<close>), and is
  dispatched; the response updates the jar.  The policies the loops consult are
  \<open>redirect.rs\<close>, \<open>retry.rs\<close> and \<open>timeout.rs\<close>.  A dispatch first acquires a slot of the
  concurrency pool (\<open>pool.rs\<close>), then takes a route (\<open>pipeline/route.rs\<close>); the HTTP/3
  route (\<open>pipeline/h3_dispatch.rs\<close>) depends on the alternatives that earlier responses
  advertised (\<open>transport/alt_svc.rs\<close>), and a proxied HTTPS request opens a tunnel
  with the CONNECT format of \<open>eggfetch-http-connect\<close>.

  \<^bold>\<open>The theories\<close>, in the order of their imports:

  \<^item> \<open>Prelude\<close>: strings as the code uses them (ASCII case, trimming, splitting,
    decimal numbers), durations and instants in nanoseconds, hash maps as association
    lists with distinct keys.
  \<^item> \<open>Errors\<close> (\<open>error.rs\<close>): the error type, results as a sum, the classification of
    transport failures, the failure context of a request.
  \<^item> \<open>Net\<close>, \<open>Url_Origin\<close> (\<open>http_origin.rs\<close>): IP addresses with the parser of the standard
    library, the parts of URLs the code reads, origins and effective ports.
  \<^item> \<open>Expiring_Store\<close>, \<open>Cookie_Jar\<close>, \<open>Cookie_Props\<close>, \<open>Cookie_Response\<close> (\<open>cookie.rs\<close>): the jar with its
    cached next expiry, the acceptance of a Set-Cookie line, matching and
    serialization.  Under every sequence of operations the cached expiry is the
    least one of the entries; the Cookie header holds exactly the cookies that match
    a URL, in an order that does not depend on the hash map; what a server sets is
    confined to its own domain.
  \<^item> \<open>Header_Map\<close> (\<open>headers.rs\<close>, \<open>h2_headers.rs\<close>): the header container of the \<open>http\<close> crate as the
    locale \<open>http_headers\<close>, the size bound of a request, the HTTP/2 filter.
  \<^item> \<open>No_Proxy\<close>, \<open>Proxy_Config\<close> (\<open>proxy/no_proxy.rs\<close>, \<open>proxy.rs\<close>, \<open>proxy/environment.rs\<close>, the proxy part of
    \<open>pipeline/prepare.rs\<close>): bypass rules and the choice of a proxy; a CIDR rule matches its
    prefix and nothing else, and the two ways in which the environment is consulted agree.
  \<^item> \<open>Request_Model\<close> (\<open>request.rs\<close>, \<open>body.rs\<close>, \<open>auth.rs\<close>, \<open>timeout.rs\<close>), \<open>Redirect_Policy\<close> (\<open>redirect.rs\<close>),
    \<open>Retry_Policy\<close> (\<open>retry.rs\<close>, with floating point as the locale \<open>float_seconds\<close>, met by the
    rational numbers in \<open>Exact_Floats\<close>).
  \<^item> \<open>Pipeline\<close>, \<open>Pipeline_Trace\<close>, \<open>Pipeline_Props\<close>, \<open>Pipeline_Example\<close>, \<open>Pipeline_Safety\<close>,
    \<open>Pipeline_Deadline\<close>, \<open>Pipeline_Bounds\<close> (\<open>pipeline/hop.rs\<close>, \<open>pipeline/redirect.rs\<close>, \<open>pipeline/retry.rs\<close>, \<open>pipeline/lean.rs\<close>): the loops over an
    explicit world of transport, clocks and jar, with a log of what was dispatched.
    The log shows that credentials do not cross origins, that every redirect target
    passed the policy, that bodies are replayed only when they may be, and how many
    requests and how much waiting one call can cause.  \<open>Pipeline_Deadline\<close> follows the readings
    of the clock: every dispatch is given the total less the time spent before it.
  \<^item> \<open>Http_Connect\<close> (\<open>eggfetch-http-connect\<close>): the tunnel request cannot be split by a caller's
    headers; the reader of the response consumes a bounded number of bytes and stops
    at the first byte of the tunnel; it inverts the printed head.
  \<^item> \<open>Bounded_Table\<close>, \<open>Alt_Svc\<close>, \<open>Alt_Svc_Props\<close> (\<open>transport/alt_svc.rs\<close>), \<open>H3_Dispatch\<close>
    (\<open>pipeline/route.rs\<close>, \<open>pipeline/custom_dialing.rs\<close>, \<open>http_version.rs\<close>, \<open>pipeline/h3_dispatch.rs\<close>, the dispatch
    error of \<open>transport/http3.rs\<close>): the cache and the suppressor are two instances of one
    bounded table; a learned endpoint is used, a broken one avoided for the time of
    its backoff, and a failed HTTP/3 attempt is repeated over the standard transport
    only when nothing of the body was sent.
  \<^item> \<open>Pool\<close>, \<open>Pool_Props\<close>, \<open>Pool_Limits\<close>, \<open>Pool_Progress\<close>, \<open>Pool_Race\<close> (\<open>pool.rs\<close>, \<open>limits.rs\<close>): requests as tasks
    that interleave at every access to shared state, with tokio's semaphores as the
    locale \<open>semaphore\<close>.  Permits and waiters are accounted for exactly, the global limit
    holds, nothing is lost by cancellation, the pool does not wedge.  The limit per
    origin holds when the two reads of the sweep are not separated; \<open>Pool_Race\<close> is a
    run in which they are and the limit is exceeded.
  \<^item> \<open>Socks\<close>, \<open>Socks_Props\<close> (\<open>transport/socks.rs\<close>): the SOCKS5 client over a socket that is the
    bytes the peer will send and their times: credentials leave only when the proxy
    asked for them, a tunnel is reported only after a well-formed success, another
    address is tried only after a refusal of this one.
  \<^item> \<open>Multipart\<close>, \<open>Multipart_Props\<close>, \<open>Multipart_Form\<close> (\<open>multipart.rs\<close>): the polled encoder gives the
    bytes of the reference encoding, the announced length is exact, and a reader of
    the multipart grammar gets back the fields a form was built from.
  \<^item> \<open>Body_Stream\<close>, \<open>Body_Props\<close> (\<open>body.rs\<close>, \<open>stream/\<close>, \<open>timeout.rs\<close>): the adapters around a body stream;
    the locale \<open>adapter\<close> says that an adapter passes on an initial part of what it wraps, and
    every adapter of the code is an instance.  The total deadline is never passed and a
    stalled body is given up.
  \<^item> \<open>Compression\<close>, \<open>Response_Body\<close>, \<open>Response_Props\<close>, \<open>Decode_Props\<close> (\<open>compression.rs\<close>,
    \<open>response_decode.rs\<close>, \<open>response.rs\<close>, \<open>pipeline/finalize.rs\<close>, the drain of \<open>pipeline/mod.rs\<close>): the
    decoder chain, the finalization of a response and its consumption.  The size and
    ratio limits hold end to end, but for a body declared as \<open>identity\<close>, for which the size
    limit is lost; lines do not depend on the chunks in which they came.

  \<^item> \<open>Prepare\<close>, \<open>Prepare_Props\<close> (\<open>pipeline/prepare.rs\<close>, \<open>transport_hints.rs\<close>): the preparation of a single
    request.  What is prepared announces the length of its body and goes where its
    caller pinned it.
  \<^item> \<open>Proxy_Wire\<close>, \<open>Proxy_Framing\<close>, \<open>Proxy_Transport\<close>, \<open>Proxy_Dispatch\<close>, \<open>Proxy_Props\<close>
    (\<open>transport/proxy.rs\<close>, \<open>transport/connect.rs\<close>, \<open>pipeline/proxy_dispatch.rs\<close>): the exchange with a
    proxy or through a tunnel where the program frames HTTP itself, the order in which
    destinations are tried, and what is handed to the pooled clients of hyper.  Neither
    the configured credentials nor headers meant for the proxy enter a tunnel; a
    \<open>Proxy-Authorization\<close> that the caller set is dropped where the program frames the request
    itself, and handed on by the pooled tunnel client.  A request reaches one
    origin at most, the chunked body decodes to what was given, the two readers of a
    response head agree, and what an error quotes of the proxy is clean text.
  \<^item> \<open>Lifecycle\<close>, \<open>Lifecycle_Props\<close> (\<open>transport/lifecycle.rs\<close>, \<open>transport/metrics.rs\<close>): the cap
    on physical connections as interleaved steps of the calls of the connector, the lock-free
    high-water mark, and the inactivity timers of an established connection.  The cap holds and
    all permits return under every interleaving, the mark ends as the true peak, and its
    compare-and-exchange loop terminates.
  \<^item> \<open>H3_Connector\<close>, \<open>H3_Props\<close>, \<open>H3_Cache\<close>, \<open>H3_Cache_Props\<close>, \<open>H3_Race\<close>
    (\<open>transport/http3.rs\<close>): dialling the addresses of an origin under one budget, the exchange
    of one request over a session, and the cache of sessions under concurrent requests.  A
    body that falls back to the standard transport was not sent before, each address gets its
    part of the budget, and a session serves the origin it was opened for under every
    interleaving; concurrent reconnections can open a session too many, and concurrent
    requests to new origins pass the bound of the cache.

  \<^bold>\<open>Conventions.\<close>  A \<open>Result\<close> is a sum with the error on the left, an early return is a
  branch.  A string is its list of bytes; the code trims Unicode whitespace in
  places where the model trims ASCII whitespace, which is the same on header text.
  A duration is a natural number of nanoseconds and saturates where the code
  saturates; an instant is an integer number of nanoseconds.  Counters that may wrap
  are words.  A stream is the list of what its polls give until it ends, a poll that looks
  at the clock takes the readings it makes, and a codec is the list of what it gives.
  A mutex that is held for a whole method makes the method one step;
  where the code lets go of shared state between accesses (the pool, the connection admission, the
  HTTP/3 cache), each access
  is a step of its own.

  \<^bold>\<open>Coarser than the code:\<close> a write whose timer fires, or that fails, counts as not made, where
  a part of the bytes may have left before (the stream is given up in either case); the entry
  that a full HTTP/3 cache gives up is the first of the list that stands for the hash map; a
  session of that cache carries the key it was opened for, and that the handshake authenticates
  this origin is left to quinn and rustls; \<open>cookies_for_url\<close> is one step, where the code lets go
  of its lock between expiring and selecting.

  \<^bold>\<open>Loops.\<close>  No loop has fuel.  Loops over the input are structural recursions; the
  header loop of the tunnel reader ends because every line consumes bytes; the
  redirect loop is bounded by the redirects that are left and the retry loop by the
  attempts that are left, as the code bounds them, so both are total functions.
  The steps of the pool, of the connection admission and of the HTTP/3 cache are single steps and a run is any
  sequence of them; the loop of the high-water mark ends after as many of its own turns as the
  mark was below its value.

  \<^bold>\<open>Code outside the repository\<close> is an argument of the definitions that use it, with
  the laws the program relies on in a locale or as a hypothesis: the header map,
  URL parsing and joining, the cookie parser, floating point, base64, the semaphore,
  the clocks, random numbers and the transport itself.  Every locale is interpreted.

  \<^bold>\<open>Not modelled:\<close> TLS configuration (\<open>tls.rs\<close>, calls into rustls), the socket and protocol
  code of \<open>transport/\<close> below the proxy exchange, SOCKS, Alt-Svc, the connection admission and the HTTP/3 connector (asynchronous I/O over hyper, h2 and quinn), the
  codecs behind decompression, the client builder, the command line
  tool and the bindings to other languages.
\<close>

end
